(* ===== verification/Prelude.thy ===== *)
theory Prelude
  imports Complex_Main "HOL-Library.Word" "HOL-Library.AList" "HOL-Library.Signed_Division"
begin

text \<open>
  Shared vocabulary of the development: the machine types the server uses, the IEEE special
  values of \<open>f64\<close>, results with an error value, tables (lists of rows with a primary key), and
  the string operations of the Rust standard library that the modelled code calls.

  \<^item> A \<open>DateTime<Utc>\<close>, an \<open>Instant\<close> and a \<open>Duration\<close> are integers counting nanoseconds.
  \<^item> A UUID is a 128-bit word; its text form belongs to the \<open>uuid\<close> crate.
  \<^item> An \<open>f64\<close> is a finite value (its exact rational value), an infinity or a NaN.  Arithmetic on
    finite values is exact: rounding to 53 bits is not modelled.
\<close>

named_theorems tbl_simps \<open>facts about tables: lists of rows updated by key\<close>

type_synonym u8 = "8 word"
type_synonym u32 = "32 word"
type_synonym u64 = "64 word"
type_synonym uuid = "128 word"
type_synonym bytes = "8 word list"
type_synonym time = int

abbreviation nanos_per_second :: int where
  "nanos_per_second \<equiv> 1000000000"

abbreviation nanos_per_milli :: int where
  "nanos_per_milli \<equiv> 1000000"

abbreviation i64_max :: int where
  "i64_max \<equiv> 9223372036854775807"

text \<open>Rust's integer division truncates towards zero: the library's \<open>sdiv\<close>.\<close>

lemma sdiv_nonneg [simp]: "0 \<le> a \<Longrightarrow> 0 < b \<Longrightarrow> (a :: int) sdiv b = a div b"
  by (auto simp: signed_divide_int_def sgn_if)

lemma sdiv_mono:
  fixes a b c :: int
  assumes "a \<le> b" "0 < c"
  shows "a sdiv c \<le> b sdiv c"
proof (cases "0 \<le> a")
  case True
  with assms show ?thesis by (simp add: zdiv_mono1)
next
  case False
  have "- (- a div c) \<le> - (- b div c)" if "b < 0"
    using assms that by (simp add: zdiv_mono1)
  moreover have "- (- a div c) \<le> 0"
    using False assms by (simp add: pos_imp_zdiv_nonneg_iff)
  moreover have "0 \<le> b div c" if "\<not> b < 0"
    using that assms by (simp add: pos_imp_zdiv_nonneg_iff)
  ultimately show ?thesis
    using assms False by (auto simp: signed_divide_int_def sgn_if)
qed

section \<open>Floating-point values\<close>

datatype f64 = NegInf | Fin rat | PosInf | NaN

fun is_finite :: "f64 \<Rightarrow> bool" where
  "is_finite (Fin _) = True"
| "is_finite _ = False"

text \<open>The IEEE comparisons of \<open>PartialOrd\<close>: every comparison with a NaN is false.\<close>

fun f64_le :: "f64 \<Rightarrow> f64 \<Rightarrow> bool" where
  "f64_le NaN _ = False"
| "f64_le _ NaN = False"
| "f64_le NegInf _ = True"
| "f64_le _ PosInf = True"
| "f64_le (Fin a) (Fin b) = (a \<le> b)"
| "f64_le _ _ = False"

definition f64_lt :: "f64 \<Rightarrow> f64 \<Rightarrow> bool" where
  "f64_lt a b = (f64_le a b \<and> \<not> f64_le b a)"

text \<open>\<open>f64::total_cmp\<close> is a linear order; positive NaN is its greatest element.\<close>

instantiation f64 :: linorder
begin

fun less_eq_f64 :: "f64 \<Rightarrow> f64 \<Rightarrow> bool" where
  "less_eq_f64 NegInf _ = True"
| "less_eq_f64 _ NaN = True"
| "less_eq_f64 (Fin a) (Fin b) = (a \<le> b)"
| "less_eq_f64 (Fin a) PosInf = True"
| "less_eq_f64 PosInf PosInf = True"
| "less_eq_f64 _ _ = False"

definition less_f64 :: "f64 \<Rightarrow> f64 \<Rightarrow> bool" where
  "less_f64 a b = (a \<le> b \<and> \<not> b \<le> a)"

instance
proof
  fix x y z :: f64
  show "(x < y) = (x \<le> y \<and> \<not> y \<le> x)" by (rule less_f64_def)
  show "x \<le> x" by (cases x) auto
  show "x \<le> y \<Longrightarrow> y \<le> z \<Longrightarrow> x \<le> z" by (cases x; cases y; cases z) auto
  show "x \<le> y \<Longrightarrow> y \<le> x \<Longrightarrow> x = y" by (cases x; cases y) auto
  show "x \<le> y \<or> y \<le> x" by (cases x; cases y) auto
qed

end

lemma less_f64_simps [simp]:
  "(Fin a < Fin b) = (a < b)" "Fin a < PosInf" "NegInf < Fin a" "\<not> PosInf < Fin a"
  by (auto simp: less_f64_def)

lemma f64_lt_Fin [simp]: "f64_lt (Fin a) (Fin b) = (a < b)"
  by (auto simp: f64_lt_def)

text \<open>\<open>f64::max\<close> ignores a NaN operand.\<close>

fun f64_max :: "f64 \<Rightarrow> f64 \<Rightarrow> f64" where
  "f64_max NaN b = b"
| "f64_max a NaN = a"
| "f64_max a b = (if f64_le a b then b else a)"

text \<open>Multiplication of a finite value by any \<open>f64\<close>, with the IEEE rules for the special values.\<close>

fun f64_scale :: "rat \<Rightarrow> f64 \<Rightarrow> f64" where
  "f64_scale a (Fin b) = Fin (a * b)"
| "f64_scale a NaN = NaN"
| "f64_scale a PosInf = (if a = 0 then NaN else if 0 < a then PosInf else NegInf)"
| "f64_scale a NegInf = (if a = 0 then NaN else if 0 < a then NegInf else PosInf)"

section \<open>Tables\<close>

text \<open>
  A SQL table is the list of its rows in scan order.  \<open>update_where p f t\<close> is
  \<open>UPDATE t SET f WHERE p\<close>, and \<open>rows_where p t\<close> its \<open>rows_affected()\<close>.
\<close>

definition update_where :: "('r \<Rightarrow> bool) \<Rightarrow> ('r \<Rightarrow> 'r) \<Rightarrow> 'r list \<Rightarrow> 'r list" where
  "update_where p f t = map (\<lambda>r. if p r then f r else r) t"

definition rows_where :: "('r \<Rightarrow> bool) \<Rightarrow> 'r list \<Rightarrow> nat" where
  "rows_where p t = length (filter p t)"

definition select_one :: "('r \<Rightarrow> bool) \<Rightarrow> 'r list \<Rightarrow> 'r option" where
  "select_one p t = find p t"

definition order_by :: "('r \<Rightarrow> 'k::linorder) \<Rightarrow> 'r list \<Rightarrow> 'r list" where
  "order_by k t = sort_key k t"

lemma update_where_simps [simp]:
  "update_where p f [] = []"
  "update_where p f (r # t) = (if p r then f r else r) # update_where p f t"
  by (simp_all add: update_where_def)

lemma length_update_where [simp]: "length (update_where p f t) = length t"
  by (simp add: update_where_def)

lemma set_update_where [tbl_simps]:
  "set (update_where p f t) = {f r |r. r \<in> set t \<and> p r} \<union> {r \<in> set t. \<not> p r}"
  by (auto simp: update_where_def)

lemma map_update_where [tbl_simps]:
  "(\<And>r. p r \<Longrightarrow> g (f r) = g r) \<Longrightarrow> map g (update_where p f t) = map g t"
  by (induction t) auto

lemma update_where_none [tbl_simps]: "rows_where p t = 0 \<Longrightarrow> update_where p f t = t"
  by (induction t) (auto simp: rows_where_def split: if_splits)

lemma rows_where_0 [tbl_simps]: "rows_where p t = 0 \<longleftrightarrow> (\<forall>r \<in> set t. \<not> p r)"
  by (auto simp: rows_where_def filter_empty_conv)

lemma select_one_SomeD: "select_one p t = Some r \<Longrightarrow> r \<in> set t \<and> p r"
  by (auto simp: select_one_def find_Some_iff)

lemma select_one_None [tbl_simps]: "select_one p t = None \<longleftrightarrow> (\<forall>r \<in> set t. \<not> p r)"
  by (auto simp: select_one_def find_None_iff)

lemma select_one_simps [simp]:
  "select_one p [] = None"
  "select_one p (r # t) = (if p r then Some r else select_one p t)"
  by (simp_all add: select_one_def)

lemma select_one_update_where:
  "(\<And>r. p r \<Longrightarrow> k (f r) = k r) \<Longrightarrow>
   select_one (\<lambda>r. k r = v) (update_where p f t)
   = map_option (\<lambda>r. if p r then f r else r) (select_one (\<lambda>r. k r = v) t)"
  by (induction t) auto

lemma select_one_append [simp]:
  "select_one p (t @ u) = (case select_one p t of None \<Rightarrow> select_one p u | Some r \<Rightarrow> Some r)"
  by (induction t) auto

lemma update_where_cong:
  "(\<And>r. r \<in> set t \<Longrightarrow> p r = q r) \<Longrightarrow> update_where p f t = update_where q f t"
  by (simp add: update_where_def)

lemma update_where_update_where:
  "update_where q f (update_where p f t) = update_where (\<lambda>r. p r \<or> q r) f t"
  if "\<And>r. p r \<Longrightarrow> \<not> q (f r)"
  using that by (induction t) auto

text \<open>A lookup by a key that identifies the row.\<close>

lemma select_one_key:
  assumes "distinct (map k t)" "r \<in> set t" "k r = v"
  shows "select_one (\<lambda>r. k r = v) t = Some r"
  using assms by (induction t) auto

lemma distinct_map_same:
  "distinct (map k t) \<Longrightarrow> r \<in> set t \<Longrightarrow> s \<in> set t \<Longrightarrow> k r = k s \<Longrightarrow> r = s"
  by (auto simp: distinct_map inj_on_def)

lemma rows_where_key:
  assumes "distinct (map k t)"
  shows "rows_where (\<lambda>r. k r = v \<and> q r) t = (if \<exists>r \<in> set t. k r = v \<and> q r then 1 else 0)"
  using assms
proof (induction t)
  case Nil
  then show ?case by (simp add: rows_where_def)
next
  case (Cons r t)
  have none: "\<forall>s \<in> set t. k s \<noteq> k r" using Cons.prems by (force simp: image_iff)
  have "filter (\<lambda>s. k s = k r \<and> q s) t = []"
    using none by (auto simp: filter_empty_conv)
  with Cons none show ?case by (auto simp: rows_where_def)
qed

lemma set_order_by [simp]: "set (order_by k t) = set t"
  by (simp add: order_by_def)

lemma sorted_order_by [simp]: "sorted (map k (order_by k t))"
  by (simp add: order_by_def)

lemma length_order_by [simp]: "length (order_by k t) = length t"
  by (simp add: order_by_def)

text \<open>Maps kept as association lists with distinct keys.\<close>

lemma set_AList_update: "set (AList.update k v m) \<subseteq> insert (k, v) (set m)"
  by (induction m) auto

lemma map_of_filter_value:
  "distinct (map fst m) \<Longrightarrow>
   map_of (filter (\<lambda>(k, v). p v) m) x = (case map_of m x of Some v \<Rightarrow> if p v then Some v else None | None \<Rightarrow> None)"
proof (induction m)
  case Nil
  then show ?case by simp
next
  case (Cons kv m)
  then have "map_of (filter (\<lambda>(k, v). p v) m) (fst kv) = None"
    by (auto simp: map_of_eq_None_iff image_iff)
  with Cons show ?case by (cases kv) auto
qed

lemma map_of_map_key:
  "map_of (map (\<lambda>(k, v). (k, if k = x then f v else v)) m) = (map_of m)(x := map_option f (map_of m x))"
  by (induction m) (auto simp: fun_eq_iff)

section \<open>Option helpers\<close>

definition is_none_or :: "('a \<Rightarrow> bool) \<Rightarrow> 'a option \<Rightarrow> bool" where
  "is_none_or p x = (case x of None \<Rightarrow> True | Some a \<Rightarrow> p a)"

definition is_some_and :: "('a \<Rightarrow> bool) \<Rightarrow> 'a option \<Rightarrow> bool" where
  "is_some_and p x = (case x of None \<Rightarrow> False | Some a \<Rightarrow> p a)"

lemma is_none_or_simps [simp]: "is_none_or p None" "is_none_or p (Some a) = p a"
  by (simp_all add: is_none_or_def)

lemma is_some_and_simps [simp]: "\<not> is_some_and p None" "is_some_and p (Some a) = p a"
  by (simp_all add: is_some_and_def)

section \<open>Results\<close>

text \<open>Collecting an iterator of results stops at the first error.\<close>

fun collect_results :: "('e + 'a) list \<Rightarrow> 'e + 'a list" where
  "collect_results [] = Inr []"
| "collect_results (Inl e # _) = Inl e"
| "collect_results (Inr a # rs) =
     (case collect_results rs of Inl e \<Rightarrow> Inl e | Inr as \<Rightarrow> Inr (a # as))"

lemma collect_results_map_Inr [simp]: "collect_results (map Inr as) = Inr as"
  by (induction as) auto

lemma collect_results_Inr: "collect_results rs = Inr as \<longleftrightarrow> rs = map Inr as"
proof
  assume "collect_results rs = Inr as"
  then show "rs = map Inr as"
    by (induction rs arbitrary: as rule: collect_results.induct) (auto split: sum.splits)
qed simp

text \<open>The question mark operator, \<open>Option::ok_or\<close> and \<open>Option::filter\<close>; a guard that returns early.\<close>

definition and_then :: "'e + 'a \<Rightarrow> ('a \<Rightarrow> 'e + 'b) \<Rightarrow> 'e + 'b" where
  "and_then r f = (case r of Inl e \<Rightarrow> Inl e | Inr a \<Rightarrow> f a)"

definition ok_or :: "'e \<Rightarrow> 'a option \<Rightarrow> 'e + 'a" where
  "ok_or e x = (case x of None \<Rightarrow> Inl e | Some a \<Rightarrow> Inr a)"

definition filter_option :: "('a \<Rightarrow> bool) \<Rightarrow> 'a option \<Rightarrow> 'a option" where
  "filter_option p x = (case x of Some a \<Rightarrow> if p a then Some a else None | None \<Rightarrow> None)"

definition ensure :: "bool \<Rightarrow> 'e \<Rightarrow> 'e + unit" where
  "ensure c e = (if c then Inr () else Inl e)"

lemma ensure_Inr [simp]: "ensure c e = Inr u \<longleftrightarrow> c"
  by (simp add: ensure_def)

lemma map_sum_Inr: "map_sum f g r = Inr b \<longleftrightarrow> (\<exists>a. r = Inr a \<and> b = g a)"
  by (cases r) auto

lemma map_sum_Inl: "map_sum f g r = Inl e \<longleftrightarrow> (\<exists>a. r = Inl a \<and> e = f a)"
  by (cases r) auto

lemma apfst_pair: "apfst f p = (r, s) \<longleftrightarrow> (\<exists>a. p = (a, s) \<and> f a = r)"
  by (cases p) auto

lemma filter_option_Some [simp]: "filter_option p x = Some a \<longleftrightarrow> x = Some a \<and> p a"
  by (cases x) (auto simp: filter_option_def)

lemma ok_or_Inr [simp]: "ok_or e x = Inr a \<longleftrightarrow> x = Some a"
  by (cases x) (auto simp: ok_or_def)

lemma and_then_Inr [simp]: "and_then r f = Inr b \<longleftrightarrow> (\<exists>a. r = Inr a \<and> f a = Inr b)"
  by (cases r) (auto simp: and_then_def)

section \<open>Clock\<close>

text \<open>
  The least and the greatest \<open>DateTime<Utc>\<close> (years -262143 and 262142) and the greatest \<open>TimeDelta\<close>;
  arithmetic past them panics in \<open>chrono\<close>.
\<close>

abbreviation utc_min :: time where
  "utc_min \<equiv> - 8334601228800000000000"

abbreviation utc_max :: time where
  "utc_max \<equiv> 8210266876799999999999"

definition add_seconds :: "time \<Rightarrow> int \<Rightarrow> time option" where
  "add_seconds now secs =
     (if \<bar>secs\<bar> \<le> i64_max div 1000 \<and> utc_min \<le> now + secs * nanos_per_second
         \<and> now + secs * nanos_per_second \<le> utc_max
      then Some (now + secs * nanos_per_second) else None)"

text \<open>\<open>num_milliseconds\<close> truncates towards zero.\<close>

definition num_milliseconds :: "int \<Rightarrow> int" where
  "num_milliseconds d = d sdiv nanos_per_milli"

lemma num_milliseconds_mono: "a \<le> b \<Longrightarrow> num_milliseconds a \<le> num_milliseconds b"
  by (simp add: num_milliseconds_def sdiv_mono)

end
