(* ===== verification/Identity.thy ===== *)
theory Identity
  imports Text
begin

text \<open>
  The data model of \<open>src/identity.rs\<close>: accounts, sign-in challenges, sessions, passkeys and API
  keys.  A record is polymorphic in the columns that the database keeps in another type than
  the server (an enum as its text, the attempt counter as a \<open>BIGINT\<close>); the type synonyms name
  the two instances.
\<close>

type_synonym AccountId = uuid
type_synonym ChallengeId = uuid
type_synonym SessionId = uuid
type_synonym PasskeyId = uuid
type_synonym ApiKeyId = uuid

section \<open>Enumerations\<close>

datatype AccountStatus = Active | Disabled

fun account_status_as_str :: "AccountStatus \<Rightarrow> string" where
  "account_status_as_str Active = ''active''"
| "account_status_as_str Disabled = ''disabled''"

definition account_status_parse :: "string \<Rightarrow> string + AccountStatus" where
  "account_status_parse v =
     (if v = ''active'' then Inr Active
      else if v = ''disabled'' then Inr Disabled
      else Inl v)"

datatype ChallengePurpose = EmailLogin | PasskeyRegistration | PasskeyAuthentication

fun purpose_as_str :: "ChallengePurpose \<Rightarrow> string" where
  "purpose_as_str EmailLogin = ''email-login''"
| "purpose_as_str PasskeyRegistration = ''passkey-registration''"
| "purpose_as_str PasskeyAuthentication = ''passkey-authentication''"

definition purpose_parse :: "string \<Rightarrow> string + ChallengePurpose" where
  "purpose_parse v =
     (if v = ''email-login'' then Inr EmailLogin
      else if v = ''passkey-registration'' then Inr PasskeyRegistration
      else if v = ''passkey-authentication'' then Inr PasskeyAuthentication
      else Inl v)"

datatype SessionKind = Browser | Astrometry

fun session_kind_as_str :: "SessionKind \<Rightarrow> string" where
  "session_kind_as_str Browser = ''browser''"
| "session_kind_as_str Astrometry = ''astrometry''"

definition session_kind_parse :: "string \<Rightarrow> string + SessionKind" where
  "session_kind_parse v =
     (if v = ''browser'' then Inr Browser
      else if v = ''astrometry'' then Inr Astrometry
      else Inl v)"

lemma account_status_parse_as_str [simp]: "account_status_parse (account_status_as_str s) = Inr s"
  by (cases s) (simp_all add: account_status_parse_def)

lemma account_status_parse_Inr: "account_status_parse v = Inr s \<longleftrightarrow> v = account_status_as_str s"
  by (cases s) (auto simp: account_status_parse_def)

lemma purpose_parse_as_str [simp]: "purpose_parse (purpose_as_str s) = Inr s"
  by (cases s) (simp_all add: purpose_parse_def)

lemma purpose_parse_Inr: "purpose_parse v = Inr s \<longleftrightarrow> v = purpose_as_str s"
  by (cases s) (auto simp: purpose_parse_def)

lemma session_kind_parse_as_str [simp]: "session_kind_parse (session_kind_as_str s) = Inr s"
  by (cases s) (simp_all add: session_kind_parse_def)

lemma session_kind_parse_Inr: "session_kind_parse v = Inr s \<longleftrightarrow> v = session_kind_as_str s"
  by (cases s) (auto simp: session_kind_parse_def)

lemma account_status_as_str_inject [simp]: "account_status_as_str s = account_status_as_str t \<longleftrightarrow> s = t"
  by (cases s; cases t) auto

lemma purpose_as_str_inject [simp]: "purpose_as_str s = purpose_as_str t \<longleftrightarrow> s = t"
  by (cases s; cases t) auto

section \<open>Records\<close>

record 'status Account_of =
  acc_id :: AccountId
  acc_email :: string
  acc_email_lookup :: string
  acc_email_verified_at :: time
  acc_webauthn_user_handle :: string
  acc_status :: 'status
  acc_created_at :: time
  acc_updated_at :: time
  acc_last_authenticated_at :: time

type_synonym Account = "AccountStatus Account_of"
type_synonym AccountRow = "string Account_of"

record ('purpose, 'count) AuthChallenge_of =
  ch_id :: ChallengeId
  ch_purpose :: 'purpose
  ch_account_id :: "AccountId option"
  ch_email_lookup :: "string option"
  ch_link_token_digest :: "string option"
  ch_code_digest :: "string option"
  ch_webauthn_state_json :: "string option"
  ch_attempts :: 'count
  ch_created_at :: time
  ch_expires_at :: time
  ch_consumed_at :: "time option"

type_synonym AuthChallenge = "(ChallengePurpose, u32) AuthChallenge_of"
type_synonym ChallengeRow = "(string, int) AuthChallenge_of"

record 'kind AuthSession_of =
  ses_id :: SessionId
  ses_token_digest :: string
  ses_account_id :: AccountId
  ses_kind :: 'kind
  ses_csrf_digest :: "string option"
  ses_api_key_id :: "ApiKeyId option"
  ses_created_at :: time
  ses_last_seen_at :: time
  ses_expires_at :: time
  ses_absolute_expires_at :: time
  ses_revoked_at :: "time option"

type_synonym AuthSession = "SessionKind AuthSession_of"
type_synonym SessionRow = "string AuthSession_of"

record PasskeyCredential =
  pk_id :: PasskeyId
  pk_credential_id :: string
  pk_account_id :: AccountId
  pk_credential_json :: string
  pk_label :: string
  pk_created_at :: time
  pk_last_used_at :: "time option"
  pk_revoked_at :: "time option"

record ApiKey =
  key_id :: ApiKeyId
  key_account_id :: AccountId
  key_secret_digest :: string
  key_display_prefix :: string
  key_name :: string
  key_scopes :: "string list"
  key_queue_weight :: f64
  key_created_at :: time
  key_expires_at :: "time option"
  key_last_used_at :: "time option"
  key_revoked_at :: "time option"

record CompletedEmailSignIn =
  ces_account :: Account
  ces_session :: AuthSession
  ces_account_created :: bool

record CompletedPasskeySignIn =
  cps_account :: Account
  cps_session :: AuthSession
  cps_passkey :: PasskeyCredential

end
