(* ===== verification/Identity_Repository.thy ===== *)
theory Identity_Repository
  imports Identity
begin

text \<open>
  The SQLx identity repository (\<open>src/sqlx_identity.rs\<close>) over the tables of
  \<open>migrations/identity/0001_identity.sql\<close>: one definition per operation of the trait
  \<open>IdentityRepository\<close>.  An operation is one transaction; an error or a rollback leaves the
  database as it was.  The primary keys, the \<open>UNIQUE\<close> constraints, the partial unique index on
  live passkeys and the foreign keys of the migration are checked by every insertion.
\<close>

section \<open>Tables\<close>

datatype identity_error =
    UnknownAccountStatus string
  | UnknownPurpose string
  | UnknownSessionKind string
  | AttemptsOutsideU32
  | Constraint string
  | NotEmailLogin
  | ZeroLiveLimit
  | MissingEmailLookup
  | AccountIdsDiffer
  | RowNotFound

record IdentityDb =
  id_accounts :: "AccountRow list"
  id_challenges :: "ChallengeRow list"
  id_sessions :: "SessionRow list"
  id_passkeys :: "PasskeyCredential list"
  id_api_keys :: "ApiKey list"

definition empty_identity_db :: IdentityDb where
  "empty_identity_db =
     \<lparr>id_accounts = [], id_challenges = [], id_sessions = [], id_passkeys = [], id_api_keys = []\<rparr>"

section \<open>Rows\<close>

definition account_from_row :: "AccountRow \<Rightarrow> identity_error + Account" where
  "account_from_row r =
     (case account_status_parse (acc_status r) of
        Inl e \<Rightarrow> Inl (UnknownAccountStatus e)
      | Inr status \<Rightarrow> Inr \<lparr>
          acc_id = acc_id r, acc_email = acc_email r, acc_email_lookup = acc_email_lookup r,
          acc_email_verified_at = acc_email_verified_at r,
          acc_webauthn_user_handle = acc_webauthn_user_handle r, acc_status = status,
          acc_created_at = acc_created_at r, acc_updated_at = acc_updated_at r,
          acc_last_authenticated_at = acc_last_authenticated_at r\<rparr>)"

definition account_row :: "Account \<Rightarrow> AccountRow" where
  "account_row a = \<lparr>
     acc_id = acc_id a, acc_email = acc_email a, acc_email_lookup = acc_email_lookup a,
     acc_email_verified_at = acc_email_verified_at a,
     acc_webauthn_user_handle = acc_webauthn_user_handle a,
     acc_status = account_status_as_str (acc_status a),
     acc_created_at = acc_created_at a, acc_updated_at = acc_updated_at a,
     acc_last_authenticated_at = acc_last_authenticated_at a\<rparr>"

text \<open>The purpose is decoded before the counter; both are checked.\<close>

definition challenge_from_row :: "ChallengeRow \<Rightarrow> identity_error + AuthChallenge" where
  "challenge_from_row r =
     (case purpose_parse (ch_purpose r) of
        Inl e \<Rightarrow> Inl (UnknownPurpose e)
      | Inr purpose \<Rightarrow>
          if ch_attempts r < 0 \<or> 2 ^ 32 \<le> ch_attempts r then Inl AttemptsOutsideU32
          else Inr \<lparr>
            ch_id = ch_id r, ch_purpose = purpose, ch_account_id = ch_account_id r,
            ch_email_lookup = ch_email_lookup r, ch_link_token_digest = ch_link_token_digest r,
            ch_code_digest = ch_code_digest r, ch_webauthn_state_json = ch_webauthn_state_json r,
            ch_attempts = of_int (ch_attempts r), ch_created_at = ch_created_at r,
            ch_expires_at = ch_expires_at r, ch_consumed_at = ch_consumed_at r\<rparr>)"

definition challenge_row :: "AuthChallenge \<Rightarrow> ChallengeRow" where
  "challenge_row c = \<lparr>
     ch_id = ch_id c, ch_purpose = purpose_as_str (ch_purpose c), ch_account_id = ch_account_id c,
     ch_email_lookup = ch_email_lookup c, ch_link_token_digest = ch_link_token_digest c,
     ch_code_digest = ch_code_digest c, ch_webauthn_state_json = ch_webauthn_state_json c,
     ch_attempts = uint (ch_attempts c), ch_created_at = ch_created_at c,
     ch_expires_at = ch_expires_at c, ch_consumed_at = ch_consumed_at c\<rparr>"

definition session_from_row :: "SessionRow \<Rightarrow> identity_error + AuthSession" where
  "session_from_row r =
     (case session_kind_parse (ses_kind r) of
        Inl e \<Rightarrow> Inl (UnknownSessionKind e)
      | Inr kind \<Rightarrow> Inr \<lparr>
          ses_id = ses_id r, ses_token_digest = ses_token_digest r,
          ses_account_id = ses_account_id r, ses_kind = kind,
          ses_csrf_digest = ses_csrf_digest r, ses_api_key_id = ses_api_key_id r,
          ses_created_at = ses_created_at r, ses_last_seen_at = ses_last_seen_at r,
          ses_expires_at = ses_expires_at r,
          ses_absolute_expires_at = ses_absolute_expires_at r,
          ses_revoked_at = ses_revoked_at r\<rparr>)"

definition session_row :: "AuthSession \<Rightarrow> SessionRow" where
  "session_row s = \<lparr>
     ses_id = ses_id s, ses_token_digest = ses_token_digest s,
     ses_account_id = ses_account_id s, ses_kind = session_kind_as_str (ses_kind s),
     ses_csrf_digest = ses_csrf_digest s, ses_api_key_id = ses_api_key_id s,
     ses_created_at = ses_created_at s, ses_last_seen_at = ses_last_seen_at s,
     ses_expires_at = ses_expires_at s, ses_absolute_expires_at = ses_absolute_expires_at s,
     ses_revoked_at = ses_revoked_at s\<rparr>"

definition fetch_optional ::
  "('r \<Rightarrow> identity_error + 'a) \<Rightarrow> 'r option \<Rightarrow> identity_error + 'a option" where
  "fetch_optional decode row =
     (case row of None \<Rightarrow> Inr None | Some r \<Rightarrow> map_sum id Some (decode r))"

section \<open>Insertions\<close>

definition insert_account_row :: "IdentityDb \<Rightarrow> AccountRow \<Rightarrow> identity_error + IdentityDb" where
  "insert_account_row db r =
     (if list_ex (\<lambda>a. acc_id a = acc_id r) (id_accounts db) then Inl (Constraint ''accounts.id'')
      else if list_ex (\<lambda>a. acc_email_lookup a = acc_email_lookup r) (id_accounts db)
      then Inl (Constraint ''accounts.email_lookup'')
      else if list_ex (\<lambda>a. acc_webauthn_user_handle a = acc_webauthn_user_handle r) (id_accounts db)
      then Inl (Constraint ''accounts.webauthn_user_handle'')
      else Inr (db\<lparr>id_accounts := id_accounts db @ [r]\<rparr>))"

definition account_exists :: "IdentityDb \<Rightarrow> AccountId \<Rightarrow> bool" where
  "account_exists db a = list_ex (\<lambda>r. acc_id r = a) (id_accounts db)"

definition api_key_exists :: "IdentityDb \<Rightarrow> ApiKeyId \<Rightarrow> bool" where
  "api_key_exists db k = list_ex (\<lambda>r. key_id r = k) (id_api_keys db)"

definition insert_challenge :: "IdentityDb \<Rightarrow> AuthChallenge \<Rightarrow> identity_error + IdentityDb" where
  "insert_challenge db c =
     (if list_ex (\<lambda>r. ch_id r = ch_id c) (id_challenges db)
      then Inl (Constraint ''auth_challenges.id'')
      else if \<not> is_none_or (account_exists db) (ch_account_id c)
      then Inl (Constraint ''auth_challenges.account_id'')
      else Inr (db\<lparr>id_challenges := id_challenges db @ [challenge_row c]\<rparr>))"

definition insert_session :: "IdentityDb \<Rightarrow> AuthSession \<Rightarrow> identity_error + IdentityDb" where
  "insert_session db s =
     (if list_ex (\<lambda>r. ses_id r = ses_id s) (id_sessions db)
      then Inl (Constraint ''auth_sessions.id'')
      else if \<not> account_exists db (ses_account_id s)
      then Inl (Constraint ''auth_sessions.account_id'')
      else if \<not> is_none_or (api_key_exists db) (ses_api_key_id s)
      then Inl (Constraint ''auth_sessions.api_key_id'')
      else Inr (db\<lparr>id_sessions := id_sessions db @ [session_row s]\<rparr>))"

definition insert_passkey :: "IdentityDb \<Rightarrow> PasskeyCredential \<Rightarrow> identity_error + IdentityDb" where
  "insert_passkey db p =
     (if list_ex (\<lambda>r. pk_id r = pk_id p) (id_passkeys db)
      then Inl (Constraint ''passkey_credentials.id'')
      else if pk_revoked_at p = None
              \<and> list_ex (\<lambda>r. pk_credential_id r = pk_credential_id p \<and> pk_revoked_at r = None)
                  (id_passkeys db)
      then Inl (Constraint ''passkey_credentials_live_credential_idx'')
      else if \<not> account_exists db (pk_account_id p)
      then Inl (Constraint ''passkey_credentials.account_id'')
      else Inr (db\<lparr>id_passkeys := id_passkeys db @ [p]\<rparr>))"

definition insert_api_key :: "IdentityDb \<Rightarrow> ApiKey \<Rightarrow> identity_error + IdentityDb" where
  "insert_api_key db k =
     (if list_ex (\<lambda>r. key_id r = key_id k) (id_api_keys db) then Inl (Constraint ''api_keys.id'')
      else if \<not> account_exists db (key_account_id k) then Inl (Constraint ''api_keys.account_id'')
      else Inr (db\<lparr>id_api_keys := id_api_keys db @ [k]\<rparr>))"

text \<open>A statement that is its own transaction.\<close>

definition commit :: "IdentityDb \<Rightarrow> identity_error + IdentityDb \<Rightarrow> (identity_error + unit) \<times> IdentityDb" where
  "commit db r = (case r of Inl e \<Rightarrow> (Inl e, db) | Inr db' \<Rightarrow> (Inr (), db'))"

section \<open>Accounts\<close>

definition create_account :: "IdentityDb \<Rightarrow> Account \<Rightarrow> (identity_error + unit) \<times> IdentityDb" where
  "create_account db a = commit db (insert_account_row db (account_row a))"

definition account_query :: "IdentityDb \<Rightarrow> (AccountRow \<Rightarrow> bool) \<Rightarrow> identity_error + Account option" where
  "account_query db p = fetch_optional account_from_row (select_one p (id_accounts db))"

definition account_by_id :: "IdentityDb \<Rightarrow> AccountId \<Rightarrow> identity_error + Account option" where
  "account_by_id db account_id = account_query db (\<lambda>r. acc_id r = account_id)"

definition account_by_email_lookup :: "IdentityDb \<Rightarrow> string \<Rightarrow> identity_error + Account option" where
  "account_by_email_lookup db email_lookup = account_query db (\<lambda>r. acc_email_lookup r = email_lookup)"

definition account_by_user_handle :: "IdentityDb \<Rightarrow> string \<Rightarrow> identity_error + Account option" where
  "account_by_user_handle db user_handle =
     account_query db (\<lambda>r. acc_webauthn_user_handle r = user_handle)"

section \<open>Challenges\<close>

definition create_challenge :: "IdentityDb \<Rightarrow> AuthChallenge \<Rightarrow> (identity_error + unit) \<times> IdentityDb" where
  "create_challenge db c = commit db (insert_challenge db c)"

definition challenge_by_id :: "IdentityDb \<Rightarrow> ChallengeId \<Rightarrow> identity_error + AuthChallenge option" where
  "challenge_by_id db challenge_id =
     fetch_optional challenge_from_row (select_one (\<lambda>r. ch_id r = challenge_id) (id_challenges db))"

definition live_email_challenge :: "string \<Rightarrow> time \<Rightarrow> ChallengeRow \<Rightarrow> bool" where
  "live_email_challenge email_lookup now r =
     (ch_email_lookup r = Some email_lookup \<and> ch_purpose r = ''email-login''
      \<and> ch_consumed_at r = None \<and> now < ch_expires_at r)"

definition consume_one :: "time \<Rightarrow> ChallengeId \<Rightarrow> ChallengeRow list \<Rightarrow> ChallengeRow list" where
  "consume_one now i =
     update_where (\<lambda>r. ch_id r = i \<and> ch_consumed_at r = None) (\<lambda>r. r\<lparr>ch_consumed_at := Some now\<rparr>)"

definition create_email_challenge ::
  "IdentityDb \<Rightarrow> AuthChallenge \<Rightarrow> nat \<Rightarrow> (identity_error + unit) \<times> IdentityDb" where
  "create_email_challenge db challenge max_live =
     (if ch_purpose challenge \<noteq> EmailLogin then (Inl NotEmailLogin, db)
      else if max_live = 0 then (Inl ZeroLiveLimit, db)
      else case ch_email_lookup challenge of
        None \<Rightarrow> (Inl MissingEmailLookup, db)
      | Some email_lookup \<Rightarrow>
          (case insert_challenge db challenge of
             Inl e \<Rightarrow> (Inl e, db)
           | Inr db' \<Rightarrow>
               let created_at = ch_created_at challenge;
                   live = order_by (\<lambda>r. - ch_created_at r)
                            (filter (live_email_challenge email_lookup created_at) (id_challenges db'))
               in (Inr (), db'\<lparr>id_challenges :=
                     fold (consume_one created_at) (map ch_id (drop max_live live))
                       (id_challenges db')\<rparr>)))"

definition open_challenge :: "ChallengeId \<Rightarrow> time \<Rightarrow> u32 \<Rightarrow> ChallengeRow \<Rightarrow> bool" where
  "open_challenge challenge_id now max_attempts r =
     (ch_id r = challenge_id \<and> ch_consumed_at r = None \<and> now < ch_expires_at r
      \<and> ch_attempts r < uint max_attempts)"

definition record_challenge_failure ::
  "IdentityDb \<Rightarrow> ChallengeId \<Rightarrow> time \<Rightarrow> u32
    \<Rightarrow> (identity_error + AuthChallenge option) \<times> IdentityDb" where
  "record_challenge_failure db challenge_id now max_attempts =
     (let p = open_challenge challenge_id now max_attempts;
          db' = db\<lparr>id_challenges := update_where p (\<lambda>r. r\<lparr>ch_attempts := ch_attempts r + 1\<rparr>)
                                    (id_challenges db)\<rparr> in
      if rows_where p (id_challenges db) = 0 then (Inr None, db)
      else (challenge_by_id db' challenge_id, db'))"

text \<open>
  The account of a sign-in by email: the one that owns the address, or the new one, inserted
  with \<open>ON CONFLICT(email_lookup) DO NOTHING\<close> and read back by the address of the challenge.
\<close>

definition sign_in_account ::
  "IdentityDb \<Rightarrow> string \<Rightarrow> Account \<Rightarrow> identity_error + (Account \<times> bool \<times> IdentityDb)" where
  "sign_in_account db email_lookup new_account =
     (case account_by_email_lookup db email_lookup of
        Inl e \<Rightarrow> Inl e
      | Inr (Some account) \<Rightarrow> Inr (account, False, db)
      | Inr None \<Rightarrow>
          let conflict = list_ex (\<lambda>r. acc_email_lookup r = acc_email_lookup new_account) (id_accounts db) in
          case (if conflict then Inr db else insert_account_row db (account_row new_account)) of
            Inl e \<Rightarrow> Inl e
          | Inr db' \<Rightarrow>
              (case account_by_email_lookup db' email_lookup of
                 Inl e \<Rightarrow> Inl e
               | Inr None \<Rightarrow> Inl RowNotFound
               | Inr (Some account) \<Rightarrow> Inr (account, \<not> conflict, db')))"

definition touch_account :: "AccountId \<Rightarrow> time \<Rightarrow> AccountRow list \<Rightarrow> AccountRow list" where
  "touch_account account_id now =
     update_where (\<lambda>r. acc_id r = account_id)
       (\<lambda>r. r\<lparr>acc_updated_at := now, acc_last_authenticated_at := now\<rparr>)"

definition complete_email_challenge ::
  "IdentityDb \<Rightarrow> ChallengeId \<Rightarrow> time \<Rightarrow> u32 \<Rightarrow> Account \<Rightarrow> AuthSession
    \<Rightarrow> (identity_error + CompletedEmailSignIn option) \<times> IdentityDb" where
  "complete_email_challenge db challenge_id now max_attempts new_account new_session0 =
     (case challenge_by_id db challenge_id of
        Inl e \<Rightarrow> (Inl e, db)
      | Inr None \<Rightarrow> (Inr None, db)
      | Inr (Some challenge) \<Rightarrow>
      case ch_email_lookup challenge of
        None \<Rightarrow> (Inr None, db)
      | Some email_lookup \<Rightarrow>
      if ch_purpose challenge \<noteq> EmailLogin then (Inr None, db)
      else let p = (\<lambda>r. open_challenge challenge_id now max_attempts r \<and> ch_purpose r = ''email-login'');
               db1 = db\<lparr>id_challenges := update_where p (\<lambda>r. r\<lparr>ch_consumed_at := Some now\<rparr>)
                                         (id_challenges db)\<rparr> in
      if rows_where p (id_challenges db) = 0 then (Inr None, db)
      else case sign_in_account db1 email_lookup new_account of
        Inl e \<Rightarrow> (Inl e, db)
      | Inr (account, account_created, db2) \<Rightarrow>
      if acc_status account \<noteq> Active then (Inr None, db)
      else let new_session = new_session0\<lparr>ses_account_id := acc_id account\<rparr> in
      case insert_session db2 new_session of
        Inl e \<Rightarrow> (Inl e, db)
      | Inr db3 \<Rightarrow>
          (Inr (Some \<lparr>ces_account = account\<lparr>acc_updated_at := now, acc_last_authenticated_at := now\<rparr>,
                      ces_session = new_session, ces_account_created = account_created\<rparr>),
           db3\<lparr>id_challenges :=
                 update_where (\<lambda>r. ch_email_lookup r = Some email_lookup \<and> ch_purpose r = ''email-login''
                                   \<and> ch_consumed_at r = None)
                   (\<lambda>r. r\<lparr>ch_consumed_at := Some now\<rparr>) (id_challenges db3),
               id_accounts := touch_account (acc_id account) now (id_accounts db3)\<rparr>))"

section \<open>Sessions\<close>

definition create_session :: "IdentityDb \<Rightarrow> AuthSession \<Rightarrow> (identity_error + unit) \<times> IdentityDb" where
  "create_session db s = commit db (insert_session db s)"

definition session :: "IdentityDb \<Rightarrow> AccountId \<Rightarrow> SessionId \<Rightarrow> identity_error + AuthSession option" where
  "session db account_id session_id =
     fetch_optional session_from_row
       (select_one (\<lambda>r. ses_id r = session_id \<and> ses_account_id r = account_id) (id_sessions db))"

definition list_sessions :: "IdentityDb \<Rightarrow> AccountId \<Rightarrow> identity_error + AuthSession list" where
  "list_sessions db account_id =
     collect_results (map session_from_row
       (order_by (\<lambda>r. - ses_created_at r) (filter (\<lambda>r. ses_account_id r = account_id) (id_sessions db))))"

definition touchable :: "AccountId \<Rightarrow> SessionId \<Rightarrow> time \<Rightarrow> SessionRow \<Rightarrow> bool" where
  "touchable account_id session_id now r =
     (ses_id r = session_id \<and> ses_account_id r = account_id \<and> ses_revoked_at r = None
      \<and> now < ses_absolute_expires_at r)"

definition touch_session ::
  "IdentityDb \<Rightarrow> AccountId \<Rightarrow> SessionId \<Rightarrow> time \<Rightarrow> time \<Rightarrow> bool \<times> IdentityDb" where
  "touch_session db account_id session_id last_seen_at expires_at =
     (rows_where (touchable account_id session_id last_seen_at) (id_sessions db) = 1,
      db\<lparr>id_sessions := update_where (touchable account_id session_id last_seen_at)
            (\<lambda>r. r\<lparr>ses_last_seen_at := last_seen_at, ses_expires_at := expires_at\<rparr>) (id_sessions db)\<rparr>)"

definition revoke_sessions_where ::
  "(SessionRow \<Rightarrow> bool) \<Rightarrow> time \<Rightarrow> IdentityDb \<Rightarrow> nat \<times> IdentityDb" where
  "revoke_sessions_where q revoked_at db =
     (let p = (\<lambda>r. q r \<and> ses_revoked_at r = None) in
      (rows_where p (id_sessions db),
       db\<lparr>id_sessions := update_where p (\<lambda>r. r\<lparr>ses_revoked_at := Some revoked_at\<rparr>) (id_sessions db)\<rparr>))"

definition revoke_session ::
  "IdentityDb \<Rightarrow> AccountId \<Rightarrow> SessionId \<Rightarrow> time \<Rightarrow> bool \<times> IdentityDb" where
  "revoke_session db account_id session_id revoked_at =
     apfst (\<lambda>n. n = 1)
       (revoke_sessions_where (\<lambda>r. ses_id r = session_id \<and> ses_account_id r = account_id) revoked_at db)"

definition revoke_all_sessions :: "IdentityDb \<Rightarrow> AccountId \<Rightarrow> time \<Rightarrow> nat \<times> IdentityDb" where
  "revoke_all_sessions db account_id revoked_at =
     revoke_sessions_where (\<lambda>r. ses_account_id r = account_id) revoked_at db"

definition delete_session :: "IdentityDb \<Rightarrow> AccountId \<Rightarrow> SessionId \<Rightarrow> IdentityDb" where
  "delete_session db account_id session_id =
     db\<lparr>id_sessions := filter (\<lambda>r. \<not> (ses_id r = session_id \<and> ses_account_id r = account_id))
                         (id_sessions db)\<rparr>"

section \<open>Passkeys\<close>

definition create_passkey ::
  "IdentityDb \<Rightarrow> PasskeyCredential \<Rightarrow> (identity_error + unit) \<times> IdentityDb" where
  "create_passkey db p = commit db (insert_passkey db p)"

definition complete_passkey_registration ::
  "IdentityDb \<Rightarrow> ChallengeId \<Rightarrow> PasskeyCredential \<Rightarrow> time \<Rightarrow> (identity_error + bool) \<times> IdentityDb" where
  "complete_passkey_registration db challenge_id passkey now =
     (let p = (\<lambda>r. ch_id r = challenge_id \<and> ch_purpose r = ''passkey-registration''
                   \<and> ch_account_id r = Some (pk_account_id passkey)
                   \<and> ch_consumed_at r = None \<and> now < ch_expires_at r
                   \<and> list_ex (\<lambda>a. acc_id a = pk_account_id passkey \<and> acc_status a = ''active'')
                       (id_accounts db));
          db1 = db\<lparr>id_challenges := update_where p (\<lambda>r. r\<lparr>ch_consumed_at := Some now\<rparr>)
                                    (id_challenges db)\<rparr> in
      if rows_where p (id_challenges db) = 0 then (Inr False, db)
      else case insert_passkey db1 passkey of
        Inl e \<Rightarrow> (Inl e, db)
      | Inr db2 \<Rightarrow> (Inr True, db2))"

definition complete_passkey_sign_in ::
  "IdentityDb \<Rightarrow> ChallengeId \<Rightarrow> PasskeyCredential \<Rightarrow> AuthSession \<Rightarrow> time
    \<Rightarrow> (identity_error + CompletedPasskeySignIn option) \<times> IdentityDb" where
  "complete_passkey_sign_in db challenge_id passkey new_session now =
     (if pk_account_id passkey \<noteq> ses_account_id new_session then (Inl AccountIdsDiffer, db)
      else case account_query db (\<lambda>r. acc_id r = pk_account_id passkey \<and> acc_status r = ''active'') of
        Inl e \<Rightarrow> (Inl e, db)
      | Inr None \<Rightarrow> (Inr None, db)
      | Inr (Some account) \<Rightarrow>
      let p = (\<lambda>r. ch_id r = challenge_id \<and> ch_purpose r = ''passkey-authentication''
                   \<and> ch_consumed_at r = None \<and> now < ch_expires_at r);
          q = (\<lambda>r. pk_id r = pk_id passkey \<and> pk_credential_id r = pk_credential_id passkey
                   \<and> pk_account_id r = pk_account_id passkey \<and> pk_revoked_at r = None);
          db1 = db\<lparr>id_challenges := update_where p (\<lambda>r. r\<lparr>ch_consumed_at := Some now\<rparr>)
                                    (id_challenges db),
                   id_passkeys := update_where q
                     (\<lambda>r. r\<lparr>pk_credential_json := pk_credential_json passkey, pk_last_used_at := Some now\<rparr>)
                     (id_passkeys db)\<rparr> in
      if rows_where p (id_challenges db) = 0 then (Inr None, db)
      else if rows_where q (id_passkeys db) = 0 then (Inr None, db)
      else case insert_session db1 new_session of
        Inl e \<Rightarrow> (Inl e, db)
      | Inr db2 \<Rightarrow>
          (Inr (Some \<lparr>cps_account = account\<lparr>acc_updated_at := now, acc_last_authenticated_at := now\<rparr>,
                      cps_session = new_session,
                      cps_passkey = passkey\<lparr>pk_last_used_at := Some now\<rparr>\<rparr>),
           db2\<lparr>id_accounts :=
                 update_where (\<lambda>r. acc_id r = pk_account_id passkey \<and> acc_status r = ''active'')
                   (\<lambda>r. r\<lparr>acc_updated_at := now, acc_last_authenticated_at := now\<rparr>) (id_accounts db2)\<rparr>))"

definition passkey_by_credential_id :: "IdentityDb \<Rightarrow> string \<Rightarrow> PasskeyCredential option" where
  "passkey_by_credential_id db credential_id =
     select_one (\<lambda>r. pk_credential_id r = credential_id \<and> pk_revoked_at r = None) (id_passkeys db)"

definition list_passkeys :: "IdentityDb \<Rightarrow> AccountId \<Rightarrow> PasskeyCredential list" where
  "list_passkeys db account_id =
     order_by pk_created_at (filter (\<lambda>r. pk_account_id r = account_id) (id_passkeys db))"

definition revoke_passkey ::
  "IdentityDb \<Rightarrow> AccountId \<Rightarrow> PasskeyId \<Rightarrow> time \<Rightarrow> bool \<times> IdentityDb" where
  "revoke_passkey db account_id passkey_id revoked_at =
     (let p = (\<lambda>r. pk_id r = passkey_id \<and> pk_account_id r = account_id \<and> pk_revoked_at r = None) in
      (0 < rows_where p (id_passkeys db),
       db\<lparr>id_passkeys := update_where p (\<lambda>r. r\<lparr>pk_revoked_at := Some revoked_at\<rparr>) (id_passkeys db)\<rparr>))"

section \<open>API keys\<close>

definition create_api_key :: "IdentityDb \<Rightarrow> ApiKey \<Rightarrow> (identity_error + unit) \<times> IdentityDb" where
  "create_api_key db k = commit db (insert_api_key db k)"

definition api_key :: "IdentityDb \<Rightarrow> AccountId \<Rightarrow> ApiKeyId \<Rightarrow> ApiKey option" where
  "api_key db account_id k =
     select_one (\<lambda>r. key_id r = k \<and> key_account_id r = account_id) (id_api_keys db)"

definition list_api_keys :: "IdentityDb \<Rightarrow> AccountId \<Rightarrow> ApiKey list" where
  "list_api_keys db account_id =
     order_by key_created_at (filter (\<lambda>r. key_account_id r = account_id) (id_api_keys db))"

definition touch_api_key ::
  "IdentityDb \<Rightarrow> AccountId \<Rightarrow> ApiKeyId \<Rightarrow> time \<Rightarrow> bool \<times> IdentityDb" where
  "touch_api_key db account_id k last_used_at =
     (let p = (\<lambda>r. key_id r = k \<and> key_account_id r = account_id \<and> key_revoked_at r = None
                   \<and> is_none_or (\<lambda>e. last_used_at < e) (key_expires_at r)) in
      (0 < rows_where p (id_api_keys db),
       db\<lparr>id_api_keys := update_where p (\<lambda>r. r\<lparr>key_last_used_at := Some last_used_at\<rparr>) (id_api_keys db)\<rparr>))"

definition revoke_api_key ::
  "IdentityDb \<Rightarrow> AccountId \<Rightarrow> ApiKeyId \<Rightarrow> time \<Rightarrow> bool \<times> IdentityDb" where
  "revoke_api_key db account_id k revoked_at =
     (let p = (\<lambda>r. key_id r = k \<and> key_account_id r = account_id \<and> key_revoked_at r = None);
          db1 = db\<lparr>id_api_keys := update_where p (\<lambda>r. r\<lparr>key_revoked_at := Some revoked_at\<rparr>) (id_api_keys db)\<rparr> in
      if rows_where p (id_api_keys db) = 0 then (False, db)
      else (True, snd (revoke_sessions_where
                         (\<lambda>r. ses_account_id r = account_id \<and> ses_api_key_id r = Some k) revoked_at db1)))"

section \<open>Purging\<close>

abbreviation nanos_per_hour :: int where
  "nanos_per_hour \<equiv> 3600 * nanos_per_second"

definition purgeable_challenge :: "time \<Rightarrow> ChallengeRow \<Rightarrow> bool" where
  "purgeable_challenge now r = (ch_expires_at r < now - 24 * nanos_per_hour)"

definition purgeable_session :: "time \<Rightarrow> SessionRow \<Rightarrow> bool" where
  "purgeable_session now r =
     (let grace_cutoff = now - 30 * 24 * nanos_per_hour in
      ses_absolute_expires_at r < now \<or> ses_expires_at r < grace_cutoff
      \<or> is_some_and (\<lambda>t. t < grace_cutoff) (ses_revoked_at r))"

definition purge_expired :: "IdentityDb \<Rightarrow> time \<Rightarrow> nat \<times> IdentityDb" where
  "purge_expired db now =
     (rows_where (purgeable_challenge now) (id_challenges db)
        + rows_where (purgeable_session now) (id_sessions db),
      db\<lparr>id_challenges := filter (\<lambda>r. \<not> purgeable_challenge now r) (id_challenges db),
         id_sessions := filter (\<lambda>r. \<not> purgeable_session now r) (id_sessions db)\<rparr>)"

end
