(* ===== verification/Identity_Steps.thy ===== *)
theory Identity_Steps
  imports Identity_Repository
begin

text \<open>
  What the operations of the identity repository can do to its tables.  The relation \<open>grow\<close> is
  the specification: rows are inserted under the constraints of the schema or edited in the
  columns that may change, and a consumed challenge, a revoked session, a revoked passkey and a
  revoked API key are never edited again.  Every call is a sequence of such steps, or deletes
  rows; the invariant and the permanence facts are proved once, for the steps.
\<close>

section \<open>Calls\<close>

datatype identity_call =
    CreateAccount Account
  | CreateChallenge AuthChallenge
  | CreateEmailChallenge AuthChallenge nat
  | RecordChallengeFailure ChallengeId time u32
  | CompleteEmailChallenge ChallengeId time u32 Account AuthSession
  | CreateSession AuthSession
  | TouchSession AccountId SessionId time time
  | RevokeSession AccountId SessionId time
  | RevokeAllSessions AccountId time
  | DeleteSession AccountId SessionId
  | CreatePasskey PasskeyCredential
  | CompletePasskeyRegistration ChallengeId PasskeyCredential time
  | CompletePasskeySignIn ChallengeId PasskeyCredential AuthSession time
  | RevokePasskey AccountId PasskeyId time
  | CreateApiKey ApiKey
  | TouchApiKey AccountId ApiKeyId time
  | RevokeApiKey AccountId ApiKeyId time
  | PurgeExpired time

fun identity_step :: "IdentityDb \<Rightarrow> identity_call \<Rightarrow> IdentityDb" where
  "identity_step db (CreateAccount a) = snd (create_account db a)"
| "identity_step db (CreateChallenge c) = snd (create_challenge db c)"
| "identity_step db (CreateEmailChallenge c n) = snd (create_email_challenge db c n)"
| "identity_step db (RecordChallengeFailure i now m) = snd (record_challenge_failure db i now m)"
| "identity_step db (CompleteEmailChallenge i now m a s) = snd (complete_email_challenge db i now m a s)"
| "identity_step db (CreateSession s) = snd (create_session db s)"
| "identity_step db (TouchSession a s t e) = snd (touch_session db a s t e)"
| "identity_step db (RevokeSession a s t) = snd (revoke_session db a s t)"
| "identity_step db (RevokeAllSessions a t) = snd (revoke_all_sessions db a t)"
| "identity_step db (DeleteSession a s) = delete_session db a s"
| "identity_step db (CreatePasskey p) = snd (create_passkey db p)"
| "identity_step db (CompletePasskeyRegistration i p now) = snd (complete_passkey_registration db i p now)"
| "identity_step db (CompletePasskeySignIn i p s now) = snd (complete_passkey_sign_in db i p s now)"
| "identity_step db (RevokePasskey a p t) = snd (revoke_passkey db a p t)"
| "identity_step db (CreateApiKey k) = snd (create_api_key db k)"
| "identity_step db (TouchApiKey a k t) = snd (touch_api_key db a k t)"
| "identity_step db (RevokeApiKey a k t) = snd (revoke_api_key db a k t)"
| "identity_step db (PurgeExpired now) = snd (purge_expired db now)"

definition identity_run :: "IdentityDb \<Rightarrow> identity_call list \<Rightarrow> IdentityDb" where
  "identity_run db cs = foldl identity_step db cs"

text \<open>The identifiers that a call brings into the database.\<close>

datatype new_id = NewChallenge ChallengeId | NewSession SessionId | NewKey ApiKeyId

fun created_ids :: "identity_call \<Rightarrow> new_id set" where
  "created_ids (CreateChallenge c) = {NewChallenge (ch_id c)}"
| "created_ids (CreateEmailChallenge c n) = {NewChallenge (ch_id c)}"
| "created_ids (CompleteEmailChallenge i now m a s) = {NewSession (ses_id s)}"
| "created_ids (CreateSession s) = {NewSession (ses_id s)}"
| "created_ids (CompletePasskeySignIn i p s now) = {NewSession (ses_id s)}"
| "created_ids (CreateApiKey k) = {NewKey (key_id k)}"
| "created_ids _ = {}"

section \<open>Steps\<close>

definition account_edit :: "AccountRow \<Rightarrow> AccountRow \<Rightarrow> bool" where
  "account_edit r r' =
     (\<exists>u l. r' = r\<lparr>acc_updated_at := u, acc_last_authenticated_at := l\<rparr>)"

definition challenge_edit :: "ChallengeRow \<Rightarrow> ChallengeRow \<Rightarrow> bool" where
  "challenge_edit r r' =
     ((\<exists>n t. r' = r\<lparr>ch_attempts := n, ch_consumed_at := t\<rparr> \<and> ch_attempts r \<le> n
              \<and> (n = ch_attempts r \<or> n < 2 ^ 32))
      \<and> (ch_consumed_at r = None \<or> r' = r))"

definition session_edit :: "SessionRow \<Rightarrow> SessionRow \<Rightarrow> bool" where
  "session_edit r r' =
     ((\<exists>l e v. r' = r\<lparr>ses_last_seen_at := l, ses_expires_at := e, ses_revoked_at := v\<rparr>)
      \<and> (ses_revoked_at r = None \<or> r' = r))"

definition passkey_edit :: "PasskeyCredential \<Rightarrow> PasskeyCredential \<Rightarrow> bool" where
  "passkey_edit r r' =
     ((\<exists>j l v. r' = r\<lparr>pk_credential_json := j, pk_last_used_at := l, pk_revoked_at := v\<rparr>)
      \<and> (pk_revoked_at r = None \<or> r' = r))"

definition key_edit :: "ApiKey \<Rightarrow> ApiKey \<Rightarrow> bool" where
  "key_edit r r' =
     ((\<exists>l v. r' = r\<lparr>key_last_used_at := l, key_revoked_at := v\<rparr>)
      \<and> (key_revoked_at r = None \<or> r' = r))"

inductive grow :: "new_id set \<Rightarrow> IdentityDb \<Rightarrow> IdentityDb \<Rightarrow> bool" for X where
  edit_accounts: "list_all2 account_edit (id_accounts db) t \<Longrightarrow> grow X db (db\<lparr>id_accounts := t\<rparr>)"
| edit_challenges: "list_all2 challenge_edit (id_challenges db) t \<Longrightarrow> grow X db (db\<lparr>id_challenges := t\<rparr>)"
| edit_sessions: "list_all2 session_edit (id_sessions db) t \<Longrightarrow> grow X db (db\<lparr>id_sessions := t\<rparr>)"
| edit_passkeys: "list_all2 passkey_edit (id_passkeys db) t \<Longrightarrow> grow X db (db\<lparr>id_passkeys := t\<rparr>)"
| edit_keys: "list_all2 key_edit (id_api_keys db) t \<Longrightarrow> grow X db (db\<lparr>id_api_keys := t\<rparr>)"
| add_account: "insert_account_row db (account_row a) = Inr db' \<Longrightarrow> grow X db db'"
| add_challenge: "insert_challenge db c = Inr db' \<Longrightarrow> NewChallenge (ch_id c) \<in> X \<Longrightarrow> grow X db db'"
| add_session: "insert_session db s = Inr db' \<Longrightarrow> NewSession (ses_id s) \<in> X \<Longrightarrow> grow X db db'"
| add_passkey: "insert_passkey db p = Inr db' \<Longrightarrow> grow X db db'"
| add_key: "insert_api_key db k = Inr db' \<Longrightarrow> NewKey (key_id k) \<in> X \<Longrightarrow> grow X db db'"

section \<open>Every call is a sequence of steps\<close>

named_theorems edits \<open>how an update of rows is an edit\<close>

lemma account_edit_refl [simp, edits]: "account_edit r r"
  unfolding account_edit_def by (metis Account_of.surjective Account_of.update_convs(8,9))

lemma challenge_edit_refl [simp, edits]: "challenge_edit r r"
proof -
  have "r = r\<lparr>ch_attempts := ch_attempts r, ch_consumed_at := ch_consumed_at r\<rparr>" by simp
  then show ?thesis unfolding challenge_edit_def by blast
qed

lemma session_edit_refl [simp, edits]: "session_edit r r"
proof -
  have "r = r\<lparr>ses_last_seen_at := ses_last_seen_at r, ses_expires_at := ses_expires_at r,
              ses_revoked_at := ses_revoked_at r\<rparr>" by simp
  then show ?thesis unfolding session_edit_def by blast
qed

lemma passkey_edit_refl [simp, edits]: "passkey_edit r r"
proof -
  have "r = r\<lparr>pk_credential_json := pk_credential_json r, pk_last_used_at := pk_last_used_at r,
              pk_revoked_at := pk_revoked_at r\<rparr>" by simp
  then show ?thesis unfolding passkey_edit_def by blast
qed

lemma key_edit_refl [simp, edits]: "key_edit r r"
proof -
  have "r = r\<lparr>key_last_used_at := key_last_used_at r, key_revoked_at := key_revoked_at r\<rparr>" by simp
  then show ?thesis unfolding key_edit_def by blast
qed

lemma list_all2_update_where [edits]:
  "(\<And>r. E r r) \<Longrightarrow> (\<And>r. p r \<Longrightarrow> E r (f r)) \<Longrightarrow> list_all2 E t (update_where p f t)"
  by (induction t) auto

lemma challenge_edit_consume [edits]:
  "ch_consumed_at r = None \<Longrightarrow> challenge_edit r (r\<lparr>ch_consumed_at := Some now\<rparr>)"
proof -
  assume "ch_consumed_at r = None"
  moreover have "r\<lparr>ch_consumed_at := Some now\<rparr> = r\<lparr>ch_attempts := ch_attempts r, ch_consumed_at := Some now\<rparr>"
    by simp
  ultimately show ?thesis unfolding challenge_edit_def by blast
qed

lemma challenge_edit_fail [edits]:
  "ch_consumed_at r = None \<Longrightarrow> ch_attempts r < uint (m :: u32) \<Longrightarrow>
   challenge_edit r (r\<lparr>ch_attempts := ch_attempts r + 1\<rparr>)"
proof -
  assume r: "ch_consumed_at r = None" "ch_attempts r < uint m"
  have "r\<lparr>ch_attempts := ch_attempts r + 1\<rparr>
        = r\<lparr>ch_attempts := ch_attempts r + 1, ch_consumed_at := ch_consumed_at r\<rparr>" by simp
  moreover have "uint m < 2 ^ 32" using uint_lt2p [of m] by simp
  then have "ch_attempts r + 1 < 2 ^ 32" using r by linarith
  ultimately show ?thesis unfolding challenge_edit_def using r by (metis less_add_one less_imp_le)
qed

lemma session_edit_touch [edits]:
  "ses_revoked_at r = None \<Longrightarrow> session_edit r (r\<lparr>ses_last_seen_at := l, ses_expires_at := e\<rparr>)"
proof -
  assume "ses_revoked_at r = None"
  moreover have "r\<lparr>ses_last_seen_at := l, ses_expires_at := e\<rparr>
    = r\<lparr>ses_last_seen_at := l, ses_expires_at := e, ses_revoked_at := ses_revoked_at r\<rparr>" by simp
  ultimately show ?thesis unfolding session_edit_def by blast
qed

lemma session_edit_revoke [edits]:
  "ses_revoked_at r = None \<Longrightarrow> session_edit r (r\<lparr>ses_revoked_at := v\<rparr>)"
proof -
  assume "ses_revoked_at r = None"
  moreover have "r\<lparr>ses_revoked_at := v\<rparr>
    = r\<lparr>ses_last_seen_at := ses_last_seen_at r, ses_expires_at := ses_expires_at r, ses_revoked_at := v\<rparr>"
    by simp
  ultimately show ?thesis unfolding session_edit_def by blast
qed

lemma passkey_edit_use [edits]:
  "pk_revoked_at r = None \<Longrightarrow> passkey_edit r (r\<lparr>pk_credential_json := j, pk_last_used_at := l\<rparr>)"
proof -
  assume "pk_revoked_at r = None"
  moreover have "r\<lparr>pk_credential_json := j, pk_last_used_at := l\<rparr>
    = r\<lparr>pk_credential_json := j, pk_last_used_at := l, pk_revoked_at := pk_revoked_at r\<rparr>" by simp
  ultimately show ?thesis unfolding passkey_edit_def by blast
qed

lemma passkey_edit_revoke [edits]:
  "pk_revoked_at r = None \<Longrightarrow> passkey_edit r (r\<lparr>pk_revoked_at := v\<rparr>)"
proof -
  assume "pk_revoked_at r = None"
  moreover have "r\<lparr>pk_revoked_at := v\<rparr>
    = r\<lparr>pk_credential_json := pk_credential_json r, pk_last_used_at := pk_last_used_at r, pk_revoked_at := v\<rparr>"
    by simp
  ultimately show ?thesis unfolding passkey_edit_def by blast
qed

lemma key_edit_touch [edits]:
  "key_revoked_at r = None \<Longrightarrow> key_edit r (r\<lparr>key_last_used_at := l\<rparr>)"
proof -
  assume "key_revoked_at r = None"
  moreover have "r\<lparr>key_last_used_at := l\<rparr> = r\<lparr>key_last_used_at := l, key_revoked_at := key_revoked_at r\<rparr>"
    by simp
  ultimately show ?thesis unfolding key_edit_def by blast
qed

lemma key_edit_revoke [edits]:
  "key_revoked_at r = None \<Longrightarrow> key_edit r (r\<lparr>key_revoked_at := v\<rparr>)"
proof -
  assume "key_revoked_at r = None"
  moreover have "r\<lparr>key_revoked_at := v\<rparr> = r\<lparr>key_last_used_at := key_last_used_at r, key_revoked_at := v\<rparr>"
    by simp
  ultimately show ?thesis unfolding key_edit_def by blast
qed

lemma account_edit_touch [edits]:
  "account_edit r (r\<lparr>acc_updated_at := u, acc_last_authenticated_at := l\<rparr>)"
  unfolding account_edit_def by blast

lemma challenge_edit_trans: "challenge_edit a b \<Longrightarrow> challenge_edit b c \<Longrightarrow> challenge_edit a c"
proof -
  assume ab: "challenge_edit a b" and bc: "challenge_edit b c"
  obtain n t where b: "b = a\<lparr>ch_attempts := n, ch_consumed_at := t\<rparr>" "ch_attempts a \<le> n"
    "n = ch_attempts a \<or> n < 2 ^ 32" using ab unfolding challenge_edit_def by blast
  obtain m s where c: "c = b\<lparr>ch_attempts := m, ch_consumed_at := s\<rparr>" "ch_attempts b \<le> m"
    "m = ch_attempts b \<or> m < 2 ^ 32" using bc unfolding challenge_edit_def by blast
  have "c = a\<lparr>ch_attempts := m, ch_consumed_at := s\<rparr>" using b c by simp
  moreover have "ch_attempts a \<le> m \<and> (m = ch_attempts a \<or> m < 2 ^ 32)" using b c by auto
  moreover have "ch_consumed_at a = None \<or> c = a"
  proof (cases "ch_consumed_at a = None")
    case False
    then have "b = a" using ab by (auto simp: challenge_edit_def)
    moreover from this False have "c = b" using bc by (auto simp: challenge_edit_def)

    ultimately show ?thesis by simp
  qed simp

  ultimately show ?thesis unfolding challenge_edit_def by blast
qed

lemma list_all2_fold_edit:
  "(\<And>r. E r r) \<Longrightarrow> (\<And>a b c. E a b \<Longrightarrow> E b c \<Longrightarrow> E a c) \<Longrightarrow> (\<And>x t. list_all2 E t (g x t)) \<Longrightarrow>
   list_all2 E t (fold g xs t)"
proof (induction xs arbitrary: t)
  case Nil
  then show ?case by (simp add: list_all2_refl)
next
  case (Cons x xs)
  have "list_all2 E t (g x t)" "list_all2 E (g x t) (fold g xs (g x t))" using Cons by blast+
  with Cons.prems(2) show ?case by (auto intro: list_all2_trans)
qed

lemma consume_one_edit: "list_all2 challenge_edit t (consume_one now i t)"
  by (auto simp: consume_one_def intro!: edits)

abbreviation grows :: "new_id set \<Rightarrow> IdentityDb \<Rightarrow> IdentityDb \<Rightarrow> bool" where
  "grows X \<equiv> (grow X)\<^sup>*\<^sup>*"

lemma grow_into: "grow X db db' \<Longrightarrow> grows X db db'"
  by (rule r_into_rtranclp)

lemma grows_step: "grow X db db' \<Longrightarrow> grows X db' db'' \<Longrightarrow> grows X db db''"
  by (rule converse_rtranclp_into_rtranclp)

lemma commit_grows: "(\<And>db'. r = Inr db' \<Longrightarrow> grow X db db') \<Longrightarrow> grows X db (snd (commit db r))"
  by (cases r) (auto simp: commit_def intro: grow_into)

lemma create_email_challenge_grows:
  "grows {NewChallenge (ch_id c)} db (snd (create_email_challenge db c n))"
proof (cases "insert_challenge db c")
  case (Inr db')
  have "grow {NewChallenge (ch_id c)} db db'" using Inr by (auto intro: add_challenge)
  then have "grows {NewChallenge (ch_id c)} db
      (db'\<lparr>id_challenges := fold (consume_one now) is (id_challenges db')\<rparr>)" for now "is"
    by (rule grows_step)
      (intro grow_into edit_challenges list_all2_fold_edit challenge_edit_refl consume_one_edit,
       erule (1) challenge_edit_trans)
  with Inr show ?thesis
    by (auto simp: create_email_challenge_def Let_def split: option.split)
qed (auto simp: create_email_challenge_def split: option.split)

lemma record_challenge_failure_grows: "grows {} db (snd (record_challenge_failure db i now m))"
  by (auto simp: record_challenge_failure_def Let_def open_challenge_def
      intro!: grow_into edit_challenges edits)

lemma sign_in_account_grows:
  "sign_in_account db e a = Inr (acc, created, db') \<Longrightarrow> grows X db db'"
  by (auto simp: sign_in_account_def Let_def split: sum.splits option.splits if_splits
      intro: grow_into add_account)

lemma complete_email_challenge_grows:
  "grows {NewSession (ses_id s)} db (snd (complete_email_challenge db i now m a s))"
proof (cases "snd (complete_email_challenge db i now m a s) = db")
  case False
  let ?X = "{NewSession (ses_id s)}"
  let ?p = "\<lambda>r. open_challenge i now m r \<and> ch_purpose r = ''email-login''"
  let ?db1 = "db\<lparr>id_challenges := update_where ?p (\<lambda>r. r\<lparr>ch_consumed_at := Some now\<rparr>) (id_challenges db)\<rparr>"
  obtain e acc created db2 db3 where
    acc: "sign_in_account ?db1 e a = Inr (acc, created, db2)" and
    ins: "insert_session db2 (s\<lparr>ses_account_id := acc_id acc\<rparr>) = Inr db3" and
    eq: "snd (complete_email_challenge db i now m a s) =
      db3\<lparr>id_challenges :=
                 update_where (\<lambda>r. ch_email_lookup r = Some e \<and> ch_purpose r = ''email-login''
                                   \<and> ch_consumed_at r = None)
                   (\<lambda>r. r\<lparr>ch_consumed_at := Some now\<rparr>) (id_challenges db3),
               id_accounts := touch_account (acc_id acc) now (id_accounts db3)\<rparr>"
    using False by (auto simp: complete_email_challenge_def Let_def split: sum.splits option.splits if_splits)
  let ?db4 = "db3\<lparr>id_challenges :=
                 update_where (\<lambda>r. ch_email_lookup r = Some e \<and> ch_purpose r = ''email-login''
                                   \<and> ch_consumed_at r = None)
                   (\<lambda>r. r\<lparr>ch_consumed_at := Some now\<rparr>) (id_challenges db3)\<rparr>"
  have "grow ?X db ?db1"
    by (rule edit_challenges) (auto simp: open_challenge_def intro!: edits)
  moreover have "grows ?X ?db1 db2" by (rule sign_in_account_grows [OF acc])
  moreover have "grow ?X db2 db3" using ins by (rule add_session) simp
  moreover have "grow ?X db3 ?db4" by (rule edit_challenges) (auto intro!: edits)
  moreover have "grow ?X ?db4 (?db4\<lparr>id_accounts := touch_account (acc_id acc) now (id_accounts ?db4)\<rparr>)"
    by (rule edit_accounts) (auto simp: touch_account_def intro!: edits)
  ultimately have "grows ?X db (?db4\<lparr>id_accounts := touch_account (acc_id acc) now (id_accounts ?db4)\<rparr>)"
    by (meson grow_into rtranclp_trans)
  with eq show ?thesis by simp
qed simp

lemma revoke_sessions_where_grows: "grows X db (snd (revoke_sessions_where q t db))"
  by (auto simp: revoke_sessions_where_def Let_def intro!: grow_into edit_sessions edits)

lemma touch_session_grows: "grows X db (snd (touch_session db a s t e))"
  by (auto simp: touch_session_def touchable_def intro!: grow_into edit_sessions edits)

lemma complete_passkey_registration_grows: "grows X db (snd (complete_passkey_registration db i p now))"
proof (cases "snd (complete_passkey_registration db i p now) = db")
  case False
  let ?p = "\<lambda>r. ch_id r = i \<and> ch_purpose r = ''passkey-registration''
                   \<and> ch_account_id r = Some (pk_account_id p)
                   \<and> ch_consumed_at r = None \<and> now < ch_expires_at r
                   \<and> list_ex (\<lambda>a. acc_id a = pk_account_id p \<and> acc_status a = ''active'')
                       (id_accounts db)"
  let ?db1 = "db\<lparr>id_challenges := update_where ?p (\<lambda>r. r\<lparr>ch_consumed_at := Some now\<rparr>) (id_challenges db)\<rparr>"
  obtain db2 where "insert_passkey ?db1 p = Inr db2"
    and eq: "snd (complete_passkey_registration db i p now) = db2"
    using False by (auto simp: complete_passkey_registration_def Let_def split: sum.splits if_splits)
  then have "grow X ?db1 db2" by (blast intro: add_passkey)
  moreover have "grow X db ?db1" by (rule edit_challenges) (auto intro!: edits)
  ultimately show ?thesis unfolding eq by (blast intro: grows_step grow_into)
qed simp


lemma complete_passkey_sign_in_grows:
  "grows {NewSession (ses_id s)} db (snd (complete_passkey_sign_in db i p s now))"
proof (cases "snd (complete_passkey_sign_in db i p s now) = db")
  case False
  let ?X = "{NewSession (ses_id s)}"
  let ?p = "\<lambda>r. ch_id r = i \<and> ch_purpose r = ''passkey-authentication''
                   \<and> ch_consumed_at r = None \<and> now < ch_expires_at r"
  let ?q = "\<lambda>r. pk_id r = pk_id p \<and> pk_credential_id r = pk_credential_id p
                   \<and> pk_account_id r = pk_account_id p \<and> pk_revoked_at r = None"
  let ?db0 = "db\<lparr>id_challenges := update_where ?p (\<lambda>r. r\<lparr>ch_consumed_at := Some now\<rparr>) (id_challenges db)\<rparr>"
  let ?db1 = "?db0\<lparr>id_passkeys := update_where ?q
      (\<lambda>r. r\<lparr>pk_credential_json := pk_credential_json p, pk_last_used_at := Some now\<rparr>) (id_passkeys ?db0)\<rparr>"
  obtain db2 where ins: "insert_session ?db1 s = Inr db2"
    and eq: "snd (complete_passkey_sign_in db i p s now) =
      db2\<lparr>id_accounts := update_where (\<lambda>r. acc_id r = pk_account_id p \<and> acc_status r = ''active'')
                   (\<lambda>r. r\<lparr>acc_updated_at := now, acc_last_authenticated_at := now\<rparr>) (id_accounts db2)\<rparr>"
    using False by (auto simp: complete_passkey_sign_in_def Let_def split: sum.splits option.splits if_splits)
  have "grow ?X db ?db0" by (rule edit_challenges) (auto intro!: edits)
  moreover have "grow ?X ?db0 ?db1" by (rule edit_passkeys) (auto intro!: edits)
  moreover have "grow ?X ?db1 db2" using ins by (rule add_session) simp
  moreover have "grow ?X db2 (snd (complete_passkey_sign_in db i p s now))"
    unfolding eq by (rule edit_accounts) (auto intro!: edits)
  ultimately show ?thesis by (meson grow_into rtranclp_trans)
qed simp

lemma revoke_passkey_grows: "grows X db (snd (revoke_passkey db a p t))"
  by (auto simp: revoke_passkey_def Let_def intro!: grow_into edit_passkeys edits)

lemma touch_api_key_grows: "grows X db (snd (touch_api_key db a k t))"
  by (auto simp: touch_api_key_def Let_def intro!: grow_into edit_keys edits)

lemma revoke_api_key_grows: "grows X db (snd (revoke_api_key db a k t))"
proof -
  let ?p = "\<lambda>r. key_id r = k \<and> key_account_id r = a \<and> key_revoked_at r = None"
  have "grow X db (db\<lparr>id_api_keys := update_where ?p (\<lambda>r. r\<lparr>key_revoked_at := Some t\<rparr>) (id_api_keys db)\<rparr>)"
    by (rule edit_keys) (auto intro!: edits)
  then show ?thesis
    by (auto simp: revoke_api_key_def Let_def intro: grows_step revoke_sessions_where_grows)
qed

lemmas call_grows =
  create_email_challenge_grows record_challenge_failure_grows complete_email_challenge_grows
  revoke_sessions_where_grows touch_session_grows complete_passkey_registration_grows
  complete_passkey_sign_in_grows revoke_passkey_grows touch_api_key_grows revoke_api_key_grows

text \<open>Two calls delete rows; every other call grows the database.\<close>

fun deletes :: "identity_call \<Rightarrow> bool" where
  "deletes (DeleteSession a s) = True"
| "deletes (PurgeExpired now) = True"
| "deletes _ = False"

lemma identity_step_grows: "\<not> deletes c \<Longrightarrow> grows (created_ids c) db (identity_step db c)"
  by (cases c)
    (auto simp: create_account_def create_challenge_def create_session_def create_passkey_def
      create_api_key_def revoke_session_def revoke_all_sessions_def
      intro!: commit_grows call_grows
      intro: add_account add_challenge add_session add_passkey add_key)

definition shrinks :: "IdentityDb \<Rightarrow> IdentityDb \<Rightarrow> bool" where
  "shrinks db db' =
     (\<exists>p q. db' = db\<lparr>id_challenges := filter p (id_challenges db), id_sessions := filter q (id_sessions db)\<rparr>)"

lemma identity_step_shrinks: "deletes c \<Longrightarrow> shrinks db (identity_step db c)"
proof (cases c)
  case (DeleteSession a s)
  have "delete_session db a s = db\<lparr>id_challenges := filter (\<lambda>_. True) (id_challenges db),
      id_sessions := filter (\<lambda>r. \<not> (ses_id r = s \<and> ses_account_id r = a)) (id_sessions db)\<rparr>"
    by (simp add: delete_session_def)
  then show ?thesis unfolding shrinks_def DeleteSession identity_step.simps by blast
next
  case (PurgeExpired now)
  then show ?thesis unfolding shrinks_def by (auto simp: purge_expired_def)
qed auto

end
