(* ===== verification/Identity_Invariant.thy ===== *)
theory Identity_Invariant
  imports Identity_Steps
begin

text \<open>
  The invariant of the identity database: identifiers, addresses, user handles and live passkey
  credentials are unique, every reference resolves, and every row can be decoded.  It holds of
  the empty database and every call keeps it.
\<close>

definition accounts_ok :: "IdentityDb \<Rightarrow> bool" where
  "accounts_ok db =
     (distinct (map acc_id (id_accounts db)) \<and> distinct (map acc_email_lookup (id_accounts db))
      \<and> distinct (map acc_webauthn_user_handle (id_accounts db))
      \<and> (\<forall>r \<in> set (id_accounts db). \<not> isl (account_status_parse (acc_status r))))"

definition challenges_ok :: "IdentityDb \<Rightarrow> bool" where
  "challenges_ok db =
     (distinct (map ch_id (id_challenges db))
      \<and> (\<forall>r \<in> set (id_challenges db).
           \<not> isl (purpose_parse (ch_purpose r)) \<and> 0 \<le> ch_attempts r \<and> ch_attempts r < 2 ^ 32
           \<and> is_none_or (account_exists db) (ch_account_id r)))"

definition sessions_ok :: "IdentityDb \<Rightarrow> bool" where
  "sessions_ok db =
     (distinct (map ses_id (id_sessions db))
      \<and> (\<forall>r \<in> set (id_sessions db).
           \<not> isl (session_kind_parse (ses_kind r)) \<and> account_exists db (ses_account_id r)
           \<and> is_none_or (api_key_exists db) (ses_api_key_id r)))"

definition live_credentials :: "PasskeyCredential list \<Rightarrow> string list" where
  "live_credentials t = map pk_credential_id (filter (\<lambda>r. pk_revoked_at r = None) t)"

definition passkeys_ok :: "IdentityDb \<Rightarrow> bool" where
  "passkeys_ok db =
     (distinct (map pk_id (id_passkeys db)) \<and> distinct (live_credentials (id_passkeys db))
      \<and> (\<forall>r \<in> set (id_passkeys db). account_exists db (pk_account_id r)))"

definition keys_ok :: "IdentityDb \<Rightarrow> bool" where
  "keys_ok db =
     (distinct (map key_id (id_api_keys db))
      \<and> (\<forall>r \<in> set (id_api_keys db). account_exists db (key_account_id r)))"

definition identity_ok :: "IdentityDb \<Rightarrow> bool" where
  "identity_ok db =
     (accounts_ok db \<and> challenges_ok db \<and> sessions_ok db \<and> passkeys_ok db \<and> keys_ok db)"

lemmas identity_ok_defs =
  identity_ok_def accounts_ok_def challenges_ok_def sessions_ok_def passkeys_ok_def keys_ok_def

lemma identity_ok_distinct:
  assumes "identity_ok db"
  shows "distinct (map acc_id (id_accounts db))" "distinct (map acc_email_lookup (id_accounts db))"
    "distinct (map ch_id (id_challenges db))" "distinct (map ses_id (id_sessions db))"
    "distinct (map pk_id (id_passkeys db))" "distinct (map key_id (id_api_keys db))"
  using assms by (simp_all add: identity_ok_defs)

section \<open>What an edit keeps\<close>

lemma account_edit_keeps:
  "account_edit r r' \<Longrightarrow> acc_id r' = acc_id r \<and> acc_email_lookup r' = acc_email_lookup r
     \<and> acc_webauthn_user_handle r' = acc_webauthn_user_handle r \<and> acc_status r' = acc_status r
     \<and> acc_email r' = acc_email r \<and> acc_created_at r' = acc_created_at r"
  by (auto simp: account_edit_def)

lemma challenge_edit_keeps:
  "challenge_edit r r' \<Longrightarrow> ch_id r' = ch_id r \<and> ch_purpose r' = ch_purpose r
     \<and> ch_account_id r' = ch_account_id r \<and> ch_email_lookup r' = ch_email_lookup r
     \<and> ch_expires_at r' = ch_expires_at r \<and> ch_created_at r' = ch_created_at r
     \<and> ch_attempts r \<le> ch_attempts r'"
  unfolding challenge_edit_def by fastforce

lemma session_edit_keeps:
  "session_edit r r' \<Longrightarrow> ses_id r' = ses_id r \<and> ses_kind r' = ses_kind r
     \<and> ses_account_id r' = ses_account_id r \<and> ses_api_key_id r' = ses_api_key_id r
     \<and> ses_absolute_expires_at r' = ses_absolute_expires_at r
     \<and> ses_token_digest r' = ses_token_digest r"
  unfolding session_edit_def by fastforce

lemma passkey_edit_keeps:
  "passkey_edit r r' \<Longrightarrow> pk_id r' = pk_id r \<and> pk_credential_id r' = pk_credential_id r
     \<and> pk_account_id r' = pk_account_id r"
  unfolding passkey_edit_def by fastforce

lemma key_edit_keeps:
  "key_edit r r' \<Longrightarrow> key_id r' = key_id r \<and> key_account_id r' = key_account_id r
     \<and> key_secret_digest r' = key_secret_digest r \<and> key_expires_at r' = key_expires_at r"
  unfolding key_edit_def by fastforce

lemma challenge_edit_done: "challenge_edit r r' \<Longrightarrow> ch_consumed_at r \<noteq> None \<Longrightarrow> r' = r"
  by (auto simp: challenge_edit_def)

lemma session_edit_done: "session_edit r r' \<Longrightarrow> ses_revoked_at r \<noteq> None \<Longrightarrow> r' = r"
  by (auto simp: session_edit_def)

lemma passkey_edit_done: "passkey_edit r r' \<Longrightarrow> pk_revoked_at r \<noteq> None \<Longrightarrow> r' = r"
  by (auto simp: passkey_edit_def)

lemma key_edit_done: "key_edit r r' \<Longrightarrow> key_revoked_at r \<noteq> None \<Longrightarrow> r' = r"
  by (auto simp: key_edit_def)

lemma challenge_edit_attempts: "challenge_edit r r' \<Longrightarrow> ch_attempts r < 2 ^ 32 \<Longrightarrow> ch_attempts r' < 2 ^ 32"
  by (auto simp: challenge_edit_def)

lemma list_all2_map_same:
  "list_all2 E t t' \<Longrightarrow> (\<And>r r'. E r r' \<Longrightarrow> g r' = g r) \<Longrightarrow> map g t' = map g t"
  by (induction rule: list_all2_induct) auto

lemma list_all2_ball:
  "list_all2 E t t' \<Longrightarrow> \<forall>r \<in> set t. P r \<Longrightarrow> (\<And>r r'. E r r' \<Longrightarrow> P r \<Longrightarrow> P r') \<Longrightarrow> \<forall>r \<in> set t'. P r"
  by (induction rule: list_all2_induct) auto

lemma live_credentials_edit:
  assumes "list_all2 passkey_edit t t'" "distinct (live_credentials t)"
  shows "distinct (live_credentials t') \<and> set (live_credentials t') \<subseteq> set (live_credentials t)"
  using assms
proof (induction rule: list_all2_induct)
  case (Cons r t r' t')
  have "pk_credential_id r' = pk_credential_id r" using Cons.hyps(1) by (auto dest: passkey_edit_keeps)
  moreover have "pk_revoked_at r \<noteq> None \<Longrightarrow> r' = r" using Cons.hyps(1) by (rule passkey_edit_done)
  ultimately show ?case using Cons by (cases "pk_revoked_at r = None") (auto simp: live_credentials_def)
qed (simp add: live_credentials_def)

lemma account_exists_iff: "account_exists db a \<longleftrightarrow> a \<in> set (map acc_id (id_accounts db))"
  by (auto simp: account_exists_def list_ex_iff)

lemma api_key_exists_iff: "api_key_exists db k \<longleftrightarrow> k \<in> set (map key_id (id_api_keys db))"
  by (auto simp: api_key_exists_def list_ex_iff)

lemma is_none_or_mono: "is_none_or p x \<Longrightarrow> (\<And>a. p a \<Longrightarrow> q a) \<Longrightarrow> is_none_or q x"
  by (cases x) auto

section \<open>What an insertion requires and does\<close>

lemma list_ex_key: "list_ex (\<lambda>r. k r = v) t \<longleftrightarrow> v \<in> k ` set t"
  by (induction t) auto

lemma list_ex_live_credential:
  "list_ex (\<lambda>r. pk_credential_id r = v \<and> pk_revoked_at r = None) t \<longleftrightarrow> v \<in> set (live_credentials t)"
  by (induction t) (auto simp: live_credentials_def)

lemma insert_account_row_Inr:
  "insert_account_row db r = Inr db' \<longleftrightarrow>
     db' = db\<lparr>id_accounts := id_accounts db @ [r]\<rparr> \<and> acc_id r \<notin> acc_id ` set (id_accounts db)
     \<and> acc_email_lookup r \<notin> acc_email_lookup ` set (id_accounts db)
     \<and> acc_webauthn_user_handle r \<notin> acc_webauthn_user_handle ` set (id_accounts db)"
  by (auto simp: insert_account_row_def list_ex_key)

lemma insert_challenge_Inr:
  "insert_challenge db c = Inr db' \<longleftrightarrow>
     db' = db\<lparr>id_challenges := id_challenges db @ [challenge_row c]\<rparr>
     \<and> ch_id c \<notin> ch_id ` set (id_challenges db) \<and> is_none_or (account_exists db) (ch_account_id c)"
  by (auto simp: insert_challenge_def list_ex_key)

lemma insert_session_Inr:
  "insert_session db s = Inr db' \<longleftrightarrow>
     db' = db\<lparr>id_sessions := id_sessions db @ [session_row s]\<rparr>
     \<and> ses_id s \<notin> ses_id ` set (id_sessions db) \<and> account_exists db (ses_account_id s)
     \<and> is_none_or (api_key_exists db) (ses_api_key_id s)"
  by (auto simp: insert_session_def list_ex_key)

lemma insert_passkey_Inr:
  "insert_passkey db p = Inr db' \<longleftrightarrow>
     db' = db\<lparr>id_passkeys := id_passkeys db @ [p]\<rparr> \<and> pk_id p \<notin> pk_id ` set (id_passkeys db)
     \<and> (pk_revoked_at p = None \<longrightarrow> pk_credential_id p \<notin> set (live_credentials (id_passkeys db)))
     \<and> account_exists db (pk_account_id p)"
  by (auto simp: insert_passkey_def list_ex_key list_ex_live_credential)

lemma insert_api_key_Inr:
  "insert_api_key db k = Inr db' \<longleftrightarrow>
     db' = db\<lparr>id_api_keys := id_api_keys db @ [k]\<rparr> \<and> key_id k \<notin> key_id ` set (id_api_keys db)
     \<and> account_exists db (key_account_id k)"
  by (auto simp: insert_api_key_def list_ex_key)


lemmas insertions =
  insert_account_row_Inr insert_challenge_Inr insert_session_Inr insert_passkey_Inr insert_api_key_Inr

text \<open>References stay resolved while accounts and keys are only added.\<close>


lemma grow_keeps_references:
  assumes "grow X db db'"
  shows "account_exists db a \<Longrightarrow> account_exists db' a" "api_key_exists db k \<Longrightarrow> api_key_exists db' k"
proof -
  have "account_exists db' a" if "account_exists db a"
    using assms
  proof cases
    case (edit_accounts t)
    have "map acc_id t = map acc_id (id_accounts db)"
      by (rule list_all2_map_same [OF edit_accounts(2)]) (simp add: account_edit_keeps)
    with that edit_accounts(1) show ?thesis by (simp add: account_exists_iff del: set_map list.set_map)
  qed (insert that, auto simp: account_exists_def insertions)
  then show "account_exists db a \<Longrightarrow> account_exists db' a" .
  have "api_key_exists db' k" if "api_key_exists db k"
    using assms
  proof cases
    case (edit_keys t)
    have "map key_id t = map key_id (id_api_keys db)"
      by (rule list_all2_map_same [OF edit_keys(2)]) (simp add: key_edit_keeps)
    with that edit_keys(1) show ?thesis by (simp add: api_key_exists_iff del: set_map list.set_map)
  qed (insert that, auto simp: api_key_exists_def insertions)
  then show "api_key_exists db k \<Longrightarrow> api_key_exists db' k" .
qed

section \<open>Steps keep the invariant\<close>

lemma accounts_ok_grow:
  assumes "accounts_ok db" "grow X db db'"
  shows "accounts_ok db'"
  using assms(2)
proof cases
  case (edit_accounts t)
  note m = list_all2_map_same [OF edit_accounts(2)]
  have "map acc_id t = map acc_id (id_accounts db)"
    "map acc_email_lookup t = map acc_email_lookup (id_accounts db)"
    "map acc_webauthn_user_handle t = map acc_webauthn_user_handle (id_accounts db)"
    by (rule m, simp add: account_edit_keeps)+
  moreover have "\<forall>r \<in> set t. \<not> isl (account_status_parse (acc_status r))"
    by (rule list_all2_ball [OF edit_accounts(2)])
      (use assms(1) in \<open>simp_all add: accounts_ok_def account_edit_keeps\<close>)
  ultimately show ?thesis using assms(1) edit_accounts(1) by (simp add: accounts_ok_def)
next
  case (add_account a)
  then show ?thesis using assms(1) by (auto simp: accounts_ok_def insertions account_row_def)
qed (use assms(1) in \<open>auto simp: accounts_ok_def insertions\<close>)

lemma challenges_ok_grow:
  assumes "challenges_ok db" "grow X db db'"
  shows "challenges_ok db'"
proof -
  have refs: "is_none_or (account_exists db') x" if "is_none_or (account_exists db) x" for x
    using that grow_keeps_references(1) [OF assms(2)] by (rule is_none_or_mono)
  show ?thesis
    using assms(2)
  proof cases
    case (edit_challenges t)
    have "map ch_id t = map ch_id (id_challenges db)"
      by (rule list_all2_map_same [OF edit_challenges(2)]) (simp add: challenge_edit_keeps)
    moreover have "\<forall>r \<in> set t. \<not> isl (purpose_parse (ch_purpose r)) \<and> 0 \<le> ch_attempts r
        \<and> ch_attempts r < 2 ^ 32 \<and> is_none_or (account_exists db') (ch_account_id r)"
    proof (rule list_all2_ball [OF edit_challenges(2)])
      show "\<forall>r \<in> set (id_challenges db). \<not> isl (purpose_parse (ch_purpose r)) \<and> 0 \<le> ch_attempts r
        \<and> ch_attempts r < 2 ^ 32 \<and> is_none_or (account_exists db') (ch_account_id r)"
        using assms(1) refs by (auto simp: challenges_ok_def)
    qed (frule challenge_edit_keeps, frule challenge_edit_attempts, auto)
    ultimately show ?thesis using assms(1) edit_challenges(1) by (simp add: challenges_ok_def)
  next
    case (add_challenge c)
    moreover have "uint (ch_attempts c) < 2 ^ 32" using uint_lt2p [of "ch_attempts c"] by simp
    ultimately show ?thesis
      using assms(1) refs by (auto simp: challenges_ok_def insertions challenge_row_def)
  qed (use assms(1) refs in \<open>auto simp: challenges_ok_def insertions\<close>)
qed

lemma sessions_ok_grow:
  assumes "sessions_ok db" "grow X db db'"
  shows "sessions_ok db'"
proof -
  have keys: "is_none_or (api_key_exists db') x" if "is_none_or (api_key_exists db) x" for x
    using that grow_keeps_references(2) [OF assms(2)] by (rule is_none_or_mono)
  note refs = grow_keeps_references(1) [OF assms(2)] keys
  show ?thesis
    using assms(2)
  proof cases
    case (edit_sessions t)
    have "map ses_id t = map ses_id (id_sessions db)"
      by (rule list_all2_map_same [OF edit_sessions(2)]) (simp add: session_edit_keeps)
    moreover have "\<forall>r \<in> set t. \<not> isl (session_kind_parse (ses_kind r)) \<and> account_exists db' (ses_account_id r)
        \<and> is_none_or (api_key_exists db') (ses_api_key_id r)"
      by (rule list_all2_ball [OF edit_sessions(2)])
        (use assms(1) refs in \<open>auto simp: sessions_ok_def session_edit_keeps\<close>)
    ultimately show ?thesis using assms(1) edit_sessions(1) by (simp add: sessions_ok_def)
  next
    case (add_session s)
    then show ?thesis
      using assms(1) refs by (auto simp: sessions_ok_def insertions session_row_def)
  qed (use assms(1) refs in \<open>auto simp: sessions_ok_def insertions\<close>)
qed

lemma passkeys_ok_grow:
  assumes "passkeys_ok db" "grow X db db'"
  shows "passkeys_ok db'"
proof -
  note refs = grow_keeps_references(1) [OF assms(2)]
  show ?thesis
    using assms(2)
  proof cases
    case (edit_passkeys t)
    have "map pk_id t = map pk_id (id_passkeys db)"
      by (rule list_all2_map_same [OF edit_passkeys(2)]) (simp add: passkey_edit_keeps)
    moreover have "\<forall>r \<in> set t. account_exists db' (pk_account_id r)"
      by (rule list_all2_ball [OF edit_passkeys(2)])
        (use assms(1) refs in \<open>auto simp: passkeys_ok_def passkey_edit_keeps\<close>)
    moreover have "distinct (live_credentials t)"
      using live_credentials_edit [OF edit_passkeys(2)] assms(1) by (simp add: passkeys_ok_def)
    ultimately show ?thesis using edit_passkeys(1) assms(1) by (simp add: passkeys_ok_def)
  next
    case (add_passkey p)
    then show ?thesis
      using assms(1) refs by (auto simp: passkeys_ok_def insertions live_credentials_def)
  qed (use assms(1) refs in \<open>auto simp: passkeys_ok_def insertions\<close>)
qed

lemma keys_ok_grow:
  assumes "keys_ok db" "grow X db db'"
  shows "keys_ok db'"
proof -
  note refs = grow_keeps_references(1) [OF assms(2)]
  show ?thesis
    using assms(2)
  proof cases
    case (edit_keys t)
    have "map key_id t = map key_id (id_api_keys db)"
      by (rule list_all2_map_same [OF edit_keys(2)]) (simp add: key_edit_keeps)
    moreover have "\<forall>r \<in> set t. account_exists db' (key_account_id r)"
      by (rule list_all2_ball [OF edit_keys(2)])
        (use assms(1) refs in \<open>auto simp: keys_ok_def key_edit_keeps\<close>)
    ultimately show ?thesis using edit_keys(1) assms(1) by (simp add: keys_ok_def)
  qed (use assms(1) refs in \<open>auto simp: keys_ok_def insertions\<close>)
qed

lemma identity_ok_grow: "identity_ok db \<Longrightarrow> grow X db db' \<Longrightarrow> identity_ok db'"
  unfolding identity_ok_def
  by (blast intro: accounts_ok_grow challenges_ok_grow sessions_ok_grow passkeys_ok_grow keys_ok_grow)


lemma identity_ok_grows: "grows X db db' \<Longrightarrow> identity_ok db \<Longrightarrow> identity_ok db'"
  by (induction rule: rtranclp_induct) (auto intro: identity_ok_grow)

lemma distinct_map_filterI: "distinct (map f t) \<Longrightarrow> distinct (map f (filter p t))"
  by (rule distinct_map_filter)

lemma identity_ok_shrinks: "shrinks db db' \<Longrightarrow> identity_ok db \<Longrightarrow> identity_ok db'"
  by (auto simp: shrinks_def identity_ok_defs account_exists_def [abs_def] api_key_exists_def [abs_def]
      intro: distinct_map_filterI)

lemma identity_ok_step: "identity_ok db \<Longrightarrow> identity_ok (identity_step db c)"
  by (cases "deletes c")
    (blast intro: identity_ok_shrinks identity_step_shrinks,
     blast intro: identity_ok_grows identity_step_grows)

lemma identity_ok_run: "identity_ok db \<Longrightarrow> identity_ok (identity_run db cs)"
  unfolding identity_run_def
  by (induction cs arbitrary: db) (auto intro: identity_ok_step)

lemma identity_ok_empty: "identity_ok empty_identity_db"
  by (simp add: identity_ok_defs empty_identity_db_def live_credentials_def)

end
