(* ===== verification/Auth_Tokens.thy ===== *)
theory Auth_Tokens
  imports Text
begin

text \<open>
  Secrets of the authentication service (\<open>src/auth.rs\<close>): the text of structured tokens, the random
  sign-in code, the digests that are stored instead of secrets, and the normalisation of user
  input.  UUID text, SHA-256, HMAC, base64url, the Unicode lower-case tables and the grammar of
  email addresses are third-party or table data: they are the fields of a record \<open>crypto\<close> that
  every definition takes.  Strings are lists of UTF-8 bytes.
\<close>

record crypto =
  x_uuid_str :: "uuid \<Rightarrow> string"
  x_uuid_parse :: "string \<Rightarrow> uuid option"
  x_uuid_bytes :: "uuid \<Rightarrow> bytes"
  x_sha256 :: "string \<Rightarrow> bytes"
  x_hmac_sha256 :: "bytes \<Rightarrow> bytes \<Rightarrow> bytes"
  x_base64url :: "bytes \<Rightarrow> string"
  x_to_lowercase :: "string \<Rightarrow> string"
  x_email_address :: "string \<Rightarrow> bool"

definition byte_of :: "char \<Rightarrow> u8" where
  "byte_of c = of_nat (of_char c)"

section \<open>Digests and secrets\<close>

definition secret_digest :: "crypto \<Rightarrow> string \<Rightarrow> string" where
  "secret_digest X secret = x_base64url X (x_sha256 X secret)"

definition code_digest :: "crypto \<Rightarrow> bytes \<Rightarrow> uuid \<Rightarrow> string \<Rightarrow> string" where
  "code_digest X pepper challenge_id code =
     x_base64url X (x_hmac_sha256 X pepper (x_uuid_bytes X challenge_id @ map byte_of code))"

text \<open>The bytes of the operating system, or a failure of its random source.\<close>

definition random_secret :: "crypto \<Rightarrow> bytes option \<Rightarrow> string option" where
  "random_secret X bytes = map_option (x_base64url X) bytes"

text \<open>Equality; that it takes constant time is not part of the model.\<close>

definition constant_time_eq :: "string \<Rightarrow> string \<Rightarrow> bool" where
  "constant_time_eq left right = (left = right)"

section \<open>Sign-in codes\<close>

definition code_range :: u32 where
  "code_range = 100000000"

definition code_limit :: u32 where
  "code_limit = - 1 - (- 1 mod code_range)"

definition from_le_bytes :: "bytes \<Rightarrow> u32" where
  "from_le_bytes bs = word_rcat (rev bs)"

definition code_of_draw :: "u32 \<Rightarrow> string option" where
  "code_of_draw v =
     (if v < code_limit then Some (zero_padded 8 (unat (v mod code_range))) else None)"

text \<open>
  The loop draws four bytes until the value is below the limit.  \<open>None\<close>: the listed draws were all
  rejected; \<open>Some (Inl ())\<close>: the random source failed.
\<close>

fun random_code :: "bytes option list \<Rightarrow> (unit + string) option" where
  "random_code [] = None"
| "random_code (None # draws) = Some (Inl ())"
| "random_code (Some bs # draws) =
     (case code_of_draw (from_le_bytes bs) of
        Some code \<Rightarrow> Some (Inr code)
      | None \<Rightarrow> random_code draws)"

section \<open>Tokens\<close>

definition format_prefixed_token :: "crypto \<Rightarrow> string \<Rightarrow> uuid list \<Rightarrow> string \<Rightarrow> string" where
  "format_prefixed_token X kind ids secret =
     ''seiza_'' @ kind @ concat (map (\<lambda>i. CHR ''_'' # x_uuid_str X i) ids) @ CHR ''_'' # secret"

text \<open>\<open>str::splitn(n, c)\<close>: at most \<open>n\<close> parts, the last one unsplit.\<close>

fun splitn :: "nat \<Rightarrow> char \<Rightarrow> string \<Rightarrow> string list" where
  "splitn 0 c s = []"
| "splitn (Suc 0) c s = [s]"
| "splitn (Suc (Suc n)) c s =
     (if c \<in> set s
      then takeWhile (\<lambda>x. x \<noteq> c) s # splitn (Suc n) c (tl (dropWhile (\<lambda>x. x \<noteq> c) s))
      else [s])"

fun parse_ids :: "crypto \<Rightarrow> nat \<Rightarrow> string list \<Rightarrow> (uuid list \<times> string list) option" where
  "parse_ids X 0 parts = Some ([], parts)"
| "parse_ids X (Suc n) [] = None"
| "parse_ids X (Suc n) (p # parts) =
     (case x_uuid_parse X p of
        None \<Rightarrow> None
      | Some i \<Rightarrow> map_option (apfst ((#) i)) (parse_ids X n parts))"

definition parse_prefixed_token ::
  "crypto \<Rightarrow> nat \<Rightarrow> string \<Rightarrow> string \<Rightarrow> (uuid list \<times> string) option" where
  "parse_prefixed_token X n token kind =
     (case splitn (3 + n) (CHR ''_'') token of
        p # k # parts \<Rightarrow>
          if p \<noteq> ''seiza'' \<or> k \<noteq> kind then None
          else (case parse_ids X n parts of
                  Some (ids, secret # _) \<Rightarrow> if secret = [] then None else Some (ids, secret)
                | _ \<Rightarrow> None)
      | _ \<Rightarrow> None)"

definition parse_login_token :: "crypto \<Rightarrow> string \<Rightarrow> (uuid \<times> string) option" where
  "parse_login_token X token =
     map_option (\<lambda>(ids, secret). (ids ! 0, secret)) (parse_prefixed_token X 1 token ''login'')"

definition parse_session_token :: "crypto \<Rightarrow> string \<Rightarrow> (uuid \<times> uuid \<times> string) option" where
  "parse_session_token X token =
     map_option (\<lambda>(ids, secret). (ids ! 0, ids ! 1, secret)) (parse_prefixed_token X 2 token ''session'')"

definition parse_api_key_token :: "crypto \<Rightarrow> string \<Rightarrow> (uuid \<times> uuid \<times> string) option" where
  "parse_api_key_token X token =
     map_option (\<lambda>(ids, secret). (ids ! 0, ids ! 1, secret)) (parse_prefixed_token X 2 token ''key'')"

section \<open>Text of the user\<close>

definition normalize_email :: "crypto \<Rightarrow> string \<Rightarrow> string option" where
  "normalize_email X v =
     (let normalized = x_to_lowercase X (trim v) in
      if x_email_address X normalized then Some normalized else None)"

definition normalize_passkey_label :: "string \<Rightarrow> string option" where
  "normalize_passkey_label label =
     (let label = trim label in
      if label = [] \<or> 80 < chars_count label then None else Some label)"

section \<open>Token round trip\<close>

text \<open>The documented behaviour of UUID text that the token format relies on.\<close>

definition uuid_text_ok :: "crypto \<Rightarrow> bool" where
  "uuid_text_ok X =
     (\<forall>i. x_uuid_parse X (x_uuid_str X i) = Some i \<and> CHR ''_'' \<notin> set (x_uuid_str X i))"

definition sample_crypto :: crypto where
  "sample_crypto = \<lparr>x_uuid_str = \<lambda>i. decimal (unat i), x_uuid_parse = \<lambda>s. Some (of_nat (decimal_value s)),
     x_uuid_bytes = \<lambda>i. [], x_sha256 = map byte_of, x_hmac_sha256 = \<lambda>k m. k @ m,
     x_base64url = map (\<lambda>b. char_of (unat b)), x_to_lowercase = id,
     x_email_address = \<lambda>s. CHR ''@'' \<in> set s\<rparr>"

lemma digit_not_underscore: "d < 10 \<Longrightarrow> digit d \<noteq> CHR ''_''"
  by (auto simp: digit_def dest: arg_cong [where f = "of_char :: char \<Rightarrow> nat"])

lemma sample_crypto_ok: "uuid_text_ok sample_crypto"
  using decimal_digits digit_not_underscore by (fastforce simp: uuid_text_ok_def sample_crypto_def)

lemma splitn_head: "c \<notin> set p \<Longrightarrow> splitn (Suc (Suc n)) c (p @ c # s) = p # splitn (Suc n) c s"
  by (auto simp: takeWhile_append dropWhile_append)

lemma splitn_ids:
  assumes "\<And>i. c \<notin> set (f i)"
  shows "splitn (Suc (length ids + n)) c (concat (map (\<lambda>i. f i @ [c]) ids) @ s)
         = map f ids @ splitn (Suc n) c s"
proof (induction ids)
  case (Cons i ids)
  have "splitn (Suc (Suc (length ids + n))) c (f i @ c # concat (map (\<lambda>i. f i @ [c]) ids) @ s)
      = f i # splitn (Suc (length ids + n)) c (concat (map (\<lambda>i. f i @ [c]) ids) @ s)"
    by (rule splitn_head) (rule assms)
  with Cons show ?case by simp
qed simp

lemma parse_ids_strings:
  "uuid_text_ok X \<Longrightarrow> parse_ids X (length ids) (map (x_uuid_str X) ids @ rest) = Some (ids, rest)"
  by (induction ids) (simp_all add: uuid_text_ok_def)

lemma separators_shift:
  "concat (map (\<lambda>i. c # f i) ids) @ c # s = c # concat (map (\<lambda>i. f i @ [c]) ids) @ s"
  by (induction ids) auto

lemma splitn_format:
  assumes "CHR ''_'' \<notin> set kind"
  shows "splitn (Suc (Suc (Suc n))) (CHR ''_'') (format_prefixed_token X kind ids secret)
    = ''seiza'' # kind
      # splitn (Suc n) (CHR ''_'') (concat (map (\<lambda>i. x_uuid_str X i @ ''_'') ids) @ secret)"
proof -
  let ?rest = "concat (map (\<lambda>i. x_uuid_str X i @ ''_'') ids) @ secret"
  have f: "format_prefixed_token X kind ids secret = ''seiza'' @ CHR ''_'' # kind @ CHR ''_'' # ?rest"
    by (simp add: format_prefixed_token_def separators_shift)
  have s: "CHR ''_'' \<notin> set ''seiza''" by simp
  show ?thesis unfolding f splitn_head [OF s] splitn_head [OF assms] by (rule refl)
qed

lemma parse_format_token:
  assumes "uuid_text_ok X" "CHR ''_'' \<notin> set kind" "secret \<noteq> []"
  shows "parse_prefixed_token X (length ids) (format_prefixed_token X kind ids secret) kind
         = Some (ids, secret)"
proof -
  have "splitn (Suc (length ids)) (CHR ''_'') (concat (map (\<lambda>i. x_uuid_str X i @ ''_'') ids) @ secret)
      = map (x_uuid_str X) ids @ [secret]"
    using splitn_ids [of "CHR ''_''" "x_uuid_str X" ids 0 secret] assms(1) by (simp add: uuid_text_ok_def)
  then have "splitn (3 + length ids) (CHR ''_'') (format_prefixed_token X kind ids secret)
      = ''seiza'' # kind # map (x_uuid_str X) ids @ [secret]"
    using splitn_format [OF assms(2), of "length ids" X ids secret] by (simp add: eval_nat_numeral)
  then show ?thesis
    using assms by (simp add: parse_prefixed_token_def parse_ids_strings)
qed

lemma parse_other_kind:
  assumes "CHR ''_'' \<notin> set k" "k \<noteq> kind"
  shows "parse_prefixed_token X n (format_prefixed_token X k ids secret) kind = None"
  using splitn_format [OF assms(1), of n X ids secret] assms(2)
  by (simp add: parse_prefixed_token_def eval_nat_numeral)

text \<open>
  C30: A token the server hands out is read back as the identifiers and the secret it was built
  from, even when the base64url secret contains underscores: the tokens of a sign-in link, of a
  session and of an API key, each under its own kind only.
\<close>

theorem token_round_trip:
  assumes "uuid_text_ok X" "secret \<noteq> []"
  shows "parse_login_token X (format_prefixed_token X ''login'' [i] secret) = Some (i, secret)
    \<and> parse_session_token X (format_prefixed_token X ''session'' [i, j] secret) = Some (i, j, secret)
    \<and> parse_api_key_token X (format_prefixed_token X ''key'' [i, j] secret) = Some (i, j, secret)
    \<and> parse_session_token X (format_prefixed_token X ''key'' [i, j] secret) = None
    \<and> parse_api_key_token X (format_prefixed_token X ''session'' [i, j] secret) = None"
  using parse_format_token [OF assms(1) _ assms(2), of "''login''" "[i]"]
    parse_format_token [OF assms(1) _ assms(2), of "''session''" "[i, j]"]
    parse_format_token [OF assms(1) _ assms(2), of "''key''" "[i, j]"]
  by (simp add: parse_login_token_def parse_session_token_def parse_api_key_token_def parse_other_kind
      numeral_2_eq_2)

theorem token_round_trip_witness:
  "parse_session_token sample_crypto (format_prefixed_token sample_crypto ''session'' [7, 8] ''a_b'')
   = Some (7, 8, ''a_b'')"
  using token_round_trip [OF sample_crypto_ok, of "''a_b''" 7 8] by simp

section \<open>The random code\<close>

lemma code_limit_value: "code_limit = 4200000000" "unat code_limit = 4200000000" "unat code_range = 100000000"
  by (simp_all add: code_limit_def code_range_def)

lemma residue_class:
  fixes m :: nat
  assumes "c < m"
  shows "card {n. n < k * m \<and> n mod m = c} = k"
proof -
  have "{n. n < k * m \<and> n mod m = c} = (\<lambda>j. c + j * m) ` {..<k}"
  proof (intro equalityI subsetI)
    fix n assume "n \<in> {n. n < k * m \<and> n mod m = c}"
    then have n: "n < k * m" "n mod m = c" by auto
    have "n = c + n div m * m" using n(2) by (metis add.commute div_mult_mod_eq)
    moreover have "n div m < k" using n(1) by (simp add: less_mult_imp_div_less)
    ultimately show "n \<in> (\<lambda>j. c + j * m) ` {..<k}" by blast
  next
    fix n assume "n \<in> (\<lambda>j. c + j * m) ` {..<k}"
    then obtain j where j: "n = c + j * m" "j < k" by auto
    have "c + j * m < Suc j * m" using assms by simp
    also have "\<dots> \<le> k * m" by (rule mult_le_mono1) (simp add: j(2) Suc_leI)
    finally show "n \<in> {n. n < k * m \<and> n mod m = c}" using j(1) assms by simp
  qed
  moreover have "inj_on (\<lambda>j. c + j * m) {..<k}" using assms by (auto intro!: inj_onI)
  ultimately show ?thesis by (simp add: card_image)
qed

lemma code_of_draw_Some:
  "code_of_draw v = Some (zero_padded 8 c)
   \<longleftrightarrow> unat v < 42 * 100000000 \<and> unat v mod 100000000 = c"
  by (auto simp: code_of_draw_def word_less_nat_alt code_limit_value unat_mod)

lemma draws_of_code:
  assumes "c < 100000000"
  shows "card {v. code_of_draw v = Some (zero_padded 8 c)} = 42"
proof -
  let ?N = "{n. n < 42 * (100000000 :: nat) \<and> n mod 100000000 = c}"
  have "unat ` {v. code_of_draw v = Some (zero_padded 8 c)} = ?N"
  proof (intro equalityI subsetI)
    fix n assume n: "n \<in> ?N"
    then have "unat (of_nat n :: u32) = n" by (simp add: unat_of_nat take_bit_nat_eq_self)
    with n have "code_of_draw (of_nat n) = Some (zero_padded 8 c)" by (simp add: code_of_draw_Some)
    with \<open>unat (of_nat n :: u32) = n\<close> show "n \<in> unat ` {v. code_of_draw v = Some (zero_padded 8 c)}"
      by (metis (mono_tags, lifting) image_eqI mem_Collect_eq)
  qed (auto simp: code_of_draw_Some)
  moreover have "inj_on unat {v :: u32. code_of_draw v = Some (zero_padded 8 c)}"
    by (rule inj_onI) (rule unsigned_word_eqI)
  then have "card (unat ` {v :: u32. code_of_draw v = Some (zero_padded 8 c)})
      = card {v :: u32. code_of_draw v = Some (zero_padded 8 c)}" by (rule card_image)
  ultimately show ?thesis using residue_class [OF assms, of 42] by (simp only:)
qed

lemma decimal_length: "n < 10 ^ Suc k \<Longrightarrow> length (decimal n) \<le> Suc k"
proof (induction k arbitrary: n)
  case 0
  then show ?case by (simp add: decimal.simps [of n])
next
  case (Suc k)
  show ?case
  proof (cases "n < 10")
    case False
    have "n div 10 < 10 ^ Suc k" using Suc.prems by (simp add: less_mult_imp_div_less)
    from Suc.IH [OF this] False show ?thesis by (simp add: decimal.simps [of n])
  qed (simp add: decimal.simps [of n])
qed

lemma zero_padded_length: "n < 10 ^ Suc k \<Longrightarrow> length (zero_padded (Suc k) n) = Suc k"
  using decimal_length [of n k] by (simp add: zero_padded_def)

text \<open>
  The sign-in code is an unbiased eight digit number.  The codes that an accepted draw of four
  random bytes can give are the 10^8 zero-padded eight digit numbers, and each of them is the
  result of the same number, 42, of draws; every code passes the length check of the sign-in form.
\<close>

theorem random_code_is_uniform:
  "{code. \<exists>v. code_of_draw v = Some code} = zero_padded 8 ` {..<100000000}
   \<and> card (zero_padded 8 ` {..<100000000}) = 100000000
   \<and> (\<lambda>code. card {v. code_of_draw v = Some code}) ` (zero_padded 8 ` {..<100000000}) = {42}
   \<and> length ` (zero_padded 8 ` {..<100000000}) = {8}
   \<and> \<Union> (set ` (zero_padded 8 ` {..<100000000})) \<subseteq> digit ` {0..<10}"
proof (intro conjI)
  show "{code. \<exists>v. code_of_draw v = Some code} = zero_padded 8 ` {..<100000000}"
  proof (intro equalityI subsetI)
    fix code assume "code \<in> {code. \<exists>v. code_of_draw v = Some code}"
    then obtain v where "code = zero_padded 8 (unat (v mod code_range))"
      by (auto simp: code_of_draw_def split: if_splits)
    moreover have "unat (v mod code_range) < 100000000" by (simp add: unat_mod code_limit_value)
    ultimately show "code \<in> zero_padded 8 ` {..<100000000}" by blast
  next
    fix code assume "code \<in> zero_padded 8 ` {..<100000000}"
    then obtain c where c: "code = zero_padded 8 c" "c < 100000000" by auto
    have "{v. code_of_draw v = Some (zero_padded 8 c)} \<noteq> {}"
      using draws_of_code [OF c(2)] by (metis card.empty zero_neq_numeral)
    then show "code \<in> {code. \<exists>v. code_of_draw v = Some code}" using c(1) by blast
  qed
  have "inj_on (zero_padded 8) {..<100000000}" by (rule inj_onI) simp
  then show "card (zero_padded 8 ` {..<100000000}) = 100000000" by (simp add: card_image)
  show "(\<lambda>code. card {v. code_of_draw v = Some code}) ` (zero_padded 8 ` {..<100000000}) = {42}"
    by (auto simp: image_image draws_of_code intro!: rev_image_eqI [of 0])
  show "length ` (zero_padded 8 ` {..<100000000}) = {8}"
    using zero_padded_length [of _ 7] by (auto simp: image_image intro!: rev_image_eqI [of 0])
  show "\<Union> (set ` (zero_padded 8 ` {..<100000000})) \<subseteq> digit ` {0..<10}"
    using zero_padded_digits by blast
qed

end
