(* ===== verification/Rate_Limit.thy ===== *)
theory Rate_Limit
  imports Prelude
begin

text \<open>
  The in-process limiters of \<open>src/rate_limit.rs\<close>: the token bucket that guards the public
  endpoints, and the rolling-window limiter for authentication email.  Token counts are exact
  rationals (\<open>f64\<close> rounding is not modelled); an \<open>Instant\<close> is a time, and
  \<open>duration_since\<close> saturates at zero.  A map is its list of entries with distinct keys.
\<close>

section \<open>Durations\<close>

definition duration_since :: "time \<Rightarrow> time \<Rightarrow> int" where
  "duration_since now earlier = max 0 (now - earlier)"

definition as_secs :: "int \<Rightarrow> rat" where
  "as_secs d = of_int d / of_int nanos_per_second"

abbreviation u64_max :: int where
  "u64_max \<equiv> 18446744073709551615"

text \<open>\<open>x.ceil().max(1.0) as u64\<close>: the cast saturates.\<close>

definition ceil_at_least_one :: "rat \<Rightarrow> int" where
  "ceil_at_least_one x = min (max \<lceil>x\<rceil> 1) u64_max"

section \<open>The token bucket\<close>

definition sweep_threshold_buckets :: nat where
  "sweep_threshold_buckets = 10000"

record Bucket =
  tokens :: rat
  updated_at :: time

record RateLimiter =
  rl_capacity :: rat
  rl_refill_per_second :: rat

type_synonym buckets = "(string \<times> Bucket) list"

definition new_limiter :: "rat \<Rightarrow> rat \<Rightarrow> RateLimiter" where
  "new_limiter per_minute capacity =
     \<lparr>rl_capacity = capacity, rl_refill_per_second = per_minute / 60\<rparr>"

definition refilled :: "RateLimiter \<Rightarrow> time \<Rightarrow> Bucket \<Rightarrow> rat" where
  "refilled lm now b = tokens b + as_secs (duration_since now (updated_at b)) * rl_refill_per_second lm"

definition sweep_buckets :: "RateLimiter \<Rightarrow> string \<Rightarrow> time \<Rightarrow> buckets \<Rightarrow> buckets" where
  "sweep_buckets lm identity now bs =
     (if sweep_threshold_buckets \<le> length bs \<and> map_of bs identity = None
      then filter (\<lambda>(_, b). refilled lm now b < rl_capacity lm) bs else bs)"

text \<open>The delay reported to a rejected client; a division by zero gives infinity.\<close>

definition retry_after :: "RateLimiter \<Rightarrow> rat \<Rightarrow> int" where
  "retry_after lm level =
     (if rl_refill_per_second lm = 0 then u64_max
      else ceil_at_least_one ((1 - level) / rl_refill_per_second lm))"

definition check :: "RateLimiter \<Rightarrow> buckets \<Rightarrow> string \<Rightarrow> time \<Rightarrow> (int + unit) \<times> buckets" where
  "check lm bs0 identity now =
     (let bs = sweep_buckets lm identity now bs0;
          bucket = (case map_of bs identity of
                      Some b \<Rightarrow> b
                    | None \<Rightarrow> \<lparr>tokens = rl_capacity lm, updated_at = now\<rparr>);
          level = min (refilled lm now bucket) (rl_capacity lm) in
      if 1 \<le> level
      then (Inr (), AList.update identity \<lparr>tokens = level - 1, updated_at = now\<rparr> bs)
      else (Inl (retry_after lm level), AList.update identity \<lparr>tokens = level, updated_at = now\<rparr> bs))"

section \<open>Email limits\<close>

record EmailSendRateLimits =
  source_window :: int
  source_budget :: nat
  source_daily_window :: int
  source_daily_budget :: nat
  recipient_cooldown :: int
  recipient_hour_window :: int
  recipient_hour_limit :: nat
  recipient_daily_window :: int
  recipient_daily_limit :: nat
  global_hour_window :: int
  global_hour_limit :: nat
  global_daily_window :: int
  global_daily_limit :: nat

definition default_email_limits :: EmailSendRateLimits where
  "default_email_limits = \<lparr>
     source_window = 15 * 60 * nanos_per_second, source_budget = 3,
     source_daily_window = 24 * 60 * 60 * nanos_per_second, source_daily_budget = 10,
     recipient_cooldown = 60 * nanos_per_second,
     recipient_hour_window = 60 * 60 * nanos_per_second, recipient_hour_limit = 3,
     recipient_daily_window = 24 * 60 * 60 * nanos_per_second, recipient_daily_limit = 10,
     global_hour_window = 60 * 60 * nanos_per_second, global_hour_limit = 100,
     global_daily_window = 24 * 60 * 60 * nanos_per_second, global_daily_limit = 1000\<rparr>"

record SourceSend =
  ss_at :: time
  ss_recipient :: string
  ss_window_cost :: nat
  ss_daily_cost :: nat

record EmailSendRateState =
  es_sources :: "(string \<times> SourceSend list) list"
  es_recipients :: "(string \<times> time list) list"
  es_global :: "time list"

definition empty_email_state :: EmailSendRateState where
  "empty_email_state = \<lparr>es_sources = [], es_recipients = [], es_global = []\<rparr>"

definition active :: "time \<Rightarrow> int \<Rightarrow> time \<Rightarrow> bool" where
  "active now window t_at = (duration_since now t_at < window)"

definition recipient_cost :: "SourceSend list \<Rightarrow> string \<Rightarrow> time \<Rightarrow> int \<Rightarrow> nat" where
  "recipient_cost events recipient now window =
     (let recent = filter (\<lambda>e. active now window (ss_at e)) events in
      if list_ex (\<lambda>e. ss_recipient e = recipient) recent then 1
      else if recent \<noteq> [] then 2 else 1)"

definition seconds_until_expiry :: "time \<Rightarrow> time \<Rightarrow> int \<Rightarrow> int" where
  "seconds_until_expiry event now window =
     ceil_at_least_one (as_secs (max 0 (window - duration_since now event)))"

abbreviation u32_max :: nat where
  "u32_max \<equiv> 4294967295"

definition saturating_add :: "nat \<Rightarrow> nat \<Rightarrow> nat" where
  "saturating_add a b = min (a + b) u32_max"

fun release_scan ::
  "(SourceSend \<Rightarrow> nat) \<Rightarrow> nat \<Rightarrow> nat \<Rightarrow> SourceSend list \<Rightarrow> time option" where
  "release_scan cost needed released [] = None"
| "release_scan cost needed released (e # es) =
     (if needed \<le> released + cost e then Some (ss_at e)
      else release_scan cost needed (released + cost e) es)"

definition weighted_retry_after ::
  "SourceSend list \<Rightarrow> time \<Rightarrow> int \<Rightarrow> nat \<Rightarrow> nat \<Rightarrow> (SourceSend \<Rightarrow> nat) \<Rightarrow> int option" where
  "weighted_retry_after events now window budget incoming_cost cost =
     (let act = filter (\<lambda>e. active now window (ss_at e)) events;
          total = sum_list (map cost act) in
      if saturating_add total incoming_cost \<le> budget then None
      else (case release_scan cost (saturating_add total incoming_cost - budget) 0 act of
              Some t_at \<Rightarrow> Some (seconds_until_expiry t_at now window)
            | None \<Rightarrow> Some (max (window div nanos_per_second) 1)))"

text \<open>The outer option is the panic of an index out of range, which a limit of zero causes.\<close>

definition count_retry_after :: "time list \<Rightarrow> time \<Rightarrow> int \<Rightarrow> nat \<Rightarrow> int option option" where
  "count_retry_after events now window limit =
     (let act = filter (active now window) events in
      if length act < limit then Some None
      else if length act + 1 - limit - 1 < length act
      then Some (Some (seconds_until_expiry (act ! (length act + 1 - limit - 1)) now window))
      else None)"

definition retain_recent :: "time \<Rightarrow> int \<Rightarrow> time list \<Rightarrow> time list" where
  "retain_recent now window events = dropWhile (\<lambda>t_at. window \<le> duration_since now t_at) events"

definition retain_recent_source :: "time \<Rightarrow> int \<Rightarrow> SourceSend list \<Rightarrow> SourceSend list" where
  "retain_recent_source now window events =
     dropWhile (\<lambda>e. window \<le> duration_since now (ss_at e)) events"

definition source_retention :: "EmailSendRateLimits \<Rightarrow> int" where
  "source_retention lm = max (source_window lm) (source_daily_window lm)"

definition recipient_retention :: "EmailSendRateLimits \<Rightarrow> int" where
  "recipient_retention lm =
     max (max (recipient_cooldown lm) (recipient_hour_window lm)) (recipient_daily_window lm)"

definition global_retention :: "EmailSendRateLimits \<Rightarrow> int" where
  "global_retention lm = max (global_hour_window lm) (global_daily_window lm)"

text \<open>One map of the state: the bucket of the key is trimmed, and a full map is swept.\<close>

definition sweep_map ::
  "('e list \<Rightarrow> 'e list) \<Rightarrow> string \<Rightarrow> (string \<times> 'e list) list \<Rightarrow> (string \<times> 'e list) list" where
  "sweep_map retain key m =
     (let m1 = map (\<lambda>(k, es). (k, if k = key then retain es else es)) m in
      if sweep_threshold_buckets \<le> length m1 \<and> map_of m1 key = None
      then filter (\<lambda>(_, es). es \<noteq> []) (map (\<lambda>(k, es). (k, retain es)) m1) else m1)"

definition sweep ::
  "EmailSendRateLimits \<Rightarrow> EmailSendRateState \<Rightarrow> string \<Rightarrow> string \<Rightarrow> time \<Rightarrow> EmailSendRateState" where
  "sweep lm st source recipient now =
     \<lparr>es_sources = sweep_map (retain_recent_source now (source_retention lm)) source (es_sources st),
      es_recipients = sweep_map (retain_recent now (recipient_retention lm)) recipient (es_recipients st),
      es_global = retain_recent now (global_retention lm) (es_global st)\<rparr>"

text \<open>\<open>entry(key).or_default()\<close>.\<close>

definition or_default :: "string \<Rightarrow> (string \<times> 'e list) list \<Rightarrow> (string \<times> 'e list) list" where
  "or_default key m = (if map_of m key = None then m @ [(key, [])] else m)"

definition events_of :: "(string \<times> 'e list) list \<Rightarrow> string \<Rightarrow> 'e list" where
  "events_of m key = (case map_of m key of Some es \<Rightarrow> es | None \<Rightarrow> [])"

fun flatten_retries :: "int option option list \<Rightarrow> int list option" where
  "flatten_retries [] = Some []"
| "flatten_retries (None # _) = None"
| "flatten_retries (Some r # rs) =
     (case flatten_retries rs of None \<Rightarrow> None
      | Some ns \<Rightarrow> Some (case r of None \<Rightarrow> ns | Some n \<Rightarrow> n # ns))"

text \<open>All retry delays that apply to a send, from the three event lists; \<open>None\<close> is a panic.\<close>

definition email_retries ::
  "EmailSendRateLimits \<Rightarrow> SourceSend list \<Rightarrow> time list \<Rightarrow> time list \<Rightarrow> string \<Rightarrow> time \<Rightarrow> int list option" where
  "email_retries lm source_events recipient_events global recipient now =
     flatten_retries
       [Some (weighted_retry_after source_events now (source_window lm) (source_budget lm)
                (recipient_cost source_events recipient now (source_window lm)) ss_window_cost),
        Some (weighted_retry_after source_events now (source_daily_window lm) (source_daily_budget lm)
                (recipient_cost source_events recipient now (source_daily_window lm)) ss_daily_cost),
        count_retry_after recipient_events now (recipient_cooldown lm) 1,
        count_retry_after recipient_events now (recipient_hour_window lm) (recipient_hour_limit lm),
        count_retry_after recipient_events now (recipient_daily_window lm) (recipient_daily_limit lm),
        count_retry_after global now (global_hour_window lm) (global_hour_limit lm),
        count_retry_after global now (global_daily_window lm) (global_daily_limit lm)]"

definition new_send :: "EmailSendRateLimits \<Rightarrow> SourceSend list \<Rightarrow> string \<Rightarrow> time \<Rightarrow> SourceSend" where
  "new_send lm source_events recipient now =
     \<lparr>ss_at = now, ss_recipient = recipient,
      ss_window_cost = recipient_cost source_events recipient now (source_window lm),
      ss_daily_cost = recipient_cost source_events recipient now (source_daily_window lm)\<rparr>"

text \<open>\<open>check_at\<close>; the option around the answer is \<open>None\<close> when the code panics.\<close>

definition check_at ::
  "EmailSendRateLimits \<Rightarrow> EmailSendRateState \<Rightarrow> string \<Rightarrow> string \<Rightarrow> time
    \<Rightarrow> (int + unit) option \<times> EmailSendRateState" where
  "check_at lm st0 source recipient now =
     (let st1 = sweep lm st0 source recipient now;
          st = st1\<lparr>es_sources := or_default source (es_sources st1),
                  es_recipients := or_default recipient (es_recipients st1)\<rparr>;
          source_events = events_of (es_sources st) source;
          recipient_events = events_of (es_recipients st) recipient in
      case email_retries lm source_events recipient_events (es_global st) recipient now of
        None \<Rightarrow> (None, st)
      | Some (r # rs) \<Rightarrow> (Some (Inl (fold max rs r)), st)
      | Some [] \<Rightarrow>
          (Some (Inr ()),
           \<lparr>es_sources = AList.update source
               (source_events @ [new_send lm source_events recipient now]) (es_sources st),
            es_recipients = AList.update recipient (recipient_events @ [now]) (es_recipients st),
            es_global = es_global st @ [now]\<rparr>))"

end
