(* ===== verification/Auth.thy ===== *)
theory Auth
  imports Auth_Tokens Identity_Repository Rate_Limit "HOL-Library.List_Lexorder" "HOL-Library.Char_ord"
begin

text \<open>
  The authentication service (\<open>src/auth.rs\<close>): sign-in by email, browser sessions and their CSRF
  token, API keys and the sessions that Astrometry-compatible clients mint from them.  A method
  takes the identity database (or the service's whole state) and returns its result and the new
  state.  The clock readings, fresh identifiers and random bytes of a call are its arguments, in
  the order in which the code reads them; \<open>None\<close> for random bytes is a failure of the random source.
\<close>

section \<open>Constants, errors and data\<close>

abbreviation minutes :: "int \<Rightarrow> int" where
  "minutes n \<equiv> n * 60 * nanos_per_second"

abbreviation days :: "int \<Rightarrow> int" where
  "days n \<equiv> n * 24 * 3600 * nanos_per_second"

definition challenge_lifetime :: int where "challenge_lifetime = minutes 10"
definition challenge_resend_delay :: int where "challenge_resend_delay = minutes 1"
definition max_live_email_challenges :: nat where "max_live_email_challenges = 3"
definition max_challenge_attempts :: u32 where "max_challenge_attempts = 5"
definition session_idle_lifetime :: int where "session_idle_lifetime = days 30"
definition session_absolute_lifetime :: int where "session_absolute_lifetime = days 90"
definition session_touch_interval :: int where "session_touch_interval = minutes 15"
definition recent_auth_lifetime :: int where "recent_auth_lifetime = minutes 10"
definition api_key_touch_interval :: int where "api_key_touch_interval = minutes 15"
definition max_live_astrometry_sessions_per_key :: nat where "max_live_astrometry_sessions_per_key = 20"
definition scope_solve_read :: string where "scope_solve_read = ''solve:read''"
definition scope_solve_submit :: string where "scope_solve_submit = ''solve:submit''"

datatype auth_error =
    InvalidEmail
  | InvalidCredential
  | RateLimited int
  | Delivery
  | Internal
  | RecentAuthenticationRequired
  | InvalidPasskeyLabel
  | InvalidApiKeyRequest

record EmailStart =
  em_challenge_id :: ChallengeId
  em_resend_at :: time

datatype EmailCredential =
    LinkToken string
  | EmailCode string ChallengeId string

datatype CandidateCredential =
    CandidateLink string
  | CandidateCode string string

record CompletedBrowserSignIn =
  cb_completion :: CompletedEmailSignIn
  cb_session_token :: string
  cb_csrf_token :: string

record AuthenticatedBrowserSession =
  ab_account :: Account
  ab_session :: AuthSession
  ab_csrf_token :: "string option"

record AuthenticatedApiKey =
  ak_account :: Account
  ak_api_key :: ApiKey

record AuthenticatedAstrometrySession =
  as_account :: Account
  as_session :: AuthSession
  as_queue_weight :: f64

record CreatedApiKey =
  ck_api_key :: ApiKey
  ck_token :: string

record CreatedAstrometrySession =
  ca_account :: Account
  ca_session :: AuthSession
  ca_token :: string

record SignInEmail =
  mail_to :: string
  mail_link :: string
  mail_code :: string
  mail_expires_minutes :: int

text \<open>
  The service: its digests, the pepper of the codes, and the \<open>url\<close> crate's join of the base URL with
  the sign-in page and the token; its state holds the database and the two limiters.
\<close>

record AuthConfig =
  cfg_crypto :: crypto
  cfg_code_pepper :: bytes
  cfg_sign_in_link :: "string \<Rightarrow> string option"

record AuthService =
  svc_db :: IdentityDb
  svc_email_limiter :: EmailSendRateState
  svc_source_limiter :: buckets

text \<open>The pepper file: trailing line breaks are dropped, and at least 32 bytes must remain.\<close>

definition load_pepper :: "bytes \<Rightarrow> bytes option" where
  "load_pepper contents =
     (let pepper = rev (dropWhile (\<lambda>b. b = 13 \<or> b = 10) (rev contents)) in
      if length pepper < 32 then None else Some pepper)"

text \<open>The limiter of unauthenticated passkey sign-ins: ten per minute, five at once.\<close>

definition source_limiter :: RateLimiter where
  "source_limiter = new_limiter 10 5"

definition internal :: "identity_error + 'a \<Rightarrow> auth_error + 'a" where
  "internal r = map_sum (\<lambda>_. Internal) id r"

section \<open>Starting a sign-in by email\<close>

definition email_login_challenge ::
  "AuthConfig \<Rightarrow> string \<Rightarrow> ChallengeId \<Rightarrow> string \<Rightarrow> string \<Rightarrow> time \<Rightarrow> AuthChallenge" where
  "email_login_challenge cfg email challenge_id link_secret code now = \<lparr>
     ch_id = challenge_id, ch_purpose = EmailLogin, ch_account_id = None,
     ch_email_lookup = Some email,
     ch_link_token_digest = Some (secret_digest (cfg_crypto cfg) link_secret),
     ch_code_digest = Some (code_digest (cfg_crypto cfg) (cfg_code_pepper cfg) challenge_id code),
     ch_webauthn_state_json = None, ch_attempts = 0, ch_created_at = now,
     ch_expires_at = now + challenge_lifetime, ch_consumed_at = None\<rparr>"

text \<open>
  The result also names the email handed to the sender, and \<open>delivered\<close> says whether the sender
  accepted it.  \<open>None\<close>: the limiter panicked, or no listed draw of the code was accepted.
\<close>

definition start_email ::
  "AuthConfig \<Rightarrow> AuthService \<Rightarrow> string \<Rightarrow> string \<Rightarrow> time \<Rightarrow> time \<Rightarrow> ChallengeId \<Rightarrow> bytes option
    \<Rightarrow> bytes option list \<Rightarrow> bool \<Rightarrow> ((auth_error + EmailStart) \<times> SignInEmail option \<times> AuthService) option"
where
  "start_email cfg svc email0 source instant now challenge_id link_bytes draws delivered =
     (case normalize_email (cfg_crypto cfg) email0 of
        None \<Rightarrow> Some (Inl InvalidEmail, None, svc)
      | Some email \<Rightarrow>
      let (verdict, limiter) = check_at default_email_limits (svc_email_limiter svc) source email instant;
          svc1 = svc\<lparr>svc_email_limiter := limiter\<rparr> in
      case verdict of
        None \<Rightarrow> None
      | Some (Inl retry) \<Rightarrow> Some (Inl (RateLimited retry), None, svc1)
      | Some (Inr ()) \<Rightarrow>
      case random_secret (cfg_crypto cfg) link_bytes of
        None \<Rightarrow> Some (Inl Internal, None, svc1)
      | Some link_secret \<Rightarrow>
      case random_code draws of
        None \<Rightarrow> None
      | Some (Inl ()) \<Rightarrow> Some (Inl Internal, None, svc1)
      | Some (Inr code) \<Rightarrow>
      let (stored, db) = create_email_challenge (svc_db svc1)
                           (email_login_challenge cfg email challenge_id link_secret code now)
                           max_live_email_challenges;
          svc2 = svc1\<lparr>svc_db := db\<rparr> in
      case stored of
        Inl _ \<Rightarrow> Some (Inl Internal, None, svc2)
      | Inr () \<Rightarrow>
      case cfg_sign_in_link cfg
             (format_prefixed_token (cfg_crypto cfg) ''login'' [challenge_id] link_secret) of
        None \<Rightarrow> Some (Inl Internal, None, svc2)
      | Some link \<Rightarrow>
          Some (if delivered
                then Inr \<lparr>em_challenge_id = challenge_id, em_resend_at = now + challenge_resend_delay\<rparr>
                else Inl Delivery,
                Some \<lparr>mail_to = email, mail_link = link, mail_code = code,
                      mail_expires_minutes = challenge_lifetime div minutes 1\<rparr>, svc2))"

section \<open>Completing a sign-in by email\<close>

definition ascii_digit :: "char \<Rightarrow> bool" where
  "ascii_digit c = (48 \<le> (of_char c :: nat) \<and> (of_char c :: nat) \<le> 57)"

definition candidate :: "AuthConfig \<Rightarrow> EmailCredential \<Rightarrow> auth_error + ChallengeId \<times> CandidateCredential" where
  "candidate cfg credential =
     (case credential of
        LinkToken token \<Rightarrow>
          (case parse_login_token (cfg_crypto cfg) token of
             None \<Rightarrow> Inl InvalidCredential
           | Some (challenge_id, secret) \<Rightarrow> Inr (challenge_id, CandidateLink secret))
      | EmailCode email0 challenge_id code \<Rightarrow>
          (case normalize_email (cfg_crypto cfg) email0 of
             None \<Rightarrow> Inl InvalidCredential
           | Some email \<Rightarrow>
               if length code \<noteq> 8 \<or> \<not> list_all ascii_digit code then Inl InvalidCredential
               else Inr (challenge_id, CandidateCode email code)))"

definition candidate_valid ::
  "AuthConfig \<Rightarrow> AuthChallenge \<Rightarrow> ChallengeId \<Rightarrow> string \<Rightarrow> CandidateCredential \<Rightarrow> bool" where
  "candidate_valid cfg challenge challenge_id email_lookup c =
     (case c of
        CandidateLink secret \<Rightarrow>
          is_some_and (\<lambda>digest. constant_time_eq digest (secret_digest (cfg_crypto cfg) secret))
            (ch_link_token_digest challenge)
      | CandidateCode email code \<Rightarrow>
          constant_time_eq email_lookup email
          \<and> is_some_and (\<lambda>digest. constant_time_eq digest
                (code_digest (cfg_crypto cfg) (cfg_code_pepper cfg) challenge_id code))
              (ch_code_digest challenge))"

definition email_account :: "AuthConfig \<Rightarrow> string \<Rightarrow> AccountId \<Rightarrow> time \<Rightarrow> Account" where
  "email_account cfg email_lookup account_id now = \<lparr>
     acc_id = account_id, acc_email = email_lookup, acc_email_lookup = email_lookup,
     acc_email_verified_at = now, acc_webauthn_user_handle = x_uuid_str (cfg_crypto cfg) account_id,
     acc_status = Active, acc_created_at = now, acc_updated_at = now,
     acc_last_authenticated_at = now\<rparr>"

definition browser_session ::
  "AuthConfig \<Rightarrow> SessionId \<Rightarrow> AccountId \<Rightarrow> string \<Rightarrow> string \<Rightarrow> time \<Rightarrow> AuthSession" where
  "browser_session cfg session_id account_id session_secret csrf_token now = \<lparr>
     ses_id = session_id, ses_token_digest = secret_digest (cfg_crypto cfg) session_secret,
     ses_account_id = account_id, ses_kind = Browser,
     ses_csrf_digest = Some (secret_digest (cfg_crypto cfg) csrf_token), ses_api_key_id = None,
     ses_created_at = now, ses_last_seen_at = now, ses_expires_at = now + session_idle_lifetime,
     ses_absolute_expires_at = now + session_absolute_lifetime, ses_revoked_at = None\<rparr>"

definition new_browser_session ::
  "AuthConfig \<Rightarrow> AccountId \<Rightarrow> time \<Rightarrow> bytes option \<Rightarrow> bytes option \<Rightarrow> SessionId
    \<Rightarrow> (AuthSession \<times> string \<times> string) option" where
  "new_browser_session cfg account_id now secret_bytes csrf_bytes session_id =
     (case random_secret (cfg_crypto cfg) secret_bytes of
        None \<Rightarrow> None
      | Some session_secret \<Rightarrow>
          (case random_secret (cfg_crypto cfg) csrf_bytes of
             None \<Rightarrow> None
           | Some csrf_token \<Rightarrow>
               Some (browser_session cfg session_id account_id session_secret csrf_token now,
                     session_secret, csrf_token)))"

definition open_for_sign_in :: "AuthChallenge \<Rightarrow> time \<Rightarrow> bool" where
  "open_for_sign_in challenge now =
     (\<not> (ch_purpose challenge \<noteq> EmailLogin \<or> ch_consumed_at challenge \<noteq> None
         \<or> ch_expires_at challenge \<le> now \<or> max_challenge_attempts \<le> ch_attempts challenge))"

definition complete_email ::
  "AuthConfig \<Rightarrow> IdentityDb \<Rightarrow> EmailCredential \<Rightarrow> time \<Rightarrow> AccountId \<Rightarrow> bytes option \<Rightarrow> bytes option
    \<Rightarrow> SessionId \<Rightarrow> (auth_error + CompletedBrowserSignIn) \<times> IdentityDb" where
  "complete_email cfg db credential now account_id secret_bytes csrf_bytes session_id =
     (case candidate cfg credential of
        Inl e \<Rightarrow> (Inl e, db)
      | Inr (challenge_id, cand) \<Rightarrow>
      case challenge_by_id db challenge_id of
        Inl _ \<Rightarrow> (Inl Internal, db)
      | Inr None \<Rightarrow> (Inl InvalidCredential, db)
      | Inr (Some challenge) \<Rightarrow>
      if \<not> open_for_sign_in challenge now then (Inl InvalidCredential, db)
      else case ch_email_lookup challenge of
        None \<Rightarrow> (Inl InvalidCredential, db)
      | Some email_lookup \<Rightarrow>
      if \<not> candidate_valid cfg challenge challenge_id email_lookup cand

      then let (recorded, db') = record_challenge_failure db challenge_id now max_challenge_attempts in
           (Inl (case recorded of Inl _ \<Rightarrow> Internal | Inr _ \<Rightarrow> InvalidCredential), db')
      else case new_browser_session cfg account_id now secret_bytes csrf_bytes session_id of
        None \<Rightarrow> (Inl Internal, db)
      | Some (new_session, session_secret, csrf_token) \<Rightarrow>
      let (completed, db') = complete_email_challenge db challenge_id now max_challenge_attempts
                               (email_account cfg email_lookup account_id now) new_session in
      case completed of
        Inl _ \<Rightarrow> (Inl Internal, db')
      | Inr None \<Rightarrow> (Inl InvalidCredential, db')
      | Inr (Some completion) \<Rightarrow>
          (Inr \<lparr>cb_completion = completion,
                cb_session_token = format_prefixed_token (cfg_crypto cfg) ''session''
                  [acc_id (ces_account completion), ses_id (ces_session completion)] session_secret,
                cb_csrf_token = csrf_token\<rparr>, db'))"

section \<open>Browser sessions\<close>

definition active_account :: "IdentityDb \<Rightarrow> AccountId \<Rightarrow> auth_error + Account" where
  "active_account db account_id =
     and_then (internal (account_by_id db account_id))
       (\<lambda>found. ok_or InvalidCredential (filter_option (\<lambda>a. acc_status a = Active) found))"

definition refresh_session ::
  "IdentityDb \<Rightarrow> AccountId \<Rightarrow> SessionId \<Rightarrow> time \<Rightarrow> AuthSession \<Rightarrow> AuthSession \<times> IdentityDb" where
  "refresh_session db account_id session_id now s =
     (if session_touch_interval \<le> now - ses_last_seen_at s
      then let expires_at = min (now + session_idle_lifetime) (ses_absolute_expires_at s);
               (touched, db') = touch_session db account_id session_id now expires_at in
           (if touched then s\<lparr>ses_last_seen_at := now, ses_expires_at := expires_at\<rparr> else s, db')
      else (s, db))"

definition session_accepts ::
  "AuthConfig \<Rightarrow> SessionKind \<Rightarrow> string \<Rightarrow> time \<Rightarrow> AuthSession \<Rightarrow> bool" where
  "session_accepts cfg kind secret now s =
     (ses_kind s = kind \<and> ses_revoked_at s = None \<and> now < ses_expires_at s
      \<and> now < ses_absolute_expires_at s
      \<and> constant_time_eq (ses_token_digest s) (secret_digest (cfg_crypto cfg) secret))"

definition authenticate_browser_session ::
  "AuthConfig \<Rightarrow> IdentityDb \<Rightarrow> string \<Rightarrow> string option \<Rightarrow> time
    \<Rightarrow> (auth_error + AuthenticatedBrowserSession) \<times> IdentityDb" where
  "authenticate_browser_session cfg db token csrf_cookie now =
     (case parse_session_token (cfg_crypto cfg) token of
        None \<Rightarrow> (Inl InvalidCredential, db)
      | Some (account_id, session_id, secret) \<Rightarrow>
      case and_then (internal (session db account_id session_id))
             (\<lambda>found. ok_or InvalidCredential (filter_option (session_accepts cfg Browser secret now) found)) of
        Inl e \<Rightarrow> (Inl e, db)
      | Inr s \<Rightarrow>
      case active_account db account_id of
        Inl e \<Rightarrow> (Inl e, db)
      | Inr account \<Rightarrow>
          let (s', db') = refresh_session db account_id session_id now s in
          (Inr \<lparr>ab_account = account, ab_session = s',
                ab_csrf_token = filter_option
                  (\<lambda>token. is_some_and (\<lambda>digest. constant_time_eq digest (secret_digest (cfg_crypto cfg) token))
                             (ses_csrf_digest s')) csrf_cookie\<rparr>, db'))"

definition require_csrf :: "AuthenticatedBrowserSession \<Rightarrow> string option \<Rightarrow> auth_error + unit" where
  "require_csrf authenticated header =
     (case (ab_csrf_token authenticated, header) of
        (Some cookie, Some header) \<Rightarrow> if constant_time_eq cookie header then Inr () else Inl InvalidCredential
      | _ \<Rightarrow> Inl InvalidCredential)"

definition logout :: "IdentityDb \<Rightarrow> AuthenticatedBrowserSession \<Rightarrow> time \<Rightarrow> IdentityDb" where
  "logout db authenticated now =
     snd (revoke_session db (acc_id (ab_account authenticated)) (ses_id (ab_session authenticated)) now)"

definition logout_all :: "IdentityDb \<Rightarrow> AuthenticatedBrowserSession \<Rightarrow> time \<Rightarrow> nat \<times> IdentityDb" where
  "logout_all db authenticated now = revoke_all_sessions db (acc_id (ab_account authenticated)) now"

definition require_recent_auth :: "AuthenticatedBrowserSession \<Rightarrow> time \<Rightarrow> auth_error + unit" where
  "require_recent_auth authenticated now =
     (if now - ses_created_at (ab_session authenticated) \<le> recent_auth_lifetime then Inr ()
      else Inl RecentAuthenticationRequired)"

section \<open>API keys\<close>

definition normalize_scopes :: "string list \<Rightarrow> string list option" where
  "normalize_scopes scopes =
     (if scopes = [] then None
      else let scopes = remdups_adj (sort scopes) in
           if list_ex (\<lambda>s. s \<noteq> scope_solve_read \<and> s \<noteq> scope_solve_submit) scopes then None
           else Some scopes)"

text \<open>\<open>seiza_key_<account>_<key>\<close> and the horizontal ellipsis.\<close>

definition display_prefix_of :: "AuthConfig \<Rightarrow> AccountId \<Rightarrow> ApiKeyId \<Rightarrow> string" where
  "display_prefix_of cfg account_id k =
     ''seiza_key_'' @ x_uuid_str (cfg_crypto cfg) account_id @ ''_'' @ x_uuid_str (cfg_crypto cfg) k
     @ map char_of [0xE2, 0x80, 0xA6 :: nat]"

definition create_key ::
  "AuthConfig \<Rightarrow> IdentityDb \<Rightarrow> AuthenticatedBrowserSession \<Rightarrow> string \<Rightarrow> string list \<Rightarrow> time \<Rightarrow> time
    \<Rightarrow> ApiKeyId \<Rightarrow> bytes option \<Rightarrow> (auth_error + CreatedApiKey) \<times> IdentityDb" where
  "create_key cfg db authenticated name0 scopes0 now0 now k secret_bytes =
     (case require_recent_auth authenticated now0 of
        Inl e \<Rightarrow> (Inl e, db)
      | Inr () \<Rightarrow>
      let name = trim name0; account_id = acc_id (ab_account authenticated) in
      if name = [] \<or> 80 < chars_count name then (Inl InvalidApiKeyRequest, db)
      else case normalize_scopes scopes0 of
        None \<Rightarrow> (Inl InvalidApiKeyRequest, db)
      | Some scopes \<Rightarrow>
      case random_secret (cfg_crypto cfg) secret_bytes of
        None \<Rightarrow> (Inl Internal, db)
      | Some secret \<Rightarrow>
      let token = format_prefixed_token (cfg_crypto cfg) ''key'' [account_id, k] secret;
          key = \<lparr>key_id = k, key_account_id = account_id,
                 key_secret_digest = secret_digest (cfg_crypto cfg) secret,
                 key_display_prefix = display_prefix_of cfg account_id k, key_name = name,
                 key_scopes = scopes, key_queue_weight = Fin 1, key_created_at = now,
                 key_expires_at = None, key_last_used_at = None, key_revoked_at = None\<rparr>;
          (stored, db') = create_api_key db key in
      case stored of
        Inl _ \<Rightarrow> (Inl Internal, db')
      | Inr () \<Rightarrow> (Inr \<lparr>ck_api_key = key, ck_token = token\<rparr>, db'))"

definition key_live :: "time \<Rightarrow> ApiKey \<Rightarrow> bool" where
  "key_live now k = (key_revoked_at k = None \<and> is_none_or (\<lambda>e. now < e) (key_expires_at k))"

definition key_accepts :: "AuthConfig \<Rightarrow> string \<Rightarrow> string \<Rightarrow> time \<Rightarrow> ApiKey \<Rightarrow> bool" where
  "key_accepts cfg secret required_scope now k =
     (key_live now k \<and> list_ex (\<lambda>scope. scope = required_scope) (key_scopes k)
      \<and> constant_time_eq (key_secret_digest k) (secret_digest (cfg_crypto cfg) secret))"

definition key_stale :: "time \<Rightarrow> ApiKey \<Rightarrow> bool" where
  "key_stale now k = is_none_or (\<lambda>t. api_key_touch_interval \<le> now - t) (key_last_used_at k)"

definition authenticate_api_key ::
  "AuthConfig \<Rightarrow> IdentityDb \<Rightarrow> string \<Rightarrow> string \<Rightarrow> time \<Rightarrow> (auth_error + AuthenticatedApiKey) \<times> IdentityDb" where
  "authenticate_api_key cfg db token required_scope now =
     (case parse_api_key_token (cfg_crypto cfg) token of
        None \<Rightarrow> (Inl InvalidCredential, db)
      | Some (account_id, k, secret) \<Rightarrow>
      case filter_option (key_accepts cfg secret required_scope now) (api_key db account_id k) of
        None \<Rightarrow> (Inl InvalidCredential, db)
      | Some key \<Rightarrow>
      case active_account db account_id of
        Inl e \<Rightarrow> (Inl e, db)
      | Inr account \<Rightarrow>
          if key_stale now key
          then let (touched, db') = touch_api_key db account_id k now in
               (Inr \<lparr>ak_account = account,
                     ak_api_key = (if touched then key\<lparr>key_last_used_at := Some now\<rparr> else key)\<rparr>, db')
          else (Inr \<lparr>ak_account = account, ak_api_key = key\<rparr>, db))"

section \<open>Sessions minted from an API key\<close>

definition minted_live :: "ApiKeyId \<Rightarrow> time \<Rightarrow> AuthSession \<Rightarrow> bool" where
  "minted_live k now s =
     (ses_kind s = Astrometry \<and> ses_api_key_id s = Some k \<and> ses_revoked_at s = None
      \<and> now < ses_expires_at s \<and> now < ses_absolute_expires_at s)"

definition recycle_astrometry_sessions ::
  "IdentityDb \<Rightarrow> AuthenticatedApiKey \<Rightarrow> time \<Rightarrow> (auth_error + unit) \<times> IdentityDb" where
  "recycle_astrometry_sessions db authenticated now =
     (let account_id = acc_id (ak_account authenticated) in
      case list_sessions db account_id of
        Inl _ \<Rightarrow> (Inl Internal, db)
      | Inr sessions \<Rightarrow>
          let live = filter (minted_live (key_id (ak_api_key authenticated)) now) sessions in
          if length live < max_live_astrometry_sessions_per_key then (Inr (), db)
          else let excess = length live + 1 - max_live_astrometry_sessions_per_key in
               (Inr (), fold (\<lambda>s db. delete_session db account_id (ses_id s))
                          (take excess (sort_key ses_created_at live)) db))"

definition astrometry_session ::
  "AuthConfig \<Rightarrow> SessionId \<Rightarrow> AuthenticatedApiKey \<Rightarrow> string \<Rightarrow> time \<Rightarrow> AuthSession" where
  "astrometry_session cfg session_id authenticated secret now = \<lparr>
     ses_id = session_id, ses_token_digest = secret_digest (cfg_crypto cfg) secret,
     ses_account_id = acc_id (ak_account authenticated), ses_kind = Astrometry,
     ses_csrf_digest = None, ses_api_key_id = Some (key_id (ak_api_key authenticated)),
     ses_created_at = now, ses_last_seen_at = now, ses_expires_at = now + session_idle_lifetime,
     ses_absolute_expires_at = now + session_absolute_lifetime, ses_revoked_at = None\<rparr>"

definition create_astrometry_session ::
  "AuthConfig \<Rightarrow> IdentityDb \<Rightarrow> string \<Rightarrow> time \<Rightarrow> time \<Rightarrow> bytes option \<Rightarrow> SessionId
    \<Rightarrow> (auth_error + CreatedAstrometrySession) \<times> IdentityDb" where
  "create_astrometry_session cfg db api_key_token now0 now secret_bytes session_id =
     (let (authenticated, db1) = authenticate_api_key cfg db api_key_token scope_solve_submit now0 in
      case authenticated of
        Inl e \<Rightarrow> (Inl e, db1)
      | Inr auth \<Rightarrow>
      let (recycled, db2) = recycle_astrometry_sessions db1 auth now in
      case recycled of
        Inl e \<Rightarrow> (Inl e, db2)
      | Inr () \<Rightarrow>
      case random_secret (cfg_crypto cfg) secret_bytes of
        None \<Rightarrow> (Inl Internal, db2)
      | Some secret \<Rightarrow>
      let s = astrometry_session cfg session_id auth secret now;
          (stored, db3) = create_session db2 s in
      case stored of
        Inl _ \<Rightarrow> (Inl Internal, db3)
      | Inr () \<Rightarrow>
          (Inr \<lparr>ca_account = ak_account auth, ca_session = s,
                ca_token = format_prefixed_token (cfg_crypto cfg) ''session''
                  [acc_id (ak_account auth), session_id] secret\<rparr>, db3))"

definition authenticate_astrometry_session ::
  "AuthConfig \<Rightarrow> IdentityDb \<Rightarrow> string \<Rightarrow> time
    \<Rightarrow> (auth_error + AuthenticatedAstrometrySession) \<times> IdentityDb" where
  "authenticate_astrometry_session cfg db token now =
     (case parse_session_token (cfg_crypto cfg) token of
        None \<Rightarrow> (Inl InvalidCredential, db)
      | Some (account_id, session_id, secret) \<Rightarrow>
      case and_then (internal (session db account_id session_id))
             (\<lambda>found. ok_or InvalidCredential (filter_option (session_accepts cfg Astrometry secret now) found)) of
        Inl e \<Rightarrow> (Inl e, db)
      | Inr s \<Rightarrow>
      case active_account db account_id of
        Inl e \<Rightarrow> (Inl e, db)
      | Inr account \<Rightarrow>
      case (case ses_api_key_id s of
              None \<Rightarrow> Some (Fin 1, db)
            | Some k \<Rightarrow>
                map_option (\<lambda>key. (key_queue_weight key,
                                    if key_stale now key then snd (touch_api_key db account_id k now) else db))
                  (filter_option (key_live now) (api_key db account_id k))) of
        None \<Rightarrow> (Inl InvalidCredential, db)
      | Some (queue_weight, db1) \<Rightarrow>
          let (s', db2) = refresh_session db1 account_id session_id now s in
          (Inr \<lparr>as_account = account, as_session = s', as_queue_weight = queue_weight\<rparr>, db2))"

end
