(* ===== verification/Auth_Passkeys.thy ===== *)
theory Auth_Passkeys
  imports Auth
begin

text \<open>
  The passkey ceremonies of \<open>src/auth.rs\<close>.  The WebAuthn verifier is the \<open>webauthn-rs\<close> package: its
  calls and its JSON codecs are the fields of a record, over opaque types of credentials \<open>'key\<close>,
  messages exchanged with the browser \<open>'msg\<close>, ceremony states \<open>'st\<close> and results \<open>'res\<close>.
\<close>

record ('key, 'msg, 'st, 'res) Webauthn =
  wa_start_registration :: "AccountId \<Rightarrow> string \<Rightarrow> string \<Rightarrow> bytes list option \<Rightarrow> ('msg \<times> 'st) option"
  wa_finish_registration :: "'msg \<Rightarrow> 'st \<Rightarrow> 'key option"
  wa_start_authentication :: "('msg \<times> 'st) option"
  wa_identify :: "'msg \<Rightarrow> (AccountId \<times> bytes) option"
  wa_finish_authentication :: "'msg \<Rightarrow> 'st \<Rightarrow> 'key list \<Rightarrow> 'res option"
  wa_cred_id :: "'key \<Rightarrow> bytes"
  wa_user_verified :: "'res \<Rightarrow> bool"
  wa_update_credential :: "'key \<Rightarrow> 'res \<Rightarrow> 'key option"
  wa_key_to_json :: "'key \<Rightarrow> string option"
  wa_key_of_json :: "string \<Rightarrow> 'key option"
  wa_state_to_json :: "'st \<Rightarrow> string option"
  wa_registration_of_json :: "string \<Rightarrow> 'st option"
  wa_authentication_of_json :: "string \<Rightarrow> 'st option"

record 'msg PasskeyStart =
  ps_challenge_id :: ChallengeId
  ps_options :: 'msg

record CompletedPasskeyBrowserSignIn =
  cp_account :: Account
  cp_session :: AuthSession
  cp_passkey :: PasskeyCredential
  cp_session_token :: string
  cp_csrf_token :: string

definition webauthn_challenge ::
  "ChallengePurpose \<Rightarrow> AccountId option \<Rightarrow> ChallengeId \<Rightarrow> string \<Rightarrow> time \<Rightarrow> AuthChallenge" where
  "webauthn_challenge purpose account_id challenge_id state now = \<lparr>
     ch_id = challenge_id, ch_purpose = purpose, ch_account_id = account_id, ch_email_lookup = None,
     ch_link_token_digest = None, ch_code_digest = None, ch_webauthn_state_json = Some state,
     ch_attempts = 0, ch_created_at = now, ch_expires_at = now + challenge_lifetime,
     ch_consumed_at = None\<rparr>"

text \<open>Persisting a started ceremony; both kinds end like this.\<close>

definition persist_ceremony ::
  "('key, 'msg, 'st, 'res) Webauthn \<Rightarrow> IdentityDb \<Rightarrow> ChallengePurpose \<Rightarrow> AccountId option \<Rightarrow> ChallengeId
    \<Rightarrow> time \<Rightarrow> 'msg \<times> 'st \<Rightarrow> (auth_error + 'msg PasskeyStart) \<times> IdentityDb" where
  "persist_ceremony wa db purpose account_id challenge_id now started =
     (case wa_state_to_json wa (snd started) of
        None \<Rightarrow> (Inl Internal, db)
      | Some state \<Rightarrow>
          let (stored, db') = create_challenge db (webauthn_challenge purpose account_id challenge_id state now) in
          (case stored of
             Inl _ \<Rightarrow> Inl Internal
           | Inr () \<Rightarrow> Inr \<lparr>ps_challenge_id = challenge_id, ps_options = fst started\<rparr>, db'))"

fun decode_keys :: "('key, 'msg, 'st, 'res) Webauthn \<Rightarrow> PasskeyCredential list \<Rightarrow> 'key list option" where
  "decode_keys wa [] = Some []"
| "decode_keys wa (p # ps) =
     (case wa_key_of_json wa (pk_credential_json p) of
        None \<Rightarrow> None
      | Some key \<Rightarrow> map_option ((#) key) (decode_keys wa ps))"

definition start_passkey_registration ::
  "('key, 'msg, 'st, 'res) Webauthn \<Rightarrow> IdentityDb \<Rightarrow> AuthenticatedBrowserSession \<Rightarrow> time \<Rightarrow> time \<Rightarrow> ChallengeId
    \<Rightarrow> (auth_error + 'msg PasskeyStart) \<times> IdentityDb" where
  "start_passkey_registration wa db authenticated now0 now challenge_id =
     (case require_recent_auth authenticated now0 of
        Inl e \<Rightarrow> (Inl e, db)
      | Inr () \<Rightarrow>
      let account = ab_account authenticated in
      case decode_keys wa (filter (\<lambda>p. pk_revoked_at p = None) (list_passkeys db (acc_id account))) of
        None \<Rightarrow> (Inl Internal, db)
      | Some existing \<Rightarrow>
      let exclude = (if existing = [] then None else Some (map (wa_cred_id wa) existing)) in
      case wa_start_registration wa (acc_id account) (acc_email account) (acc_email account) exclude of
        None \<Rightarrow> (Inl Internal, db)
      | Some started \<Rightarrow>
          persist_ceremony wa db PasskeyRegistration (Some (acc_id account)) challenge_id now started)"

definition valid_webauthn_challenge ::
  "IdentityDb \<Rightarrow> ChallengeId \<Rightarrow> ChallengePurpose \<Rightarrow> AccountId option \<Rightarrow> time \<Rightarrow> auth_error + AuthChallenge" where
  "valid_webauthn_challenge db challenge_id purpose account_id now =
     and_then (internal (challenge_by_id db challenge_id))
       (\<lambda>found. ok_or InvalidCredential
          (filter_option (\<lambda>c. ch_purpose c = purpose \<and> ch_account_id c = account_id
                            \<and> ch_consumed_at c = None \<and> now < ch_expires_at c) found))"

definition ceremony_state ::
  "(string \<Rightarrow> 'st option) \<Rightarrow> AuthChallenge \<Rightarrow> auth_error + 'st" where
  "ceremony_state decode challenge =
     (case ch_webauthn_state_json challenge of
        None \<Rightarrow> Inl InvalidCredential
      | Some json \<Rightarrow> ok_or Internal (decode json))"

definition finish_passkey_registration ::
  "AuthConfig \<Rightarrow> ('key, 'msg, 'st, 'res) Webauthn \<Rightarrow> IdentityDb \<Rightarrow> AuthenticatedBrowserSession \<Rightarrow> ChallengeId
    \<Rightarrow> string \<Rightarrow> 'msg \<Rightarrow> time \<Rightarrow> time \<Rightarrow> time \<Rightarrow> PasskeyId
    \<Rightarrow> (auth_error + PasskeyCredential) \<times> IdentityDb" where
  "finish_passkey_registration cfg wa db authenticated challenge_id label0 credential now0 now1 now passkey_id =
     (case require_recent_auth authenticated now0 of
        Inl e \<Rightarrow> (Inl e, db)
      | Inr () \<Rightarrow>
      case normalize_passkey_label label0 of
        None \<Rightarrow> (Inl InvalidPasskeyLabel, db)
      | Some label \<Rightarrow>
      let account_id = acc_id (ab_account authenticated) in
      case and_then (valid_webauthn_challenge db challenge_id PasskeyRegistration (Some account_id) now1)
             (ceremony_state (wa_registration_of_json wa)) of
        Inl e \<Rightarrow> (Inl e, db)
      | Inr state \<Rightarrow>
      case wa_finish_registration wa credential state of
        None \<Rightarrow> (Inl InvalidCredential, db)
      | Some key \<Rightarrow>
      case wa_key_to_json wa key of
        None \<Rightarrow> (Inl Internal, db)
      | Some json \<Rightarrow>
      let persisted = \<lparr>pk_id = passkey_id,
                       pk_credential_id = x_base64url (cfg_crypto cfg) (wa_cred_id wa key),
                       pk_account_id = account_id, pk_credential_json = json, pk_label = label,
                       pk_created_at = now, pk_last_used_at = None, pk_revoked_at = None\<rparr>;
          (completed, db') = complete_passkey_registration db challenge_id persisted now in
      (case completed of
         Inl _ \<Rightarrow> Inl Internal
       | Inr False \<Rightarrow> Inl InvalidCredential
       | Inr True \<Rightarrow> Inr persisted, db'))"

definition start_passkey_authentication ::
  "('key, 'msg, 'st, 'res) Webauthn \<Rightarrow> AuthService \<Rightarrow> string \<Rightarrow> time \<Rightarrow> time \<Rightarrow> ChallengeId
    \<Rightarrow> (auth_error + 'msg PasskeyStart) \<times> AuthService" where
  "start_passkey_authentication wa svc source instant now challenge_id =
     (let (verdict, limiter) = check source_limiter (svc_source_limiter svc) source instant;
          svc1 = svc\<lparr>svc_source_limiter := limiter\<rparr> in
      case verdict of
        Inl retry \<Rightarrow> (Inl (RateLimited retry), svc1)
      | Inr () \<Rightarrow>
      case wa_start_authentication wa of
        None \<Rightarrow> (Inl Internal, svc1)
      | Some started \<Rightarrow>
          let (r, db) = persist_ceremony wa (svc_db svc1) PasskeyAuthentication None challenge_id now started in
          (r, svc1\<lparr>svc_db := db\<rparr>))"

text \<open>The part of the ceremony that only reads: the passkey that signed, with its new counter.\<close>

definition verified_passkey ::
  "AuthConfig \<Rightarrow> ('key, 'msg, 'st, 'res) Webauthn \<Rightarrow> IdentityDb \<Rightarrow> ChallengeId \<Rightarrow> 'msg \<Rightarrow> time
    \<Rightarrow> auth_error + AccountId \<times> PasskeyCredential" where
  "verified_passkey cfg wa db challenge_id credential now0 =
     and_then (and_then (valid_webauthn_challenge db challenge_id PasskeyAuthentication None now0)
                 (ceremony_state (wa_authentication_of_json wa)))
       (\<lambda>state. and_then (ok_or InvalidCredential (wa_identify wa credential))
       (\<lambda>(account_id, raw_credential_id).
          and_then (ok_or InvalidCredential
            (filter_option (\<lambda>p. pk_account_id p = account_id \<and> pk_revoked_at p = None)
               (passkey_by_credential_id db (x_base64url (cfg_crypto cfg) raw_credential_id))))
       (\<lambda>persisted. and_then (ok_or Internal (wa_key_of_json wa (pk_credential_json persisted)))
       (\<lambda>key. and_then (ok_or InvalidCredential (wa_finish_authentication wa credential state [key]))
       (\<lambda>result. and_then (ok_or InvalidCredential
            (if \<not> wa_user_verified wa result then None else wa_update_credential wa key result))
       (\<lambda>key'. and_then (ok_or Internal (wa_key_to_json wa key'))
       (\<lambda>json. Inr (account_id, persisted\<lparr>pk_credential_json := json\<rparr>))))))))"

definition finish_passkey_authentication ::
  "AuthConfig \<Rightarrow> ('key, 'msg, 'st, 'res) Webauthn \<Rightarrow> IdentityDb \<Rightarrow> ChallengeId \<Rightarrow> 'msg \<Rightarrow> time \<Rightarrow> time
    \<Rightarrow> bytes option \<Rightarrow> bytes option \<Rightarrow> SessionId
    \<Rightarrow> (auth_error + CompletedPasskeyBrowserSignIn) \<times> IdentityDb" where
  "finish_passkey_authentication cfg wa db challenge_id credential now0 now secret_bytes csrf_bytes session_id =
     (case verified_passkey cfg wa db challenge_id credential now0 of
        Inl e \<Rightarrow> (Inl e, db)
      | Inr (account_id, persisted) \<Rightarrow>
      case new_browser_session cfg account_id now secret_bytes csrf_bytes session_id of
        None \<Rightarrow> (Inl Internal, db)
      | Some (new_session, session_secret, csrf_token) \<Rightarrow>
      let (completed, db') = complete_passkey_sign_in db challenge_id persisted new_session now in
      case completed of
        Inl _ \<Rightarrow> (Inl Internal, db')
      | Inr None \<Rightarrow> (Inl InvalidCredential, db')
      | Inr (Some c) \<Rightarrow>
          (Inr \<lparr>cp_account = cps_account c, cp_session = cps_session c, cp_passkey = cps_passkey c,
                cp_session_token = format_prefixed_token (cfg_crypto cfg) ''session''
                  [acc_id (cps_account c), ses_id (cps_session c)] session_secret,
                cp_csrf_token = csrf_token\<rparr>, db'))"

end
