(* ===== verification/Identity_Properties.thy ===== *)
theory Identity_Properties
  imports Identity_Invariant
begin

text \<open>
  The contract of the identity repository: a consistent database, sign-in challenges that work
  once and admit a bounded number of guesses, a bounded number of live challenges per address,
  sign-ins that reach active accounts only, and a purge that removes dead records only.
\<close>

section \<open>Facts about rows that survive a run\<close>

lemma challenge_rows_grow:
  assumes "\<And>r r'. challenge_edit r r' \<Longrightarrow> Q r \<Longrightarrow> Q r'"
    and "\<And>c. NewChallenge (ch_id c) \<in> X \<Longrightarrow> Q (challenge_row c)"
    and "grow X db db'" "\<forall>r \<in> set (id_challenges db). Q r"
  shows "\<forall>r \<in> set (id_challenges db'). Q r"
  using assms(3)
proof cases
  case (edit_challenges t)
  then show ?thesis using list_all2_ball [OF edit_challenges(2) assms(4) assms(1)] by simp
qed (use assms(2,4) in \<open>auto simp: insertions\<close>)

lemma session_rows_grow:
  assumes "\<And>r r'. session_edit r r' \<Longrightarrow> Q r \<Longrightarrow> Q r'"
    and "\<And>s. NewSession (ses_id s) \<in> X \<Longrightarrow> Q (session_row s)"
    and "grow X db db'" "\<forall>r \<in> set (id_sessions db). Q r"
  shows "\<forall>r \<in> set (id_sessions db'). Q r"
  using assms(3)
proof cases
  case (edit_sessions t)
  then show ?thesis using list_all2_ball [OF edit_sessions(2) assms(4) assms(1)] by simp
qed (use assms(2,4) in \<open>auto simp: insertions\<close>)

lemma key_rows_grow:
  assumes "\<And>r r'. key_edit r r' \<Longrightarrow> Q r \<Longrightarrow> Q r'"
    and "\<And>k. NewKey (key_id k) \<in> X \<Longrightarrow> Q k"
    and "grow X db db'" "\<forall>r \<in> set (id_api_keys db). Q r"
  shows "\<forall>r \<in> set (id_api_keys db'). Q r"
  using assms(3)
proof cases
  case (edit_keys t)
  then show ?thesis using list_all2_ball [OF edit_keys(2) assms(4) assms(1)] by simp
qed (use assms(2,4) in \<open>auto simp: insertions\<close>)

lemma grows_inv:
  assumes "grows X db db'" "P db" "\<And>db db'. grow X db db' \<Longrightarrow> P db \<Longrightarrow> P db'"
  shows "P db'"
  using assms by (induction rule: rtranclp_induct) auto

lemma run_inv:
  assumes "P db" "\<And>db c. c \<in> set cs \<Longrightarrow> P db \<Longrightarrow> P (identity_step db c)"
  shows "P (identity_run db cs)"
  using assms unfolding identity_run_def by (induction cs arbitrary: db) auto

lemma challenge_rows_step:
  assumes "\<And>r r'. challenge_edit r r' \<Longrightarrow> Q r \<Longrightarrow> Q r'"
    and "\<And>d. NewChallenge (ch_id d) \<in> created_ids c \<Longrightarrow> Q (challenge_row d)"
    and "\<forall>r \<in> set (id_challenges db). Q r"
  shows "\<forall>r \<in> set (id_challenges (identity_step db c)). Q r"
proof (cases "deletes c")
  case True
  then show ?thesis using identity_step_shrinks [of c db] assms(3) by (auto simp: shrinks_def)
next
  case False
  show ?thesis
    by (rule grows_inv [where P = "\<lambda>db. \<forall>r \<in> set (id_challenges db). Q r", OF identity_step_grows [OF False] assms(3)])
      (rule challenge_rows_grow [of Q, OF assms(1,2)])
qed

lemma session_rows_step:
  assumes "\<And>r r'. session_edit r r' \<Longrightarrow> Q r \<Longrightarrow> Q r'"
    and "\<And>s. NewSession (ses_id s) \<in> created_ids c \<Longrightarrow> Q (session_row s)"
    and "\<forall>r \<in> set (id_sessions db). Q r"
  shows "\<forall>r \<in> set (id_sessions (identity_step db c)). Q r"
proof (cases "deletes c")
  case True
  then show ?thesis using identity_step_shrinks [of c db] assms(3) by (auto simp: shrinks_def)
next
  case False
  show ?thesis
    by (rule grows_inv [where P = "\<lambda>db. \<forall>r \<in> set (id_sessions db). Q r", OF identity_step_grows [OF False] assms(3)])
      (rule session_rows_grow [of Q, OF assms(1,2)])
qed

lemma key_rows_step:
  assumes "\<And>r r'. key_edit r r' \<Longrightarrow> Q r \<Longrightarrow> Q r'"
    and "\<And>k. NewKey (key_id k) \<in> created_ids c \<Longrightarrow> Q k"
    and "\<forall>r \<in> set (id_api_keys db). Q r"
  shows "\<forall>r \<in> set (id_api_keys (identity_step db c)). Q r"
proof (cases "deletes c")
  case True
  then show ?thesis using identity_step_shrinks [of c db] assms(3) by (auto simp: shrinks_def)
next
  case False
  show ?thesis
    by (rule grows_inv [where P = "\<lambda>db. \<forall>r \<in> set (id_api_keys db). Q r", OF identity_step_grows [OF False] assms(3)])
      (rule key_rows_grow [of Q, OF assms(1,2)])
qed

text \<open>A consumed challenge stays consumed, and a revoked key stays revoked.\<close>

lemma consumed_run:
  assumes "\<forall>c \<in> set cs. NewChallenge i \<notin> created_ids c"
    and "\<forall>r \<in> set (id_challenges db). ch_id r = i \<longrightarrow> ch_consumed_at r \<noteq> None"
  shows "\<forall>r \<in> set (id_challenges (identity_run db cs)). ch_id r = i \<longrightarrow> ch_consumed_at r \<noteq> None"
proof (rule run_inv [where P = "\<lambda>db. \<forall>r \<in> set (id_challenges db). ch_id r = i \<longrightarrow> ch_consumed_at r \<noteq> None", OF assms(2)])
  fix db :: IdentityDb and c
  assume c: "c \<in> set cs" and rows: "\<forall>r \<in> set (id_challenges db). ch_id r = i \<longrightarrow> ch_consumed_at r \<noteq> None"
  show "\<forall>r \<in> set (id_challenges (identity_step db c)). ch_id r = i \<longrightarrow> ch_consumed_at r \<noteq> None"
  proof (rule challenge_rows_step [OF _ _ rows])
    fix r r' :: ChallengeRow assume "challenge_edit r r'" "ch_id r = i \<longrightarrow> ch_consumed_at r \<noteq> None"
    then show "ch_id r' = i \<longrightarrow> ch_consumed_at r' \<noteq> None"
      using challenge_edit_done challenge_edit_keeps by metis
  next
    fix d :: AuthChallenge assume "NewChallenge (ch_id d) \<in> created_ids c"
    then show "ch_id (challenge_row d) = i \<longrightarrow> ch_consumed_at (challenge_row d) \<noteq> None"
      using assms(1) c by (auto simp: challenge_row_def)
  qed
qed

lemma key_revoked_run:
  assumes "\<forall>c \<in> set cs. NewKey k \<notin> created_ids c"
    and "\<forall>r \<in> set (id_api_keys db). key_id r = k \<longrightarrow> key_revoked_at r \<noteq> None"
  shows "\<forall>r \<in> set (id_api_keys (identity_run db cs)). key_id r = k \<longrightarrow> key_revoked_at r \<noteq> None"
proof (rule run_inv [where P = "\<lambda>db. \<forall>r \<in> set (id_api_keys db). key_id r = k \<longrightarrow> key_revoked_at r \<noteq> None", OF assms(2)])
  fix db :: IdentityDb and c
  assume c: "c \<in> set cs" and rows: "\<forall>r \<in> set (id_api_keys db). key_id r = k \<longrightarrow> key_revoked_at r \<noteq> None"
  show "\<forall>r \<in> set (id_api_keys (identity_step db c)). key_id r = k \<longrightarrow> key_revoked_at r \<noteq> None"
  proof (rule key_rows_step [OF _ _ rows])
    fix r r' :: ApiKey assume "key_edit r r'" "key_id r = k \<longrightarrow> key_revoked_at r \<noteq> None"
    then show "key_id r' = k \<longrightarrow> key_revoked_at r' \<noteq> None"
      using key_edit_done key_edit_keeps by metis
  next
    fix d :: ApiKey assume "NewKey (key_id d) \<in> created_ids c"
    then show "key_id d = k \<longrightarrow> key_revoked_at d \<noteq> None"
      using assms(1) c by auto
  qed
qed

section \<open>Reading\<close>

lemma challenge_by_id_row:
  assumes "identity_ok db"
  shows "challenge_by_id db i =
    Inr (map_option (\<lambda>r. projr (challenge_from_row r)) (select_one (\<lambda>r. ch_id r = i) (id_challenges db)))"
proof (cases "select_one (\<lambda>r. ch_id r = i) (id_challenges db)")
  case (Some r)
  then have "r \<in> set (id_challenges db)" by (auto dest: select_one_SomeD)
  with assms have "\<not> isl (challenge_from_row r)"
    by (auto simp: identity_ok_defs challenge_from_row_def split: sum.splits)
  with Some show ?thesis
    by (cases "challenge_from_row r") (auto simp: challenge_by_id_def fetch_optional_def)
qed (simp add: challenge_by_id_def fetch_optional_def)

lemma account_query_row:
  assumes "identity_ok db"
  shows "account_query db p =
    Inr (map_option (\<lambda>r. projr (account_from_row r)) (select_one p (id_accounts db)))"
proof (cases "select_one p (id_accounts db)")
  case (Some r)
  then have "r \<in> set (id_accounts db)" by (auto dest: select_one_SomeD)
  with assms have "\<not> isl (account_from_row r)"
    by (auto simp: identity_ok_defs account_from_row_def split: sum.splits)
  with Some show ?thesis
    by (cases "account_from_row r") (auto simp: account_query_def fetch_optional_def)
qed (simp add: account_query_def fetch_optional_def)

lemma session_query_row:
  assumes "identity_ok db"
  shows "session db a i =
    Inr (map_option (\<lambda>r. projr (session_from_row r))
          (select_one (\<lambda>r. ses_id r = i \<and> ses_account_id r = a) (id_sessions db)))"
proof (cases "select_one (\<lambda>r. ses_id r = i \<and> ses_account_id r = a) (id_sessions db)")
  case (Some r)
  then have "r \<in> set (id_sessions db)" by (auto dest: select_one_SomeD)
  with assms have "\<not> isl (session_from_row r)"
    by (auto simp: identity_ok_defs session_from_row_def split: sum.splits)
  with Some show ?thesis
    by (cases "session_from_row r") (auto simp: session_def fetch_optional_def)
qed (simp add: session_def fetch_optional_def)

lemma account_from_account_row [simp]: "account_from_row (account_row a) = Inr a"
  by (simp add: account_from_row_def account_row_def)

lemma session_from_session_row [simp]: "session_from_row (session_row s) = Inr s"
  by (simp add: session_from_row_def session_row_def)

lemma challenge_from_challenge_row [simp]: "challenge_from_row (challenge_row c) = Inr c"
  using uint_lt2p [of "ch_attempts c"] by (simp add: challenge_from_row_def challenge_row_def)

section \<open>Signing in by email\<close>

definition email_claim :: "ChallengeId \<Rightarrow> time \<Rightarrow> u32 \<Rightarrow> ChallengeRow \<Rightarrow> bool" where
  "email_claim i now m r = (open_challenge i now m r \<and> ch_purpose r = ''email-login'')"

definition consume_where :: "(ChallengeRow \<Rightarrow> bool) \<Rightarrow> time \<Rightarrow> IdentityDb \<Rightarrow> IdentityDb" where
  "consume_where p now db =
     db\<lparr>id_challenges := update_where p (\<lambda>r. r\<lparr>ch_consumed_at := Some now\<rparr>) (id_challenges db)\<rparr>"

definition unconsumed_of :: "string \<Rightarrow> ChallengeRow \<Rightarrow> bool" where
  "unconsumed_of e r =
     (ch_email_lookup r = Some e \<and> ch_purpose r = ''email-login'' \<and> ch_consumed_at r = None)"

lemma complete_email_challenge_SomeE:
  assumes "complete_email_challenge db i now m a s = (Inr (Some r), db')"
  obtains c e acc created db2 db3 where
    "challenge_by_id db i = Inr (Some c)" "ch_email_lookup c = Some e" "ch_purpose c = EmailLogin"
    "rows_where (email_claim i now m) (id_challenges db) \<noteq> 0"
    "sign_in_account (consume_where (email_claim i now m) now db) e a = Inr (acc, created, db2)"
    "acc_status acc = Active"
    "insert_session db2 (s\<lparr>ses_account_id := acc_id acc\<rparr>) = Inr db3"
    "r = \<lparr>ces_account = acc\<lparr>acc_updated_at := now, acc_last_authenticated_at := now\<rparr>,
           ces_session = s\<lparr>ses_account_id := acc_id acc\<rparr>, ces_account_created = created\<rparr>"
    "db' = (consume_where (unconsumed_of e) now db3)
             \<lparr>id_accounts := touch_account (acc_id acc) now (id_accounts db3)\<rparr>"
  using assms
  by (auto simp: complete_email_challenge_def Let_def consume_where_def email_claim_def [abs_def]
      unconsumed_of_def [abs_def] split: sum.splits option.splits if_splits)

lemma sign_in_account_frame:
  assumes "sign_in_account db e a = Inr (acc, created, db')"
  shows "id_challenges db' = id_challenges db" "id_sessions db' = id_sessions db"
    "id_passkeys db' = id_passkeys db" "id_api_keys db' = id_api_keys db"
  using assms by (auto simp: sign_in_account_def Let_def insertions split: sum.splits option.splits if_splits)

lemma complete_consumed:
  assumes "identity_ok db" "\<forall>r \<in> set (id_challenges db). ch_id r = i \<longrightarrow> ch_consumed_at r \<noteq> None"
  shows "complete_email_challenge db i now m a s = (Inr None, db)"
proof -
  have "rows_where (\<lambda>r. open_challenge i now m r \<and> ch_purpose r = ''email-login'') (id_challenges db) = 0"
    using assms(2) by (auto simp: rows_where_0 open_challenge_def)
  then show ?thesis
    using challenge_by_id_row [OF assms(1), of i]
    by (auto simp: complete_email_challenge_def Let_def split: option.splits)
qed

text \<open>A completed sign-in leaves no open challenge of its address.\<close>

lemma consume_where_simps [simp]:
  "id_accounts (consume_where p now db) = id_accounts db"
  "id_sessions (consume_where p now db) = id_sessions db"
  "id_passkeys (consume_where p now db) = id_passkeys db"
  "id_api_keys (consume_where p now db) = id_api_keys db"
  "id_challenges (consume_where p now db)
   = update_where p (\<lambda>r. r\<lparr>ch_consumed_at := Some now\<rparr>) (id_challenges db)"
  by (simp_all add: consume_where_def)

lemma fetch_optional_Some:
  "fetch_optional f r = Inr (Some c) \<longleftrightarrow> (\<exists>x. r = Some x \<and> f x = Inr c)"
proof (cases r)
  case (Some x)
  then show ?thesis by (cases "f x") (auto simp: fetch_optional_def)
qed (simp add: fetch_optional_def)

lemma challenge_by_id_SomeD:
  assumes "identity_ok db" "challenge_by_id db i = Inr (Some c)"
  obtains x where "x \<in> set (id_challenges db)" "ch_id x = i" "challenge_from_row x = Inr c"
    "\<And>y. y \<in> set (id_challenges db) \<Longrightarrow> ch_id y = i \<Longrightarrow> y = x"
proof -
  obtain x where x: "select_one (\<lambda>r. ch_id r = i) (id_challenges db) = Some x" "challenge_from_row x = Inr c"
    using assms(2) by (auto simp: challenge_by_id_def fetch_optional_Some)
  from select_one_SomeD [OF x(1)] have m: "x \<in> set (id_challenges db)" "ch_id x = i" by auto
  show ?thesis
    by (rule that [OF m x(2)], rule distinct_map_same [OF identity_ok_distinct(3) [OF assms(1)]])
      (simp_all add: m)
qed

lemma challenge_from_row_Inr:
  assumes "challenge_from_row x = Inr c"
  shows "ch_purpose x = purpose_as_str (ch_purpose c)" "ch_email_lookup c = ch_email_lookup x"
    "ch_consumed_at c = ch_consumed_at x" "ch_expires_at c = ch_expires_at x"
    "ch_id c = ch_id x" "uint (ch_attempts c) = ch_attempts x"
    "ch_link_token_digest c = ch_link_token_digest x" "ch_code_digest c = ch_code_digest x"
    "ch_account_id c = ch_account_id x" "ch_created_at c = ch_created_at x"
  using assms
  by (auto simp: challenge_from_row_def purpose_parse_Inr uint_word_of_int split: sum.splits if_splits)

lemma completed_consumes:
  assumes ok: "identity_ok db"
    and signed_in: "complete_email_challenge db i now m a s = (Inr (Some r), db')"
    and c: "challenge_by_id db i = Inr (Some c)"
    and d: "challenge_by_id db j = Inr (Some d)" "ch_purpose d = EmailLogin"
      "ch_email_lookup d = ch_email_lookup c"
  shows "\<forall>x \<in> set (id_challenges db'). ch_id x = j \<longrightarrow> ch_consumed_at x \<noteq> None"
proof -
  obtain c' e acc created db2 db3 where
    e: "challenge_by_id db i = Inr (Some c')" "ch_email_lookup c' = Some e"
    and acc: "sign_in_account (consume_where (email_claim i now m) now db) e a = Inr (acc, created, db2)"
    and ins: "insert_session db2 (s\<lparr>ses_account_id := acc_id acc\<rparr>) = Inr db3"
    and db': "db' = (consume_where (unconsumed_of e) now db3)
             \<lparr>id_accounts := touch_account (acc_id acc) now (id_accounts db3)\<rparr>"
    by (rule complete_email_challenge_SomeE [OF signed_in])
  have ch: "id_challenges db3 = id_challenges (consume_where (email_claim i now m) now db)"
    using ins sign_in_account_frame(1) [OF acc] by (simp add: insertions)
  obtain y where y: "ch_id y = j" "challenge_from_row y = Inr d"
    "\<And>x. x \<in> set (id_challenges db) \<Longrightarrow> ch_id x = j \<Longrightarrow> x = y"
    by (rule challenge_by_id_SomeD [OF ok d(1)]) blast
  have "ch_email_lookup y = Some e" "ch_purpose y = ''email-login''"
    using challenge_from_row_Inr [OF y(2)] d c e by auto
  then show ?thesis
    using y(3) by (auto simp: db' ch update_where_def unconsumed_of_def)
qed

lemma sign_in_account_found:
  assumes "sign_in_account db e a = Inr (acc, created, db')"
  shows "account_by_email_lookup db' e = Inr (Some acc)
    \<and> (created \<longleftrightarrow> account_by_email_lookup db e = Inr None)
    \<and> (\<not> created \<longrightarrow> id_accounts db' = id_accounts db)
    \<and> (created \<longrightarrow> acc = a \<and> id_accounts db' = id_accounts db @ [account_row a])"
proof (cases "select_one (\<lambda>r. acc_email_lookup r = e) (id_accounts db)")
  case None
  then have none: "account_by_email_lookup db e = Inr None"
    by (simp add: account_by_email_lookup_def account_query_def fetch_optional_def)
  then have "\<not> list_ex (\<lambda>r. acc_email_lookup r = acc_email_lookup a) (id_accounts db)"
    using assms by (auto simp: sign_in_account_def)
  moreover from this obtain db1 where ins: "insert_account_row db (account_row a) = Inr db1"
    using assms none by (auto simp: sign_in_account_def Let_def split: sum.splits)
  ultimately have "db' = db1 \<and> created \<and> account_by_email_lookup db1 e = Inr (Some acc)"
    using assms none by (auto simp: sign_in_account_def Let_def split: sum.splits option.splits)
  moreover have "id_accounts db1 = id_accounts db @ [account_row a]" using ins by (simp add: insertions)
  moreover from this have "account_by_email_lookup db1 e
      = (if acc_email_lookup (account_row a) = e then Inr (Some a) else Inr None)"
    using None by (simp add: account_by_email_lookup_def account_query_def fetch_optional_def)
  ultimately show ?thesis using none by (auto split: if_splits)
next
  case (Some x)
  then have "account_by_email_lookup db e \<noteq> Inr None"
    by (cases "account_from_row x") (auto simp: account_by_email_lookup_def account_query_def fetch_optional_def)
  with assms show ?thesis by (auto simp: sign_in_account_def split: sum.splits option.splits)
qed


lemma account_from_row_Inr:
  assumes "account_from_row x = Inr acc"
  shows "acc_id acc = acc_id x" "acc_email_lookup acc = acc_email_lookup x"
    "acc_status x = account_status_as_str (acc_status acc)"
    "account_from_row (x\<lparr>acc_updated_at := u, acc_last_authenticated_at := l\<rparr>)
     = Inr (acc\<lparr>acc_updated_at := u, acc_last_authenticated_at := l\<rparr>)"
  using assms by (auto simp: account_from_row_def account_status_parse_Inr split: sum.splits)

lemma touched_account:
  assumes "select_one (\<lambda>r. acc_email_lookup r = e) t = Some x" "account_from_row x = Inr acc"
  shows "select_one (\<lambda>r. acc_email_lookup r = e) (touch_account (acc_id acc) now t)
     = Some (x\<lparr>acc_updated_at := now, acc_last_authenticated_at := now\<rparr>)"
  unfolding touch_account_def
  by (subst select_one_update_where) (simp_all add: assms account_from_row_Inr(1) [OF assms(2)])

text \<open>A guess is counted by the challenge row itself.\<close>

fun accepted_guesses :: "ChallengeId \<Rightarrow> u32 \<Rightarrow> IdentityDb \<Rightarrow> identity_call list \<Rightarrow> nat" where
  "accepted_guesses i m db [] = 0"
| "accepted_guesses i m db (c # cs) =
     (case c of
        RecordChallengeFailure j now m' \<Rightarrow>
          (if j = i \<and> m' = m \<and> fst (record_challenge_failure db j now m') \<noteq> Inr None then 1 else 0)
      | _ \<Rightarrow> 0)
     + accepted_guesses i m (identity_step db c) cs"

definition attempts_at_least :: "ChallengeId \<Rightarrow> nat \<Rightarrow> IdentityDb \<Rightarrow> bool" where
  "attempts_at_least i n db = (\<forall>r \<in> set (id_challenges db). ch_id r = i \<longrightarrow> int n \<le> ch_attempts r)"

lemma attempts_step:
  assumes "NewChallenge i \<notin> created_ids c" "attempts_at_least i n db"
  shows "attempts_at_least i n (identity_step db c)"
  unfolding attempts_at_least_def
proof (rule challenge_rows_step [OF _ _ assms(2) [unfolded attempts_at_least_def]])
  fix r r' :: ChallengeRow assume "challenge_edit r r'" "ch_id r = i \<longrightarrow> int n \<le> ch_attempts r"
  then show "ch_id r' = i \<longrightarrow> int n \<le> ch_attempts r'" using challenge_edit_keeps [of r r'] by auto
next
  fix d :: AuthChallenge assume "NewChallenge (ch_id d) \<in> created_ids c"
  then show "ch_id (challenge_row d) = i \<longrightarrow> int n \<le> ch_attempts (challenge_row d)"
    using assms(1) by (auto simp: challenge_row_def)
qed

lemma attempts_failure:
  assumes ok: "identity_ok db" and n: "attempts_at_least i n db"
    and counted: "fst (record_challenge_failure db i now m) \<noteq> Inr None"
  shows "attempts_at_least i (Suc n) (snd (record_challenge_failure db i now m)) \<and> Suc n \<le> unat m"
proof -
  let ?p = "open_challenge i now m"
  have rows: "rows_where ?p (id_challenges db) \<noteq> 0"
    using counted by (auto simp: record_challenge_failure_def Let_def split: if_splits)
  then obtain x where x: "x \<in> set (id_challenges db)" "?p x" by (auto simp: rows_where_0)
  have same: "y = x" if "y \<in> set (id_challenges db)" "ch_id y = i" for y
    using distinct_map_same [OF identity_ok_distinct(3) [OF ok] that(1) x(1)] that(2) x(2)
    by (simp add: open_challenge_def)
  have nx: "int n \<le> ch_attempts x" "ch_attempts x < uint m"
    using n x by (auto simp: attempts_at_least_def open_challenge_def)
  have "snd (record_challenge_failure db i now m)
      = db\<lparr>id_challenges := update_where ?p (\<lambda>r. r\<lparr>ch_attempts := ch_attempts r + 1\<rparr>) (id_challenges db)\<rparr>"
    using rows by (simp add: record_challenge_failure_def Let_def)
  moreover have "attempts_at_least i (Suc n) \<dots>"
    using nx(1) x(2) by (auto simp: attempts_at_least_def set_update_where dest: same)
  moreover have "Suc n \<le> unat m"
    using nx by (metis Suc_le_eq int_nat_eq of_nat_less_iff order_le_less_trans uint_nat unat_eq_nat_uint)
  ultimately show ?thesis by simp
qed

lemma accepted_guesses_counted:
  assumes "identity_ok db" "\<forall>c \<in> set cs. NewChallenge i \<notin> created_ids c" "attempts_at_least i n db"
  shows "attempts_at_least i (n + accepted_guesses i m db cs) (identity_run db cs)
     \<and> (accepted_guesses i m db cs = 0 \<or> n + accepted_guesses i m db cs \<le> unat m)"
  using assms
proof (induction cs arbitrary: db n)
  case Nil
  then show ?case by (simp add: identity_run_def)
next
  case (Cons c cs)
  have ok: "identity_ok (identity_step db c)" using Cons.prems(1) by (rule identity_ok_step)
  have run: "identity_run db (c # cs) = identity_run (identity_step db c) cs"
    by (simp add: identity_run_def)
  show ?case
  proof (cases "\<exists>now. c = RecordChallengeFailure i now m \<and> fst (record_challenge_failure db i now m) \<noteq> Inr None")
    case True
    then obtain now where c: "c = RecordChallengeFailure i now m"
      and counted: "fst (record_challenge_failure db i now m) \<noteq> Inr None" by blast
    note fail = attempts_failure [OF Cons.prems(1,3) counted]
    have "attempts_at_least i (Suc n) (identity_step db c)" using fail c by simp
    from Cons.IH [OF ok _ this] Cons.prems(2) fail counted show ?thesis unfolding run by (auto simp: c)

  next
    case False
    then have "accepted_guesses i m db (c # cs) = accepted_guesses i m (identity_step db c) cs"
      by (auto split: identity_call.split)
    moreover have "attempts_at_least i n (identity_step db c)"
      using Cons.prems by (intro attempts_step) auto
    ultimately show ?thesis using Cons.IH [OF ok] Cons.prems(2) unfolding run by simp
  qed
qed

text \<open>Evicting challenges one by one is one update.\<close>

lemma fold_consume_one:
  "fold (consume_one now) is t
   = update_where (\<lambda>r. ch_id r \<in> set is \<and> ch_consumed_at r = None) (\<lambda>r. r\<lparr>ch_consumed_at := Some now\<rparr>) t"
proof (induction "is" arbitrary: t)
  case Nil
  then show ?case by (simp add: update_where_def)
next
  case (Cons i "is")
  have "fold (consume_one now) (i # is) t = fold (consume_one now) is (consume_one now i t)" by simp
  also have "\<dots> = update_where (\<lambda>r. ch_id r \<in> set is \<and> ch_consumed_at r = None)
      (\<lambda>r. r\<lparr>ch_consumed_at := Some now\<rparr>) (consume_one now i t)" by (rule Cons)
  finally show ?case
    unfolding consume_one_def
    by (subst (asm) update_where_update_where) (auto intro: update_where_cong)
qed

lemma filter_update_where:
  "(\<And>r. p r \<Longrightarrow> \<not> q (f r)) \<Longrightarrow> filter q (update_where p f t) = filter (\<lambda>r. q r \<and> \<not> p r) t"
  by (induction t) auto

lemma filter_update_where_other:
  "(\<And>r. r \<in> set t \<Longrightarrow> q r \<Longrightarrow> \<not> p r) \<Longrightarrow> (\<And>r. q (f r) = q r) \<Longrightarrow>
   filter q (update_where p f t) = filter q t"
  by (induction t) auto

lemma live_after_eviction:

  "filter (live_email_challenge e now)
     (update_where (\<lambda>r. ch_id r \<in> S \<and> ch_consumed_at r = None) (\<lambda>r. r\<lparr>ch_consumed_at := Some now'\<rparr>) t)
   = filter (\<lambda>r. ch_id r \<notin> S) (filter (live_email_challenge e now) t)"
  by (induction t) (auto simp: live_email_challenge_def)

lemma filter_not_dropped:

  assumes "distinct (map k t)" "set L = set t" "distinct L"
  shows "set (filter (\<lambda>r. k r \<notin> set (map k (drop n L))) t) = set (take n L)"
proof -
  have inj: "r = s" if "r \<in> set L" "s \<in> set L" "k r = k s" for r s
    using distinct_map_same [OF assms(1)] that assms(2) by simp
  have L: "set L = set (take n L) \<union> set (drop n L)" by (metis append_take_drop_id set_append)
  moreover have "set (take n L) \<inter> set (drop n L) = {}" using assms(3) by (rule set_take_disj_set_drop_if_distinct) simp
  moreover have "k r \<in> k ` set (drop n L) \<longleftrightarrow> r \<in> set (drop n L)" if "r \<in> set L" for r
    using inj [OF that] L by auto
  ultimately show ?thesis using assms(2) by auto
qed

lemma email_completion:
  assumes ok: "identity_ok db"
    and signed_in: "complete_email_challenge db i now m a s = (Inr (Some r), db')"
  shows "\<exists>c e. challenge_by_id db i = Inr (Some c) \<and> ch_purpose c = EmailLogin
      \<and> ch_email_lookup c = Some e \<and> ch_consumed_at c = None \<and> now < ch_expires_at c
      \<and> ch_attempts c < m
      \<and> acc_status (ces_account r) = Active
      \<and> (ces_account_created r \<longleftrightarrow> account_by_email_lookup db e = Inr None)
      \<and> ces_session r = s\<lparr>ses_account_id := acc_id (ces_account r)\<rparr>
      \<and> account_by_email_lookup db' e = Inr (Some (ces_account r))
      \<and> session db' (acc_id (ces_account r)) (ses_id s) = Inr (Some (ces_session r))
      \<and> id_sessions db' = id_sessions db @ [session_row (ces_session r)]"
proof -
  obtain c e acc created db2 db3 where
    c: "challenge_by_id db i = Inr (Some c)" "ch_email_lookup c = Some e" "ch_purpose c = EmailLogin"
    and rows: "rows_where (email_claim i now m) (id_challenges db) \<noteq> 0"
    and acc: "sign_in_account (consume_where (email_claim i now m) now db) e a = Inr (acc, created, db2)"
      "acc_status acc = Active"
    and ins: "insert_session db2 (s\<lparr>ses_account_id := acc_id acc\<rparr>) = Inr db3"
    and r: "r = \<lparr>ces_account = acc\<lparr>acc_updated_at := now, acc_last_authenticated_at := now\<rparr>,
           ces_session = s\<lparr>ses_account_id := acc_id acc\<rparr>, ces_account_created = created\<rparr>"
    and db': "db' = (consume_where (unconsumed_of e) now db3)
             \<lparr>id_accounts := touch_account (acc_id acc) now (id_accounts db3)\<rparr>"
    by (rule complete_email_challenge_SomeE [OF signed_in])
  have opened: "ch_consumed_at c = None \<and> now < ch_expires_at c \<and> ch_attempts c < m"
  proof -
    obtain x where x: "challenge_from_row x = Inr c"
      "\<And>y. y \<in> set (id_challenges db) \<Longrightarrow> ch_id y = i \<Longrightarrow> y = x"
      by (rule challenge_by_id_SomeD [OF ok c(1)]) blast
    then have "email_claim i now m x"
      using rows by (auto simp: rows_where_0 email_claim_def open_challenge_def)
    then show ?thesis
      using challenge_from_row_Inr [OF x(1)] by (simp add: email_claim_def open_challenge_def word_less_def)
  qed
  note found = sign_in_account_found [OF acc(1)]
  have found2: "account_by_email_lookup db2 e = Inr (Some acc)" using found by simp
  then obtain x where x: "select_one (\<lambda>r. acc_email_lookup r = e) (id_accounts db2) = Some x"
    "account_from_row x = Inr acc"
    by (auto simp: account_by_email_lookup_def account_query_def fetch_optional_Some)
  have a3: "id_accounts db3 = id_accounts db2" and s3: "id_sessions db3 =
      id_sessions db @ [session_row (s\<lparr>ses_account_id := acc_id acc\<rparr>)]"
    and fresh: "ses_id s \<notin> ses_id ` set (id_sessions db)"
    using ins sign_in_account_frame [OF acc(1)] by (auto simp: insertions)
  have "account_by_email_lookup db' e = Inr (Some (ces_account r))"
    by (simp add: account_by_email_lookup_def account_query_def fetch_optional_Some db' a3 r
        touched_account [OF x] account_from_row_Inr(4) [OF x(2)])
  moreover have "select_one (\<lambda>q. ses_id q = ses_id s \<and> ses_account_id q = acc_id acc) (id_sessions db) = None"
    unfolding select_one_None using fresh by (metis imageI)
  then have "session db' (acc_id acc) (ses_id s) = Inr (Some (ces_session r))"
    by (simp add: session_def fetch_optional_Some db' s3 r) (simp add: session_row_def)
  ultimately show ?thesis
    using c opened acc(2) found s3
    by (auto simp: r db' account_by_email_lookup_def account_query_def)
qed

section \<open>Properties\<close>




text \<open>
  C29: Every database that calls can produce is consistent: identifiers, addresses, user handles
  and live credentials are unique, references resolve, and no read fails to decode a row.
\<close>

theorem identity_database_is_consistent:
  "identity_ok (identity_run empty_identity_db cs)
   \<and> (\<exists>x. challenge_by_id (identity_run empty_identity_db cs) i = Inr x)
   \<and> (\<exists>x. account_by_id (identity_run empty_identity_db cs) a = Inr x)
   \<and> (\<exists>x. session (identity_run empty_identity_db cs) a j = Inr x)"
proof -
  have ok: "identity_ok (identity_run empty_identity_db cs)"
    by (rule identity_ok_run [OF identity_ok_empty])
  then show ?thesis
    by (simp add: challenge_by_id_row account_by_id_def account_query_row session_query_row)
qed

text \<open>
  C24: A sign-in by email works once.  After a completion of challenge \<open>i\<close>, no sequence of further
  calls that does not create a challenge under the same identifier lets \<open>i\<close>, or any other
  challenge of the same address that was outstanding at the completion, be completed again.
\<close>

theorem email_challenge_is_single_use:
  assumes "db = identity_run empty_identity_db cs0"
    and "complete_email_challenge db i now m a s = (Inr (Some r), db')"
    and "challenge_by_id db i = Inr (Some c)"
    and "challenge_by_id db j = Inr (Some d)" "ch_purpose d = EmailLogin"
      "ch_email_lookup d = ch_email_lookup c"
    and "\<forall>call \<in> set cs. NewChallenge j \<notin> created_ids call"
  shows "complete_email_challenge (identity_run db' cs) j now' m' a' s'
         = (Inr None, identity_run db' cs)"
proof -
  have ok: "identity_ok db" unfolding assms(1) by (rule identity_ok_run [OF identity_ok_empty])
  have "db' = identity_step db (CompleteEmailChallenge i now m a s)" using assms(2) by simp
  then have ok': "identity_ok db'" by (simp only: identity_ok_step [OF ok])
  show ?thesis
    by (rule complete_consumed [OF identity_ok_run [OF ok'] consumed_run [OF assms(7)]])
      (rule completed_consumes [OF ok assms(2-6)])
qed

definition sample_account :: Account where
  "sample_account = \<lparr>acc_id = 1, acc_email = ''a@b.c'', acc_email_lookup = ''a@b.c'',
     acc_email_verified_at = 5, acc_webauthn_user_handle = ''h'', acc_status = Active,
     acc_created_at = 5, acc_updated_at = 5, acc_last_authenticated_at = 5\<rparr>"

definition sample_challenge :: "ChallengeId \<Rightarrow> time \<Rightarrow> AuthChallenge" where
  "sample_challenge i created = \<lparr>ch_id = i, ch_purpose = EmailLogin, ch_account_id = None,
     ch_email_lookup = Some ''a@b.c'', ch_link_token_digest = Some ''l'', ch_code_digest = Some ''c'',
     ch_webauthn_state_json = None, ch_attempts = 0, ch_created_at = created,
     ch_expires_at = created + 100, ch_consumed_at = None\<rparr>"

definition sample_session :: "SessionId \<Rightarrow> AuthSession" where
  "sample_session i = \<lparr>ses_id = i, ses_token_digest = ''d'', ses_account_id = 9, ses_kind = Browser,
     ses_csrf_digest = Some ''x'', ses_api_key_id = None, ses_created_at = 5, ses_last_seen_at = 5,
     ses_expires_at = 500, ses_absolute_expires_at = 900, ses_revoked_at = None\<rparr>"

definition sample_db :: IdentityDb where
  "sample_db = identity_run empty_identity_db
     [CreateEmailChallenge (sample_challenge 1 1) 3, CreateEmailChallenge (sample_challenge 2 2) 3]"

definition sample_sign_in :: CompletedEmailSignIn where
  "sample_sign_in = \<lparr>ces_account = sample_account, ces_session = sample_session 1\<lparr>ses_account_id := 1\<rparr>,
     ces_account_created = True\<rparr>"

lemma sample_signs_in:
  "fst (complete_email_challenge sample_db 2 5 5 sample_account (sample_session 1)) = Inr (Some sample_sign_in)"
  by code_simp

lemma sample_challenges:
  "challenge_by_id sample_db 1 = Inr (Some (sample_challenge 1 1))"
  "challenge_by_id sample_db 2 = Inr (Some (sample_challenge 2 2))"
  by code_simp+

theorem email_challenge_is_single_use_witness:
  "complete_email_challenge
     (identity_run (snd (complete_email_challenge sample_db 2 5 5 sample_account (sample_session 1)))
        [CreateEmailChallenge (sample_challenge 3 6) 3]) 1 7 5 sample_account (sample_session 2)
   = (Inr None, identity_run (snd (complete_email_challenge sample_db 2 5 5 sample_account (sample_session 1)))
        [CreateEmailChallenge (sample_challenge 3 6) 3])"
proof (rule email_challenge_is_single_use [OF sample_db_def _ sample_challenges(2,1)])
  show "complete_email_challenge sample_db 2 5 5 sample_account (sample_session 1)
    = (Inr (Some sample_sign_in),
       snd (complete_email_challenge sample_db 2 5 5 sample_account (sample_session 1)))"
    by (metis sample_signs_in surjective_pairing)
qed (simp_all add: sample_challenge_def)


text \<open>
  A sign-in by email succeeds only on an open challenge of that purpose with guesses left,
  and only for an active account.  It creates the account exactly when no account owns the
  address, adds exactly one session, owned by that account, and both can be read back.
\<close>

theorem email_sign_in_outcome:
  assumes "db = identity_run empty_identity_db cs"
    and "complete_email_challenge db i now m a s = (Inr (Some r), db')"
  shows "\<exists>c e. challenge_by_id db i = Inr (Some c) \<and> ch_purpose c = EmailLogin
      \<and> ch_email_lookup c = Some e \<and> ch_consumed_at c = None \<and> now < ch_expires_at c
      \<and> ch_attempts c < m
      \<and> acc_status (ces_account r) = Active
      \<and> (ces_account_created r \<longleftrightarrow> account_by_email_lookup db e = Inr None)
      \<and> ces_session r = s\<lparr>ses_account_id := acc_id (ces_account r)\<rparr>
      \<and> account_by_email_lookup db' e = Inr (Some (ces_account r))
      \<and> session db' (acc_id (ces_account r)) (ses_id s) = Inr (Some (ces_session r))
      \<and> id_sessions db' = id_sessions db @ [session_row (ces_session r)]"
  by (rule email_completion [OF _ assms(2)])
    (unfold assms(1), rule identity_ok_run [OF identity_ok_empty])

theorem email_sign_in_outcome_witness:
  "session (snd (complete_email_challenge sample_db 2 5 5 sample_account (sample_session 1))) 1 1
   = Inr (Some (sample_session 1\<lparr>ses_account_id := 1\<rparr>))"
proof -
  have "complete_email_challenge sample_db 2 5 5 sample_account (sample_session 1)
    = (Inr (Some sample_sign_in),
       snd (complete_email_challenge sample_db 2 5 5 sample_account (sample_session 1)))"
    by (metis sample_signs_in surjective_pairing)
  from email_sign_in_outcome [OF sample_db_def this] show ?thesis
    by (auto simp: sample_sign_in_def sample_account_def sample_session_def)
qed

text \<open>
  C25: Guessing is bounded.  Whatever calls are interleaved, the repository accepts at most \<open>m\<close>
  failed guesses (with limit \<open>m\<close>) on a challenge, and once it has accepted \<open>m\<close> of them the challenge
  can no longer be completed, even with the right code.
\<close>

theorem challenge_guesses_are_bounded:
  assumes "db = identity_run empty_identity_db cs0"
    and "\<forall>c \<in> set cs. NewChallenge i \<notin> created_ids c"
  shows "accepted_guesses i m db cs \<le> unat m
    \<and> (accepted_guesses i m db cs = unat m \<longrightarrow>
         complete_email_challenge (identity_run db cs) i now m a s = (Inr None, identity_run db cs))"
proof -
  have ok: "identity_ok db" unfolding assms(1) by (rule identity_ok_run [OF identity_ok_empty])
  have "attempts_at_least i 0 db"
    using ok by (auto simp: attempts_at_least_def identity_ok_defs)
  note counted = accepted_guesses_counted [OF ok assms(2) this, of m, simplified]
  have "complete_email_challenge (identity_run db cs) i now m a s = (Inr None, identity_run db cs)"
    if "accepted_guesses i m db cs = unat m"
  proof -
    have "rows_where (\<lambda>r. open_challenge i now m r \<and> ch_purpose r = ''email-login'')
        (id_challenges (identity_run db cs)) = 0"
      using counted that by (auto simp: rows_where_0 attempts_at_least_def open_challenge_def)
    then show ?thesis
      using challenge_by_id_row [OF identity_ok_run [OF ok], of cs i]
      by (auto simp: complete_email_challenge_def Let_def split: option.splits)
  qed
  then show ?thesis using counted by auto
qed

theorem challenge_guesses_are_bounded_witness:
  "complete_email_challenge
     (identity_run sample_db [RecordChallengeFailure 2 3 1, RecordChallengeFailure 2 3 1]) 2 5 1
     sample_account (sample_session 1)
   = (Inr None, identity_run sample_db [RecordChallengeFailure 2 3 1, RecordChallengeFailure 2 3 1])"
proof -
  have "accepted_guesses 2 1 sample_db [RecordChallengeFailure 2 3 1, RecordChallengeFailure 2 3 1]
      = unat (1 :: u32)"
    by code_simp
  with challenge_guesses_are_bounded [OF sample_db_def, of
      "[RecordChallengeFailure 2 3 1, RecordChallengeFailure 2 3 1]" 2 1]
  show ?thesis by simp
qed

text \<open>
  After a sign-in email is requested, at most \<open>max_live\<close> challenges of the address are open:
  the newest ones.  No other challenge changes.
\<close>

theorem newest_email_challenges_stay_open:
  assumes "db = identity_run empty_identity_db cs"
    and "create_email_challenge db c max_live = (Inr (), db')" "ch_email_lookup c = Some e"
  shows "set (filter (live_email_challenge e (ch_created_at c)) (id_challenges db'))
      = set (take max_live (order_by (\<lambda>r. - ch_created_at r)
          (filter (live_email_challenge e (ch_created_at c)) (id_challenges db @ [challenge_row c]))))
    \<and> length (filter (live_email_challenge e (ch_created_at c)) (id_challenges db')) \<le> max_live
    \<and> filter (\<lambda>r. ch_email_lookup r \<noteq> Some e) (id_challenges db')
      = filter (\<lambda>r. ch_email_lookup r \<noteq> Some e) (id_challenges db)"
proof -
  let ?now = "ch_created_at c"
  let ?live = "live_email_challenge e ?now"
  let ?t = "id_challenges db @ [challenge_row c]"
  let ?L = "order_by (\<lambda>r. - ch_created_at r) (filter ?live ?t)"
  let ?p = "\<lambda>r. ch_id r \<in> set (map ch_id (drop max_live ?L)) \<and> ch_consumed_at r = None"
  have ok: "identity_ok db" unfolding assms(1) by (rule identity_ok_run [OF identity_ok_empty])
  have c: "insert_challenge db c = Inr (db\<lparr>id_challenges := ?t\<rparr>)"
    "id_challenges db' = update_where ?p (\<lambda>r. r\<lparr>ch_consumed_at := Some ?now\<rparr>) ?t"
    using assms(2,3)
    by (auto simp: create_email_challenge_def Let_def insertions fold_consume_one
        split: sum.splits if_splits)
  have ids: "distinct (map ch_id ?t)"
    using identity_ok_distinct(3) [OF ok] c(1) by (auto simp: insertions challenge_row_def)
  have rows: "distinct ?t" using ids unfolding distinct_map by (rule conjunct1)

  have live: "filter ?live (id_challenges db')
      = filter (\<lambda>r. ch_id r \<notin> set (map ch_id (drop max_live ?L))) (filter ?live ?t)"
    unfolding c(2) by (rule live_after_eviction)
  have "distinct ?L" unfolding order_by_def distinct_sort using rows by (rule distinct_filter)
  then have set: "set (filter ?live (id_challenges db')) = set (take max_live ?L)"
    unfolding live by (rule filter_not_dropped [OF distinct_map_filterI [OF ids] set_order_by])

  have "distinct (filter ?live (id_challenges db'))" unfolding live using rows by (intro distinct_filter)

  then have "length (filter ?live (id_challenges db')) = card (set (take max_live ?L))"
    using set by (metis distinct_card)
  also have "\<dots> \<le> max_live" by (rule order_trans [OF card_length]) simp
  finally have len: "length (filter ?live (id_challenges db')) \<le> max_live" .
  have keep: "\<not> ?p r" if "r \<in> set ?t" "ch_email_lookup r \<noteq> Some e" for r
  proof
    assume "?p r"
    then obtain x where x: "x \<in> set ?L" "ch_id x = ch_id r" by (auto dest: in_set_dropD)
    have xt: "x \<in> set ?t" "?live x" using x(1) by (simp_all only: set_order_by set_filter mem_Collect_eq)
    have "x = r" by (rule distinct_map_same [OF ids xt(1) that(1) x(2)])
    with xt(2) that(2) show False by (simp add: live_email_challenge_def)

  qed
  have "filter (\<lambda>r. ch_email_lookup r \<noteq> Some e) (id_challenges db')
      = filter (\<lambda>r. ch_email_lookup r \<noteq> Some e) ?t"
    unfolding c(2) by (rule filter_update_where_other [OF keep]) simp_all
  then show ?thesis using set len assms(3) by (simp add: challenge_row_def)
qed

theorem newest_email_challenges_stay_open_witness:
  "length (filter (live_email_challenge ''a@b.c'' 3)
     (id_challenges (snd (create_email_challenge sample_db (sample_challenge 3 3) 2)))) \<le> 2"
proof -
  have "create_email_challenge sample_db (sample_challenge 3 3) 2
      = (Inr (), snd (create_email_challenge sample_db (sample_challenge 3 3) 2))"
    by (rule prod_eqI) (simp_all, code_simp)
  from newest_email_challenges_stay_open [OF sample_db_def this, of "''a@b.c''"]
  show ?thesis by (simp add: sample_challenge_def)
qed

text \<open>
  A purge removes dead records only, and reports how many: every session that could still
  authenticate, every challenge that has not expired, and all other tables are untouched.
\<close>

definition live_session :: "time \<Rightarrow> SessionRow \<Rightarrow> bool" where
  "live_session now r =
     (ses_revoked_at r = None \<and> now < ses_expires_at r \<and> now < ses_absolute_expires_at r)"

theorem purge_removes_dead_records_only:
  "let (removed, db') = purge_expired db now in
     filter (live_session now) (id_sessions db') = filter (live_session now) (id_sessions db)
     \<and> filter (\<lambda>r. now < ch_expires_at r) (id_challenges db')
       = filter (\<lambda>r. now < ch_expires_at r) (id_challenges db)
     \<and> removed + length (id_sessions db') + length (id_challenges db')
       = length (id_sessions db) + length (id_challenges db)
     \<and> id_accounts db' = id_accounts db \<and> id_passkeys db' = id_passkeys db
     \<and> id_api_keys db' = id_api_keys db"
proof -
  have s: "filter (live_session now) (filter (\<lambda>r. \<not> purgeable_session now r) t) = filter (live_session now) t" for t
    by (simp add: filter_filter) (rule filter_cong [OF refl], auto simp: live_session_def purgeable_session_def Let_def)
  have c: "filter (\<lambda>r. now < ch_expires_at r) (filter (\<lambda>r. \<not> purgeable_challenge now r) t)
      = filter (\<lambda>r. now < ch_expires_at r) t" for t
    by (simp add: filter_filter) (rule filter_cong [OF refl], auto simp: purgeable_challenge_def)
  have n: "rows_where p t + length (filter (\<lambda>r. \<not> p r) t) = length t" for p :: "'r \<Rightarrow> bool" and t
    unfolding rows_where_def by (rule sum_length_filter_compl)
  show ?thesis
    using n [of "purgeable_session now" "id_sessions db"] n [of "purgeable_challenge now" "id_challenges db"]
    by (simp add: purge_expired_def s c del: filter_filter)

qed

end
