(* ===== verification/Auth_Properties.thy ===== *)
theory Auth_Properties
  imports Auth_Passkeys Identity_Properties
begin

text \<open>
  What the authentication service promises on top of the repository: a sign-in opens a session
  that its tokens, and only they, can use; logging out and revoking an API key are final; and the
  sessions minted from one API key are capped.
\<close>

section \<open>What a successful authentication means\<close>

lemma internal_Inr [simp]: "internal r = Inr a \<longleftrightarrow> r = Inr a"
  by (cases r) (auto simp: internal_def)

lemma api_key_SomeD: "api_key db a k = Some key \<Longrightarrow> key \<in> set (id_api_keys db) \<and> key_id key = k \<and> key_account_id key = a"
  by (auto simp: api_key_def dest: select_one_SomeD)

lemma session_InrD:
  assumes "session db a i = Inr (Some s)"
  obtains r where "r \<in> set (id_sessions db)" "session_from_row r = Inr s" "ses_id r = i" "ses_account_id r = a"
  using assms by (auto simp: session_def fetch_optional_Some dest: select_one_SomeD)

lemma session_from_row_Inr:
  assumes "session_from_row r = Inr s"
  shows "ses_id s = ses_id r" "ses_account_id s = ses_account_id r" "ses_revoked_at s = ses_revoked_at r"
    "ses_kind r = session_kind_as_str (ses_kind s)" "ses_api_key_id s = ses_api_key_id r"
    "ses_expires_at s = ses_expires_at r" "ses_absolute_expires_at s = ses_absolute_expires_at r"
    "ses_created_at s = ses_created_at r" "ses_token_digest s = ses_token_digest r"
  using assms by (auto simp: session_from_row_def session_kind_parse_Inr split: sum.splits)

lemma refresh_session_keeps:
  "ses_id (fst (refresh_session db a i now s)) = ses_id s"
  "ses_account_id (fst (refresh_session db a i now s)) = ses_account_id s"
  "ses_api_key_id (fst (refresh_session db a i now s)) = ses_api_key_id s"
  "ses_csrf_digest (fst (refresh_session db a i now s)) = ses_csrf_digest s"
  by (auto simp: refresh_session_def Let_def split: prod.split)

lemma refresh_session_rows:
  assumes "\<And>r r'. session_edit r r' \<Longrightarrow> Q r \<Longrightarrow> Q r'" "\<forall>x \<in> set (id_sessions db). Q x"
  shows "\<forall>x \<in> set (id_sessions (snd (refresh_session db a i now s))). Q x"
  using session_rows_step [of Q "TouchSession a i now (min (now + session_idle_lifetime) (ses_absolute_expires_at s))",
      OF assms(1) _ assms(2)] assms(2)
  by (auto simp: refresh_session_def Let_def split: prod.split)

lemma refresh_session_pair:
  "refresh_session db a i now s = (s', db') \<Longrightarrow> ses_id s' = ses_id s \<and> ses_api_key_id s' = ses_api_key_id s"
  using refresh_session_keeps [of db a i now s] by simp

lemma authenticate_api_key_InrD:
  assumes "fst (authenticate_api_key cfg db token scope now) = Inr r"
  obtains a k secret key where "parse_api_key_token (cfg_crypto cfg) token = Some (a, k, secret)"
    "api_key db a k = Some key" "key_accepts cfg secret scope now key"
    "active_account db a = Inr (ak_account r)" "key_id (ak_api_key r) = key_id key"
  using assms
  by (auto simp: authenticate_api_key_def Let_def
      split: option.splits sum.splits prod.splits if_splits)

lemma authenticate_astrometry_session_InrD:
  assumes "fst (authenticate_astrometry_session cfg db token now) = Inr r"
  obtains a i secret s where "parse_session_token (cfg_crypto cfg) token = Some (a, i, secret)"
    "session db a i = Inr (Some s)" "session_accepts cfg Astrometry secret now s"
    "active_account db a = Inr (as_account r)"
    "ses_id (as_session r) = i" "ses_api_key_id (as_session r) = ses_api_key_id s"
    "\<And>k. ses_api_key_id s = Some k \<Longrightarrow> \<exists>key. api_key db a k = Some key \<and> key_live now key"
proof -
  obtain a i secret s where t: "parse_session_token (cfg_crypto cfg) token = Some (a, i, secret)"
    "session db a i = Inr (Some s)" "session_accepts cfg Astrometry secret now s"
    using assms
    by (auto simp: authenticate_astrometry_session_def split: option.splits sum.splits)
  have acc: "active_account db a = Inr (as_account r)"
    and r: "ses_id (as_session r) = ses_id s" "ses_api_key_id (as_session r) = ses_api_key_id s"
    and key: "\<And>k. ses_api_key_id s = Some k \<Longrightarrow> \<exists>key. api_key db a k = Some key \<and> key_live now key"
    using assms t
    by (auto simp: authenticate_astrometry_session_def ok_or_def internal_def and_then_def filter_option_def
        dest: refresh_session_pair split: option.splits sum.splits prod.splits if_splits)
  have "ses_id s = i" by (rule session_InrD [OF t(2)]) (simp add: session_from_row_Inr)
  then show ?thesis
    by (intro that [OF t acc _ _ key]) (simp_all add: r)

qed

lemma authenticate_browser_session_InrD:
  assumes "authenticate_browser_session cfg db token csrf now = (Inr r, db')"
  obtains a i secret s where "parse_session_token (cfg_crypto cfg) token = Some (a, i, secret)"
    "session db a i = Inr (Some s)" "session_accepts cfg Browser secret now s"
    "active_account db a = Inr (ab_account r)" "ab_session r = fst (refresh_session db a i now s)"
    "db' = snd (refresh_session db a i now s)"
  using assms
  by (auto simp: authenticate_browser_session_def split: option.splits sum.splits prod.splits)

section \<open>Revocation\<close>

lemma revoke_api_key_revokes:
  assumes "identity_ok db" "revoke_api_key db a k t = (True, db')"
  shows "\<forall>r \<in> set (id_api_keys db'). key_id r = k \<longrightarrow> key_revoked_at r \<noteq> None"
proof -
  let ?p = "\<lambda>r. key_id r = k \<and> key_account_id r = a \<and> key_revoked_at r = None"
  have rows: "rows_where ?p (id_api_keys db) \<noteq> 0"
    and keys: "id_api_keys db' = update_where ?p (\<lambda>r. r\<lparr>key_revoked_at := Some t\<rparr>) (id_api_keys db)"
    using assms(2) by (auto simp: revoke_api_key_def revoke_sessions_where_def Let_def split: if_splits)
  obtain x where x: "x \<in> set (id_api_keys db)" "?p x" using rows by (auto simp: rows_where_0)
  have "y = x" if "y \<in> set (id_api_keys db)" "key_id y = k" for y
    using distinct_map_same [OF identity_ok_distinct(6) [OF assms(1)] that(1) x(1)] that(2) x(2) by simp
  then show ?thesis using x(2) by (auto simp: keys set_update_where)
qed

lemma in_update_where: "x \<in> set (update_where p f t) \<Longrightarrow> \<exists>y \<in> set t. x = (if p y then f y else y)"
  by (auto simp: update_where_def)

lemma revoke_session_revokes:

  assumes "\<forall>x \<in> set (id_sessions db). ses_id x = i \<longrightarrow> ses_account_id x = a"
  shows "\<forall>x \<in> set (id_sessions (snd (revoke_session db a i t))). ses_id x = i \<longrightarrow> ses_revoked_at x \<noteq> None"
proof (intro ballI impI)
  fix x
  let ?p = "\<lambda>r. (ses_id r = i \<and> ses_account_id r = a) \<and> ses_revoked_at r = None"
  assume mem: "x \<in> set (id_sessions (snd (revoke_session db a i t)))" and x: "ses_id x = i"
  have "id_sessions (snd (revoke_session db a i t))
      = update_where ?p (\<lambda>r. r\<lparr>ses_revoked_at := Some t\<rparr>) (id_sessions db)"
    by (simp add: revoke_session_def revoke_sessions_where_def Let_def)
  from in_update_where [OF mem [unfolded this]]
  obtain y where y: "y \<in> set (id_sessions db)" "x = (if ?p y then y\<lparr>ses_revoked_at := Some t\<rparr> else y)" ..
  then have "ses_id y = i" using x by (simp split: if_splits)
  with assms y(1) have "ses_account_id y = a" by blast
  with \<open>ses_id y = i\<close> y(2) show "ses_revoked_at x \<noteq> None"
    by (cases "ses_revoked_at y") simp_all
qed


lemma session_revoked_run:
  assumes "\<forall>c \<in> set cs. NewSession i \<notin> created_ids c"
    and "\<forall>r \<in> set (id_sessions db). ses_id r = i \<longrightarrow> ses_revoked_at r \<noteq> None"
  shows "\<forall>r \<in> set (id_sessions (identity_run db cs)). ses_id r = i \<longrightarrow> ses_revoked_at r \<noteq> None"
proof (rule run_inv [where P = "\<lambda>db. \<forall>r \<in> set (id_sessions db). ses_id r = i \<longrightarrow> ses_revoked_at r \<noteq> None", OF assms(2)])
  fix db :: IdentityDb and c
  assume c: "c \<in> set cs" and rows: "\<forall>r \<in> set (id_sessions db). ses_id r = i \<longrightarrow> ses_revoked_at r \<noteq> None"
  show "\<forall>r \<in> set (id_sessions (identity_step db c)). ses_id r = i \<longrightarrow> ses_revoked_at r \<noteq> None"
  proof (rule session_rows_step [OF _ _ rows])
    fix r r' :: SessionRow assume "session_edit r r'" "ses_id r = i \<longrightarrow> ses_revoked_at r \<noteq> None"
    then show "ses_id r' = i \<longrightarrow> ses_revoked_at r' \<noteq> None"
      using session_edit_done session_edit_keeps by metis
  next
    fix s :: AuthSession assume "NewSession (ses_id s) \<in> created_ids c"
    then show "ses_id (session_row s) = i \<longrightarrow> ses_revoked_at (session_row s) \<noteq> None"
      using assms(1) c by (auto simp: session_row_def)
  qed
qed

text \<open>
  C27: Revoking an API key cuts off everything that was built on it.  After the revocation,
  whatever calls follow (as long as none creates a key under the same identifier), no token
  authenticates as that key, and no session minted from it authenticates, not even one that was
  inserted after the revocation.
\<close>

theorem revoked_key_is_cut_off:
  assumes "db = identity_run empty_identity_db cs0"
    and "revoke_api_key db a k t = (True, db')"
    and "\<forall>c \<in> set cs. NewKey k \<notin> created_ids c"
  shows "(\<forall>r. fst (authenticate_api_key cfg (identity_run db' cs) token scope now) = Inr r
            \<longrightarrow> key_id (ak_api_key r) \<noteq> k)
    \<and> (\<forall>r. fst (authenticate_astrometry_session cfg (identity_run db' cs) token now) = Inr r
            \<longrightarrow> ses_api_key_id (as_session r) \<noteq> Some k)"
proof -
  have ok: "identity_ok db" unfolding assms(1) by (rule identity_ok_run [OF identity_ok_empty])
  have revoked: "\<not> key_live now key" if "api_key (identity_run db' cs) b k = Some key" for b key
    using key_revoked_run [OF assms(3) revoke_api_key_revokes [OF ok assms(2)]] api_key_SomeD [OF that]
    by (auto simp: key_live_def)
  show ?thesis
  proof (intro conjI allI impI)
    fix r assume "fst (authenticate_api_key cfg (identity_run db' cs) token scope now) = Inr r"
    then show "key_id (ak_api_key r) \<noteq> k"
      by (rule authenticate_api_key_InrD) (use revoked in \<open>auto simp: key_accepts_def dest: api_key_SomeD\<close>)
  next
    fix r assume "fst (authenticate_astrometry_session cfg (identity_run db' cs) token now) = Inr r"
    then show "ses_api_key_id (as_session r) \<noteq> Some k"
      by (rule authenticate_astrometry_session_InrD) (use revoked in \<open>metis\<close>)
  qed
qed

text \<open>
  A logout is final.  After it, whatever calls follow (as long as none creates a session under
  the same identifier), no token and no cookie authenticates that session again.
\<close>

theorem logout_is_final:
  assumes "db = identity_run empty_identity_db cs0"
    and "authenticate_browser_session cfg db token csrf now = (Inr r, db')"
    and "\<forall>c \<in> set cs. NewSession (ses_id (ab_session r)) \<notin> created_ids c"
  shows "\<forall>r' db''. authenticate_browser_session cfg' (identity_run (logout db' r now') cs) token' csrf' now''
      = (Inr r', db'') \<longrightarrow> ses_id (ab_session r') \<noteq> ses_id (ab_session r)"
proof (intro allI impI notI)
  fix r' db''
  assume later: "authenticate_browser_session cfg' (identity_run (logout db' r now') cs) token' csrf' now''
      = (Inr r', db'')"
    and same: "ses_id (ab_session r') = ses_id (ab_session r)"
  have ok: "identity_ok db" unfolding assms(1) by (rule identity_ok_run [OF identity_ok_empty])
  obtain a i secret s where s: "session db a i = Inr (Some s)" "session_accepts cfg Browser secret now s"
    "active_account db a = Inr (ab_account r)" "ab_session r = fst (refresh_session db a i now s)"
    and db': "db' = snd (refresh_session db a i now s)"
    by (rule authenticate_browser_session_InrD [OF assms(2)])
  obtain x where x: "x \<in> set (id_sessions db)" "session_from_row x = Inr s" "ses_id x = i" "ses_account_id x = a"
    by (rule session_InrD [OF s(1)])
  have i: "ses_id (ab_session r) = i" using s(4) refresh_session_keeps(1) x session_from_row_Inr(1) by simp
  have a: "acc_id (ab_account r) = a"
    using s(3) by (auto simp: active_account_def account_by_id_def account_query_def fetch_optional_Some
        account_from_row_Inr(1) dest!: select_one_SomeD)
  have "\<forall>y \<in> set (id_sessions db). ses_id y = i \<longrightarrow> ses_account_id y = a"
    by (metis distinct_map_same [OF identity_ok_distinct(4) [OF ok] _ x(1)] x(3,4))
  then have "\<forall>y \<in> set (id_sessions db'). ses_id y = i \<longrightarrow> ses_account_id y = a"
    unfolding db' by (rule refresh_session_rows [rotated]) (auto dest: session_edit_keeps)
  then have "\<forall>y \<in> set (id_sessions (logout db' r now')). ses_id y = i \<longrightarrow> ses_revoked_at y \<noteq> None"
    unfolding logout_def a i by (rule revoke_session_revokes)
  from session_revoked_run [OF assms(3) [unfolded i] this]
  have revoked: "\<forall>y \<in> set (id_sessions (identity_run (logout db' r now') cs)).
      ses_id y = i \<longrightarrow> ses_revoked_at y \<noteq> None" .
  obtain a' i' secret' s' where s': "session (identity_run (logout db' r now') cs) a' i' = Inr (Some s')"
    "session_accepts cfg' Browser secret' now'' s'"
    "ab_session r' = fst (refresh_session (identity_run (logout db' r now') cs) a' i' now'' s')"
    by (rule authenticate_browser_session_InrD [OF later])
  obtain y where "y \<in> set (id_sessions (identity_run (logout db' r now') cs))" "session_from_row y = Inr s'"
    by (rule session_InrD [OF s'(1)])
  with revoked s'(2,3) same i show False
    by (auto simp: session_accepts_def refresh_session_keeps session_from_row_Inr)
qed

definition sample_cfg :: AuthConfig where
  "sample_cfg = \<lparr>cfg_crypto = sample_crypto, cfg_code_pepper = [], cfg_sign_in_link = Some\<rparr>"

definition sample_key :: ApiKey where
  "sample_key = \<lparr>key_id = 3, key_account_id = 1, key_secret_digest = ''d'', key_display_prefix = [],
     key_name = ''k'', key_scopes = [''solve:submit''], key_queue_weight = Fin 1, key_created_at = 5,
     key_expires_at = None, key_last_used_at = None, key_revoked_at = None\<rparr>"

definition sample_key_db :: IdentityDb where
  "sample_key_db = identity_run empty_identity_db
     [CreateAccount sample_account, CreateApiKey sample_key,
      CreateSession (sample_session 1\<lparr>ses_account_id := 1\<rparr>)]"

definition sample_authenticated :: AuthenticatedBrowserSession where
  "sample_authenticated =
     \<lparr>ab_account = sample_account, ab_session = sample_session 1\<lparr>ses_account_id := 1\<rparr>, ab_csrf_token = None\<rparr>"

theorem revoked_key_is_cut_off_witness:
  "\<not> (\<exists>r. fst (authenticate_api_key sample_cfg
               (identity_run (snd (revoke_api_key sample_key_db 1 3 6)) [CreateAccount sample_account])
               ''seiza_key_1_3_d'' ''solve:submit'' 7) = Inr r
          \<and> key_id (ak_api_key r) = 3)"
proof -
  have "fst (revoke_api_key sample_key_db 1 3 6)" by code_simp
  then have "revoke_api_key sample_key_db 1 3 6 = (True, snd (revoke_api_key sample_key_db 1 3 6))"
    by (simp add: prod_eq_iff)
  from revoked_key_is_cut_off [OF sample_key_db_def this, of "[CreateAccount sample_account]" sample_cfg]
  show ?thesis by simp
qed

theorem logout_is_final_witness:
  "\<not> (\<exists>r' db''. authenticate_browser_session sample_cfg
               (identity_run (logout (snd (authenticate_browser_session sample_cfg sample_key_db
                   ''seiza_session_1_1_d'' None 6)) sample_authenticated 7) []) ''seiza_session_1_1_d'' None 8
             = (Inr r', db'') \<and> ses_id (ab_session r') = ses_id (ab_session sample_authenticated))"
proof -
  have "fst (authenticate_browser_session sample_cfg sample_key_db ''seiza_session_1_1_d'' None 6)
      = Inr sample_authenticated" by code_simp
  then have "authenticate_browser_session sample_cfg sample_key_db ''seiza_session_1_1_d'' None 6
      = (Inr sample_authenticated, snd (authenticate_browser_session sample_cfg sample_key_db
           ''seiza_session_1_1_d'' None 6))" by (simp add: prod_eq_iff)
  from logout_is_final [OF sample_key_db_def this, of "[]" sample_cfg 7 "''seiza_session_1_1_d''" None 8]
  show ?thesis by auto
qed

section \<open>Signing in\<close>

lemma account_by_id_of_lookup:
  assumes "identity_ok db" "account_by_email_lookup db e = Inr (Some a)"
  shows "account_by_id db (acc_id a) = Inr (Some a)"
proof -
  obtain x where x: "select_one (\<lambda>r. acc_email_lookup r = e) (id_accounts db) = Some x" "account_from_row x = Inr a"
    using assms(2) by (auto simp: account_by_email_lookup_def account_query_def fetch_optional_Some)
  have "select_one (\<lambda>r. acc_id r = acc_id a) (id_accounts db) = Some x"
    using x select_one_SomeD [OF x(1)] identity_ok_distinct(1) [OF assms(1)]
    by (intro select_one_key) (simp_all add: account_from_row_Inr(1))
  with x(2) show ?thesis by (simp add: account_by_id_def account_query_def fetch_optional_Some)
qed

lemma complete_email_InrD:
  assumes "complete_email cfg db credential now account_id (Some sb) (Some cb) sid = (Inr r, db')"
  obtains i e where
    "complete_email_challenge db i now max_challenge_attempts (email_account cfg e account_id now)
       (browser_session cfg sid account_id (x_base64url (cfg_crypto cfg) sb) (x_base64url (cfg_crypto cfg) cb) now)
     = (Inr (Some (cb_completion r)), db')"
    "cb_session_token r = format_prefixed_token (cfg_crypto cfg) ''session''
       [acc_id (ces_account (cb_completion r)), ses_id (ces_session (cb_completion r))]
       (x_base64url (cfg_crypto cfg) sb)"
    "cb_csrf_token r = x_base64url (cfg_crypto cfg) cb"
  using assms
  by (auto simp: complete_email_def new_browser_session_def random_secret_def Let_def
      split: sum.splits option.splits prod.splits if_splits)

text \<open>
  C26: A completed sign-in by email opens a session: for the next thirty days its token authenticates
  the account that signed in, its CSRF token passes the check, and it counts as a recent
  authentication for ten minutes.  A token with another secret does not open the session, unless
  the digests of the two secrets collide.
\<close>

theorem sign_in_opens_session:
  assumes "db = identity_run empty_identity_db cs" "uuid_text_ok (cfg_crypto cfg)"
    and "complete_email cfg db credential now account_id (Some sb) (Some cb) sid = (Inr r, db')"
    and "x_base64url (cfg_crypto cfg) sb \<noteq> []" "t < now + session_idle_lifetime"
  shows "(\<exists>auth db''. authenticate_browser_session cfg db' (cb_session_token r) (Some (cb_csrf_token r)) t
            = (Inr auth, db'')
          \<and> ab_account auth = ces_account (cb_completion r) \<and> ses_id (ab_session auth) = sid
          \<and> require_csrf auth (Some (cb_csrf_token r)) = Inr ()
          \<and> (require_recent_auth auth t = Inr () \<longleftrightarrow> t \<le> now + recent_auth_lifetime))
    \<and> (\<forall>secret csrf. secret \<noteq> []
        \<and> secret_digest (cfg_crypto cfg) secret \<noteq> secret_digest (cfg_crypto cfg) (x_base64url (cfg_crypto cfg) sb)
        \<longrightarrow> authenticate_browser_session cfg db'
              (format_prefixed_token (cfg_crypto cfg) ''session''
                 [acc_id (ces_account (cb_completion r)), sid] secret) csrf t
            = (Inl InvalidCredential, db'))"
proof -
  let ?X = "cfg_crypto cfg"
  let ?sec = "x_base64url ?X sb" and ?csrf = "x_base64url ?X cb"
  have ok: "identity_ok db" unfolding assms(1) by (rule identity_ok_run [OF identity_ok_empty])
  obtain i e where completed: "complete_email_challenge db i now max_challenge_attempts
      (email_account cfg e account_id now) (browser_session cfg sid account_id ?sec ?csrf now)
      = (Inr (Some (cb_completion r)), db')"
    and tokens: "cb_session_token r = format_prefixed_token ?X ''session''
       [acc_id (ces_account (cb_completion r)), ses_id (ces_session (cb_completion r))] ?sec"
      "cb_csrf_token r = ?csrf"
    by (rule complete_email_InrD [OF assms(3)])
  let ?acc = "ces_account (cb_completion r)"
  let ?s = "browser_session cfg sid (acc_id ?acc) ?sec ?csrf now"
  obtain e' where facts: "acc_status ?acc = Active" "ces_session (cb_completion r) = ?s"
    "account_by_email_lookup db' e' = Inr (Some ?acc)" "session db' (acc_id ?acc) sid = Inr (Some ?s)"
    using email_completion [OF ok completed] by (auto simp: browser_session_def)
  have "db' = identity_step db (CompleteEmailChallenge i now max_challenge_attempts
      (email_account cfg e account_id now) (browser_session cfg sid account_id ?sec ?csrf now))"
    using completed by simp
  then have ok': "identity_ok db'" by (simp only: identity_ok_step [OF ok])
  have active: "active_account db' (acc_id ?acc) = Inr ?acc"
    by (simp add: active_account_def account_by_id_of_lookup [OF ok' facts(3)] facts(1))
  have parsed: "parse_session_token ?X (format_prefixed_token ?X ''session'' [acc_id ?acc, sid] s)
      = Some (acc_id ?acc, sid, s)" if "s \<noteq> []" for s
    using parse_format_token [OF assms(2) _ that, of "''session''" "[acc_id ?acc, sid]"]
    by (simp add: parse_session_token_def numeral_2_eq_2)
  have accepts: "session_accepts cfg Browser s t ?s \<longleftrightarrow> secret_digest ?X s = secret_digest ?X ?sec" for s
    using assms(5)
    by (auto simp: session_accepts_def browser_session_def session_idle_lifetime_def
        session_absolute_lifetime_def constant_time_eq_def)
  have sid: "ses_id ?s = sid" by (simp add: browser_session_def)
  obtain s' db'' where refreshed:
 "refresh_session db' (acc_id ?acc) sid t ?s = (s', db'')" by fastforce
  have s': "ses_id s' = sid" "ses_csrf_digest s' = Some (secret_digest ?X ?csrf)" "ses_created_at s' = now"
    using refreshed by (auto simp: refresh_session_def browser_session_def Let_def split: if_splits prod.splits)
  let ?auth = "\<lparr>ab_account = ?acc, ab_session = s', ab_csrf_token = Some ?csrf\<rparr>"
  have "authenticate_browser_session cfg db' (cb_session_token r) (Some (cb_csrf_token r)) t = (Inr ?auth, db'')"
    using facts tokens parsed [OF assms(4)] accepts [of ?sec] s'
    by (simp add: authenticate_browser_session_def active refreshed filter_option_def and_then_def ok_or_def
        internal_def constant_time_eq_def sid)
  moreover have "require_csrf ?auth (Some (cb_csrf_token r)) = Inr ()"
    by (simp add: require_csrf_def tokens constant_time_eq_def)
  moreover have "require_recent_auth ?auth t = Inr () \<longleftrightarrow> t \<le> now + recent_auth_lifetime"
    by (auto simp: require_recent_auth_def s')
  moreover have "authenticate_browser_session cfg db'
              (format_prefixed_token ?X ''session'' [acc_id ?acc, sid] s) csrf t = (Inl InvalidCredential, db')"
    if "s \<noteq> []" "secret_digest ?X s \<noteq> secret_digest ?X ?sec" for s csrf
    using parsed [OF that(1)] accepts [of s] that(2) facts(4)
    by (simp add: authenticate_browser_session_def filter_option_def and_then_def ok_or_def internal_def)
  ultimately show ?thesis using s'(1) by auto
qed

definition sample_signed_in :: CompletedBrowserSignIn where
  "sample_signed_in =
     \<lparr>cb_completion = \<lparr>ces_account = email_account sample_cfg ''a@b.c'' 7 5,
        ces_session = browser_session sample_cfg 9 7 ''A'' ''B'' 5, ces_account_created = True\<rparr>,
      cb_session_token = ''seiza_session_7_9_A'', cb_csrf_token = ''B''\<rparr>"

theorem sign_in_opens_session_witness:
  "\<exists>auth db''. authenticate_browser_session sample_cfg
      (snd (complete_email sample_cfg sample_db (LinkToken ''seiza_login_2_l'') 5 7 (Some [65]) (Some [66]) 9))
      ''seiza_session_7_9_A'' (Some ''B'') 900000000000000 = (Inr auth, db'') \<and> ses_id (ab_session auth) = 9"
proof -
  have "fst (complete_email sample_cfg sample_db (LinkToken ''seiza_login_2_l'') 5 7 (Some [65]) (Some [66]) 9)
      = Inr sample_signed_in" by code_simp
  then have "complete_email sample_cfg sample_db (LinkToken ''seiza_login_2_l'') 5 7 (Some [65]) (Some [66]) 9
      = (Inr sample_signed_in, snd (complete_email sample_cfg sample_db (LinkToken ''seiza_login_2_l'') 5 7
           (Some [65]) (Some [66]) 9))" by (simp add: prod_eq_iff)
  from sign_in_opens_session [OF sample_db_def _ this, of 900000000000000] sample_crypto_ok
  show ?thesis
    by (auto simp: sample_cfg_def sample_crypto_def session_idle_lifetime_def sample_signed_in_def)
qed

section \<open>Sessions minted from an API key\<close>

definition minted_row :: "AccountId \<Rightarrow> ApiKeyId \<Rightarrow> time \<Rightarrow> SessionRow \<Rightarrow> bool" where
  "minted_row a k now x =
     (ses_account_id x = a \<and> ses_kind x = ''astrometry'' \<and> ses_api_key_id x = Some k
      \<and> ses_revoked_at x = None \<and> now < ses_expires_at x \<and> now < ses_absolute_expires_at x)"

definition decoded :: "SessionRow \<Rightarrow> AuthSession" where
  "decoded x = projr (session_from_row x)"

lemma session_from_row_decoded:
  assumes "\<not> isl (session_kind_parse (ses_kind x))"
  shows "session_from_row x = Inr (decoded x)"
  using assms by (auto simp: session_from_row_def decoded_def split: sum.splits)

lemma list_sessions_decoded:
  assumes "identity_ok db"
  shows "list_sessions db a = Inr (map decoded
    (order_by (\<lambda>r. - ses_created_at r) (filter (\<lambda>r. ses_account_id r = a) (id_sessions db))))"
proof -
  have "map session_from_row xs = map Inr (map decoded xs)" if "set xs \<subseteq> set (id_sessions db)" for xs
    using that assms by (auto simp: identity_ok_defs intro!: session_from_row_decoded)
  then show ?thesis unfolding list_sessions_def by (subst collect_results_Inr) auto
qed

lemma minted_live_decoded:
  assumes "\<not> isl (session_kind_parse (ses_kind x))" "ses_account_id x = a"
  shows "minted_live k now (decoded x) \<longleftrightarrow> minted_row a k now x" "ses_id (decoded x) = ses_id x"
    "ses_created_at (decoded x) = ses_created_at x"
proof -
  note d = session_from_row_Inr [OF session_from_row_decoded [OF assms(1)]]
  have "ses_kind (decoded x) = Astrometry \<longleftrightarrow> ses_kind x = ''astrometry''"
    unfolding d(4) by (cases "ses_kind (decoded x)") auto
  then show "minted_live k now (decoded x) \<longleftrightarrow> minted_row a k now x"
    using d assms(2) by (auto simp: minted_live_def minted_row_def)
qed (simp_all add: session_from_row_Inr [OF session_from_row_decoded [OF assms(1)]])

lemma fold_delete_session:
  "id_sessions (fold (\<lambda>s db. delete_session db a (ses_id s)) ss db)
   = filter (\<lambda>r. \<not> (ses_account_id r = a \<and> ses_id r \<in> ses_id ` set ss)) (id_sessions db)"
proof (induction ss arbitrary: db)
  case (Cons s ss)
  have "id_sessions (delete_session db a (ses_id s))
      = filter (\<lambda>r. \<not> (ses_id r = ses_id s \<and> ses_account_id r = a)) (id_sessions db)"
    by (simp add: delete_session_def)
  then show ?case
    by (simp add: Cons) (rule filter_cong [OF refl], auto)

qed simp

lemma length_filter_removed:
  assumes "distinct (map k t)" "D \<subseteq> k ` set (filter p t)"
  shows "length (filter (\<lambda>x. p x \<and> k x \<notin> D) t) = length (filter p t) - card D"
proof -
  have d: "distinct (map k (filter q t))" for q using assms(1) by (rule distinct_map_filterI)
  have "length (filter q t) = card (k ` set (filter q t))" for q
    using distinct_card [OF d [of q]] by simp
  moreover have "k ` set (filter (\<lambda>x. p x \<and> k x \<notin> D) t) = k ` set (filter p t) - D" by auto
  moreover have "card (k ` set (filter p t) - D) = card (k ` set (filter p t)) - card D"
    by (rule card_Diff_subset [OF finite_subset [OF assms(2)] assms(2)]) simp

  ultimately show ?thesis by simp
qed

lemma distinct_map_sort_key: "distinct (map f (sort_key g xs)) \<longleftrightarrow> distinct (map f xs)"
  by (simp add: distinct_map)

lemma recycle_keeps_newest:

  assumes ok: "identity_ok db" and a: "a = acc_id (ak_account auth)" and k: "k = key_id (ak_api_key auth)"
    and recycled: "recycle_astrometry_sessions db auth now = (Inr (), db')"
  shows "length (filter (minted_row a k now) (id_sessions db')) < max_live_astrometry_sessions_per_key
    \<and> filter (\<lambda>x. \<not> minted_row a k now x) (id_sessions db') = filter (\<lambda>x. \<not> minted_row a k now x) (id_sessions db)
    \<and> (\<forall>x \<in> set (id_sessions db) - set (id_sessions db').
         \<forall>y \<in> set (filter (minted_row a k now) (id_sessions db')). ses_created_at x \<le> ses_created_at y)"
proof -
  let ?M = "minted_row a k now"
  let ?rows = "order_by (\<lambda>r. - ses_created_at r) (filter (\<lambda>r. ses_account_id r = a) (id_sessions db))"
  let ?live = "filter (minted_live k now) (map decoded ?rows)"
  have kinds: "\<not> isl (session_kind_parse (ses_kind x))" if "x \<in> set (id_sessions db)" for x
    using ok that by (simp add: identity_ok_defs)
  have dec: "minted_live k now (decoded x) \<longleftrightarrow> ?M x" "ses_id (decoded x) = ses_id x"
    "ses_created_at (decoded x) = ses_created_at x" if "x \<in> set ?rows" for x
    using that by (auto intro!: minted_live_decoded kinds)
  have "filter (\<lambda>x. minted_live k now (decoded x)) ?rows = filter ?M ?rows"
    by (rule filter_cong [OF refl]) (simp only: dec(1))
  then have live: "?live = map decoded (filter ?M ?rows)" by (simp add: filter_map o_def)
  have rows: "filter ?M ?rows = order_by (\<lambda>r. - ses_created_at r) (filter ?M (id_sessions db))"
    unfolding order_by_def filter_sort by (auto simp: minted_row_def intro!: arg_cong [where f = "sort_key _"] filter_cong)
  let ?n = "length (filter ?M (id_sessions db))"
  have n: "length ?live = ?n" unfolding live rows by simp
  let ?sorted = "sort_key ses_created_at ?live"
  let ?e = "?n + 1 - max_live_astrometry_sessions_per_key"
  let ?del = "take ?e ?sorted"

  let ?D = "ses_id ` set ?del"
  have listed: "list_sessions db a = Inr (map decoded ?rows)" by (rule list_sessions_decoded [OF ok])
  show ?thesis
  proof (cases "?n < max_live_astrometry_sessions_per_key")
    case True
    then have "db' = db"
      using recycled listed n by (simp add: recycle_astrometry_sessions_def a k Let_def)
    with True show ?thesis by simp
  next
    case False
    obtain del where del: "del = ?del" by blast
    obtain D where Ddef: "D = ses_id ` set del" by blast
    have sessions: "id_sessions db' = filter (\<lambda>r. \<not> (ses_account_id r = a \<and> ses_id r \<in> D)) (id_sessions db)"
      using recycled listed n False fold_delete_session [of a ?del db] unfolding Ddef del
      by (auto simp: recycle_astrometry_sessions_def a k Let_def)
    have M: "ses_account_id x = a" if "?M x" for x using that by (simp add: minted_row_def)
    have of_del: "x \<in> set (id_sessions db) \<and> ?M x \<and> decoded x \<in> set del"
      if xD: "ses_id x \<in> D" and xm: "x \<in> set (id_sessions db)" for x
    proof -
      obtain s where s: "s \<in> set del" "ses_id x = ses_id s" using xD unfolding Ddef by (rule imageE)
      have "s \<in> set ?live" using in_set_takeD [OF s(1) [unfolded del]] by simp
      then obtain y where y: "y \<in> set (filter ?M ?rows)" "s = decoded y" unfolding live by auto
      then have "ses_id y = ses_id x" using s(2) dec(2) by auto
      moreover have "y \<in> set (id_sessions db)" using y(1) by simp
      ultimately have "y = x"
        using distinct_map_same [OF identity_ok_distinct(4) [OF ok]] xm by blast
      then show ?thesis using y s(1) xm by simp

    qed
    have ids: "ses_id ` set ?live = ses_id ` set (filter ?M (id_sessions db))"
      unfolding live rows set_map image_image set_order_by
      by (rule image_cong [OF refl]) (use dec(2) M in auto)
    have D: "D \<subseteq> ses_id ` set (filter ?M (id_sessions db))"
      unfolding ids [symmetric] Ddef del by (auto dest!: in_set_takeD)
    have "map ses_id ?live = map ses_id (filter ?M ?rows)" unfolding live by (simp add: dec(2))
    moreover have "distinct (map ses_id (filter ?M ?rows))"
      unfolding rows order_by_def using identity_ok_distinct(4) [OF ok]
      by (simp add: distinct_map inj_on_def)
    ultimately have "distinct (map ses_id ?sorted)" unfolding distinct_map_sort_key by (simp only:)
    then have "distinct (map ses_id del)" by (simp add: del take_map [symmetric])
    then have "card D = length del" using distinct_card [of "map ses_id del"] by (simp add: Ddef)
    then have card: "card D = ?e"
      using n False del by (simp add: max_live_astrometry_sessions_per_key_def)
    have "filter ?M (id_sessions db') = filter (\<lambda>x. ?M x \<and> ses_id x \<notin> D) (id_sessions db)"
      unfolding sessions by (simp add: filter_filter) (rule filter_cong [OF refl], use M in auto)
    then have "length (filter ?M (id_sessions db')) = ?n - card D"
      using length_filter_removed [OF identity_ok_distinct(4) [OF ok] D] by simp
    then have len: "length (filter ?M (id_sessions db')) < max_live_astrometry_sessions_per_key"
      using False card by (simp add: max_live_astrometry_sessions_per_key_def)
    have other: "filter (\<lambda>x. \<not> ?M x) (id_sessions db') = filter (\<lambda>x. \<not> ?M x) (id_sessions db)"
      unfolding sessions by (simp add: filter_filter) (rule filter_cong [OF refl], use of_del in auto)
    have "ses_created_at x \<le> ses_created_at y"
      if x: "x \<in> set (id_sessions db) - set (id_sessions db')"
        and y: "y \<in> set (filter ?M (id_sessions db'))" for x y
    proof -
      have dx: "decoded x \<in> set del" "?M x" using x of_del unfolding sessions by auto
      have yM: "y \<in> set (id_sessions db)" "?M y" "ses_id y \<notin> D" using y M unfolding sessions by auto
      have "decoded y \<in> set ?sorted" using yM(1,2) M unfolding set_sort live by auto
      moreover have "decoded y \<notin> set del"
      proof
        assume "decoded y \<in> set del"
        then have "ses_id (decoded y) \<in> D" unfolding Ddef by (rule imageI)
        with yM M dec(2) [of y] show False by simp
      qed
      ultimately have dy: "decoded y \<in> set (drop ?e ?sorted)"
        unfolding del by (metis Un_iff append_take_drop_id set_append)
      have "sorted (map ses_created_at (del @ drop ?e ?sorted))" unfolding del by simp
      then have "ses_created_at (decoded x) \<le> ses_created_at (decoded y)"
        using dx(1) dy unfolding map_append sorted_append by auto
      then show ?thesis using dec(3) [of x] dec(3) [of y] x yM dx(2) M by auto
    qed
    then show ?thesis using len other by blast
  qed
qed

lemma touch_api_key_frame [simp]:
  "id_sessions (snd (touch_api_key db a k t)) = id_sessions db"
  "id_accounts (snd (touch_api_key db a k t)) = id_accounts db"
  by (simp_all add: touch_api_key_def Let_def)

lemma authenticate_api_key_frame:
  "id_sessions (snd (authenticate_api_key cfg db token scope now)) = id_sessions db
   \<and> (identity_ok db \<longrightarrow> identity_ok (snd (authenticate_api_key cfg db token scope now)))"
proof -
  have touch: "id_sessions x = id_sessions db \<and> (identity_ok db \<longrightarrow> identity_ok x)"
    if "touch_api_key db a k now = (b, x)" for a k b x
    using touch_api_key_frame(1) [of db a k now] identity_ok_step [of db "TouchApiKey a k now"] that by simp
  show ?thesis
    by (auto simp: authenticate_api_key_def Let_def touch split: option.split sum.split prod.split)
qed

lemma create_astrometry_session_InrE:
  assumes "create_astrometry_session cfg db token now0 now secret_bytes sid = (Inr r, db')"
  obtains auth db1 db2 secret where
    "authenticate_api_key cfg db token scope_solve_submit now0 = (Inr auth, db1)"
    "recycle_astrometry_sessions db1 auth now = (Inr (), db2)"
    "create_session db2 (astrometry_session cfg sid auth secret now) = (Inr (), db')"
    "ca_account r = ak_account auth" "ca_session r = astrometry_session cfg sid auth secret now"
proof -
  obtain x db1 where A: "authenticate_api_key cfg db token scope_solve_submit now0 = (x, db1)"
    by (rule prod.exhaust)
  note defs = create_astrometry_session_def A
  obtain auth where x: "x = Inr auth" using assms by (cases x) (simp_all add: defs)
  obtain y db2 where B: "recycle_astrometry_sessions db1 auth now = (y, db2)" by (rule prod.exhaust)
  have "y = Inr ()" using assms by (cases y) (simp_all add: defs x B)
  with B have y: "recycle_astrometry_sessions db1 auth now = (Inr (), db2)" by simp
  obtain secret where S: "random_secret (cfg_crypto cfg) secret_bytes = Some secret"
    using assms by (cases "random_secret (cfg_crypto cfg) secret_bytes") (simp_all add: defs x y split: unit.splits)
  obtain z db3 where C: "create_session db2 (astrometry_session cfg sid auth secret now) = (z, db3)"
    by (rule prod.exhaust)
  have "z = Inr ()" using assms by (cases z) (simp_all add: defs x y S C Let_def split: unit.splits)
  with C have z: "create_session db2 (astrometry_session cfg sid auth secret now) = (Inr (), db3)" by simp
  have "db3 = db'" "ca_account r = ak_account auth" "ca_session r = astrometry_session cfg sid auth secret now"
    using assms by (auto simp: defs x y S z Let_def split: unit.splits)
  with A x y z show ?thesis by (intro that) simp_all
qed

text \<open>
  C28: The sessions
 minted from one API key are capped.  After a login through the Astrometry API at
  most twenty sessions of the key are live, the new one among them; the sessions that were
  recycled are the oldest ones, and no other session of any kind is touched.
\<close>

theorem minted_sessions_are_capped:
  assumes "db = identity_run empty_identity_db cs"
    and "create_astrometry_session cfg db token now0 now secret_bytes sid = (Inr r, db')"
    and "a = acc_id (ca_account r)" "ses_api_key_id (ca_session r) = Some k"
  shows "length (filter (minted_row a k now) (id_sessions db')) \<le> 20
    \<and> session db' a sid = Inr (Some (ca_session r))
    \<and> filter (\<lambda>x. \<not> minted_row a k now x \<and> ses_id x \<noteq> sid) (id_sessions db')
      = filter (\<lambda>x. \<not> minted_row a k now x) (id_sessions db)
    \<and> (\<forall>x \<in> set (id_sessions db) - set (id_sessions db').
         \<forall>y \<in> set (filter (minted_row a k now) (id_sessions db')).
           ses_id y \<noteq> sid \<longrightarrow> ses_created_at x \<le> ses_created_at y)"
proof -
  have ok: "identity_ok db" unfolding assms(1) by (rule identity_ok_run [OF identity_ok_empty])
  obtain auth db1 db2 secret where
    auth: "authenticate_api_key cfg db token scope_solve_submit now0 = (Inr auth, db1)"
    and recycled: "recycle_astrometry_sessions db1 auth now = (Inr (), db2)"
    and created: "create_session db2 (astrometry_session cfg sid auth secret now) = (Inr (), db')"
    and r: "ca_account r = ak_account auth" "ca_session r = astrometry_session cfg sid auth secret now"
    by (rule create_astrometry_session_InrE [OF assms(2)])
  have db1: "id_sessions db1 = id_sessions db" "identity_ok db1"
    using authenticate_api_key_frame [of cfg db token scope_solve_submit now0] ok by (simp_all add: auth)
  have ak: "a = acc_id (ak_account auth)" "k = key_id (ak_api_key auth)"
    using assms(3,4) r by (simp_all add: astrometry_session_def)
  note kept = recycle_keeps_newest [OF db1(2) ak recycled]
  let ?s = "session_row (astrometry_session cfg sid auth secret now)"
  have db': "id_sessions db' = id_sessions db2 @ [?s]" and fresh: "sid \<notin> ses_id ` set (id_sessions db2)"
    using created by (auto simp: create_session_def commit_def insertions astrometry_session_def split: sum.splits)
  have s: "ses_id ?s = sid" "ses_account_id ?s = a" by (simp_all add: session_row_def astrometry_session_def ak)
  have "select_one (\<lambda>q. ses_id q = sid \<and> ses_account_id q = a) (id_sessions db2) = None"
    unfolding select_one_None using fresh by (metis imageI)
  then have "session db' a sid = Inr (Some (ca_session r))"
    by (simp add: session_def fetch_optional_Some db' s r)
  moreover have "length (filter (minted_row a k now) (id_sessions db')) \<le> 20"
    using kept by (simp add: db' max_live_astrometry_sessions_per_key_def)
  moreover have "filter (\<lambda>x. \<not> minted_row a k now x \<and> ses_id x \<noteq> sid) (id_sessions db')
      = filter (\<lambda>x. \<not> minted_row a k now x) (id_sessions db)"
  proof -
    have "filter (\<lambda>x. \<not> minted_row a k now x \<and> ses_id x \<noteq> sid) (id_sessions db2)
        = filter (\<lambda>x. \<not> minted_row a k now x) (id_sessions db2)"
      by (rule filter_cong [OF refl]) (use fresh in auto)
    then show ?thesis using kept db1(1) by (simp add: db' s)
  qed
  moreover have "ses_created_at x \<le> ses_created_at y"
    if x: "x \<in> set (id_sessions db) - set (id_sessions db')"
      and y: "y \<in> set (filter (minted_row a k now) (id_sessions db'))" "ses_id y \<noteq> sid" for x y
  proof -
    have "x \<in> set (id_sessions db1) - set (id_sessions db2)" using x by (simp add: db' db1)
    moreover have "y \<in> set (filter (minted_row a k now) (id_sessions db2))" using y s unfolding db' set_filter set_append by auto

    ultimately show ?thesis using kept by blast
  qed
  ultimately show ?thesis by blast
qed

definition sample_minted :: CreatedAstrometrySession where
  "sample_minted = \<lparr>ca_account = sample_account,
     ca_session = astrometry_session sample_cfg 11 \<lparr>ak_account = sample_account, ak_api_key = sample_key\<rparr> ''F'' 6,
     ca_token = ''seiza_session_1_11_F''\<rparr>"

theorem minted_sessions_are_capped_witness:
  "length (filter (minted_row 1 3 6) (id_sessions
     (snd (create_astrometry_session sample_cfg sample_key_db ''seiza_key_1_3_d'' 6 6 (Some [70]) 11)))) \<le> 20"
proof -
  have "fst (create_astrometry_session sample_cfg sample_key_db ''seiza_key_1_3_d'' 6 6 (Some [70]) 11)
      = Inr sample_minted" by code_simp
  then have "create_astrometry_session sample_cfg sample_key_db ''seiza_key_1_3_d'' 6 6 (Some [70]) 11
      = (Inr sample_minted, snd (create_astrometry_session sample_cfg sample_key_db ''seiza_key_1_3_d'' 6 6
           (Some [70]) 11))" by (simp add: prod_eq_iff)
  from minted_sessions_are_capped [OF sample_key_db_def this, of 1 3]
  show ?thesis by (simp add: sample_minted_def sample_account_def astrometry_session_def sample_key_def)
qed

end
