(* ===== verification/Models.thy ===== *)
theory Models
  imports Prelude
begin

text \<open>
  The data model of \<open>src/models.rs\<close>: job states, solve options and their validation, the WCS and
  SIP records of a solution, and the records a job is made of.  Struct fields carry a short
  prefix because record selectors are global constants.  A JSON column holds the value it
  encodes; the serde attributes are not modelled.
\<close>

type_synonym JobId = uuid
type_synonym AstrometryId = u64
type_synonym LegacyJobId = u64

section \<open>Identifiers and enumerations\<close>

text \<open>Bytes 8 to 15 of the UUID, read big-endian, are its low 64 bits.\<close>

definition astrometry_id_for_job :: "JobId \<Rightarrow> AstrometryId" where
  "astrometry_id_for_job job_id =
     (let value = and (ucast job_id) 0x7FFFFFFFFFFFFFFF in max value 1)"

lemma astrometry_id_bounds:
  "1 \<le> unat (astrometry_id_for_job i) \<and> unat (astrometry_id_for_job i) \<le> 0x7FFFFFFFFFFFFFFF"
proof -
  let ?m = "0x7FFFFFFFFFFFFFFF :: u64"
  have "and (ucast i) ?m \<le> ?m" by (rule word_and_le1)
  then have "max (and (ucast i) ?m) 1 \<le> ?m" by (simp add: max_def word_le_nat_alt)
  then have "unat (max (and (ucast i) ?m) 1) \<le> unat ?m" by (simp add: word_le_nat_alt)
  moreover have "unat (1 :: u64) \<le> unat (max (and (ucast i) ?m) 1)"
    by (simp only: word_le_nat_alt [symmetric]) simp
  ultimately show ?thesis by (simp add: astrometry_id_for_job_def Let_def)
qed

datatype JobStatus = Queued | Solving | Succeeded | Failed

datatype SolveHintSource = HintExplicit | HintFitsHeader | HintXisfHeader | HintExif

datatype SatelliteMetadataSource = SatExplicit | SatFitsHeader | SatXisfHeader | SatExif

fun status_as_str :: "JobStatus \<Rightarrow> string" where
  "status_as_str Queued = ''queued''"
| "status_as_str Solving = ''solving''"
| "status_as_str Succeeded = ''succeeded''"
| "status_as_str Failed = ''failed''"

definition status_parse :: "string \<Rightarrow> string + JobStatus" where
  "status_parse v =
     (if v = ''queued'' then Inr Queued
      else if v = ''solving'' then Inr Solving
      else if v = ''succeeded'' then Inr Succeeded
      else if v = ''failed'' then Inr Failed
      else Inl (''unknown job status `'' @ v @ ''`''))"

lemma status_parse_as_str [simp]: "status_parse (status_as_str s) = Inr s"
  by (cases s) (simp_all add: status_parse_def)

lemma status_parse_Inr: "status_parse v = Inr s \<longleftrightarrow> v = status_as_str s"
  by (cases s) (auto simp: status_parse_def)

section \<open>Solve options\<close>

record SolveOptions =
  so_center_ra_deg :: "f64 option"
  so_center_dec_deg :: "f64 option"
  so_radius_deg :: "f64 option"
  so_scale_arcsec_per_pixel :: "f64 option"
  so_scale_tolerance :: f64
  so_min_scale_arcsec_per_pixel :: "f64 option"
  so_max_scale_arcsec_per_pixel :: "f64 option"
  so_sigma :: f64
  so_ignore_border :: u32
  so_max_stars :: nat
  so_sip_order :: u8
  so_capture_time :: "time option"
  so_exposure_seconds :: "f64 option"
  so_observer_latitude_deg :: "f64 option"
  so_observer_longitude_deg :: "f64 option"
  so_observer_altitude_m :: "f64 option"
  so_observer_itrf_m :: "(f64 \<times> f64 \<times> f64) option"
  so_satellite_metadata_source :: "SatelliteMetadataSource option"
  so_satellite_metadata_keywords :: "string list"
  so_hint_source :: "SolveHintSource option"
  so_hint_keywords :: "string list"

definition default_options :: SolveOptions where
  "default_options = \<lparr>
     so_center_ra_deg = None, so_center_dec_deg = None, so_radius_deg = Some (Fin 2),
     so_scale_arcsec_per_pixel = None, so_scale_tolerance = Fin (1 / 5),
     so_min_scale_arcsec_per_pixel = None, so_max_scale_arcsec_per_pixel = None,
     so_sigma = Fin 4, so_ignore_border = 0, so_max_stars = 500, so_sip_order = 0,
     so_capture_time = None, so_exposure_seconds = None, so_observer_latitude_deg = None,
     so_observer_longitude_deg = None, so_observer_altitude_m = None, so_observer_itrf_m = None,
     so_satellite_metadata_source = None, so_satellite_metadata_keywords = [],
     so_hint_source = None, so_hint_keywords = []\<rparr>"

definition f64_in :: "rat \<Rightarrow> rat \<Rightarrow> f64 \<Rightarrow> bool" where
  "f64_in lo hi v = (f64_le (Fin lo) v \<and> f64_le v (Fin hi))"

definition f64_pos :: "f64 \<Rightarrow> bool" where
  "f64_pos v = (is_finite v \<and> f64_lt (Fin 0) v)"

text \<open>\<open>SolveOptions::validate\<close>, one early return per line, in the source's order.\<close>

definition validate_observer :: "SolveOptions \<Rightarrow> string + unit" where
  "validate_observer o1 =
     (case (so_observer_latitude_deg o1, so_observer_longitude_deg o1) of
        (Some latitude, Some longitude) \<Rightarrow>
          if \<not> is_finite latitude \<or> \<not> f64_in (-90) 90 latitude
          then Inl ''observer_latitude_deg must be between -90 and 90''
          else if \<not> is_finite longitude
          then Inl ''observer_longitude_deg must be finite''
          else if so_observer_itrf_m o1 \<noteq> None
          then Inl ''provide either geodetic observer coordinates or observer_itrf_m, not both''
          else Inr ()
      | (Some _, None) \<Rightarrow>
          Inl ''observer_latitude_deg and observer_longitude_deg must be supplied together''
      | (None, Some _) \<Rightarrow>
          Inl ''observer_latitude_deg and observer_longitude_deg must be supplied together''
      | (None, None) \<Rightarrow>
          if so_observer_altitude_m o1 \<noteq> None
          then Inl ''observer_altitude_m requires observer latitude and longitude''
          else Inr ())"

definition itrf_valid :: "f64 \<times> f64 \<times> f64 \<Rightarrow> bool" where
  "itrf_valid p = (case p of (x, y, z) \<Rightarrow>
     \<not> (\<not> is_finite x \<or> \<not> is_finite y \<or> \<not> is_finite z
        \<or> (x = Fin 0 \<and> y = Fin 0 \<and> z = Fin 0)))"

definition validate_options :: "SolveOptions \<Rightarrow> string + unit" where
  "validate_options o1 =
     (if \<not> (is_finite (so_sigma o1) \<and> f64_lt (Fin 0) (so_sigma o1))
      then Inl ''sigma must be positive''
      else if \<not> (is_finite (so_scale_tolerance o1) \<and> f64_in (1 / 100) 1 (so_scale_tolerance o1))
      then Inl ''scale_tolerance must be between 0.01 and 1.0''
      else if \<not> (is_none_or f64_pos (so_min_scale_arcsec_per_pixel o1)
                \<and> is_none_or f64_pos (so_max_scale_arcsec_per_pixel o1)
                \<and> (case (so_min_scale_arcsec_per_pixel o1, so_max_scale_arcsec_per_pixel o1) of
                     (Some mi, Some ma) \<Rightarrow> f64_le mi ma
                   | _ \<Rightarrow> True))
      then Inl ''blind scale bounds are invalid''
      else if (so_center_ra_deg o1 \<noteq> None \<or> so_center_dec_deg o1 \<noteq> None)
              \<and> (so_center_ra_deg o1 = None \<or> so_center_dec_deg o1 = None
                  \<or> so_scale_arcsec_per_pixel o1 = None)
      then Inl ''a hinted solve requires center_ra_deg, center_dec_deg, and scale_arcsec_per_pixel''
      else if is_some_and (\<lambda>ra. \<not> f64_in 0 360 ra) (so_center_ra_deg o1)
      then Inl ''center_ra_deg must be between 0 and 360''
      else if is_some_and (\<lambda>dec. \<not> f64_in (-90) 90 dec) (so_center_dec_deg o1)
      then Inl ''center_dec_deg must be between -90 and 90''
      else if is_some_and (\<lambda>scale. \<not> f64_pos scale) (so_scale_arcsec_per_pixel o1)
      then Inl ''scale_arcsec_per_pixel must be positive''
      else if so_sip_order o1 > 5
      then Inl ''sip_order must be between 0 and 5''
      else if is_some_and (\<lambda>seconds. \<not> f64_pos seconds) (so_exposure_seconds o1)
      then Inl ''exposure_seconds must be positive''
      else case validate_observer o1 of
        Inl e \<Rightarrow> Inl e
      | Inr _ \<Rightarrow>
          if is_some_and (\<lambda>altitude. \<not> is_finite altitude) (so_observer_altitude_m o1)
          then Inl ''observer_altitude_m must be finite''
          else if is_some_and (\<lambda>p. \<not> itrf_valid p) (so_observer_itrf_m o1)
          then Inl ''observer_itrf_m must be finite and cannot be Earth's center''
          else Inr ())"

text \<open>What a validated set of options denotes: at most one solve hint and one observing site.\<close>

datatype solve_hint = NoHint | Hint f64 f64 f64

datatype observer_site = NoSite | Geodetic f64 f64 "f64 option" | Itrf "f64 \<times> f64 \<times> f64"

fun hint_ok :: "solve_hint \<Rightarrow> bool" where
  "hint_ok NoHint = True"
| "hint_ok (Hint ra dec scale) = (f64_in 0 360 ra \<and> f64_in (-90) 90 dec \<and> f64_pos scale)"

fun site_ok :: "observer_site \<Rightarrow> bool" where
  "site_ok NoSite = True"
| "site_ok (Geodetic lat lon alt) =
     (f64_in (-90) 90 lat \<and> is_finite lon \<and> is_none_or is_finite alt)"
| "site_ok (Itrf p) = itrf_valid p"

definition has_hint :: "SolveOptions \<Rightarrow> solve_hint \<Rightarrow> bool" where
  "has_hint o1 h = (case h of
       NoHint \<Rightarrow> so_center_ra_deg o1 = None \<and> so_center_dec_deg o1 = None
     | Hint ra dec scale \<Rightarrow> so_center_ra_deg o1 = Some ra \<and> so_center_dec_deg o1 = Some dec
         \<and> so_scale_arcsec_per_pixel o1 = Some scale)"

definition has_site :: "SolveOptions \<Rightarrow> observer_site \<Rightarrow> bool" where
  "has_site o1 s =
     ((so_observer_latitude_deg o1, so_observer_longitude_deg o1, so_observer_altitude_m o1,
       so_observer_itrf_m o1)
      = (case s of
           NoSite \<Rightarrow> (None, None, None, None)
         | Geodetic lat lon alt \<Rightarrow> (Some lat, Some lon, alt, None)
         | Itrf p \<Rightarrow> (None, None, None, Some p)))"

lemma f64_in_finite: "f64_in a b v \<Longrightarrow> is_finite v"
  by (cases v) (auto simp: f64_in_def)

section \<open>SIP and WCS records\<close>

type_synonym SipCoefficient = "u8 \<times> u8 \<times> f64"

record SipResponse =
  sr_order :: u8
  sr_a :: "SipCoefficient list"
  sr_b :: "SipCoefficient list"
  sr_ap :: "SipCoefficient list"
  sr_bp :: "SipCoefficient list"

text \<open>\<open>seiza::Sip\<close>: the order and the coefficients in the library's term order.\<close>

record SeizaSip =
  sip_order :: u8
  sip_a :: "f64 list"
  sip_b :: "f64 list"
  sip_ap :: "f64 list"
  sip_bp :: "f64 list"

text \<open>
  The term order belongs to the \<open>seiza\<close> crate: \<open>fwd\<close> and \<open>bwd\<close> stand for
  \<open>Sip::forward_terms\<close> and \<open>Sip::inverse_terms\<close>.
\<close>

type_synonym sip_terms = "u8 \<Rightarrow> (u8 \<times> u8) list"

definition sip_coefficients :: "(u8 \<times> u8) list \<Rightarrow> f64 list \<Rightarrow> SipCoefficient list" where
  "sip_coefficients terms values = map (\<lambda>((p, q), value). (p, q, value)) (zip terms values)"

definition sip_values :: "(u8 \<times> u8) list \<Rightarrow> SipCoefficient list \<Rightarrow> f64 list" where
  "sip_values terms coefficients =
     map (\<lambda>t. case find (\<lambda>(p, q, _). (p, q) = t) coefficients of
                Some (_, _, value) \<Rightarrow> value
              | None \<Rightarrow> Fin 0) terms"

definition sip_from_seiza :: "sip_terms \<Rightarrow> sip_terms \<Rightarrow> SeizaSip \<Rightarrow> SipResponse" where
  "sip_from_seiza fwd bwd sip = \<lparr>
     sr_order = sip_order sip,
     sr_a = sip_coefficients (fwd (sip_order sip)) (sip_a sip),
     sr_b = sip_coefficients (fwd (sip_order sip)) (sip_b sip),
     sr_ap = sip_coefficients (bwd (sip_order sip)) (sip_ap sip),
     sr_bp = sip_coefficients (bwd (sip_order sip)) (sip_bp sip)\<rparr>"

definition sip_to_seiza :: "sip_terms \<Rightarrow> sip_terms \<Rightarrow> SipResponse \<Rightarrow> SeizaSip" where
  "sip_to_seiza fwd bwd r = \<lparr>
     sip_order = sr_order r,
     sip_a = sip_values (fwd (sr_order r)) (sr_a r),
     sip_b = sip_values (fwd (sr_order r)) (sr_b r),
     sip_ap = sip_values (bwd (sr_order r)) (sr_ap r),
     sip_bp = sip_values (bwd (sr_order r)) (sr_bp r)\<rparr>"

text \<open>The error of a rejected record; the source formats the same data into its message.\<close>

datatype sip_error =
    SipBadOrder
  | SipWrongCount string nat
  | SipNotOnce string u8 u8
  | SipNotFinite string u8 u8

fun validate_terms :: "string \<Rightarrow> SipCoefficient list \<Rightarrow> (u8 \<times> u8) list \<Rightarrow> sip_error + unit" where
  "validate_terms name values [] = Inr ()"
| "validate_terms name values ((p, q) # expected) =
     (let matches = filter (\<lambda>(p', q', _). (p', q') = (p, q)) values in
      if length matches \<noteq> 1 then Inl (SipNotOnce name p q)
      else if \<not> is_finite (snd (snd (matches ! 0))) then Inl (SipNotFinite name p q)
      else validate_terms name values expected)"

definition validate_coefficients ::
  "string \<Rightarrow> (u8 \<times> u8) list \<Rightarrow> SipCoefficient list \<Rightarrow> sip_error + unit" where
  "validate_coefficients name expected values =
     (if length values \<noteq> length expected then Inl (SipWrongCount name (length expected))
      else validate_terms name values expected)"

definition sip_validate :: "sip_terms \<Rightarrow> sip_terms \<Rightarrow> SipResponse \<Rightarrow> sip_error + unit" where
  "sip_validate fwd bwd r =
     (if \<not> (2 \<le> sr_order r \<and> sr_order r \<le> 5) then Inl SipBadOrder
      else case validate_coefficients ''A'' (fwd (sr_order r)) (sr_a r) of Inl e \<Rightarrow> Inl e | Inr _ \<Rightarrow>
           (case validate_coefficients ''B'' (fwd (sr_order r)) (sr_b r) of Inl e \<Rightarrow> Inl e | Inr _ \<Rightarrow>
           (case validate_coefficients ''AP'' (bwd (sr_order r)) (sr_ap r) of Inl e \<Rightarrow> Inl e | Inr _ \<Rightarrow>
            validate_coefficients ''BP'' (bwd (sr_order r)) (sr_bp r))))"

record WcsResponse =
  wr_crval :: "f64 \<times> f64"
  wr_crpix :: "f64 \<times> f64"
  wr_cd :: "(f64 \<times> f64) \<times> (f64 \<times> f64)"
  wr_ctype :: "string \<times> string"
  wr_cunit :: "string \<times> string"
  wr_radesys :: string
  wr_equinox :: f64
  wr_sip :: "SipResponse option"

record SeizaWcs =
  wcs_crval :: "f64 \<times> f64"
  wcs_crpix :: "f64 \<times> f64"
  wcs_cd :: "(f64 \<times> f64) \<times> (f64 \<times> f64)"
  wcs_sip :: "SeizaSip option"

definition default_ctype :: "string \<times> string" where
  "default_ctype = (''RA---TAN'', ''DEC--TAN'')"

definition sip_ctype :: "string \<times> string" where
  "sip_ctype = (''RA---TAN-SIP'', ''DEC--TAN-SIP'')"

definition wcs_from_seiza :: "sip_terms \<Rightarrow> sip_terms \<Rightarrow> SeizaWcs \<Rightarrow> WcsResponse" where
  "wcs_from_seiza fwd bwd w = \<lparr>
     wr_crval = wcs_crval w, wr_crpix = wcs_crpix w, wr_cd = wcs_cd w,
     wr_ctype = (if wcs_sip w \<noteq> None then sip_ctype else default_ctype),
     wr_cunit = (''deg'', ''deg''), wr_radesys = ''ICRS'', wr_equinox = Fin 2000,
     wr_sip = map_option (sip_from_seiza fwd bwd) (wcs_sip w)\<rparr>"

definition wcs_to_seiza :: "sip_terms \<Rightarrow> sip_terms \<Rightarrow> WcsResponse \<Rightarrow> SeizaWcs" where
  "wcs_to_seiza fwd bwd r = \<lparr>
     wcs_crval = wr_crval r, wcs_crpix = wr_crpix r, wcs_cd = wr_cd r,
     wcs_sip = map_option (sip_to_seiza fwd bwd) (wr_sip r)\<rparr>"

datatype wcs_error = WcsNotFinite | WcsSip sip_error | WcsSipAxes

definition wcs_numbers :: "WcsResponse \<Rightarrow> f64 list" where
  "wcs_numbers r =
     (case (wr_crval r, wr_crpix r, wr_cd r) of
        ((a, b), (c, d), ((e, f), (g, h))) \<Rightarrow> [a, b, c, d, e, f, g, h])"

definition wcs_validate :: "sip_terms \<Rightarrow> sip_terms \<Rightarrow> WcsResponse \<Rightarrow> wcs_error + unit" where
  "wcs_validate fwd bwd r =
     (if list_ex (\<lambda>v. \<not> is_finite v) (wcs_numbers r) then Inl WcsNotFinite
      else case wr_sip r of
        None \<Rightarrow> Inr ()
      | Some sip \<Rightarrow>
          (case sip_validate fwd bwd sip of
             Inl e \<Rightarrow> Inl (WcsSip e)
           | Inr _ \<Rightarrow> if wr_ctype r \<noteq> sip_ctype then Inl WcsSipAxes else Inr ()))"

section \<open>Solutions and jobs\<close>

record OverlayContour =
  oc_closed :: bool
  oc_points :: "(f64 \<times> f64) list"

record OverlayOutline =
  ol_geometry_id :: string
  ol_source_record_id :: string
  ol_role :: string
  ol_quality :: string
  ol_level :: "string option"
  ol_contours :: "OverlayContour list"

record OverlayObject =
  oo_stable_id :: "string option"
  oo_name :: string
  oo_common_name :: string
  oo_kind :: string
  oo_mag :: "f64 option"
  oo_x :: f64
  oo_y :: f64
  oo_semi_major_px :: f64
  oo_semi_minor_px :: f64
  oo_angle_deg :: "f64 option"
  oo_source :: "string option"
  oo_catalog_source :: "string option"
  oo_aliases :: "string list"
  oo_parent_ids :: "string list"
  oo_alternate_ids :: "string list"
  oo_alternate_sources :: "string list"
  oo_ra_deg :: "f64 option"
  oo_dec_deg :: "f64 option"
  oo_discovered :: "string option"
  oo_near_capture :: "bool option"
  oo_distance_au :: "f64 option"
  oo_motion_arcsec_per_hour :: "f64 option"
  oo_direction_pa_deg :: "f64 option"
  oo_direction_angle_deg :: "f64 option"
  oo_outlines :: "OverlayOutline list"
  oo_size_unknown :: bool

datatype SolveMode = Blind | Hinted

record SolveStatistics =
  ss_total_ms :: f64
  ss_decode_ms :: f64
  ss_detection_ms :: f64
  ss_search_ms :: f64
  ss_mode :: SolveMode
  ss_detected_stars :: nat
  ss_catalog_stars :: u64
  ss_blind_index_patterns :: "nat option"
  ss_hint_source :: "SolveHintSource option"
  ss_hint_keywords :: "string list"
  ss_blind_scale_range :: "(f64 \<times> f64) option"

record PixelCoordinatesResponse =
  pc_original_dimensions :: "u32 \<times> u32"
  pc_oriented_dimensions :: "u32 \<times> u32"
  pc_orientation_applied :: u8
  pc_convention :: string

record ContentRegion =
  cr_x :: u32
  cr_y :: u32
  cr_width :: u32
  cr_height :: u32

record SolutionResponse =
  sol_center_ra_deg :: f64
  sol_center_dec_deg :: f64
  sol_pixel_scale_arcsec_per_pixel :: f64
  sol_matched_stars :: nat
  sol_rms_arcsec :: f64
  sol_image_width :: u32
  sol_image_height :: u32
  sol_wcs :: WcsResponse
  sol_footprint :: "(f64 \<times> f64) list"
  sol_objects :: "OverlayObject list"
  sol_catalog_version :: "string option"
  sol_capture_time :: "time option"
  sol_statistics :: "SolveStatistics option"
  sol_pixel_coordinates :: "PixelCoordinatesResponse option"
  sol_content_region :: "ContentRegion option"

definition solution_validate ::
  "sip_terms \<Rightarrow> sip_terms \<Rightarrow> SolutionResponse \<Rightarrow> wcs_error + unit" where
  "solution_validate fwd bwd s = wcs_validate fwd bwd (sol_wcs s)"

record ValidationDonation =
  vd_object_key :: string
  vd_comment :: "string option"
  vd_solve_is_invalid :: bool
  vd_license_version :: string
  vd_donated_at :: time

record JobRecord =
  j_id :: JobId
  j_astrometry_id :: AstrometryId
  j_owner :: string
  j_queue_weight :: f64
  j_object_key :: string
  j_original_filename :: string
  j_content_type :: "string option"
  j_options :: SolveOptions
  j_status :: JobStatus
  j_created_at :: time
  j_started_at :: "time option"
  j_completed_at :: "time option"
  j_solution :: "SolutionResponse option"
  j_error :: "string option"
  j_validation_donation :: "ValidationDonation option"

definition input_object_key :: "JobRecord \<Rightarrow> string" where
  "input_object_key job =
     (case j_validation_donation job of None \<Rightarrow> j_object_key job | Some d \<Rightarrow> vd_object_key d)"

record JobHistoryRecord =
  jh_id :: JobId
  jh_status :: JobStatus
  jh_original_filename :: string
  jh_created_at :: time
  jh_started_at :: "time option"
  jh_completed_at :: "time option"

record JobLease =
  jl_job_id :: JobId
  jl_lease_token :: string
  jl_lease_expires_at :: time
  jl_original_filename :: string
  jl_options :: SolveOptions

section \<open>Lemmas\<close>

lemma find_coefficient:
  assumes "distinct terms" "length vals = length terms" "i < length terms"
  shows "find (\<lambda>(p, q, _). (p, q) = terms ! i) (sip_coefficients terms vals)
         = Some (fst (terms ! i), snd (terms ! i), vals ! i)"
  using assms
proof (induction terms arbitrary: vals i)
  case Nil
  then show ?case by simp
next
  case (Cons t ts)
  then obtain v vs where vals: "vals = v # vs" by (cases vals) auto
  show ?case
  proof (cases i)
    case 0
    with vals show ?thesis by (cases t) (simp add: sip_coefficients_def)
  next
    case (Suc j)
    with Cons.prems have "ts ! j \<noteq> t" by auto
    with Suc vals Cons.IH [of vs j] Cons.prems show ?thesis
      by (cases t) (auto simp: sip_coefficients_def)
  qed
qed

lemma sip_values_coefficients [simp]:
  assumes "distinct terms" "length vals = length terms"
  shows "sip_values terms (sip_coefficients terms vals) = vals"
proof (rule nth_equalityI)
  show "length (sip_values terms (sip_coefficients terms vals)) = length vals"
    by (simp add: sip_values_def assms)
next
  fix i
  assume "i < length (sip_values terms (sip_coefficients terms vals))"
  then have "i < length terms" by (simp add: sip_values_def)
  with find_coefficient [OF assms this]
  show "sip_values terms (sip_coefficients terms vals) ! i = vals ! i"
    by (simp add: sip_values_def)
qed

lemma validate_terms_Inr:
  "validate_terms name vals expected = Inr () \<longleftrightarrow>
     (\<forall>t \<in> set expected. \<exists>v. filter (\<lambda>(p', q', _). (p', q') = t) vals = [(fst t, snd t, v)]
                                \<and> is_finite v)"
proof (induction expected)
  case Nil
  then show ?case by simp
next
  case (Cons t ts)
  obtain p q where t: "t = (p, q)" by (cases t)
  let ?m = "filter (\<lambda>(p', q', _). (p', q') = (p, q)) vals"
  have shape: "(length m = 1 \<and> is_finite (snd (snd (m ! 0)))) = (\<exists>v. m = [(p, q, v)] \<and> is_finite v)"
    if "\<forall>c \<in> set m. \<exists>v. c = (p, q, v)" for m
    using that by (cases m) auto
  have "(length ?m = 1 \<and> is_finite (snd (snd (?m ! 0)))) =
        (\<exists>v. ?m = [(p, q, v)] \<and> is_finite v)"
    by (rule shape) auto
  with Cons.IH t show ?case by (auto simp: Let_def)
qed

lemma filter_terms_coefficients:
  assumes "distinct terms" "length vals = length terms" "i < length terms"
  shows "filter (\<lambda>(p', q', _). (p', q') = terms ! i) (sip_coefficients terms vals)
         = [(fst (terms ! i), snd (terms ! i), vals ! i)]"
  using assms
proof (induction terms arbitrary: vals i)
  case Nil
  then show ?case by simp
next
  case (Cons t ts)
  then obtain v vs where vals: "vals = v # vs" by (cases vals) auto
  show ?case
  proof (cases i)
    case 0
    have "\<forall>c \<in> set (sip_coefficients ts vs). (fst c, fst (snd c)) \<in> set ts"
      by (auto simp: sip_coefficients_def dest: set_zip_leftD)
    with Cons.prems have "filter (\<lambda>(p', q', _). (p', q') = t) (sip_coefficients ts vs) = []"
      by (force simp: filter_empty_conv)
    with 0 vals show ?thesis by (cases t) (simp add: sip_coefficients_def)
  next
    case (Suc j)
    with Cons.prems have "ts ! j \<noteq> t" by auto
    with Suc vals Cons.IH [of vs j] Cons.prems show ?thesis
      by (cases t) (auto simp: sip_coefficients_def)
  qed
qed

lemma validate_coefficients_own:
  assumes "distinct terms" "length vals = length terms" "list_all is_finite vals"
  shows "validate_coefficients name terms (sip_coefficients terms vals) = Inr ()"
proof -
  have "\<exists>v. filter (\<lambda>(p', q', _). (p', q') = t) (sip_coefficients terms vals)
            = [(fst t, snd t, v)] \<and> is_finite v" if "t \<in> set terms" for t
  proof -
    from that obtain i where i: "i < length terms" "t = terms ! i" by (auto simp: in_set_conv_nth)
    with assms have "is_finite (vals ! i)" by (auto simp: list_all_length)
    with filter_terms_coefficients [OF assms(1,2) i(1)] i(2) show ?thesis by blast
  qed
  with assms show ?thesis
    by (auto simp: validate_coefficients_def validate_terms_Inr sip_coefficients_def)
qed

text \<open>A SIP record with the shape its order prescribes.\<close>

definition sip_shaped :: "sip_terms \<Rightarrow> sip_terms \<Rightarrow> SeizaSip \<Rightarrow> bool" where
  "sip_shaped fwd bwd s =
     (distinct (fwd (sip_order s)) \<and> distinct (bwd (sip_order s))
      \<and> length (sip_a s) = length (fwd (sip_order s)) \<and> length (sip_b s) = length (fwd (sip_order s))
      \<and> length (sip_ap s) = length (bwd (sip_order s)) \<and> length (sip_bp s) = length (bwd (sip_order s)))"

definition sip_all_finite :: "SeizaSip \<Rightarrow> bool" where
  "sip_all_finite s = list_all is_finite (sip_a s @ sip_b s @ sip_ap s @ sip_bp s)"

lemma sip_round_trip: "sip_shaped fwd bwd s \<Longrightarrow> sip_to_seiza fwd bwd (sip_from_seiza fwd bwd s) = s"
  by (simp add: sip_shaped_def sip_to_seiza_def sip_from_seiza_def)

lemma sip_validate_from_seiza:
  assumes "sip_shaped fwd bwd s" "sip_all_finite s" "2 \<le> sip_order s" "sip_order s \<le> 5"
  shows "sip_validate fwd bwd (sip_from_seiza fwd bwd s) = Inr ()"
  using assms
  by (simp add: sip_validate_def sip_from_seiza_def validate_coefficients_own sip_shaped_def
      sip_all_finite_def)

text \<open>
  C37: encoding a solver's WCS as the durable record and decoding it again returns the same
  WCS, and the record of a finite WCS passes the validation a worker's completion must pass.
\<close>

theorem wcs_round_trip:
  assumes "case wcs_sip w of None \<Rightarrow> True
           | Some s \<Rightarrow> sip_shaped fwd bwd s \<and> sip_all_finite s \<and> 2 \<le> sip_order s \<and> sip_order s \<le> 5"
    and "list_all is_finite (wcs_numbers (wcs_from_seiza fwd bwd w))"
  shows "wcs_to_seiza fwd bwd (wcs_from_seiza fwd bwd w) = w
         \<and> wcs_validate fwd bwd (wcs_from_seiza fwd bwd w) = Inr ()"
proof -
  have "\<not> list_ex (\<lambda>v. \<not> is_finite v) (wcs_numbers (wcs_from_seiza fwd bwd w))"
    using assms(2) by (auto simp: list_ex_iff list_all_iff)
  with assms(1) show ?thesis
    by (cases "wcs_sip w")
      (auto simp: wcs_to_seiza_def wcs_validate_def wcs_from_seiza_def sip_round_trip
        sip_validate_from_seiza)
qed

definition sample_fwd :: sip_terms where
  "sample_fwd ord = [(2, 0), (1, 1), (0, 2)]"

definition sample_bwd :: sip_terms where
  "sample_bwd ord = [(1, 0), (0, 1), (2, 0), (1, 1), (0, 2)]"

definition sample_sip :: SeizaSip where
  "sample_sip = \<lparr>sip_order = 2, sip_a = [Fin 1, Fin 2, Fin 3], sip_b = [Fin 4, Fin 5, Fin 6],
     sip_ap = [Fin 1, Fin 2, Fin 3, Fin 4, Fin 5], sip_bp = [Fin 6, Fin 7, Fin 8, Fin 9, Fin 10]\<rparr>"

definition sample_wcs :: SeizaWcs where
  "sample_wcs = \<lparr>wcs_crval = (Fin 10, Fin 41), wcs_crpix = (Fin 512, Fin 512),
     wcs_cd = ((Fin (1/1000), Fin 0), (Fin 0, Fin (1/1000))), wcs_sip = Some sample_sip\<rparr>"

theorem wcs_round_trip_witness:
  "wcs_to_seiza sample_fwd sample_bwd (wcs_from_seiza sample_fwd sample_bwd sample_wcs) = sample_wcs"
proof -
  have "sip_shaped sample_fwd sample_bwd sample_sip \<and> sip_all_finite sample_sip
        \<and> 2 \<le> sip_order sample_sip \<and> sip_order sample_sip \<le> 5"
    by (simp add: sip_shaped_def sip_all_finite_def sample_sip_def sample_fwd_def sample_bwd_def)
  moreover have "list_all is_finite (wcs_numbers (wcs_from_seiza sample_fwd sample_bwd sample_wcs))"
    by (simp add: wcs_numbers_def wcs_from_seiza_def sample_wcs_def)
  ultimately show ?thesis
    using wcs_round_trip [where w = sample_wcs and fwd = sample_fwd and bwd = sample_bwd] by (simp add: sample_wcs_def)
qed

lemma ex_solve_hint: "(\<exists>h. P h) \<longleftrightarrow> P NoHint \<or> (\<exists>ra dec scale. P (Hint ra dec scale))"
  by (metis solve_hint.exhaust)

lemma ex_observer_site:
  "(\<exists>s. P s) \<longleftrightarrow> P NoSite \<or> (\<exists>lat lon alt. P (Geodetic lat lon alt)) \<or> (\<exists>p. P (Itrf p))"
  by (metis observer_site.exhaust)

lemma observer_checks:
  "validate_observer o1 = Inr ()
     \<and> is_none_or is_finite (so_observer_altitude_m o1) \<and> is_none_or itrf_valid (so_observer_itrf_m o1)
   \<longleftrightarrow> (\<exists>s. site_ok s \<and> has_site o1 s)"
  unfolding ex_observer_site
  by (cases "so_observer_latitude_deg o1"; cases "so_observer_longitude_deg o1";
      cases "so_observer_altitude_m o1"; cases "so_observer_itrf_m o1")
    (auto simp: validate_observer_def has_site_def dest: f64_in_finite)

lemma hint_checks:
  "\<not> ((so_center_ra_deg o1 \<noteq> None \<or> so_center_dec_deg o1 \<noteq> None)
        \<and> (so_center_ra_deg o1 = None \<or> so_center_dec_deg o1 = None \<or> so_scale_arcsec_per_pixel o1 = None))
   \<and> is_none_or (f64_in 0 360) (so_center_ra_deg o1)
   \<and> is_none_or (f64_in (- 90) 90) (so_center_dec_deg o1)
   \<and> is_none_or f64_pos (so_scale_arcsec_per_pixel o1)
   \<longleftrightarrow> (\<exists>h. hint_ok h \<and> has_hint o1 h) \<and> is_none_or f64_pos (so_scale_arcsec_per_pixel o1)"
  unfolding ex_solve_hint
  by (cases "so_center_ra_deg o1"; cases "so_center_dec_deg o1"; cases "so_scale_arcsec_per_pixel o1")
    (auto simp: has_hint_def)

lemma is_some_and_not [simp]: "is_some_and (\<lambda>x. \<not> p x) v \<longleftrightarrow> \<not> is_none_or p v"
  by (cases v) auto

text \<open>
  \<open>validate\<close> accepts exactly the options whose detection parameters are positive and
  finite and that denote one complete hint and one complete observing site (or none).
\<close>

theorem validate_options_accepts:
  "validate_options o1 = Inr () \<longleftrightarrow>
     f64_pos (so_sigma o1) \<and> f64_in (1 / 100) 1 (so_scale_tolerance o1)
     \<and> is_none_or f64_pos (so_min_scale_arcsec_per_pixel o1)
     \<and> is_none_or f64_pos (so_max_scale_arcsec_per_pixel o1)
     \<and> (case (so_min_scale_arcsec_per_pixel o1, so_max_scale_arcsec_per_pixel o1) of
           (Some mi, Some ma) \<Rightarrow> f64_le mi ma | _ \<Rightarrow> True)
     \<and> is_none_or f64_pos (so_scale_arcsec_per_pixel o1)
     \<and> so_sip_order o1 \<le> 5 \<and> is_none_or f64_pos (so_exposure_seconds o1)
     \<and> (\<exists>h. hint_ok h \<and> has_hint o1 h) \<and> (\<exists>s. site_ok s \<and> has_site o1 s)"
proof -
  have "validate_options o1 = Inr () \<longleftrightarrow>
     f64_pos (so_sigma o1)
     \<and> is_finite (so_scale_tolerance o1) \<and> f64_in (1 / 100) 1 (so_scale_tolerance o1)
     \<and> is_none_or f64_pos (so_min_scale_arcsec_per_pixel o1)
     \<and> is_none_or f64_pos (so_max_scale_arcsec_per_pixel o1)
     \<and> (case (so_min_scale_arcsec_per_pixel o1, so_max_scale_arcsec_per_pixel o1) of
           (Some mi, Some ma) \<Rightarrow> f64_le mi ma | _ \<Rightarrow> True)
     \<and> so_sip_order o1 \<le> 5 \<and> is_none_or f64_pos (so_exposure_seconds o1)
     \<and> (\<not> ((so_center_ra_deg o1 \<noteq> None \<or> so_center_dec_deg o1 \<noteq> None)
        \<and> (so_center_ra_deg o1 = None \<or> so_center_dec_deg o1 = None \<or> so_scale_arcsec_per_pixel o1 = None))
       \<and> is_none_or (f64_in 0 360) (so_center_ra_deg o1)
       \<and> is_none_or (f64_in (- 90) 90) (so_center_dec_deg o1)
       \<and> is_none_or f64_pos (so_scale_arcsec_per_pixel o1))
     \<and> (validate_observer o1 = Inr () \<and> is_none_or is_finite (so_observer_altitude_m o1)
         \<and> is_none_or itrf_valid (so_observer_itrf_m o1))"
    unfolding validate_options_def f64_pos_def [of "so_sigma o1"] is_some_and_not
    by (cases "validate_observer o1") (auto simp: not_le)
  then show ?thesis
    unfolding observer_checks hint_checks by (auto dest: f64_in_finite)
qed

end
