(* ===== verification/Job_Repository.thy ===== *)
theory Job_Repository
  imports Models
begin

text \<open>
  The durable job queue of \<open>src/repository.rs\<close>: the tables of the SQLx repository and one
  definition per operation of \<open>JobRepository\<close>.  An operation is one transaction: it takes the
  database and returns its result and the new database; an error leaves the database as it
  was, because the transaction is dropped without a commit.  Rows that SQL returns in no
  specified order are taken in the table's scan order.  The clock and the random lease token
  are arguments.
\<close>

section \<open>Tables\<close>

datatype repo_error =
    UnknownStatus string
  | AstrometryNegative
  | ExceedsBigint
  | UniqueViolation string
  | IdempotentMissing
  | CompletionEmpty
  | TimePanic

record JobRow =
  r_id :: JobId
  r_astrometry_id :: int
  r_legacy_id :: "int option"
  r_owner :: string
  r_queue_weight :: f64
  r_object_key :: string
  r_original_filename :: string
  r_content_type :: "string option"
  r_options :: SolveOptions
  r_status :: string
  r_created_at :: time
  r_started_at :: "time option"
  r_completed_at :: "time option"
  r_solution :: "SolutionResponse option"
  r_error :: "string option"
  r_lease_token :: "string option"
  r_lease_expires_at :: "time option"
  r_attempts :: int

record DonationRow =
  d_job_id :: JobId
  d_object_key :: string
  d_comment :: "string option"
  d_solve_is_invalid :: int
  d_license_version :: string
  d_donated_at :: time

record JobDb =
  db_jobs :: "JobRow list"
  db_donations :: "DonationRow list"
  db_service :: "(string \<times> time) list"
  db_outbox :: "(JobId \<times> time option) list"

definition empty_db :: JobDb where
  "empty_db = \<lparr>db_jobs = [], db_donations = [], db_service = [], db_outbox = []\<rparr>"

section \<open>Row decoding\<close>

definition record_from_row :: "JobRow \<Rightarrow> repo_error + JobRecord" where
  "record_from_row row =
     (if r_astrometry_id row < 0 then Inl AstrometryNegative
      else case status_parse (r_status row) of
        Inl e \<Rightarrow> Inl (UnknownStatus e)
      | Inr status \<Rightarrow> Inr \<lparr>
          j_id = r_id row, j_astrometry_id = of_int (r_astrometry_id row), j_owner = r_owner row,
          j_queue_weight = r_queue_weight row, j_object_key = r_object_key row,
          j_original_filename = r_original_filename row, j_content_type = r_content_type row,
          j_options = r_options row, j_status = status, j_created_at = r_created_at row,
          j_started_at = r_started_at row, j_completed_at = r_completed_at row,
          j_solution = r_solution row, j_error = r_error row, j_validation_donation = None\<rparr>)"

definition history_record_from_row :: "JobRow \<Rightarrow> repo_error + JobHistoryRecord" where
  "history_record_from_row row =
     (case status_parse (r_status row) of
        Inl e \<Rightarrow> Inl (UnknownStatus e)
      | Inr status \<Rightarrow> Inr \<lparr>
          jh_id = r_id row, jh_status = status, jh_original_filename = r_original_filename row,
          jh_created_at = r_created_at row, jh_started_at = r_started_at row,
          jh_completed_at = r_completed_at row\<rparr>)"

definition validation_donation :: "JobDb \<Rightarrow> JobId \<Rightarrow> ValidationDonation option" where
  "validation_donation db job_id =
     map_option (\<lambda>d. \<lparr>vd_object_key = d_object_key d, vd_comment = d_comment d,
                      vd_solve_is_invalid = (d_solve_is_invalid d \<noteq> 0),
                      vd_license_version = d_license_version d, vd_donated_at = d_donated_at d\<rparr>)
       (select_one (\<lambda>d. d_job_id d = job_id) (db_donations db))"

section \<open>Queries\<close>

definition fetch_job :: "JobDb \<Rightarrow> (JobRow \<Rightarrow> bool) \<Rightarrow> repo_error + JobRecord option" where
  "fetch_job db p =
     (case select_one p (db_jobs db) of
        None \<Rightarrow> Inr None
      | Some row \<Rightarrow>
          (case record_from_row row of
             Inl e \<Rightarrow> Inl e
           | Inr job \<Rightarrow> Inr (Some (job\<lparr>j_validation_donation := validation_donation db (j_id job)\<rparr>))))"

definition get_job :: "JobDb \<Rightarrow> JobId \<Rightarrow> repo_error + JobRecord option" where
  "get_job db job_id = fetch_job db (\<lambda>r. r_id r = job_id)"

definition get_by_legacy_id :: "JobDb \<Rightarrow> LegacyJobId \<Rightarrow> repo_error + JobRecord option" where
  "get_by_legacy_id db legacy_id =
     (if i64_max < uint legacy_id then Inl ExceedsBigint
      else fetch_job db (\<lambda>r. r_legacy_id r = Some (uint legacy_id)))"

definition get_by_astrometry_id :: "JobDb \<Rightarrow> AstrometryId \<Rightarrow> repo_error + JobRecord option" where
  "get_by_astrometry_id db astrometry_id =
     (if i64_max < uint astrometry_id then Inl ExceedsBigint
      else fetch_job db (\<lambda>r. r_astrometry_id r = uint astrometry_id))"

definition find_by_object_key :: "JobDb \<Rightarrow> string \<Rightarrow> repo_error + JobRecord option" where
  "find_by_object_key db object_key = fetch_job db (\<lambda>r. r_object_key r = object_key)"

definition list_by_owner :: "JobDb \<Rightarrow> string \<Rightarrow> nat \<Rightarrow> repo_error + JobHistoryRecord list" where
  "list_by_owner db owner limit =
     (if limit = 0 then Inr []
      else collect_results (map history_record_from_row
             (take limit (order_by (\<lambda>r. - r_created_at r)
                (filter (\<lambda>r. r_owner r = owner) (db_jobs db))))))"

definition queue_depth :: "JobDb \<Rightarrow> nat" where
  "queue_depth db = rows_where (\<lambda>r. r_status r = ''queued'') (db_jobs db)"

section \<open>Enqueue\<close>

definition new_row :: "JobRecord \<Rightarrow> JobRow" where
  "new_row job = \<lparr>
     r_id = j_id job, r_astrometry_id = uint (j_astrometry_id job), r_legacy_id = None,
     r_owner = j_owner job, r_queue_weight = j_queue_weight job, r_object_key = j_object_key job,
     r_original_filename = j_original_filename job, r_content_type = j_content_type job,
     r_options = j_options job, r_status = ''queued'', r_created_at = j_created_at job,
     r_started_at = None, r_completed_at = None, r_solution = None, r_error = None,
     r_lease_token = None, r_lease_expires_at = None, r_attempts = 0\<rparr>"

text \<open>
  \<open>ON CONFLICT(object_key) DO NOTHING\<close> covers a repeated upload; any other repeated key is a
  constraint violation.
\<close>

definition enqueue :: "JobDb \<Rightarrow> JobRecord \<Rightarrow> (repo_error + JobRecord) \<times> JobDb" where
  "enqueue db job0 =
     (let job = job0\<lparr>j_astrometry_id := astrometry_id_for_job (j_id job0), j_status := Queued\<rparr> in
      if i64_max < uint (j_astrometry_id job) then (Inl ExceedsBigint, db)
      else if list_ex (\<lambda>r. r_object_key r = j_object_key job) (db_jobs db)
      then (case find_by_object_key db (j_object_key job) of
              Inl e \<Rightarrow> (Inl e, db)
            | Inr None \<Rightarrow> (Inl IdempotentMissing, db)
            | Inr (Some existing) \<Rightarrow> (Inr existing, db))
      else if list_ex (\<lambda>r. r_id r = j_id job) (db_jobs db)
      then (Inl (UniqueViolation ''jobs_v2.id''), db)
      else if list_ex (\<lambda>r. r_astrometry_id r = uint (j_astrometry_id job)) (db_jobs db)
      then (Inl (UniqueViolation ''jobs_v2.astrometry_id''), db)
      else if list_ex (\<lambda>(i, _). i = j_id job) (db_outbox db)
      then (Inl (UniqueViolation ''queue_outbox_v2.job_id''), db)
      else (Inr job, db\<lparr>db_jobs := db_jobs db @ [new_row job],
                       db_outbox := db_outbox db @ [(j_id job, None)]\<rparr>))"

section \<open>Claiming\<close>

definition requeue :: "JobRow \<Rightarrow> JobRow" where
  "requeue r = r\<lparr>r_status := ''queued'', r_lease_token := None, r_lease_expires_at := None\<rparr>"

definition expired_ids :: "JobDb \<Rightarrow> time \<Rightarrow> JobId list" where
  "expired_ids db now =
     map r_id (filter (\<lambda>r. r_status r = ''solving'' \<and> is_some_and (\<lambda>e. e \<le> now) (r_lease_expires_at r))
                 (db_jobs db))"

definition reclaim_one :: "JobId \<Rightarrow> JobDb \<Rightarrow> JobDb" where
  "reclaim_one job_id db =
     db\<lparr>db_jobs := update_where (\<lambda>r. r_id r = job_id \<and> r_status r = ''solving'') requeue (db_jobs db),
        db_outbox := AList.update job_id None (db_outbox db)\<rparr>"

definition reclaim_expired :: "JobDb \<Rightarrow> time \<Rightarrow> JobDb" where
  "reclaim_expired db now = fold reclaim_one (expired_ids db now) db"

definition last_served :: "JobDb \<Rightarrow> string \<Rightarrow> time option" where
  "last_served db owner = map_of (db_service db) owner"

text \<open>\<open>f64::MAX / 4.0\<close>, the score of a client that was never served.\<close>

definition unseen_score :: rat where
  "unseen_score = (2 ^ 1024 - 2 ^ 971) / 4"

definition job_score :: "JobDb \<Rightarrow> time \<Rightarrow> JobRecord \<Rightarrow> f64" where
  "job_score db now job =
     (case last_served db (j_owner job) of
        Some served_at \<Rightarrow> f64_scale (of_int (num_milliseconds (now - served_at)) / 1000)
                       (f64_max (j_queue_weight job) (Fin (1 / 100)))
      | None \<Rightarrow> Fin unseen_score)"

definition better :: "f64 \<Rightarrow> JobRecord \<Rightarrow> (f64 \<times> JobRecord) option \<Rightarrow> bool" where
  "better score job best =
     is_none_or (\<lambda>(best_score, best_job). best_score < score
                   \<or> (score = best_score \<and> j_created_at job < j_created_at best_job)) best"

fun scan_candidates ::
  "JobDb \<Rightarrow> time \<Rightarrow> (f64 \<times> JobRecord) option \<Rightarrow> JobRow list \<Rightarrow> repo_error + (f64 \<times> JobRecord) option"
where
  "scan_candidates db now best [] = Inr best"
| "scan_candidates db now best (row # rows) =
     (case record_from_row row of
        Inl e \<Rightarrow> Inl e
      | Inr job \<Rightarrow>
          scan_candidates db now
            (if better (job_score db now job) job best then Some (job_score db now job, job) else best)
            rows)"

definition select_candidate ::
  "JobDb \<Rightarrow> JobId option \<Rightarrow> time \<Rightarrow> repo_error + JobRecord option" where
  "select_candidate db requested_job_id now =
     (case requested_job_id of
        Some job_id \<Rightarrow>
          (case select_one (\<lambda>r. r_id r = job_id \<and> r_status r = ''queued'') (db_jobs db) of
             None \<Rightarrow> Inr None
           | Some row \<Rightarrow> map_sum id Some (record_from_row row))
      | None \<Rightarrow>
          map_sum id (map_option snd)
            (scan_candidates db now None
               (order_by r_created_at (filter (\<lambda>r. r_status r = ''queued'') (db_jobs db)))))"

definition lease_expiry :: "time \<Rightarrow> u64 \<Rightarrow> time option" where
  "lease_expiry now lease_seconds = add_seconds now (sint (max lease_seconds 1))"

definition start_lease :: "time \<Rightarrow> string \<Rightarrow> time \<Rightarrow> JobRow \<Rightarrow> JobRow" where
  "start_lease now token expires r =
     r\<lparr>r_status := ''solving'', r_started_at := Some now, r_lease_token := Some token,
       r_lease_expires_at := Some expires, r_attempts := r_attempts r + 1\<rparr>"

definition claim ::
  "JobDb \<Rightarrow> time \<Rightarrow> string \<Rightarrow> JobId option \<Rightarrow> u64 \<Rightarrow> (repo_error + JobLease option) \<times> JobDb" where
  "claim db0 now lease_token requested_job_id lease_seconds =
     (let db = reclaim_expired db0 now in
      case select_candidate db requested_job_id now of
        Inl e \<Rightarrow> (Inl e, db0)
      | Inr None \<Rightarrow> (Inr None, db)
      | Inr (Some job) \<Rightarrow>
          (case lease_expiry now lease_seconds of
             None \<Rightarrow> (Inl TimePanic, db0)
           | Some lease_expires_at \<Rightarrow>
               let p = (\<lambda>r. r_id r = j_id job \<and> r_status r = ''queued'') in
               if rows_where p (db_jobs db) \<noteq> 1 then (Inr None, db0)
               else (Inr (Some \<lparr>jl_job_id = j_id job, jl_lease_token = lease_token,
                                jl_lease_expires_at = lease_expires_at,
                                jl_original_filename = j_original_filename job,
                                jl_options = j_options job\<rparr>),
                     db\<lparr>db_jobs := update_where p (start_lease now lease_token lease_expires_at) (db_jobs db),
                        db_service := AList.update (j_owner job) now (db_service db)\<rparr>)))"

section \<open>Operations of a worker that holds a lease\<close>

definition holds_lease :: "JobId \<Rightarrow> string \<Rightarrow> time \<Rightarrow> JobRow \<Rightarrow> bool" where
  "holds_lease job_id lease_token now r =
     (r_id r = job_id \<and> r_status r = ''solving'' \<and> r_lease_token r = Some lease_token
      \<and> is_some_and (\<lambda>e. now < e) (r_lease_expires_at r))"

definition heartbeat ::
  "JobDb \<Rightarrow> time \<Rightarrow> JobId \<Rightarrow> string \<Rightarrow> u64 \<Rightarrow> (repo_error + bool) \<times> JobDb" where
  "heartbeat db now job_id lease_token lease_seconds =
     (case lease_expiry now lease_seconds of
        None \<Rightarrow> (Inl TimePanic, db)
      | Some expires \<Rightarrow>
          (Inr (rows_where (holds_lease job_id lease_token now) (db_jobs db) = 1),
           db\<lparr>db_jobs := update_where (holds_lease job_id lease_token now)
                 (\<lambda>r. r\<lparr>r_lease_expires_at := Some expires\<rparr>) (db_jobs db)\<rparr>))"

definition input_key :: "JobDb \<Rightarrow> time \<Rightarrow> JobId \<Rightarrow> string \<Rightarrow> string option" where
  "input_key db now job_id lease_token =
     map_option (\<lambda>r. case select_one (\<lambda>d. d_job_id d = r_id r) (db_donations db) of
                        Some d \<Rightarrow> d_object_key d
                      | None \<Rightarrow> r_object_key r)
       (select_one (holds_lease job_id lease_token now) (db_jobs db))"

definition finish_row ::
  "time \<Rightarrow> SolutionResponse option \<Rightarrow> string option \<Rightarrow> JobRow \<Rightarrow> JobRow" where
  "finish_row now solution err r =
     r\<lparr>r_status := (if solution \<noteq> None then ''succeeded'' else ''failed''),
       r_completed_at := Some now, r_solution := solution, r_error := err,
       r_lease_token := None, r_lease_expires_at := None\<rparr>"

definition complete ::
  "JobDb \<Rightarrow> time \<Rightarrow> JobId \<Rightarrow> string \<Rightarrow> SolutionResponse option \<Rightarrow> string option
    \<Rightarrow> (repo_error + bool) \<times> JobDb" where
  "complete db now job_id lease_token solution err =
     (if solution = None \<and> err = None then (Inl CompletionEmpty, db)
      else (Inr (rows_where (holds_lease job_id lease_token now) (db_jobs db) = 1),
            db\<lparr>db_jobs := update_where (holds_lease job_id lease_token now)
                  (finish_row now solution err) (db_jobs db)\<rparr>))"

section \<open>Donations and notifications\<close>

definition donate_validation ::
  "JobDb \<Rightarrow> JobId \<Rightarrow> ValidationDonation \<Rightarrow> (repo_error + bool) \<times> JobDb" where
  "donate_validation db job_id donation =
     (let status = map_option r_status (select_one (\<lambda>r. r_id r = job_id) (db_jobs db)) in
      if \<not> is_some_and (\<lambda>status. status = ''succeeded'' \<or> status = ''failed'') status
      then (Inr False, db)
      else if list_ex (\<lambda>d. d_job_id d \<noteq> job_id \<and> d_object_key d = vd_object_key donation)
                (db_donations db)
      then (Inl (UniqueViolation ''validation_donations_v2.object_key''), db)
      else if list_ex (\<lambda>d. d_job_id d = job_id) (db_donations db)
      then (Inr True,
            db\<lparr>db_donations := update_where (\<lambda>d. d_job_id d = job_id)
                  (\<lambda>d. d\<lparr>d_object_key := vd_object_key donation, d_comment := vd_comment donation,
                         d_solve_is_invalid := (if vd_solve_is_invalid donation then 1 else 0)\<rparr>)
                  (db_donations db)\<rparr>)
      else (Inr True,
            db\<lparr>db_donations := db_donations db @
                 [\<lparr>d_job_id = job_id, d_object_key = vd_object_key donation,
                   d_comment = vd_comment donation,
                   d_solve_is_invalid = (if vd_solve_is_invalid donation then 1 else 0),
                   d_license_version = vd_license_version donation,
                   d_donated_at = vd_donated_at donation\<rparr>]\<rparr>))"

definition pending_notifications :: "JobDb \<Rightarrow> time \<Rightarrow> nat \<Rightarrow> JobId list \<times> JobDb" where
  "pending_notifications db0 now limit =
     (let db = reclaim_expired db0 now in
      (take limit (map r_id (filter (\<lambda>r. map_of (db_outbox db) (r_id r) = Some None)
                               (order_by r_created_at (db_jobs db)))), db))"

definition mark_notification_delivered :: "JobDb \<Rightarrow> time \<Rightarrow> JobId \<Rightarrow> JobDb" where
  "mark_notification_delivered db now job_id =
     db\<lparr>db_outbox := update_where (\<lambda>(i, _). i = job_id) (\<lambda>(i, _). (i, Some now)) (db_outbox db)\<rparr>"

end
