(* ===== verification/Job_Lifecycle.thy ===== *)
theory Job_Lifecycle
  imports Job_Repository
begin

text \<open>
  The correctness of the job queue.  \<open>queue_inv\<close> is the invariant of its tables, \<open>run_event\<close>
  runs one repository call, and \<open>reachable\<close> are the databases that any interleaving of calls
  can produce when every claim draws a fresh lease token.  \<open>next_phases\<close> is the table of the phases
  that a call may give a job.  The locale \<open>lease_queue\<close> states
  the lease contract that workers rely on, and the SQLx repository is an instance of it.
\<close>

section \<open>Invariant\<close>

definition terminal :: "JobRow \<Rightarrow> bool" where
  "terminal r = (r_status r = ''succeeded'' \<or> r_status r = ''failed'')"

definition row_ok :: "JobRow \<Rightarrow> bool" where
  "row_ok r =
     (0 \<le> r_astrometry_id r
      \<and> (r_status r = ''queued'' \<or> r_status r = ''solving'' \<or> terminal r)
      \<and> (r_lease_token r \<noteq> None \<longleftrightarrow> r_status r = ''solving'')
      \<and> (r_lease_expires_at r \<noteq> None \<longleftrightarrow> r_status r = ''solving'')
      \<and> (r_completed_at r \<noteq> None \<longleftrightarrow> terminal r)
      \<and> (r_solution r \<noteq> None \<longleftrightarrow> r_status r = ''succeeded'')
      \<and> (r_status r = ''failed'' \<longrightarrow> r_error r \<noteq> None)
      \<and> (r_error r \<noteq> None \<longrightarrow> terminal r))"

definition tokens_ok :: "string set \<Rightarrow> JobRow list \<Rightarrow> bool" where
  "tokens_ok used jobs =
     ((\<forall>r \<in> set jobs. \<forall>t. r_lease_token r = Some t \<longrightarrow> t \<in> used)
      \<and> (\<forall>r \<in> set jobs. \<forall>s \<in> set jobs. \<forall>t.
           r_lease_token r = Some t \<longrightarrow> r_lease_token s = Some t \<longrightarrow> r_id r = r_id s))"

definition donations_ok :: "JobDb \<Rightarrow> bool" where
  "donations_ok db =
     (distinct (map d_job_id (db_donations db)) \<and> distinct (map d_object_key (db_donations db))
      \<and> (\<forall>d \<in> set (db_donations db). \<exists>r \<in> set (db_jobs db). r_id r = d_job_id d \<and> terminal r))"

definition queue_inv :: "string set \<Rightarrow> JobDb \<Rightarrow> bool" where
  "queue_inv used db =
     (distinct (map r_id (db_jobs db)) \<and> distinct (map r_astrometry_id (db_jobs db))
      \<and> distinct (map r_object_key (db_jobs db)) \<and> (\<forall>r \<in> set (db_jobs db). row_ok r)
      \<and> map fst (db_outbox db) = map r_id (db_jobs db)
      \<and> tokens_ok used (db_jobs db) \<and> donations_ok db)"

lemma queue_invD:
  assumes "queue_inv used db"
  shows "distinct (map r_id (db_jobs db))" "distinct (map r_astrometry_id (db_jobs db))"
    "distinct (map r_object_key (db_jobs db))" "\<And>r. r \<in> set (db_jobs db) \<Longrightarrow> row_ok r"
    "map fst (db_outbox db) = map r_id (db_jobs db)" "tokens_ok used (db_jobs db)" "donations_ok db"
  using assms by (auto simp: queue_inv_def)

lemma row_ok_decodes:
  assumes "row_ok r"
  shows "\<exists>job. record_from_row r = Inr job \<and> j_id job = r_id r \<and> j_owner job = r_owner r
               \<and> j_queue_weight job = r_queue_weight r \<and> j_created_at job = r_created_at r
               \<and> r_status r = status_as_str (j_status job)"
proof -
  obtain s where "r_status r = status_as_str s"
    using assms unfolding row_ok_def terminal_def by (metis status_as_str.simps)
  with assms show ?thesis by (simp add: record_from_row_def row_ok_def)
qed

lemma record_from_row_id: "record_from_row r = Inr job \<Longrightarrow> j_id job = r_id r"
  by (auto simp: record_from_row_def split: if_splits sum.splits)

section \<open>Reclaiming expired leases\<close>

definition expired :: "time \<Rightarrow> JobRow \<Rightarrow> bool" where
  "expired now r = (r_status r = ''solving'' \<and> is_some_and (\<lambda>e. e \<le> now) (r_lease_expires_at r))"

lemma requeue_simps [simp]:
  "r_id (requeue r) = r_id r" "r_astrometry_id (requeue r) = r_astrometry_id r"
  "r_object_key (requeue r) = r_object_key r" "r_status (requeue r) = ''queued''"
  "r_lease_token (requeue r) = None" "r_owner (requeue r) = r_owner r"
  "r_created_at (requeue r) = r_created_at r" "r_queue_weight (requeue r) = r_queue_weight r"
  by (simp_all add: requeue_def)

lemma row_ok_requeue: "row_ok r \<Longrightarrow> r_status r = ''solving'' \<Longrightarrow> row_ok (requeue r)"
  by (auto simp: row_ok_def requeue_def terminal_def)

lemma fold_reclaim_one:
  "fold reclaim_one ids db =
     db\<lparr>db_jobs := update_where (\<lambda>r. r_id r \<in> set ids \<and> r_status r = ''solving'') requeue (db_jobs db),
        db_outbox := fold (\<lambda>i. AList.update i None) ids (db_outbox db)\<rparr>"
proof (induction ids arbitrary: db)
  case Nil
  show ?case by (simp add: update_where_def)
next
  case (Cons i ids)
  have eq: "update_where (\<lambda>r. r_id r \<in> set ids \<and> r_status r = ''solving'') requeue
          (update_where (\<lambda>r. r_id r = i \<and> r_status r = ''solving'') requeue (db_jobs db))
        = update_where (\<lambda>r. r_id r \<in> set (i # ids) \<and> r_status r = ''solving'') requeue (db_jobs db)"
    by (subst update_where_update_where) (auto intro: update_where_cong)
  show ?case
    unfolding fold_simps Cons.IH by (simp add: reclaim_one_def eq del: list.set)
qed

lemma expired_ids_iff:
  assumes "distinct (map r_id (db_jobs db))" "r \<in> set (db_jobs db)"
  shows "r_id r \<in> set (expired_ids db now) \<longleftrightarrow> expired now r"
  using assms distinct_map_same [OF assms(1)]
  by (auto simp: expired_ids_def expired_def)

lemma reclaim_jobs:
  assumes "distinct (map r_id (db_jobs db))"
  shows "db_jobs (reclaim_expired db now) = update_where (expired now) requeue (db_jobs db)"
  using expired_ids_iff [OF assms]
  by (auto simp: reclaim_expired_def fold_reclaim_one expired_def intro!: update_where_cong)

lemma reclaim_other [simp]:
  "db_donations (reclaim_expired db now) = db_donations db"
  "db_service (reclaim_expired db now) = db_service db"
  by (simp_all add: reclaim_expired_def fold_reclaim_one)

lemma map_of_fold_update:
  "map_of (fold (\<lambda>i. AList.update i v) ids xs) j = (if j \<in> set ids then Some v else map_of xs j)"
  by (induction ids arbitrary: xs) (auto simp: update_conv)

lemma reclaim_outbox:
  "map_of (db_outbox (reclaim_expired db now)) i
   = (if i \<in> set (expired_ids db now) then Some None else map_of (db_outbox db) i)"
  by (simp add: reclaim_expired_def fold_reclaim_one map_of_fold_update)

lemma keys_update_same: "k \<in> fst ` set xs \<Longrightarrow> map fst (AList.update k v xs) = map fst xs"
  by (induction xs) auto

lemma keys_fold_update:
  "set ids \<subseteq> fst ` set xs \<Longrightarrow> map fst (fold (\<lambda>i. AList.update i v) ids xs) = map fst xs"
proof (induction ids arbitrary: xs)
  case Nil
  show ?case by simp
next
  case (Cons i ids)
  then have keys: "map fst (AList.update i v xs) = map fst xs" by (simp add: keys_update_same)
  then have "fst ` set (AList.update i v xs) = fst ` set xs" by (metis set_map)
  with Cons keys show ?case by simp
qed

lemma reclaim_outbox_keys:
  assumes "map fst (db_outbox db) = map r_id (db_jobs db)"
  shows "map fst (db_outbox (reclaim_expired db now)) = map r_id (db_jobs db)"
proof -
  have "fst ` set (db_outbox db) = r_id ` set (db_jobs db)" using assms by (metis set_map)
  then have "set (expired_ids db now) \<subseteq> fst ` set (db_outbox db)"
    by (auto simp: expired_ids_def)
  with assms show ?thesis by (simp add: reclaim_expired_def fold_reclaim_one keys_fold_update)
qed

section \<open>Choosing a candidate\<close>

lemma scan_candidates_sound:
  assumes "scan_candidates db now best rows = Inr (Some (sc, job))"
  shows "best = Some (sc, job) \<or>
         (\<exists>r \<in> set rows. record_from_row r = Inr job \<and> sc = job_score db now job)"
  using assms
proof (induction rows arbitrary: best)
  case Nil
  then show ?case by simp
next
  case (Cons row rows)
  then show ?case by (fastforce split: sum.splits if_splits)
qed

lemma scan_candidates_max:
  assumes "scan_candidates db now best rows = Inr res"
    and "best = Some (s, j) \<or> (\<exists>r \<in> set rows. record_from_row r = Inr j \<and> s = job_score db now j)"
  shows "\<exists>sc job. res = Some (sc, job)
           \<and> (s < sc \<or> (s = sc \<and> j_created_at job \<le> j_created_at j))"
  using assms
proof (induction rows arbitrary: best s j)
  case Nil
  then show ?case by auto
next
  case (Cons row rows)
  from Cons.prems(1) obtain job where job: "record_from_row row = Inr job"
    by (auto split: sum.splits)
  let ?sc = "job_score db now job"
  let ?best = "if better ?sc job best then Some (?sc, job) else best"
  have rest: "scan_candidates db now ?best rows = Inr res" using Cons.prems(1) job by simp
  let ?below = "\<lambda>sb jb. s < sb \<or> (s = sb \<and> j_created_at jb \<le> j_created_at j)"
  have via_best: "\<exists>sc j'. res = Some (sc, j') \<and> ?below sc j'"
    if "?best = Some (sb, jb)" "?below sb jb" for sb jb
  proof -
    from Cons.IH [OF rest disjI1 [OF that(1)]] obtain sc j' where
      "res = Some (sc, j')" "sb < sc \<or> (sb = sc \<and> j_created_at j' \<le> j_created_at jb)" by blast
    with that(2) show ?thesis by (auto intro: less_trans order_trans)
  qed
  from Cons.prems(2) consider
      (best) "best = Some (s, j)"
    | (row) "j = job" "s = ?sc"
    | (rows) "\<exists>r \<in> set rows. record_from_row r = Inr j \<and> s = job_score db now j"
    using job by auto
  then show ?case
  proof cases
    case best
    then have "\<exists>sb jb. ?best = Some (sb, jb) \<and> ?below sb jb" by (auto simp: better_def)
    then show ?thesis using via_best by blast
  next
    case row
    then have "\<exists>sb jb. ?best = Some (sb, jb) \<and> ?below sb jb"
      by (cases best) (auto simp: better_def not_less)
    then show ?thesis using via_best by blast
  next
    case rows
    then show ?thesis by (rule Cons.IH [OF rest disjI2])
  qed
qed

lemma scan_candidates_total:
  assumes "\<And>r. r \<in> set rows \<Longrightarrow> row_ok r"
  shows "\<exists>res. scan_candidates db now best rows = Inr res \<and> (res = None \<longleftrightarrow> best = None \<and> rows = [])"
  using assms
proof (induction rows arbitrary: best)
  case Nil
  then show ?case by simp
next
  case (Cons row rows)
  from row_ok_decodes [OF Cons.prems [of row]] obtain job where "record_from_row row = Inr job"
    by auto
  with Cons.IH [of "if better (job_score db now job) job best
                    then Some (job_score db now job, job) else best"] Cons.prems
  show ?case by (auto simp: better_def)
qed

lemma select_candidate_sound:
  assumes "select_candidate db req now = Inr (Some job)"
  shows "\<exists>r \<in> set (db_jobs db). r_status r = ''queued'' \<and> record_from_row r = Inr job
            \<and> (\<forall>i. req = Some i \<longrightarrow> r_id r = i)"
proof (cases req)
  case None
  with assms obtain sc where
    "scan_candidates db now None (order_by r_created_at (filter (\<lambda>r. r_status r = ''queued'') (db_jobs db)))
       = Inr (Some (sc, job))"
    by (auto simp: select_candidate_def map_sum_def split: sum.splits)
  from scan_candidates_sound [OF this] None show ?thesis by auto
next
  case (Some i)
  with assms show ?thesis
    by (auto simp: select_candidate_def map_sum_def split: option.splits sum.splits
        dest: select_one_SomeD)
qed

section \<open>The shapes of a claim\<close>

lemma claim_cases:
  obtains (unchanged) "snd (claim db now tok req secs) = db" "\<forall>l. fst (claim db now tok req secs) \<noteq> Inr (Some l)"
    | (idle) "claim db now tok req secs = (Inr None, reclaim_expired db now)"
    | (leased) job e where
        "select_candidate (reclaim_expired db now) req now = Inr (Some job)"
        "lease_expiry now secs = Some e"
        "claim db now tok req secs =
           (Inr (Some \<lparr>jl_job_id = j_id job, jl_lease_token = tok, jl_lease_expires_at = e,
                       jl_original_filename = j_original_filename job, jl_options = j_options job\<rparr>),
            (reclaim_expired db now)
              \<lparr>db_jobs := update_where (\<lambda>r. r_id r = j_id job \<and> r_status r = ''queued'')
                            (start_lease now tok e) (db_jobs (reclaim_expired db now)),
               db_service := AList.update (j_owner job) now (db_service (reclaim_expired db now))\<rparr>)"
proof (cases "select_candidate (reclaim_expired db now) req now")
  case (Inl e)
  then show ?thesis by (auto intro!: unchanged simp: claim_def)
next
  case (Inr found)
  show ?thesis
  proof (cases found)
    case None
    with Inr show ?thesis by (auto intro!: idle simp: claim_def)
  next
    case (Some job)
    show ?thesis
    proof (cases "lease_expiry now secs")
      case None
      with Inr Some show ?thesis by (auto intro!: unchanged simp: claim_def)
    next
      case (Some e)
      show ?thesis
      proof (cases "rows_where (\<lambda>r. r_id r = j_id job \<and> r_status r = ''queued'')
                      (db_jobs (reclaim_expired db now)) = 1")
        case True
        with Inr Some \<open>found = Some job\<close> show ?thesis
          by (auto intro!: leased simp: claim_def Let_def)
      next
        case False
        with Inr Some \<open>found = Some job\<close> show ?thesis
          by (intro unchanged) (auto simp: claim_def Let_def)
      qed
    qed
  qed
qed

section \<open>Every call keeps the invariant\<close>

lemma queue_inv_update:
  assumes inv: "queue_inv used db"
    and keys: "\<And>r. p r \<Longrightarrow> r_id (f r) = r_id r \<and> r_astrometry_id (f r) = r_astrometry_id r
                          \<and> r_object_key (f r) = r_object_key r"
    and ok: "\<And>r. row_ok r \<Longrightarrow> p r \<Longrightarrow> row_ok (f r) \<and> \<not> terminal r"
    and tokens: "tokens_ok used' (update_where p f (db_jobs db))"
    and jobs: "db_jobs db' = update_where p f (db_jobs db)"
    and donations: "db_donations db' = db_donations db"
    and outbox: "map fst (db_outbox db') = map fst (db_outbox db)"
  shows "queue_inv used' db'"
proof -
  note I = queue_invD [OF inv]
  have ids: "map r_id (db_jobs db') = map r_id (db_jobs db)"
    and others: "map r_astrometry_id (db_jobs db') = map r_astrometry_id (db_jobs db)"
      "map r_object_key (db_jobs db') = map r_object_key (db_jobs db)"
    using keys by (simp_all add: jobs map_update_where)
  have kept: "\<exists>s \<in> set (db_jobs db'). r_id s = i \<and> terminal s"
    if "\<exists>r \<in> set (db_jobs db). r_id r = i \<and> terminal r" for i
    using that I(4) ok by (auto simp: jobs set_update_where)
  have "donations_ok db'"
    using I(7) kept by (auto simp: donations_ok_def donations)
  moreover have "\<forall>r \<in> set (db_jobs db'). row_ok r"
    using I(4) ok by (auto simp: jobs set_update_where)
  ultimately show ?thesis
    using I ids others outbox tokens by (simp add: queue_inv_def jobs)
qed

lemma tokens_ok_update:
  assumes "tokens_ok used jobs"
    and "\<And>r. p r \<Longrightarrow> r_id (f r) = r_id r \<and> (r_lease_token (f r) = None \<or> r_lease_token (f r) = r_lease_token r)"
  shows "tokens_ok used (update_where p f jobs)"
proof -
  have origin: "\<exists>r' \<in> set jobs. r_id r' = r_id r \<and> r_lease_token r' = Some t"
    if "r \<in> set (update_where p f jobs)" "r_lease_token r = Some t" for r t
    using that assms(2) by (fastforce simp: set_update_where)
  with assms(1) show ?thesis
    unfolding tokens_ok_def by (metis origin)
qed

lemma tokens_ok_mono: "tokens_ok used jobs \<Longrightarrow> used \<subseteq> used' \<Longrightarrow> tokens_ok used' jobs"
  unfolding tokens_ok_def by blast

lemma queue_inv_mono: "queue_inv used db \<Longrightarrow> used \<subseteq> used' \<Longrightarrow> queue_inv used' db"
  unfolding queue_inv_def by (blast intro: tokens_ok_mono)

lemma tokens_ok_start:
  assumes "tokens_ok used jobs" "tok \<notin> used"
  shows "tokens_ok (insert tok used)
           (update_where (\<lambda>r. r_id r = i \<and> r_status r = ''queued'') (start_lease now tok e) jobs)"
proof -
  have origin: "(t = tok \<and> r_id r = i) \<or> (\<exists>r' \<in> set jobs. r_id r' = r_id r \<and> r_lease_token r' = Some t)"
    if "r \<in> set (update_where (\<lambda>r. r_id r = i \<and> r_status r = ''queued'') (start_lease now tok e) jobs)"
      "r_lease_token r = Some t" for r t
    using that by (fastforce simp: set_update_where start_lease_def)
  have unused: "r_lease_token r \<noteq> Some tok" if "r \<in> set jobs" for r
    using assms that by (auto simp: tokens_ok_def)
  let ?new = "update_where (\<lambda>r. r_id r = i \<and> r_status r = ''queued'') (start_lease now tok e) jobs"
  have "t \<in> insert tok used" if "r \<in> set ?new" "r_lease_token r = Some t" for r t
    using origin [OF that] assms(1) unfolding tokens_ok_def by blast
  moreover have "r_id r = r_id s"
    if r: "r \<in> set ?new" "r_lease_token r = Some t" and s: "s \<in> set ?new" "r_lease_token s = Some t"
    for r s t
    using origin [OF r] origin [OF s] unused assms(1) unfolding tokens_ok_def by metis
  ultimately show ?thesis unfolding tokens_ok_def by blast
qed

lemma queue_inv_reclaim: "queue_inv used db \<Longrightarrow> queue_inv used (reclaim_expired db now)"
  by (rule queue_inv_update [where p = "expired now" and f = requeue])
    (auto simp: reclaim_jobs reclaim_outbox_keys queue_invD expired_def terminal_def
      intro!: row_ok_requeue tokens_ok_update)

lemma row_ok_start_lease:
  "row_ok r \<Longrightarrow> r_status r = ''queued'' \<Longrightarrow> row_ok (start_lease now tok e r)"
  by (auto simp: row_ok_def start_lease_def terminal_def)

lemma queue_inv_claim:
  assumes inv: "queue_inv used db" and fresh: "tok \<notin> used"
  shows "queue_inv (insert tok used) (snd (claim db now tok req secs))"
proof -
  have mono: "queue_inv (insert tok used) d" if "queue_inv used d" for d
    using that by (rule queue_inv_mono) blast
  show ?thesis
  proof (cases rule: claim_cases [of db now tok req secs])
    case unchanged
    with inv mono show ?thesis by simp
  next
    case idle
    with inv mono queue_inv_reclaim show ?thesis by simp
  next
    case (leased job e)
    have rinv: "queue_inv used (reclaim_expired db now)" using inv by (rule queue_inv_reclaim)
    show ?thesis
    proof (rule queue_inv_update [OF rinv, where f = "start_lease now tok e"
                and p = "\<lambda>r. r_id r = j_id job \<and> r_status r = ''queued''"])
      show "tokens_ok (insert tok used)
              (update_where (\<lambda>r. r_id r = j_id job \<and> r_status r = ''queued'')
                (start_lease now tok e) (db_jobs (reclaim_expired db now)))"
        using queue_invD(6) [OF rinv] fresh by (rule tokens_ok_start)
    qed (auto simp: leased(3) start_lease_def terminal_def intro: row_ok_start_lease [unfolded start_lease_def])
  qed
qed

lemma holds_leaseD: "holds_lease i tok now r \<Longrightarrow> r_id r = i \<and> r_status r = ''solving'' \<and> r_lease_token r = Some tok"
  by (simp add: holds_lease_def)

lemma queue_inv_heartbeat: "queue_inv used db \<Longrightarrow> queue_inv used (snd (heartbeat db now i tok secs))"
proof (cases "lease_expiry now secs")
  case (Some e)
  assume inv: "queue_inv used db"
  show ?thesis
    by (rule queue_inv_update [OF inv, where f = "\<lambda>r. r\<lparr>r_lease_expires_at := Some e\<rparr>"
              and p = "holds_lease i tok now"])
      (auto simp: heartbeat_def Some terminal_def row_ok_def queue_invD [OF inv]
        dest: holds_leaseD intro!: tokens_ok_update)
qed (simp add: heartbeat_def)

lemma row_ok_finish:
  "row_ok r \<Longrightarrow> solution \<noteq> None \<or> err \<noteq> None \<Longrightarrow> row_ok (finish_row now solution err r)"
  by (cases solution; cases err) (auto simp: row_ok_def finish_row_def terminal_def)

lemma queue_inv_complete:
  "queue_inv used db \<Longrightarrow> queue_inv used (snd (complete db now i tok solution err))"
proof (cases "solution = None \<and> err = None")
  case False
  assume inv: "queue_inv used db"
  show ?thesis
  proof (rule queue_inv_update [OF inv, where f = "finish_row now solution err"
            and p = "holds_lease i tok now"])
    show "row_ok (finish_row now solution err r) \<and> \<not> terminal r"
      if "row_ok r" "holds_lease i tok now r" for r
      using that False by (auto simp: terminal_def dest: holds_leaseD intro: row_ok_finish)
    show "tokens_ok used (update_where (holds_lease i tok now) (finish_row now solution err) (db_jobs db))"
      by (rule tokens_ok_update [OF queue_invD(6) [OF inv]]) (simp add: finish_row_def)
  qed (use False in \<open>auto simp: complete_def finish_row_def\<close>)
qed (simp add: complete_def)

lemma uint_astrometry_id: "uint (astrometry_id_for_job i) \<le> i64_max" "0 \<le> uint (astrometry_id_for_job i)"
proof -
  have "int (unat (astrometry_id_for_job i)) \<le> int 0x7FFFFFFFFFFFFFFF"
    using astrometry_id_bounds [of i] by (simp only: of_nat_le_iff)
  then show "uint (astrometry_id_for_job i) \<le> i64_max" by simp
qed simp

definition queued_job :: "JobRecord \<Rightarrow> JobRecord" where
  "queued_job job = job\<lparr>j_astrometry_id := astrometry_id_for_job (j_id job), j_status := Queued\<rparr>"

lemma new_row_simps [simp]:
  "r_id (new_row (queued_job job)) = j_id job"
  "r_astrometry_id (new_row (queued_job job)) = uint (astrometry_id_for_job (j_id job))"
  "r_object_key (new_row (queued_job job)) = j_object_key job"
  "r_status (new_row (queued_job job)) = ''queued''"
  "r_lease_token (new_row (queued_job job)) = None"
  by (simp_all add: new_row_def queued_job_def)

lemma row_ok_new_row: "row_ok (new_row (queued_job job))"
  by (simp add: row_ok_def new_row_def terminal_def queued_job_def)

lemma enqueue_cases:
  obtains (same) "snd (enqueue db job) = db"
        "(\<exists>r \<in> set (db_jobs db). r_object_key r = j_object_key job) \<or> (\<exists>e. fst (enqueue db job) = Inl e)"
    | (added) "j_object_key job \<notin> r_object_key ` set (db_jobs db)" "j_id job \<notin> r_id ` set (db_jobs db)"
        "uint (astrometry_id_for_job (j_id job)) \<notin> r_astrometry_id ` set (db_jobs db)"
        "enqueue db job = (Inr (queued_job job),
           db\<lparr>db_jobs := db_jobs db @ [new_row (queued_job job)],
              db_outbox := db_outbox db @ [(j_id job, None)]\<rparr>)"
proof (cases "i64_max < uint (astrometry_id_for_job (j_id job))
        \<or> list_ex (\<lambda>r. r_object_key r = j_object_key job) (db_jobs db)
        \<or> list_ex (\<lambda>r. r_id r = j_id job) (db_jobs db)
        \<or> list_ex (\<lambda>r. r_astrometry_id r = uint (astrometry_id_for_job (j_id job))) (db_jobs db)
        \<or> list_ex (\<lambda>(i, _). i = j_id job) (db_outbox db)")
  case True
  have "snd (enqueue db job) = db"
    using True by (simp add: enqueue_def Let_def split: sum.split option.split) blast
  moreover have "(\<exists>r \<in> set (db_jobs db). r_object_key r = j_object_key job) \<or> (\<exists>e. fst (enqueue db job) = Inl e)"
  proof (cases "list_ex (\<lambda>r. r_object_key r = j_object_key job) (db_jobs db)")
    case False
    with True show ?thesis by (auto simp: enqueue_def Let_def)
  qed (auto simp: list_ex_iff)
  ultimately show ?thesis by (rule same)
next
  case False
  then show ?thesis
    by (intro added) (auto simp: enqueue_def Let_def queued_job_def list_ex_iff)
qed

lemma tokens_ok_append:
  assumes "tokens_ok used jobs" "r_lease_token r = None"
  shows "tokens_ok used (jobs @ [r])"
proof -
  have "s \<in> set jobs" if "s \<in> set (jobs @ [r])" "r_lease_token s = Some t" for s t
    using that assms(2) by auto
  with assms(1) show ?thesis unfolding tokens_ok_def by blast
qed

lemma queue_inv_enqueue: "queue_inv used db \<Longrightarrow> queue_inv used (snd (enqueue db job))"
proof (cases rule: enqueue_cases [of db job])
  case added
  assume inv: "queue_inv used db"
  note I = queue_invD [OF inv]
  have "tokens_ok used (db_jobs db @ [new_row (queued_job job)])"
    using I(6) by (simp add: tokens_ok_append)
  moreover have "donations_ok (snd (enqueue db job))"
    using I(7) by (auto simp: donations_ok_def added)
  ultimately show ?thesis
    using I added row_ok_new_row by (auto simp: queue_inv_def)
qed simp

definition set_donation :: "string \<Rightarrow> string option \<Rightarrow> int \<Rightarrow> DonationRow \<Rightarrow> DonationRow" where
  "set_donation k c v d = d\<lparr>d_object_key := k, d_comment := c, d_solve_is_invalid := v\<rparr>"

lemma set_donation_simps [simp]:
  "d_job_id (set_donation k c v d) = d_job_id d" "d_object_key (set_donation k c v d) = k"
  by (simp_all add: set_donation_def)

lemma distinct_set_donation:
  assumes "\<forall>d \<in> set ds. d_job_id d \<noteq> i \<longrightarrow> d_object_key d \<noteq> k"
    "distinct (map d_job_id ds)" "distinct (map d_object_key ds)"
  shows "distinct (map d_object_key (update_where (\<lambda>d. d_job_id d = i) (set_donation k c v) ds))"
  using assms
proof (induction ds)
  case Nil
  then show ?case by simp
next
  case (Cons d ds)
  let ?new = "update_where (\<lambda>d. d_job_id d = i) (set_donation k c v) ds"
  show ?case
  proof (cases "d_job_id d = i")
    case True
    with Cons.prems(2) have others: "\<forall>x \<in> set ds. d_job_id x \<noteq> i" by (force simp: image_iff)
    then have "?new = ds" by (intro update_where_none) (simp add: rows_where_0)
    moreover have "k \<notin> d_object_key ` set ds" using others Cons.prems(1) by auto
    ultimately show ?thesis using Cons.prems True by simp
  next
    case False
    with Cons.prems have "d_object_key d \<notin> d_object_key ` set ?new"
      by (auto simp: set_update_where)
    with False Cons show ?thesis by simp
  qed
qed

lemma donate_validation_cases:
  obtains (same) "snd (donate_validation db i donation) = db"
    | (update) r where "r \<in> set (db_jobs db)" "r_id r = i" "terminal r"
        "\<forall>d \<in> set (db_donations db). d_job_id d \<noteq> i \<longrightarrow> d_object_key d \<noteq> vd_object_key donation"
        "snd (donate_validation db i donation) = db\<lparr>db_donations :=
           update_where (\<lambda>d. d_job_id d = i)
             (set_donation (vd_object_key donation) (vd_comment donation)
                (if vd_solve_is_invalid donation then 1 else 0)) (db_donations db)\<rparr>"
    | (insert) r d where "r \<in> set (db_jobs db)" "r_id r = i" "terminal r"
        "\<forall>d \<in> set (db_donations db). d_job_id d \<noteq> i \<and> d_object_key d \<noteq> vd_object_key donation"
        "d_job_id d = i" "d_object_key d = vd_object_key donation"
        "snd (donate_validation db i donation) = db\<lparr>db_donations := db_donations db @ [d]\<rparr>"
proof (cases "select_one (\<lambda>r. r_id r = i) (db_jobs db)")
  case None
  then show ?thesis by (intro same) (simp add: donate_validation_def)
next
  case (Some r)
  note row = select_one_SomeD [OF Some]
  let ?clash = "list_ex (\<lambda>d. d_job_id d \<noteq> i \<and> d_object_key d = vd_object_key donation) (db_donations db)"
  let ?own = "list_ex (\<lambda>d. d_job_id d = i) (db_donations db)"
  consider "\<not> terminal r \<or> ?clash" | "terminal r" "\<not> ?clash" "?own" | "terminal r" "\<not> ?clash" "\<not> ?own"
    by blast
  then show ?thesis
  proof cases
    case 1
    then show ?thesis
      by (intro same) (auto simp: donate_validation_def Some terminal_def)
  next
    case 2
    with row show ?thesis
      by (intro update [of r])
        (auto simp: donate_validation_def Some terminal_def list_ex_iff set_donation_def [abs_def])
  next
    case 3
    with row show ?thesis
      by (intro insert [of r, OF _ _ _ _ _ _ ])
        (auto simp: donate_validation_def Some terminal_def list_ex_iff)
  qed
qed

lemma queue_inv_donate: "queue_inv used db \<Longrightarrow> queue_inv used (snd (donate_validation db i donation))"
proof -
  assume inv: "queue_inv used db"
  note I = queue_invD [OF inv]
  show ?thesis
  proof (cases rule: donate_validation_cases [of db i donation])
    case same
    with inv show ?thesis by simp
  next
    case update
    with I show ?thesis
      by (auto simp: queue_inv_def donations_ok_def map_update_where set_update_where
          intro!: distinct_set_donation)
  next
    case (insert r d)
    with I show ?thesis by (auto simp: queue_inv_def donations_ok_def)
  qed
qed

lemma queue_inv_pending: "queue_inv used db \<Longrightarrow> queue_inv used (snd (pending_notifications db now limit))"
  by (simp add: pending_notifications_def Let_def queue_inv_reclaim)

lemma queue_inv_delivered: "queue_inv used db \<Longrightarrow> queue_inv used (mark_notification_delivered db now i)"
proof -
  assume inv: "queue_inv used db"
  have "map fst (update_where (\<lambda>(j, _). j = i) (\<lambda>(j, _). (j, Some now)) ob) = map fst ob"
    for ob :: "(JobId \<times> time option) list"
    by (rule map_update_where) auto
  with inv show ?thesis
    by (simp add: queue_inv_def mark_notification_delivered_def donations_ok_def)
qed

end
