(* ===== verification/Job_Queue.thy ===== *)
theory Job_Queue
  imports Job_Lifecycle
begin

text \<open>
  Runs of the job queue: the calls as events, the databases they reach, the life of one job as a
  state machine, and the lease contract as the locale \<open>lease_queue\<close> with the SQLx repository as
  its instance.  The properties of the queue stand at the end.
\<close>

section \<open>Calls as events\<close>

datatype queue_event =
    EvEnqueue JobRecord
  | EvClaim time string "JobId option" u64
  | EvHeartbeat time JobId string u64
  | EvComplete time JobId string "SolutionResponse option" "string option"
  | EvDonate JobId ValidationDonation
  | EvPending time nat
  | EvDelivered time JobId

fun run_event :: "queue_event \<Rightarrow> JobDb \<Rightarrow> JobDb" where
  "run_event (EvEnqueue job) db = snd (enqueue db job)"
| "run_event (EvClaim now tok req secs) db = snd (claim db now tok req secs)"
| "run_event (EvHeartbeat now i tok secs) db = snd (heartbeat db now i tok secs)"
| "run_event (EvComplete now i tok sol err) db = snd (complete db now i tok sol err)"
| "run_event (EvDonate i donation) db = snd (donate_validation db i donation)"
| "run_event (EvPending now limit) db = snd (pending_notifications db now limit)"
| "run_event (EvDelivered now i) db = mark_notification_delivered db now i"

fun event_tokens :: "queue_event \<Rightarrow> string set" where
  "event_tokens (EvClaim _ tok _ _) = {tok}"
| "event_tokens _ = {}"

fun event_time :: "queue_event \<Rightarrow> time" where
  "event_time (EvClaim now _ _ _) = now"
| "event_time (EvHeartbeat now _ _ _) = now"
| "event_time (EvComplete now _ _ _ _) = now"
| "event_time (EvPending now _) = now"
| "event_time (EvDelivered now _) = now"
| "event_time (EvEnqueue job) = j_created_at job"
| "event_time (EvDonate _ donation) = vd_donated_at donation"

inductive reachable :: "string set \<Rightarrow> JobDb \<Rightarrow> bool" where
  start: "reachable {} empty_db"
| step: "reachable used db \<Longrightarrow> event_tokens ev \<inter> used = {} \<Longrightarrow>
         reachable (event_tokens ev \<union> used) (run_event ev db)"

lemma queue_inv_run_event:
  "queue_inv used db \<Longrightarrow> event_tokens ev \<inter> used = {} \<Longrightarrow>
   queue_inv (event_tokens ev \<union> used) (run_event ev db)"
  by (cases ev)
    (simp_all add: queue_inv_claim queue_inv_heartbeat queue_inv_complete queue_inv_enqueue
      queue_inv_donate queue_inv_pending queue_inv_delivered)

lemma queue_inv_empty: "queue_inv {} empty_db"
  by (simp add: queue_inv_def empty_db_def tokens_ok_def donations_ok_def)

section \<open>What a call does to one row\<close>

definition row_of :: "JobDb \<Rightarrow> JobId \<Rightarrow> JobRow option" where
  "row_of db i = select_one (\<lambda>r. r_id r = i) (db_jobs db)"

lemma row_of_Some:
  assumes "queue_inv used db"
  shows "row_of db i = Some r \<longleftrightarrow> r \<in> set (db_jobs db) \<and> r_id r = i"
  using select_one_key [OF queue_invD(1) [OF assms]]
  by (auto simp: row_of_def dest: select_one_SomeD)

lemma row_of_reclaim:
  assumes "queue_inv used db"
  shows "row_of (reclaim_expired db now) i
         = map_option (\<lambda>r. if expired now r then requeue r else r) (row_of db i)"
  by (simp add: row_of_def reclaim_jobs [OF queue_invD(1) [OF assms]] select_one_update_where)

lemma row_of_heartbeat:
  "row_of (snd (heartbeat db now j tok secs)) i =
     (case lease_expiry now secs of
        None \<Rightarrow> row_of db i
      | Some e \<Rightarrow> map_option (\<lambda>r. if holds_lease j tok now r then r\<lparr>r_lease_expires_at := Some e\<rparr> else r)
                    (row_of db i))"
  by (simp add: row_of_def heartbeat_def select_one_update_where split: option.split)

lemma row_of_complete:
  "row_of (snd (complete db now j tok sol err)) i =
     (if sol = None \<and> err = None then row_of db i
      else map_option (\<lambda>r. if holds_lease j tok now r then finish_row now sol err r else r) (row_of db i))"
  by (simp add: row_of_def complete_def finish_row_def select_one_update_where)

lemma row_of_enqueue:
  "row_of (snd (enqueue db job)) i = row_of db i
   \<or> (row_of db i = None \<and> i = j_id job \<and> row_of (snd (enqueue db job)) i = Some (new_row (queued_job job)))"
proof (cases rule: enqueue_cases [of db job])
  case added
  then show ?thesis
    by (cases "select_one (\<lambda>r. r_id r = i) (db_jobs db)") (auto simp: row_of_def)
qed simp

lemma row_of_other [simp]:
  "row_of (snd (donate_validation db j donation)) i = row_of db i"
  "row_of (mark_notification_delivered db now j) i = row_of db i"
  by (simp_all add: row_of_def donate_validation_def mark_notification_delivered_def Let_def)

lemma row_of_claim:
  assumes inv: "queue_inv used db"
  shows "row_of (snd (claim db now tok req secs)) i = row_of db i
         \<or> row_of (snd (claim db now tok req secs)) i = row_of (reclaim_expired db now) i
         \<or> (\<exists>r e. row_of (reclaim_expired db now) i = Some r \<and> r_status r = ''queued''
              \<and> lease_expiry now secs = Some e \<and> req \<in> {None, Some i}
              \<and> row_of (snd (claim db now tok req secs)) i = Some (start_lease now tok e r))"
proof (cases rule: claim_cases [of db now tok req secs])
  case (leased job e)
  have "row_of (snd (claim db now tok req secs)) i
        = map_option (\<lambda>r. if r_id r = j_id job \<and> r_status r = ''queued'' then start_lease now tok e r else r)
            (row_of (reclaim_expired db now) i)"
    by (simp add: row_of_def leased(3) select_one_update_where start_lease_def)
  moreover have "req \<in> {None, Some (j_id job)}"
    using select_candidate_sound [OF leased(1)] record_from_row_id by (cases req) auto
  moreover have "r_id r = i" if "row_of (reclaim_expired db now) i = Some r" for r
    using that by (auto simp: row_of_def dest: select_one_SomeD)
  ultimately show ?thesis
    using leased(2) by (cases "row_of (reclaim_expired db now) i") auto
qed simp_all

section \<open>The life of a job\<close>

datatype phase = Absent | Waiting | Leased string time | Done bool

definition row_phase :: "JobRow \<Rightarrow> phase" where
  "row_phase r =
     (if r_status r = ''solving''
      then (case (r_lease_token r, r_lease_expires_at r) of
              (Some t, Some e) \<Rightarrow> Leased t e | _ \<Rightarrow> Waiting)
      else if r_status r = ''queued'' then Waiting
      else Done (r_status r = ''succeeded''))"

definition phase_of :: "JobDb \<Rightarrow> JobId \<Rightarrow> phase" where
  "phase_of db i = (case row_of db i of None \<Rightarrow> Absent | Some r \<Rightarrow> row_phase r)"

text \<open>
  The phases that one call may give one job, for every repository.  Times decide: a lease is taken over
  or given up only when it has run out by the clock of the call, and renewed or completed only by its
  own token before that; a new lease has the token and the expiry of its call; no other job moves.
  An expiry is missing when the time arithmetic of the call overflows.
\<close>

datatype job_call =
    Submits JobId
  | Claims time string "JobId option" "time option"
  | Renews time JobId string "time option"
  | Finishes time JobId string "bool option"
  | Requeues time
  | Keeps

definition new_leases :: "string \<Rightarrow> JobId option \<Rightarrow> time option \<Rightarrow> JobId \<Rightarrow> phase set" where
  "new_leases tok req expires i =
     (if req \<in> {None, Some i} then Leased tok ` set_option expires else {})"

fun next_phases :: "job_call \<Rightarrow> JobId \<Rightarrow> phase \<Rightarrow> phase set" where
  "next_phases (Submits j) i Absent = (if i = j then {Absent, Waiting} else {Absent})"
| "next_phases (Claims now tok req expires) i Waiting = {Waiting} \<union> new_leases tok req expires i"
| "next_phases (Claims now tok req expires) i (Leased t e) =
     (if e \<le> now then {Leased t e, Waiting} \<union> new_leases tok req expires i else {Leased t e})"
| "next_phases (Renews now j tok expires) i (Leased t e) =
     (if i = j \<and> t = tok \<and> now < e
      then case expires of Some e' \<Rightarrow> {Leased tok e'} | None \<Rightarrow> {Leased t e} else {Leased t e})"
| "next_phases (Finishes now j tok success) i (Leased t e) =
     (if i = j \<and> t = tok \<and> now < e
      then case success of Some b \<Rightarrow> {Done b} | None \<Rightarrow> {Leased t e} else {Leased t e})"
| "next_phases (Requeues now) i (Leased t e) = (if e \<le> now then {Waiting} else {Leased t e})"
| "next_phases _ i p = {p}"

text \<open>The success that a completion reports; one with neither a solution nor an error is refused.\<close>

definition reported :: "SolutionResponse option \<Rightarrow> string option \<Rightarrow> bool option" where
  "reported sol err = (if sol = None \<and> err = None then None else Some (sol \<noteq> None))"

fun call_of :: "queue_event \<Rightarrow> job_call" where
  "call_of (EvEnqueue job) = Submits (j_id job)"
| "call_of (EvClaim now tok req secs) = Claims now tok req (lease_expiry now secs)"
| "call_of (EvHeartbeat now i tok secs) = Renews now i tok (lease_expiry now secs)"
| "call_of (EvComplete now i tok sol err) = Finishes now i tok (reported sol err)"
| "call_of (EvDonate _ _) = Keeps"
| "call_of (EvPending now _) = Requeues now"
| "call_of (EvDelivered _ _) = Keeps"

lemma next_phases_Absent [simp]: "(\<And>j. call \<noteq> Submits j) \<Longrightarrow> next_phases call i Absent = {Absent}"
  by (cases call) auto

lemma next_phases_keep [simp]:
  "p \<in> next_phases (Submits j) i p" "p \<in> next_phases (Claims now tok req expires) i p" "next_phases Keeps i p = {p}"
  by (cases p; simp)+

text \<open>What the conditions of the code say of the phase.\<close>

lemma expired_phase:
  assumes "row_ok r"
  shows "expired now r \<longleftrightarrow> (\<exists>t e. row_phase r = Leased t e \<and> e \<le> now)"
  using assms by (cases "r_lease_expires_at r"; cases "r_lease_token r")
    (auto simp: expired_def row_ok_def row_phase_def)

lemma held_phase:
  assumes "row_ok r"
  shows "holds_lease j tok now r \<longleftrightarrow> r_id r = j \<and> (\<exists>e. row_phase r = Leased tok e \<and> now < e)"
  using assms by (cases "r_lease_expires_at r"; cases "r_lease_token r")
    (auto simp: holds_lease_def row_ok_def row_phase_def)

lemma requeue_phase: "expired now r \<Longrightarrow> row_phase (requeue r) = Waiting"
  by (simp add: row_phase_def)

lemma start_lease_phase: "row_phase (start_lease now tok e r) = Leased tok e"
  by (simp add: row_phase_def start_lease_def)

lemma renewed_phase: "row_phase r = Leased tok e \<Longrightarrow> row_phase (r\<lparr>r_lease_expires_at := Some e'\<rparr>) = Leased tok e'"
  by (auto simp: row_phase_def split: if_splits option.splits)

lemma row_phase_finish: "sol \<noteq> None \<or> err \<noteq> None \<Longrightarrow> row_phase (finish_row now sol err r) = Done (sol \<noteq> None)"
  by (auto simp: row_phase_def finish_row_def)

lemma reclaim_phase:
  assumes "queue_inv used db"
  shows "phase_of (reclaim_expired db now) i =
           (case phase_of db i of Leased t e \<Rightarrow> if e \<le> now then Waiting else Leased t e | p \<Rightarrow> p)"
proof (cases "row_of db i")
  case None
  then show ?thesis by (simp add: phase_of_def row_of_reclaim [OF assms])
next
  case (Some r)
  then have "row_ok r" using assms by (auto simp: row_of_Some [OF assms] queue_invD)
  from expired_phase [OF this, of now] requeue_phase [of now r] Some show ?thesis
    by (cases "expired now r") (auto simp: phase_of_def row_of_reclaim [OF assms] split: phase.split)
qed

lemma claim_phase:
  assumes inv: "queue_inv used db"
  shows "phase_of (snd (claim db now tok req secs)) i \<in> next_phases (Claims now tok req (lease_expiry now secs)) i (phase_of db i)"
proof -
  note reclaimed = reclaim_phase [OF inv, of now i]
  have waits: "phase_of (reclaim_expired db now) i \<in> next_phases (Claims now tok req (lease_expiry now secs)) i (phase_of db i)"
    unfolding reclaimed by (cases "phase_of db i") auto
  show ?thesis
    using row_of_claim [OF inv, of now tok req secs i]
  proof (elim disjE exE conjE)
    fix r e
    assume r: "row_of (reclaim_expired db now) i = Some r" "r_status r = ''queued''"
      and e: "lease_expiry now secs = Some e" "req \<in> {None, Some i}"
      and new: "row_of (snd (claim db now tok req secs)) i = Some (start_lease now tok e r)"
    from r have "phase_of (reclaim_expired db now) i = Waiting" by (simp add: phase_of_def row_phase_def)
    with e show ?thesis unfolding phase_of_def [of "snd (claim db now tok req secs)"] new reclaimed
      by (cases "phase_of db i") (auto simp: start_lease_phase new_leases_def split: if_splits)
  qed (use waits in \<open>simp_all add: phase_of_def\<close>)
qed

lemma next_phase_run_event:
  assumes inv: "queue_inv used db"
  shows "phase_of (run_event ev db) i \<in> next_phases (call_of ev) i (phase_of db i)"
proof (cases ev)
  case (EvEnqueue job)
  have "row_phase (new_row (queued_job job)) = Waiting" by (simp add: row_phase_def)
  then show ?thesis
    using row_of_enqueue [of db job i] by (auto simp: EvEnqueue phase_of_def)
next
  case (EvHeartbeat now j tok secs)
  show ?thesis
  proof (cases "row_of db i")
    case (Some r)
    then have r: "row_ok r" "r_id r = i" using inv by (auto simp: row_of_Some [OF inv] queue_invD)
    from held_phase [OF r(1), of j tok now] r(2) Some show ?thesis
      by (cases "row_phase r"; cases "lease_expiry now secs")
        (auto simp: EvHeartbeat phase_of_def row_of_heartbeat renewed_phase)
  qed (simp add: EvHeartbeat phase_of_def row_of_heartbeat split: option.split)
next
  case (EvComplete now j tok sol err)
  show ?thesis
  proof (cases "row_of db i")
    case (Some r)
    then have r: "row_ok r" "r_id r = i" using inv by (auto simp: row_of_Some [OF inv] queue_invD)
    from held_phase [OF r(1), of j tok now] r(2) Some row_phase_finish [of sol err now r] show ?thesis
      by (cases "row_phase r"; cases "sol = None \<and> err = None")
        (auto simp: EvComplete phase_of_def row_of_complete reported_def simp del: not_None_eq)
  qed (simp add: EvComplete phase_of_def row_of_complete)
next
  case (EvPending now limit)
  then show ?thesis
    by (cases "phase_of db i") (simp_all add: pending_notifications_def Let_def reclaim_phase [OF inv])
qed (simp_all add: phase_of_def claim_phase [OF inv, unfolded phase_of_def])

section \<open>The lease contract\<close>

fun run_all :: "('e \<Rightarrow> 'db \<Rightarrow> 'db) \<Rightarrow> 'e list \<Rightarrow> 'db \<Rightarrow> 'db" where
  "run_all step [] db = db"
| "run_all step (e # es) db = run_all step es (step e db)"

text \<open>Every claim of the run draws a token that was never drawn before.\<close>

fun fresh_run :: "('e \<Rightarrow> string set) \<Rightarrow> string set \<Rightarrow> 'e list \<Rightarrow> bool" where
  "fresh_run tokens used [] = True"
| "fresh_run tokens used (e # es) = (tokens e \<inter> used = {} \<and> fresh_run tokens (tokens e \<union> used) es)"

fun run_tokens :: "('e \<Rightarrow> string set) \<Rightarrow> string set \<Rightarrow> 'e list \<Rightarrow> string set" where
  "run_tokens tokens used [] = used"
| "run_tokens tokens used (e # es) = run_tokens tokens (tokens e \<union> used) es"

lemma run_all_append: "run_all f (es @ es') db = run_all f es' (run_all f es db)"
  by (induction es arbitrary: db) auto

lemma fresh_run_append:
  "fresh_run tk used (es @ es') = (fresh_run tk used es \<and> fresh_run tk (run_tokens tk used es) es')"
  "run_tokens tk used (es @ es') = run_tokens tk (run_tokens tk used es) es'"
  by (induction es arbitrary: used) auto

text \<open>
  What a worker relies on: a lease token is held for one job only, an unused token is held for
  none, a call creates no holder but through the token it draws, and a settled job keeps its
  outcome and has no holder.
\<close>

locale lease_queue =
  fixes inv :: "string set \<Rightarrow> 'db \<Rightarrow> bool"
    and step :: "'e \<Rightarrow> 'db \<Rightarrow> 'db"
    and tokens :: "'e \<Rightarrow> string set"
    and holds :: "'db \<Rightarrow> JobId \<Rightarrow> string \<Rightarrow> bool"
    and outcome :: "'db \<Rightarrow> JobId \<Rightarrow> 'o option"
  assumes inv_step: "inv used db \<Longrightarrow> tokens e \<inter> used = {} \<Longrightarrow> inv (tokens e \<union> used) (step e db)"
    and holds_used: "inv used db \<Longrightarrow> holds db i t \<Longrightarrow> t \<in> used"
    and holds_step: "inv used db \<Longrightarrow> tokens e \<inter> used = {} \<Longrightarrow> holds (step e db) i t
                     \<Longrightarrow> holds db i t \<or> t \<in> tokens e"
    and holds_one_job: "inv used db \<Longrightarrow> holds db i t \<Longrightarrow> holds db j t \<Longrightarrow> i = j"
    and holds_one_token: "inv used db \<Longrightarrow> holds db i t \<Longrightarrow> holds db i t' \<Longrightarrow> t = t'"
    and outcome_step: "inv used db \<Longrightarrow> tokens e \<inter> used = {} \<Longrightarrow> outcome db i = Some x
                       \<Longrightarrow> outcome (step e db) i = Some x"
    and outcome_free: "inv used db \<Longrightarrow> outcome db i = Some x \<Longrightarrow> \<not> holds db i t"
begin

lemma inv_run:
  "inv used db \<Longrightarrow> fresh_run tokens used es \<Longrightarrow> inv (run_tokens tokens used es) (run_all step es db)"
  by (induction es arbitrary: used db) (auto intro: inv_step)

lemma stale_token_stays_stale:
  assumes "inv used db" "t \<in> used" "\<not> holds db i t" "fresh_run tokens used es"
  shows "\<not> holds (run_all step es db) i t"
  using assms
proof (induction es arbitrary: used db)
  case Nil
  then show ?case by simp
next
  case (Cons e es)
  then have fresh: "tokens e \<inter> used = {}" and rest: "fresh_run tokens (tokens e \<union> used) es" by auto
  have "\<not> holds (step e db) i t"
    using holds_step [OF Cons.prems(1) fresh] Cons.prems(2,3) fresh by blast
  with Cons.IH [OF inv_step [OF Cons.prems(1) fresh] _ _ rest] Cons.prems(2) show ?case by simp
qed

lemma outcome_is_final:
  assumes "inv used db" "outcome db i = Some x" "fresh_run tokens used es"
  shows "outcome (run_all step es db) i = Some x \<and> \<not> holds (run_all step es db) i t"
  using assms
proof (induction es arbitrary: used db)
  case Nil
  then show ?case by (simp add: outcome_free)
next
  case (Cons e es)
  then have fresh: "tokens e \<inter> used = {}" and rest: "fresh_run tokens (tokens e \<union> used) es" by auto
  from Cons.IH [OF inv_step [OF Cons.prems(1) fresh] outcome_step [OF Cons.prems(1) fresh] rest]
    Cons.prems(2) show ?case by simp
qed

lemma superseded_token_never_returns:
  assumes "inv used db" "holds db i t" "t \<noteq> t'" "t' \<in> used" "fresh_run tokens used es"
  shows "\<not> holds (run_all step es db) i t'"
proof (rule stale_token_stays_stale [OF assms(1,4) _ assms(5)])
  show "\<not> holds db i t'" using holds_one_token [OF assms(1,2)] assms(3) by blast
qed

end

section \<open>The SQLx repository keeps the lease contract\<close>

definition holds :: "JobDb \<Rightarrow> JobId \<Rightarrow> string \<Rightarrow> bool" where
  "holds db i t = (\<exists>e. phase_of db i = Leased t e)"

definition outcome :: "JobDb \<Rightarrow> JobId \<Rightarrow> JobRow option" where
  "outcome db i = (case row_of db i of Some r \<Rightarrow> if terminal r then Some r else None | None \<Rightarrow> None)"

lemma row_unique:
  "queue_inv used db \<Longrightarrow> r \<in> set (db_jobs db) \<Longrightarrow> s \<in> set (db_jobs db) \<Longrightarrow> r_id r = r_id s \<Longrightarrow> r = s"
  by (meson distinct_map_same queue_invD(1))

lemma row_phase_Leased: "row_ok r \<Longrightarrow> (\<exists>e. row_phase r = Leased t e) \<longleftrightarrow> r_lease_token r = Some t"
  by (cases "r_lease_expires_at r"; cases "r_lease_token r") (auto simp: row_ok_def row_phase_def)

lemma holds_iff:
  assumes inv: "queue_inv used db"
  shows "holds db i t \<longleftrightarrow> (\<exists>r. row_of db i = Some r \<and> r_lease_token r = Some t)"
proof (cases "row_of db i")
  case (Some r)
  then have "row_ok r" using inv by (simp add: row_of_Some [OF inv] queue_invD)
  from row_phase_Leased [OF this] Some show ?thesis by (simp add: holds_def phase_of_def)
qed (simp add: holds_def phase_of_def)

lemma outcome_Some: "outcome db i = Some r \<longleftrightarrow> row_of db i = Some r \<and> terminal r"
  by (auto simp: outcome_def split: option.splits)

lemma token_origin:
  assumes inv: "queue_inv used db"
    and new: "row_of (run_event ev db) i = Some r'" "r_lease_token r' = Some t"
  shows "(\<exists>r. row_of db i = Some r \<and> r_lease_token r = Some t) \<or> t \<in> event_tokens ev"
proof (cases ev)
  case (EvEnqueue job)
  with new row_of_enqueue [of db job i] show ?thesis by (cases "row_of db i") auto
next
  case (EvClaim now tok req secs)
  with new row_of_claim [OF inv, of now tok req secs i] show ?thesis
    by (cases "row_of db i") (auto simp: row_of_reclaim [OF inv] start_lease_def split: if_splits)
next
  case (EvHeartbeat now j tok secs)
  with new show ?thesis
    by (auto simp: row_of_heartbeat split: option.splits if_splits)
next
  case (EvComplete now j tok sol err)
  with new show ?thesis
    by (auto simp: row_of_complete finish_row_def split: if_splits)
next
  case (EvPending now limit)
  with new show ?thesis
    by (auto simp: pending_notifications_def Let_def row_of_reclaim [OF inv] split: if_splits)
qed (use new in simp_all)

lemma terminal_not_solving: "terminal r \<Longrightarrow> r_status r \<noteq> ''solving'' \<and> r_status r \<noteq> ''queued''"
  by (auto simp: terminal_def)

lemma terminal_row_kept:
  assumes inv: "queue_inv used db" and row: "row_of db i = Some r" "terminal r"
  shows "row_of (run_event ev db) i = Some r"
proof -
  note quiet = terminal_not_solving [OF row(2)]
  have reclaim: "row_of (reclaim_expired db now) i = Some r" for now
    using row quiet by (simp add: row_of_reclaim [OF inv] expired_def)
  show ?thesis
  proof (cases ev)
    case (EvEnqueue job)
    with row row_of_enqueue [of db job i] show ?thesis by auto
  next
    case (EvClaim now tok req secs)
    with row quiet reclaim row_of_claim [OF inv, of now tok req secs i] show ?thesis by auto
  next
    case (EvPending now limit)
    with reclaim show ?thesis by (simp add: pending_notifications_def Let_def)
  qed (use row quiet in \<open>simp_all add: row_of_heartbeat row_of_complete holds_lease_def split: option.split\<close>)
qed

interpretation sqlx: lease_queue queue_inv run_event event_tokens holds outcome
proof
  fix used db ev i j t t' x
  assume inv: "queue_inv used db"
  show "event_tokens ev \<inter> used = {} \<Longrightarrow> queue_inv (event_tokens ev \<union> used) (run_event ev db)"
    using inv by (rule queue_inv_run_event)
  show "holds db i t \<Longrightarrow> t \<in> used"
    using queue_invD(6) [OF inv] unfolding holds_iff [OF inv] row_of_Some [OF inv] tokens_ok_def
    by blast
  show "holds db i t \<Longrightarrow> holds db j t \<Longrightarrow> i = j"
    using queue_invD(6) [OF inv] unfolding holds_iff [OF inv] row_of_Some [OF inv] tokens_ok_def
    by blast
  show "holds db i t \<Longrightarrow> holds db i t' \<Longrightarrow> t = t'"
    by (auto simp: holds_iff [OF inv])
  show "event_tokens ev \<inter> used = {} \<Longrightarrow> holds (run_event ev db) i t \<Longrightarrow> holds db i t \<or> t \<in> event_tokens ev"
    using token_origin [OF inv] unfolding holds_iff [OF inv]
    by (metis holds_iff inv queue_inv_run_event)
  show "event_tokens ev \<inter> used = {} \<Longrightarrow> outcome db i = Some x \<Longrightarrow> outcome (run_event ev db) i = Some x"
    using terminal_row_kept [OF inv] unfolding outcome_Some by blast
  show "outcome db i = Some x \<Longrightarrow> \<not> holds db i t"
  proof -
    assume "outcome db i = Some x"
    then have row: "row_of db i = Some x" and quiet: "r_status x \<noteq> ''solving''"
      by (auto simp: outcome_Some dest: terminal_not_solving)
    then have "row_ok x" using inv by (simp add: row_of_Some [OF inv] queue_invD)
    with row quiet show ?thesis by (simp add: holds_iff [OF inv] row_ok_def)
  qed
qed

end
