(* ===== verification/Queue_Properties.thy ===== *)
theory Queue_Properties
  imports Job_Queue
begin

text \<open>
  The properties of the job queue: its invariant, the life cycle of a job, exclusive leases,
  final outcomes, the scheduling policy, recovery of crashed workers, idempotent submission,
  the notification outbox and donations.  Each is stated for every reachable database.
\<close>

section \<open>Concrete jobs for the witnesses\<close>

definition sample_job :: "JobId \<Rightarrow> string \<Rightarrow> string \<Rightarrow> time \<Rightarrow> JobRecord" where
  "sample_job i owner key t = \<lparr>
     j_id = i, j_astrometry_id = 0, j_owner = owner, j_queue_weight = Fin 1, j_object_key = key,
     j_original_filename = ''m31.fits'', j_content_type = None, j_options = default_options,
     j_status = Queued, j_created_at = t, j_started_at = None, j_completed_at = None,
     j_solution = None, j_error = None, j_validation_donation = None\<rparr>"

definition one_job_db :: JobDb where
  "one_job_db = run_event (EvEnqueue (sample_job 1 ''a'' ''k1'' 0)) empty_db"

definition leased_db :: JobDb where
  "leased_db = run_event (EvClaim 10 ''t1'' None 60) one_job_db"

lemma reachable_one_job: "reachable {} one_job_db"
  using reachable.step [OF reachable.start, of "EvEnqueue (sample_job 1 ''a'' ''k1'' 0)"]
  by (simp add: one_job_db_def)

lemma reachable_leased: "reachable {''t1''} leased_db"
  using reachable.step [OF reachable_one_job, of "EvClaim 10 ''t1'' None 60"]
  by (simp add: leased_db_def)

lemma one_job_db_eq:
  "one_job_db = \<lparr>db_jobs = [new_row (queued_job (sample_job 1 ''a'' ''k1'' 0))], db_donations = [],
                 db_service = [], db_outbox = [(1, None)]\<rparr>"
  using uint_astrometry_id [of 1]
  by (simp add: one_job_db_def empty_db_def enqueue_def Let_def queued_job_def sample_job_def)

lemmas queue_eval = claim_def reclaim_expired_def expired_ids_def select_candidate_def order_by_def
  new_row_def queued_job_def sample_job_def record_from_row_def status_parse_def lease_expiry_def
  add_seconds_def rows_where_def Let_def better_def

definition sample_lease :: JobLease where
  "sample_lease = \<lparr>jl_job_id = 1, jl_lease_token = ''t1'', jl_lease_expires_at = 60000000010,
     jl_original_filename = ''m31.fits'', jl_options = default_options\<rparr>"

lemma leased_claim: "fst (claim one_job_db 10 ''t1'' None 60) = Inr (Some sample_lease)"
  by (simp add: one_job_db_eq queue_eval sample_lease_def)

lemma leased_db_jobs: "db_jobs leased_db =
   [start_lease 10 ''t1'' 60000000010 (new_row (queued_job (sample_job 1 ''a'' ''k1'' 0)))]"
  by (simp add: leased_db_def one_job_db_eq queue_eval)

lemma reachable_inv: "reachable used db \<Longrightarrow> queue_inv used db"
  by (induction rule: reachable.induct) (auto intro: queue_inv_empty queue_inv_run_event)

section \<open>Invariant and life cycle\<close>

text \<open>
  C15: In every reachable database job ids, Astrometry ids and object keys are unique, every row
  is in one of the four states with exactly the fields that state allows (a lease token and an
  expiry just while solving, a solution just when succeeded, an error only when finished), every
  job has one outbox row, tokens are not shared between jobs, and donations belong to finished
  jobs.
\<close>

theorem reachable_queue_inv:
  assumes "reachable used db"
  shows "queue_inv used db"
  using assms by (rule reachable_inv)

theorem reachable_queue_inv_witness: "queue_inv {''t1''} leased_db"
  using reachable_queue_inv [OF reachable_leased] .

text \<open>
  C16: Every call moves each job only as its own clock, job and tokens allow, by the table
  \<open>next_phases\<close>.  A submission makes only its own job wait, and only one that did not exist.  A claim leases a job
  only if it waits or its lease has run out by the clock of the claim, only the requested job if one is requested, and then with the
  token and the expiry of that claim; it may requeue a lease that has run out, never a live one.  A heartbeat moves exactly the job it
  names, if its token holds a live lease, to the expiry it asks for.  A completion settles exactly
  the job it names, if its token holds a live lease and a solution or an error is given, and as
  succeeded exactly with a solution.  Collecting the notifications requeues exactly the leases that have run out.
  Every other job, and every job under the other calls, keeps its phase, token and expiry, and a
  finished job never changes.
\<close>

theorem call_follows_lifecycle:
  assumes "reachable used db"
  shows "phase_of (run_event ev db) i \<in> next_phases (call_of ev) i (phase_of db i)"
  using assms by (intro next_phase_run_event reachable_inv)

text \<open>A second worker does not get the job at time 20, nor does the outbox take it from the first.\<close>

lemma leased_db_phase: "phase_of leased_db 1 = Leased ''t1'' 60000000010"
  by (simp add: phase_of_def row_of_def leased_db_jobs row_phase_def start_lease_def new_row_def
      queued_job_def sample_job_def)

theorem call_follows_lifecycle_witness:
  "phase_of (run_event (EvClaim 20 ''t2'' None 60) leased_db) 1 = Leased ''t1'' 60000000010
   \<and> phase_of (run_event (EvPending 60000000010 5) leased_db) 1 = Waiting"
  using call_follows_lifecycle [OF reachable_leased, of "EvClaim 20 ''t2'' None 60" 1]
    call_follows_lifecycle [OF reachable_leased, of "EvPending 60000000010 5" 1]
  by (simp add: leased_db_phase)

text \<open>
  C19: A finished job is final.  After any further sequence of calls its row (status, solution,
  error, timestamps, attempts) is unchanged, and no lease token is valid for it.
\<close>

theorem finished_job_is_final:
  assumes "reachable used db" "r \<in> set (db_jobs db)" "terminal r"
    and "fresh_run event_tokens used evs"
  shows "row_of (run_all run_event evs db) (r_id r) = Some r
         \<and> \<not> holds (run_all run_event evs db) (r_id r) t"
proof -
  have inv: "queue_inv used db" using assms(1) by (rule reachable_inv)
  have "outcome db (r_id r) = Some r"
    using assms(2,3) by (simp add: outcome_Some row_of_Some [OF inv])
  from sqlx.outcome_is_final [OF inv this assms(4)] show ?thesis by (simp add: outcome_Some)
qed

definition failed_db :: JobDb where
  "failed_db = run_event (EvComplete 20 1 ''t1'' None (Some ''no match'')) leased_db"

definition failed_row :: JobRow where
  "failed_row = finish_row 20 None (Some ''no match'')
     (start_lease 10 ''t1'' 60000000010 (new_row (queued_job (sample_job 1 ''a'' ''k1'' 0))))"

lemma reachable_failed: "reachable {''t1''} failed_db"
  using reachable.step [OF reachable_leased, of "EvComplete 20 1 ''t1'' None (Some ''no match'')"]
  by (simp add: failed_db_def)

lemma failed_db_jobs: "db_jobs failed_db = [failed_row]"
  by (simp add: failed_db_def failed_row_def complete_def leased_db_jobs holds_lease_def start_lease_def
      new_row_def queued_job_def sample_job_def)

lemma terminal_failed_row: "terminal failed_row" "r_id failed_row = 1"
  by (simp_all add: failed_row_def terminal_def finish_row_def start_lease_def new_row_def
      queued_job_def sample_job_def)

theorem finished_job_is_final_witness:
  "row_of (run_all run_event [EvClaim 90 ''t2'' (Some 1) 60, EvPending 95 3] failed_db) 1 = Some failed_row"
  using finished_job_is_final [OF reachable_failed, of failed_row "[EvClaim 90 ''t2'' (Some 1) 60, EvPending 95 3]"]
  by (simp add: failed_db_jobs terminal_failed_row)

section \<open>Exclusive leases\<close>

lemma claim_LeasedD:
  assumes inv: "queue_inv used db" and claim: "fst (claim db now tok req secs) = Inr (Some l)"
  obtains r e where "r \<in> set (db_jobs (reclaim_expired db now))" "r_status r = ''queued''"
    "r_id r = jl_job_id l" "lease_expiry now secs = Some e" "jl_lease_token l = tok"
    "jl_lease_expires_at l = e" "\<forall>i. req = Some i \<longrightarrow> i = jl_job_id l"
    "row_of (snd (claim db now tok req secs)) (jl_job_id l) = Some (start_lease now tok e r)"
proof (cases rule: claim_cases [of db now tok req secs])
  case (leased job e)
  from select_candidate_sound [OF leased(1)] obtain r where
    r: "r \<in> set (db_jobs (reclaim_expired db now))" "r_status r = ''queued''"
      "record_from_row r = Inr job" "\<forall>i. req = Some i \<longrightarrow> r_id r = i" by blast
  from record_from_row_id [OF r(3)] have id: "j_id job = r_id r" .
  have rinv: "queue_inv used (reclaim_expired db now)" using inv by (rule queue_inv_reclaim)
  have row: "row_of (reclaim_expired db now) (r_id r) = Some r"
    using row_of_Some [OF rinv] r(1) by blast
  have l: "l = \<lparr>jl_job_id = j_id job, jl_lease_token = tok, jl_lease_expires_at = e,
     jl_original_filename = j_original_filename job, jl_options = j_options job\<rparr>"
    using claim leased(3) by simp
  show ?thesis
  proof (rule that [OF r(1,2) _ leased(2)])
    show "row_of (snd (claim db now tok req secs)) (jl_job_id l) = Some (start_lease now tok e r)"
      using row r(2) by (simp add: l id row_of_def leased(3) select_one_update_where start_lease_def)
  qed (use r(4) in \<open>simp_all add: l id\<close>)
qed (use claim in \<open>simp_all\<close>)

lemma holds_lease_rows:
  assumes "queue_inv used db" "\<not> holds db i tok"
  shows "\<forall>r \<in> set (db_jobs db). \<not> holds_lease i tok now r"
  using assms by (auto simp: holds_iff row_of_Some holds_lease_def)

lemma no_lease_no_effect:
  assumes inv: "queue_inv used db" and stale: "\<not> holds db i tok"
  shows "complete db now i tok (Some sol) err = (Inr False, db)"
    "complete db now i tok None (Some msg) = (Inr False, db)"
    "heartbeat db now i tok secs = (case lease_expiry now secs of None \<Rightarrow> Inl TimePanic | Some _ \<Rightarrow> Inr False, db)"
    "input_key db now i tok = None"
proof -
  note rows = holds_lease_rows [OF inv stale, of now]
  then have "rows_where (holds_lease i tok now) (db_jobs db) = 0"
    and "select_one (holds_lease i tok now) (db_jobs db) = None"
    by (auto simp: rows_where_0 select_one_None)
  then show "complete db now i tok (Some sol) err = (Inr False, db)"
    "complete db now i tok None (Some msg) = (Inr False, db)"
    "heartbeat db now i tok secs = (case lease_expiry now secs of None \<Rightarrow> Inl TimePanic | Some _ \<Rightarrow> Inr False, db)"
    "input_key db now i tok = None"
    by (simp_all add: complete_def heartbeat_def input_key_def update_where_none split: option.split)
qed

text \<open>
  C17: A superseded worker is locked out for good.  Once a claim has leased the job again, a token
  drawn earlier can, after any further calls, neither complete the job nor renew the lease nor
  read the input, and its attempts leave the database unchanged.
\<close>

theorem superseded_worker_is_locked_out:
  assumes "reachable used db" "tok \<notin> used" "fst (claim db now tok req secs) = Inr (Some l)"
    and "old \<in> used" "fresh_run event_tokens (insert tok used) evs"
    and db': "db' = run_all run_event evs (snd (claim db now tok req secs))"
  shows "complete db' t (jl_job_id l) old (Some sol) err = (Inr False, db')
         \<and> complete db' t (jl_job_id l) old None (Some msg) = (Inr False, db')
         \<and> snd (heartbeat db' t (jl_job_id l) old secs') = db'
         \<and> fst (heartbeat db' t (jl_job_id l) old secs') \<noteq> Inr True
         \<and> input_key db' t (jl_job_id l) old = None"
proof -
  let ?db = "snd (claim db now tok req secs)"
  have inv: "queue_inv used db" using assms(1) by (rule reachable_inv)
  have cinv: "queue_inv (insert tok used) ?db" using inv assms(2) by (rule queue_inv_claim)
  from claim_LeasedD [OF inv assms(3)] obtain r e where
    "row_of ?db (jl_job_id l) = Some (start_lease now tok e r)" by metis
  then have "holds ?db (jl_job_id l) tok" by (simp add: holds_iff [OF cinv] start_lease_def)
  then have stale: "\<not> holds db' (jl_job_id l) old"
    unfolding db' using assms(2,4,5)
    by (intro sqlx.superseded_token_never_returns [OF cinv]) auto
  have "queue_inv (run_tokens event_tokens (insert tok used) evs) db'"
    unfolding db' by (rule sqlx.inv_run [OF cinv assms(5)])
  from no_lease_no_effect [OF this stale] show ?thesis
    by (simp split: option.split)
qed

definition second_lease :: JobLease where
  "second_lease = \<lparr>jl_job_id = 1, jl_lease_token = ''t2'', jl_lease_expires_at = 160000000000,
     jl_original_filename = ''m31.fits'', jl_options = default_options\<rparr>"

lemma second_claim: "fst (claim leased_db 100000000000 ''t2'' None 60) = Inr (Some second_lease)"
  by (simp add: leased_db_def one_job_db_eq queue_eval reclaim_one_def requeue_def start_lease_def
      second_lease_def)

theorem superseded_worker_is_locked_out_witness:
  "input_key (snd (claim leased_db 100000000000 ''t2'' None 60)) 100000000001 1 ''t1'' = None"
  using superseded_worker_is_locked_out [OF reachable_leased _ second_claim, of "''t1''" "[]"
      "snd (claim leased_db 100000000000 ''t2'' None 60)" 100000000001]
  by (simp add: second_lease_def)

text \<open>
  C18: A claim hands out a job nobody holds.  The job it returns was waiting, or its lease had
  expired by the time of the claim; afterwards the claim's token is the only one that is valid
  for the job, and it is valid for no other job.
\<close>

theorem claim_is_exclusive:
  assumes "reachable used db" "tok \<notin> used" "fst (claim db now tok req secs) = Inr (Some l)"
  shows "(phase_of db (jl_job_id l) = Waiting
          \<or> (\<exists>t e. phase_of db (jl_job_id l) = Leased t e \<and> e \<le> now))
         \<and> jl_lease_token l = tok
         \<and> (\<forall>i t. holds (snd (claim db now tok req secs)) i t \<and> (i = jl_job_id l \<or> t = tok)
                \<longleftrightarrow> i = jl_job_id l \<and> t = tok)"
proof -
  let ?db = "snd (claim db now tok req secs)"
  have inv: "queue_inv used db" using assms(1) by (rule reachable_inv)
  have cinv: "queue_inv (insert tok used) ?db" using inv assms(2) by (rule queue_inv_claim)
  have rinv: "queue_inv used (reclaim_expired db now)" using inv by (rule queue_inv_reclaim)
  obtain r e where r: "r \<in> set (db_jobs (reclaim_expired db now))" "r_status r = ''queued''"
      "r_id r = jl_job_id l" "jl_lease_token l = tok"
      "row_of ?db (jl_job_id l) = Some (start_lease now tok e r)"
    using claim_LeasedD [OF inv assms(3)] by metis
  from r(5) have held: "holds ?db (jl_job_id l) tok" by (simp add: holds_iff [OF cinv] start_lease_def)
  have "map_option (\<lambda>r. if expired now r then requeue r else r) (row_of db (jl_job_id l)) = Some r"
    using r(1,3) by (simp add: row_of_reclaim [OF inv, symmetric] row_of_Some [OF rinv])
  then obtain r0 where r0: "row_of db (jl_job_id l) = Some r0"
      "r = (if expired now r0 then requeue r0 else r0)" by auto
  then have ok: "row_ok r0" using inv by (simp add: row_of_Some [OF inv] queue_invD)
  have before: "phase_of db (jl_job_id l) = Waiting
        \<or> (\<exists>t e. phase_of db (jl_job_id l) = Leased t e \<and> e \<le> now)"
  proof (cases "expired now r0")
    case True
    with ok r0(1) show ?thesis
      by (cases "r_lease_expires_at r0"; cases "r_lease_token r0")
        (auto simp: phase_of_def row_phase_def expired_def row_ok_def)
  next
    case False
    with r0 r(2) show ?thesis by (simp add: phase_of_def row_phase_def)
  qed
  have only: "holds ?db i t \<and> (i = jl_job_id l \<or> t = tok) \<longleftrightarrow> i = jl_job_id l \<and> t = tok" for i t
    using held sqlx.holds_one_token [OF cinv held, of t] sqlx.holds_one_job [OF cinv held, of i]
    by blast
  show ?thesis
    by (intro conjI allI before r(4) only)
qed

theorem claim_is_exclusive_witness:
  "phase_of leased_db 1 = Leased ''t1'' 60000000010
   \<and> holds (snd (claim leased_db 100000000000 ''t2'' None 60)) 1 ''t2''
   \<and> \<not> holds (snd (claim leased_db 100000000000 ''t2'' None 60)) 1 ''t1''"
proof -
  have "phase_of leased_db 1 = Leased ''t1'' 60000000010"
    by (simp add: phase_of_def row_of_def leased_db_jobs row_phase_def start_lease_def new_row_def
        queued_job_def sample_job_def)
  moreover have fresh: "''t2'' \<notin> {''t1''}" by simp
  note only = claim_is_exclusive [OF reachable_leased fresh second_claim, THEN conjunct2, THEN conjunct2, rule_format]
  have "jl_job_id second_lease = 1" by (simp add: second_lease_def)
  with only [of 1 "''t2''"] only [of 1 "''t1''"]
  have "holds (snd (claim leased_db 100000000000 ''t2'' None 60)) 1 ''t2''
        \<and> \<not> holds (snd (claim leased_db 100000000000 ''t2'' None 60)) 1 ''t1''" by simp
  ultimately show ?thesis by blast
qed

section \<open>Scheduling\<close>

definition row_score :: "JobDb \<Rightarrow> time \<Rightarrow> JobRow \<Rightarrow> f64" where
  "row_score db now r =
     (case map_of (db_service db) (r_owner r) of
        Some served \<Rightarrow> f64_scale (of_int (num_milliseconds (now - served)) / 1000)
                         (f64_max (r_queue_weight r) (Fin (1 / 100)))
      | None \<Rightarrow> Fin unseen_score)"

lemma job_score_row:
  "j_owner job = r_owner r \<Longrightarrow> j_queue_weight job = r_queue_weight r
   \<Longrightarrow> job_score db now job = row_score db now r"
  unfolding job_score_def row_score_def last_served_def by (simp only:)

text \<open>
  C21: The scheduler serves the waiting job with the greatest weighted time since its client was
  last served (unseen clients count as waiting longest), and among equals the oldest one.
\<close>

theorem claim_serves_best:
  assumes "reachable used db" "fst (claim db now tok None secs) = Inr (Some l)"
  defines "waiting \<equiv> filter (\<lambda>r. r_status r = ''queued'') (db_jobs (reclaim_expired db now))"
  shows "\<exists>r \<in> set waiting. r_id r = jl_job_id l \<and>
           (\<forall>s \<in> set waiting. row_score db now s < row_score db now r
              \<or> (row_score db now s = row_score db now r \<and> r_created_at r \<le> r_created_at s))"
proof -
  let ?db = "reclaim_expired db now"
  have inv: "queue_inv used db" using assms(1) by (rule reachable_inv)
  have rinv: "queue_inv used ?db" using inv by (rule queue_inv_reclaim)
  have score: "row_score ?db now s = row_score db now s" for s by (simp add: row_score_def)
  have decode: "\<exists>j. record_from_row s = Inr j \<and> j_id j = r_id s \<and> j_created_at j = r_created_at s
                  \<and> job_score ?db now j = row_score db now s" if "s \<in> set waiting" for s
    using row_ok_decodes [of s] that queue_invD(4) [OF rinv]
    by (auto simp: waiting_def job_score_row score)
  show ?thesis
  proof (cases rule: claim_cases [of db now tok None secs])
    case (leased job e)
    then have l: "jl_job_id l = j_id job" using assms(2) by auto
    from leased(1) obtain sc where
      scan: "scan_candidates ?db now None (order_by r_created_at waiting) = Inr (Some (sc, job))"
      by (auto simp: select_candidate_def waiting_def map_sum_def split: sum.splits)
    from scan_candidates_sound [OF scan] obtain r where
      r: "r \<in> set waiting" "record_from_row r = Inr job" "sc = job_score ?db now job" by auto
    with decode [OF r(1)] have r': "j_created_at job = r_created_at r" "sc = row_score db now r" by auto
    have "row_score db now s < row_score db now r
          \<or> (row_score db now s = row_score db now r \<and> r_created_at r \<le> r_created_at s)"
      if s: "s \<in> set waiting" for s
    proof -
      from decode [OF s] obtain j where j: "record_from_row s = Inr j" "j_created_at j = r_created_at s"
        "job_score ?db now j = row_score db now s" by auto
      from scan_candidates_max [OF scan, of "row_score db now s" j] s j r' show ?thesis by auto
    qed
    with r l record_from_row_id [OF r(2)] show ?thesis by auto
  qed (use assms(2) in simp_all)
qed

theorem claim_serves_best_witness:
  "\<exists>r \<in> set (filter (\<lambda>r. r_status r = ''queued'') (db_jobs (reclaim_expired one_job_db 10))). r_id r = 1"
  using claim_serves_best [OF reachable_one_job leased_claim] by (auto simp: sample_lease_def)

text \<open>
  A client is overtaken at most once.  While a client that was last served at least a
  millisecond before another one (or never) has a job waiting, the other client's jobs of the
  same weight are not served.
\<close>

theorem no_double_overtaking:
  assumes "reachable used db" "fst (claim db now tok None secs) = Inr (Some l)"
    and a: "ra \<in> set (db_jobs (reclaim_expired db now))" "r_status ra = ''queued''" "r_queue_weight ra = Fin w"
    and b: "rb \<in> set (db_jobs (reclaim_expired db now))" "r_queue_weight rb = Fin w"
    and served: "last_served db (r_owner rb) = Some lb" "lb \<le> now"
      "is_none_or (\<lambda>la. la + nanos_per_milli \<le> lb) (last_served db (r_owner ra))"
    and range: "of_int (num_milliseconds (now - lb)) / 1000 * max w (1 / 100) < unseen_score"
  shows "r_id rb \<noteq> jl_job_id l"
proof
  assume clash: "r_id rb = jl_job_id l"
  let ?w = "max w (1 / 100)"
  have rinv: "queue_inv used (reclaim_expired db now)"
    using assms(1) by (intro queue_inv_reclaim reachable_inv)
  from claim_serves_best [OF assms(1,2)] obtain r where
    r: "r \<in> set (db_jobs (reclaim_expired db now))" "r_id r = jl_job_id l"
    and best: "row_score db now ra < row_score db now r
               \<or> row_score db now ra = row_score db now r"
    using a(1,2) by auto
  from row_unique [OF rinv r(1) b(1)] r(2) clash have "r = rb" by simp
  have fmax: "f64_max (Fin w) (Fin (1 / 100)) = Fin ?w" by (simp add: max_def)
  have sb: "row_score db now rb = Fin (of_int (num_milliseconds (now - lb)) / 1000 * ?w)"
    using served(1) b(2) by (simp add: row_score_def last_served_def fmax del: f64_max.simps)
  have "row_score db now rb < row_score db now ra"
  proof (cases "last_served db (r_owner ra)")
    case None
    then have "row_score db now ra = Fin unseen_score"
      by (simp add: row_score_def last_served_def)
    with range show ?thesis by (simp only: sb less_f64_simps)
  next
    case (Some la)
    have "num_milliseconds (now - lb) + 1 \<le> num_milliseconds (now - la)"
      using served(2,3) Some by (simp add: num_milliseconds_def)
    then have "of_int (num_milliseconds (now - lb)) / 1000 * ?w
               < of_int (num_milliseconds (now - la)) / (1000 :: rat) * ?w"
      by (intro mult_strict_right_mono) auto
    moreover have "row_score db now ra = Fin (of_int (num_milliseconds (now - la)) / 1000 * ?w)"
      using Some a(3) by (simp add: row_score_def last_served_def fmax del: f64_max.simps)
    ultimately show ?thesis by (simp only: sb less_f64_simps)
  qed
  with best \<open>r = rb\<close> show False by auto
qed

text \<open>Two clients that were each served once and have a job waiting again.\<close>

definition two_clients_events :: "queue_event list" where
  "two_clients_events =
     [EvEnqueue (sample_job 1 ''a'' ''k1'' 0), EvClaim 1000000000 ''t1'' None 60,
      EvEnqueue (sample_job 2 ''b'' ''k2'' 0), EvClaim 2000000000 ''t2'' None 60,
      EvEnqueue (sample_job 3 ''b'' ''k3'' 0), EvEnqueue (sample_job 4 ''a'' ''k4'' 5)]"

definition two_clients_db :: JobDb where
  "two_clients_db = run_all run_event two_clients_events empty_db"

lemma reachable_run:
  "fresh_run event_tokens used evs \<Longrightarrow> reachable used db
   \<Longrightarrow> reachable (run_tokens event_tokens used evs) (run_all run_event evs db)"
  by (induction evs arbitrary: used db) (auto intro: reachable.step)

lemma reachable_two_clients: "reachable {''t1'', ''t2''} two_clients_db"
proof -
  have "fresh_run event_tokens {} two_clients_events" by (simp add: two_clients_events_def)
  from reachable_run [OF this reachable.start] show ?thesis
    by (simp add: two_clients_db_def two_clients_events_def)
qed

lemma astrometry_ids [simp]:
  "astrometry_id_for_job 1 = 1" "astrometry_id_for_job 2 = 2" "astrometry_id_for_job 3 = 3"
  "astrometry_id_for_job 4 = 4"
  by (simp_all add: astrometry_id_for_job_def)

lemma two_clients_db_eq: "two_clients_db = \<lparr>
   db_jobs = [start_lease 1000000000 ''t1'' 61000000000 (new_row (queued_job (sample_job 1 ''a'' ''k1'' 0))),
              start_lease 2000000000 ''t2'' 62000000000 (new_row (queued_job (sample_job 2 ''b'' ''k2'' 0))),
              new_row (queued_job (sample_job 3 ''b'' ''k3'' 0)),
              new_row (queued_job (sample_job 4 ''a'' ''k4'' 5))],
   db_donations = [], db_service = [(''a'', 1000000000), (''b'', 2000000000)],
   db_outbox = [(1, None), (2, None), (3, None), (4, None)]\<rparr>"
  by (simp add: two_clients_db_def two_clients_events_def empty_db_def enqueue_def queue_eval start_lease_def)

definition third_lease :: JobLease where
  "third_lease = \<lparr>jl_job_id = 4, jl_lease_token = ''t3'', jl_lease_expires_at = 63000000000,
     jl_original_filename = ''m31.fits'', jl_options = default_options\<rparr>"

lemma third_claim: "fst (claim two_clients_db 3000000000 ''t3'' None 60) = Inr (Some third_lease)"
  by (simp add: two_clients_db_eq queue_eval start_lease_def third_lease_def job_score_def
      last_served_def num_milliseconds_def)

lemma two_clients_reclaim: "reclaim_expired two_clients_db 3000000000 = two_clients_db"
  by (simp add: two_clients_db_eq queue_eval start_lease_def)

theorem no_double_overtaking_witness:
  "r_id (new_row (queued_job (sample_job 3 ''b'' ''k3'' 0))) \<noteq> jl_job_id third_lease"
proof (rule no_double_overtaking [OF reachable_two_clients third_claim,
        where ra = "new_row (queued_job (sample_job 4 ''a'' ''k4'' 5))" and w = 1 and lb = 2000000000])
  show "rat_of_int (num_milliseconds (3000000000 - 2000000000)) / 1000 * max 1 (1 / 100) < unseen_score"
    by (simp add: num_milliseconds_def unseen_score_def max_def)
qed (simp_all add: two_clients_reclaim, simp_all add: two_clients_db_eq queue_eval last_served_def)

section \<open>Recovery, idempotent submission, notifications, donations\<close>

text \<open>
  Work is never stuck.  A job that waits or whose lease has run out (its worker crashed) can
  be claimed at once: a claim for that job returns its lease, and a claim for any job returns one.
\<close>

theorem expired_or_waiting_job_is_claimable:
  assumes "reachable used db" "r \<in> set (db_jobs db)" "r_status r = ''queued'' \<or> expired now r"
    and "lease_expiry now secs = Some e"
  shows "(\<exists>l. fst (claim db now tok (Some (r_id r)) secs) = Inr (Some l) \<and> jl_job_id l = r_id r
              \<and> jl_lease_expires_at l = e)
         \<and> (\<exists>l. fst (claim db now tok None secs) = Inr (Some l))"
proof -
  let ?db = "reclaim_expired db now"
  have inv: "queue_inv used db" using assms(1) by (rule reachable_inv)
  have rinv: "queue_inv used ?db" using inv by (rule queue_inv_reclaim)
  let ?r = "if expired now r then requeue r else r"
  have "row_of db (r_id r) = Some r" using assms(2) by (simp add: row_of_Some [OF inv])
  then have row: "row_of ?db (r_id r) = Some ?r" by (simp add: row_of_reclaim [OF inv])
  then have r: "?r \<in> set (db_jobs ?db)" "r_id ?r = r_id r" by (simp_all add: row_of_Some [OF rinv])
  have queued: "r_status ?r = ''queued''" using assms(3) by auto
  have one: "rows_where (\<lambda>s. r_id s = r_id q \<and> r_status s = ''queued'') (db_jobs ?db) = 1"
    if "q \<in> set (db_jobs ?db)" "r_status q = ''queued''" for q
    using that by (subst rows_where_key [OF queue_invD(1) [OF rinv]]) auto
  have grant: "\<exists>l. fst (claim db now tok req secs) = Inr (Some l) \<and> jl_job_id l = j_id job
                   \<and> jl_lease_expires_at l = e"
    if "select_candidate ?db req now = Inr (Some job)" for req job
  proof -
    from select_candidate_sound [OF that] obtain q where
      "q \<in> set (db_jobs ?db)" "r_status q = ''queued''" "record_from_row q = Inr job" by blast
    with one [of q] record_from_row_id [of q job] that assms(4) show ?thesis
      by (simp add: claim_def Let_def)
  qed
  have sel: "select_one (\<lambda>s. r_id s = r_id r \<and> r_status s = ''queued'') (db_jobs ?db) = Some ?r"
  proof (cases "select_one (\<lambda>s. r_id s = r_id r \<and> r_status s = ''queued'') (db_jobs ?db)")
    case None
    with r queued show ?thesis by (auto simp: select_one_None)
  next
    case (Some q)
    with select_one_SomeD [OF this] row_unique [OF rinv, of q ?r] r show ?thesis by simp
  qed
  from row_ok_decodes [OF queue_invD(4) [OF rinv r(1)]] obtain job where
    job: "record_from_row ?r = Inr job" "j_id job = r_id r" using r(2) by auto
  have this_job: "select_candidate ?db (Some (r_id r)) now = Inr (Some job)"
    by (simp add: select_candidate_def sel job map_sum_def)
  let ?queued = "order_by r_created_at (filter (\<lambda>r. r_status r = ''queued'') (db_jobs ?db))"
  have "?queued \<noteq> []"
  proof -
    have "?r \<in> set ?queued" using r queued by simp
    then show ?thesis by force
  qed
  with scan_candidates_total [of ?queued ?db now None] queue_invD(4) [OF rinv] obtain res where
    "scan_candidates ?db now None ?queued = Inr (Some res)" by auto
  then have any_job: "select_candidate ?db None now = Inr (Some (snd res))"
    by (simp add: select_candidate_def map_sum_def)
  from grant [OF this_job] grant [OF any_job] job(2) show ?thesis by auto
qed

theorem expired_or_waiting_job_is_claimable_witness:
  "\<exists>l. fst (claim leased_db 100000000000 ''t9'' (Some 1) 60) = Inr (Some l)
       \<and> jl_lease_expires_at l = 160000000000"
  using expired_or_waiting_job_is_claimable [OF reachable_leased,
      of "start_lease 10 ''t1'' 60000000010 (new_row (queued_job (sample_job 1 ''a'' ''k1'' 0)))"
         100000000000 60 160000000000 "''t9''"]
  by (auto simp: leased_db_jobs expired_def queue_eval start_lease_def)

lemma object_key_kept:
  assumes inv: "queue_inv used db" and row: "row_of db i = Some r"
  shows "\<exists>r'. row_of (run_event ev db) i = Some r' \<and> r_object_key r' = r_object_key r"
proof -
  have reclaim: "\<exists>r'. row_of (reclaim_expired db now) i = Some r' \<and> r_object_key r' = r_object_key r" for now
    using row by (simp add: row_of_reclaim [OF inv])
  show ?thesis
  proof (cases ev)
    case (EvEnqueue job)
    with row row_of_enqueue [of db job i] show ?thesis by auto
  next
    case (EvClaim now tok req secs)
    with row reclaim [of now] row_of_claim [OF inv, of now tok req secs i] show ?thesis
      by (auto simp: start_lease_def)
  next
    case (EvPending now limit)
    with reclaim show ?thesis by (simp add: pending_notifications_def Let_def)
  qed (use row in \<open>simp_all add: row_of_heartbeat row_of_complete finish_row_def split: option.split\<close>)
qed

lemma object_key_kept_run:
  assumes "queue_inv used db" "row_of db i = Some r" "fresh_run event_tokens used evs"
  shows "\<exists>r'. row_of (run_all run_event evs db) i = Some r' \<and> r_object_key r' = r_object_key r"
  using assms
proof (induction evs arbitrary: used db r)
  case Nil
  then show ?case by simp
next
  case (Cons ev evs)
  then have fresh: "event_tokens ev \<inter> used = {}" "fresh_run event_tokens (event_tokens ev \<union> used) evs"
    by auto
  from object_key_kept [OF Cons.prems(1,2), of ev] obtain r' where
    r': "row_of (run_event ev db) i = Some r'" "r_object_key r' = r_object_key r" by blast
  from Cons.IH [OF queue_inv_run_event [OF Cons.prems(1) fresh(1)] r'(1) fresh(2)] r'(2)
  show ?case by simp
qed

lemma find_by_object_key_row:
  assumes inv: "queue_inv used db" and r: "r \<in> set (db_jobs db)"
  shows "\<exists>job. find_by_object_key db (r_object_key r) = Inr (Some job) \<and> j_id job = r_id r"
proof -
  have "select_one (\<lambda>s. r_object_key s = r_object_key r) (db_jobs db) = Some r"
    using queue_invD(3) [OF inv] r by (intro select_one_key) auto
  with row_ok_decodes [OF queue_invD(4) [OF inv r]] show ?thesis
    by (auto simp: find_by_object_key_def fetch_job_def)
qed

lemma enqueue_existing:
  assumes inv: "queue_inv used db" and r: "r \<in> set (db_jobs db)" "r_object_key r = j_object_key job"
  shows "\<exists>j. enqueue db job = (Inr j, db) \<and> j_id j = r_id r"
proof -
  from find_by_object_key_row [OF inv r(1)] obtain j where
    "find_by_object_key db (j_object_key job) = Inr (Some j)" "j_id j = r_id r" using r(2) by auto
  moreover have "list_ex (\<lambda>r. r_object_key r = j_object_key job) (db_jobs db)"
    using r by (auto simp: list_ex_iff)
  ultimately show ?thesis
    using uint_astrometry_id [of "j_id job"] by (simp add: enqueue_def Let_def)
qed

text \<open>
  C22: Submitting an uploaded object again never queues it twice.  Whatever happened since the
  first submission, a repeated one returns the same job and leaves the database unchanged.
\<close>

theorem enqueue_is_idempotent:
  assumes "reachable used db" "fst (enqueue db job) = Inr accepted"
    and "fresh_run event_tokens used evs" "j_object_key again = j_object_key job"
  shows "\<exists>j. enqueue (run_all run_event evs (snd (enqueue db job))) again
              = (Inr j, run_all run_event evs (snd (enqueue db job)))
             \<and> j_id j = j_id accepted"
proof -
  have inv: "queue_inv used db" using assms(1) by (rule reachable_inv)
  let ?db = "snd (enqueue db job)"
  have inv1: "queue_inv used ?db" using inv by (rule queue_inv_enqueue)
  have "\<exists>r \<in> set (db_jobs ?db). r_id r = j_id accepted \<and> r_object_key r = j_object_key job"
  proof (cases "\<exists>r \<in> set (db_jobs db). r_object_key r = j_object_key job")
    case True
    then obtain r where "r \<in> set (db_jobs db)" "r_object_key r = j_object_key job" by blast
    with enqueue_existing [OF inv this] assms(2) show ?thesis by auto
  next
    case False
    show ?thesis
    proof (cases rule: enqueue_cases [of db job])
      case same
      with False assms(2) show ?thesis by auto
    next
      case added
      with assms(2) show ?thesis by (auto simp: queued_job_def new_row_def)
    qed
  qed
  then obtain r where "row_of ?db (j_id accepted) = Some r" "r_object_key r = j_object_key job"
    by (auto simp: row_of_Some [OF inv1])
  with object_key_kept_run [OF inv1 this(1) assms(3)] obtain r' where
    r': "row_of (run_all run_event evs ?db) (j_id accepted) = Some r'" "r_object_key r' = j_object_key again"
    using assms(4) by auto
  have inv2: "queue_inv (run_tokens event_tokens used evs) (run_all run_event evs ?db)"
    by (rule sqlx.inv_run [OF inv1 assms(3)])
  from r' have "r' \<in> set (db_jobs (run_all run_event evs ?db))" "r_id r' = j_id accepted"
    by (simp_all add: row_of_Some [OF inv2])
  with enqueue_existing [OF inv2 this(1) r'(2)] show ?thesis by simp
qed

lemma first_enqueue: "fst (enqueue empty_db (sample_job 1 ''a'' ''k1'' 0))
   = Inr (queued_job (sample_job 1 ''a'' ''k1'' 0))"
  by (simp add: empty_db_def enqueue_def Let_def queued_job_def sample_job_def)

theorem enqueue_is_idempotent_witness:
  "\<exists>j. enqueue leased_db (sample_job 7 ''b'' ''k1'' 70) = (Inr j, leased_db) \<and> j_id j = 1"
  using enqueue_is_idempotent [OF reachable.start first_enqueue, of "[EvClaim 10 ''t1'' None 60]"
      "sample_job 7 ''b'' ''k1'' 70"]
  by (simp add: leased_db_def one_job_db_def queued_job_def sample_job_def)

definition pending :: "JobDb \<Rightarrow> JobId \<Rightarrow> bool" where
  "pending db i = (map_of (db_outbox db) i = Some None)"

lemma pending_reclaim: "pending db i \<Longrightarrow> pending (reclaim_expired db now) i"
  by (simp add: pending_def reclaim_outbox)

lemma claim_outbox:
  "db_outbox (snd (claim db now tok req secs)) = db_outbox db
   \<or> db_outbox (snd (claim db now tok req secs)) = db_outbox (reclaim_expired db now)"
  by (cases rule: claim_cases [of db now tok req secs]) auto

lemma pending_kept:
  assumes "pending db i" "\<forall>now. ev \<noteq> EvDelivered now i"
  shows "pending (run_event ev db) i"
proof (cases ev)
  case (EvEnqueue job)
  with assms(1) show ?thesis
    by (cases rule: enqueue_cases [of db job]) (simp_all add: pending_def map_add_Some_iff)
next
  case (EvClaim now tok req secs)
  with assms(1) claim_outbox [of db now tok req secs] pending_reclaim [OF assms(1), of now]
  show ?thesis by (auto simp: pending_def)
next
  case (EvDelivered now j)
  with assms have "j \<noteq> i" by auto
  then have "map_of (update_where (\<lambda>(i, _). i = j) (\<lambda>(i, _). (i, Some now)) ob) i = map_of ob i"
    for ob :: "(JobId \<times> time option) list"
    by (induction ob) auto
  with EvDelivered assms(1) show ?thesis by (simp add: pending_def mark_notification_delivered_def)
qed (use assms(1) in \<open>auto simp: pending_def heartbeat_def complete_def donate_validation_def
      pending_notifications_def Let_def reclaim_outbox split: option.split\<close>)

lemma pending_requeued_by_reclaim:
  assumes inv: "queue_inv used db"
    and phases: "phase_of db i \<noteq> Waiting" "phase_of (reclaim_expired db now) i = Waiting"
  shows "pending (reclaim_expired db now) i"
proof (cases "row_of db i")
  case None
  with phases show ?thesis by (simp add: phase_of_def row_of_reclaim [OF inv])
next
  case (Some r)
  with phases have "expired now r"
    by (auto simp: phase_of_def row_of_reclaim [OF inv] split: if_splits)
  moreover have "r \<in> set (db_jobs db)" "r_id r = i" using Some by (simp_all add: row_of_Some [OF inv])
  ultimately have "i \<in> set (expired_ids db now)"
    using expired_ids_iff [OF queue_invD(1) [OF inv], of r] by simp
  then show ?thesis by (simp add: pending_def reclaim_outbox)
qed

lemma outbox_key_missing:
  assumes inv: "queue_inv used db" and "j \<notin> r_id ` set (db_jobs db)"
  shows "map_of (db_outbox db) j = None"
proof -
  have "fst ` set (db_outbox db) = r_id ` set (db_jobs db)"
    using queue_invD(5) [OF inv] by (metis set_map)
  with assms(2) show ?thesis by (simp add: map_of_eq_None_iff)
qed

lemma pending_when_requeued:
  assumes inv: "queue_inv used db"
    and phases: "phase_of db i \<noteq> Waiting" "phase_of (run_event ev db) i = Waiting"
  shows "pending (run_event ev db) i"
proof (cases ev)
  case (EvEnqueue job)
  show ?thesis
  proof (cases rule: enqueue_cases [of db job])
    case same
    with EvEnqueue phases show ?thesis by simp
  next
    case added
    have "row_of (run_event ev db) i \<noteq> row_of db i" using phases by (auto simp: phase_of_def)
    with row_of_enqueue [of db job i] EvEnqueue have "i = j_id job" by auto
    with outbox_key_missing [OF inv added(2)] EvEnqueue added(4) show ?thesis
      by (simp add: pending_def map_add_def)
  qed
next
  case (EvClaim now tok req secs)
  show ?thesis
  proof (cases rule: claim_cases [of db now tok req secs])
    case unchanged
    with EvClaim phases show ?thesis by simp
  next
    case idle
    with EvClaim phases pending_requeued_by_reclaim [OF inv, of i now] show ?thesis by simp
  next
    case (leased job e)
    have "pending (reclaim_expired db now) i"
    proof (rule pending_requeued_by_reclaim [OF inv phases(1)])
      show "phase_of (reclaim_expired db now) i = Waiting"
        using phases EvClaim row_of_claim [OF inv, of now tok req secs i]
        by (auto simp: phase_of_def row_phase_def start_lease_def)
    qed
    with EvClaim leased(3) show ?thesis by (simp add: pending_def)
  qed
next
  case (EvHeartbeat now j tok secs)
  have "phase_of (run_event ev db) i \<noteq> Waiting"
  proof (cases "row_of db i")
    case (Some r)
    have "row_phase (r\<lparr>r_lease_expires_at := Some e'\<rparr>) \<noteq> Waiting" if "holds_lease j tok now r" for e'
      using that by (simp add: holds_lease_def row_phase_def)
    with Some phases(1) show ?thesis
      by (auto simp: EvHeartbeat phase_of_def row_of_heartbeat split: option.split)
  qed (use phases(1) in \<open>simp add: EvHeartbeat phase_of_def row_of_heartbeat split: option.split\<close>)
  with phases(2) show ?thesis by simp
next
  case (EvComplete now j tok sol err)
  have "phase_of (run_event ev db) i \<noteq> Waiting"
  proof (cases "row_of db i")
    case (Some r)
    then show ?thesis
      using phases(1) row_phase_finish [of sol err now r]
      by (auto simp: EvComplete phase_of_def row_of_complete simp del: not_None_eq)
  qed (use phases(1) in \<open>simp add: EvComplete phase_of_def row_of_complete\<close>)
  with phases(2) show ?thesis by simp
next
  case (EvPending now limit)
  with pending_requeued_by_reclaim [OF inv, of i now] phases show ?thesis
    by (simp add: pending_notifications_def Let_def)
qed (use phases in \<open>simp_all add: phase_of_def\<close>)

lemma length_reclaim: "queue_inv used db \<Longrightarrow> length (db_jobs (reclaim_expired db now)) = length (db_jobs db)"
  by (simp add: reclaim_jobs queue_invD)

lemma pending_listed:
  assumes inv: "queue_inv used db" and p: "pending db i" "length (db_jobs db) \<le> limit"
  shows "i \<in> set (fst (pending_notifications db now limit))"
proof -
  let ?db = "reclaim_expired db now"
  have rinv: "queue_inv used ?db" using inv by (rule queue_inv_reclaim)
  have pend: "map_of (db_outbox ?db) i = Some None" using p(1) pending_reclaim pending_def by blast
  then have "i \<in> r_id ` set (db_jobs ?db)" using outbox_key_missing [OF rinv, of i] by auto
  then obtain r where r: "r \<in> set (db_jobs ?db)" "r_id r = i" by blast
  let ?list = "map r_id (filter (\<lambda>r. map_of (db_outbox ?db) (r_id r) = Some None) (order_by r_created_at (db_jobs ?db)))"
  have "length ?list \<le> length (db_jobs db)"
    unfolding length_map length_reclaim [OF inv, of now, symmetric]
    by (rule order_trans [OF length_filter_le]) simp
  then have "take limit ?list = ?list" using p(2) by simp
  moreover have "i \<in> set ?list" using r pend by force
  ultimately show ?thesis
    by (simp only: pending_notifications_def Let_def fst_conv)
qed

text \<open>
  C23: The outbox loses no wake-up.  Whenever a call makes a job wait (its submission, or the
  expiry of its lease) its notification becomes pending; a pending notification stays pending
  under every call but its own delivery; and a listing with room for all of them contains it.
\<close>

theorem notification_is_not_lost:
  assumes "reachable used db"
  shows "(phase_of db i \<noteq> Waiting \<and> phase_of (run_event ev db) i = Waiting \<longrightarrow> pending (run_event ev db) i)
         \<and> (pending db i \<and> (\<forall>now. ev \<noteq> EvDelivered now i) \<longrightarrow> pending (run_event ev db) i)
         \<and> (pending db i \<and> length (db_jobs db) \<le> limit \<longrightarrow> i \<in> set (fst (pending_notifications db now limit)))"
proof (intro conjI impI)
  have inv: "queue_inv used db" using assms by (rule reachable_inv)
  show "phase_of db i \<noteq> Waiting \<and> phase_of (run_event ev db) i = Waiting \<Longrightarrow> pending (run_event ev db) i"
    using pending_when_requeued [OF inv] by blast
  show "pending db i \<and> (\<forall>now. ev \<noteq> EvDelivered now i) \<Longrightarrow> pending (run_event ev db) i"
    using pending_kept by blast
  show "pending db i \<and> length (db_jobs db) \<le> limit \<Longrightarrow> i \<in> set (fst (pending_notifications db now limit))"
    using pending_listed [OF inv] by blast
qed

theorem notification_is_not_lost_witness:
  "pending one_job_db 1 \<and> 1 \<in> set (fst (pending_notifications one_job_db 5 10))"
proof -
  have "pending one_job_db 1" by (simp add: pending_def one_job_db_eq)
  then show ?thesis
    using notification_is_not_lost [OF reachable_one_job, of 1 "EvPending 5 10" 10 5]
    by (simp add: one_job_db_eq)
qed

text \<open>
  C20: A worker that holds the lease settles the job.  Its completion with a solution or an error
  is accepted; the job then reads back as succeeded with that solution, or as failed, completed at
  that time with that error; the token is spent, and a second completion is refused.
\<close>

theorem lease_holder_completes:
  assumes "reachable used db" "r \<in> set (db_jobs db)" "holds_lease i tok now r"
    and "sol \<noteq> None \<or> err \<noteq> None"
  shows "fst (complete db now i tok sol err) = Inr True
         \<and> (\<exists>job. get_job (snd (complete db now i tok sol err)) i = Inr (Some job)
               \<and> j_status job = (if sol \<noteq> None then Succeeded else Failed)
               \<and> j_solution job = sol \<and> j_error job = err \<and> j_completed_at job = Some now
               \<and> j_started_at job = r_started_at r \<and> j_object_key job = r_object_key r)
         \<and> fst (complete (snd (complete db now i tok sol err)) later i tok sol err) = Inr False"
proof -
  have inv: "queue_inv used db" using assms(1) by (rule reachable_inv)
  let ?db = "snd (complete db now i tok sol err)"
  have inv1: "queue_inv used ?db" using inv by (rule queue_inv_complete)
  have id: "r_id r = i" using assms(3) by (simp add: holds_lease_def)
  have row: "row_of db i = Some r" using assms(2) id by (simp add: row_of_Some [OF inv])
  have some: "\<not> (sol = None \<and> err = None)" using assms(4) by blast
  have row1: "row_of ?db i = Some (finish_row now sol err r)"
    using row assms(3) some by (simp add: row_of_complete del: de_Morgan_conj)
  have "rows_where (holds_lease i tok now) (db_jobs db) = 1"
    unfolding holds_lease_def using assms(2,3) id
    by (subst rows_where_key [OF queue_invD(1) [OF inv]]) (auto simp: holds_lease_def)
  then have accepted: "fst (complete db now i tok sol err) = Inr True"
    using some by (auto simp: complete_def)
  have "0 \<le> r_astrometry_id r" using queue_invD(4) [OF inv assms(2)] by (simp add: row_ok_def)
  then have got: "\<exists>job. get_job ?db i = Inr (Some job)
               \<and> j_status job = (if sol \<noteq> None then Succeeded else Failed)
               \<and> j_solution job = sol \<and> j_error job = err \<and> j_completed_at job = Some now
               \<and> j_started_at job = r_started_at r \<and> j_object_key job = r_object_key r"
    using row1 unfolding row_of_def
    by (cases sol) (auto simp: get_job_def fetch_job_def record_from_row_def finish_row_def status_parse_def)
  have "\<not> holds ?db i tok"
    using row1 by (simp add: holds_iff [OF inv1] finish_row_def)
  from no_lease_no_effect(1,2) [OF inv1 this] some
  have "fst (complete ?db later i tok sol err) = Inr False" by (cases sol; cases err) auto
  with accepted got show ?thesis by blast
qed

lemma leased_row_held: "holds_lease 1 ''t1'' 20
   (start_lease 10 ''t1'' 60000000010 (new_row (queued_job (sample_job 1 ''a'' ''k1'' 0))))"
  by (simp add: holds_lease_def start_lease_def new_row_def queued_job_def sample_job_def)

theorem lease_holder_completes_witness:
  "fst (complete leased_db 20 1 ''t1'' None (Some ''no match'')) = Inr True
   \<and> fst (complete failed_db 30 1 ''t1'' None (Some ''no match'')) = Inr False"
  using lease_holder_completes [OF reachable_leased _ leased_row_held, of None "Some ''no match''" 30]
  by (simp add: leased_db_jobs failed_db_def)

lemma donation_status:
  "is_some_and (\<lambda>st. st = ''succeeded'' \<or> st = ''failed'')
     (map_option r_status (select_one (\<lambda>r. r_id r = i) (db_jobs db))) \<longleftrightarrow> outcome db i \<noteq> None"
  by (auto simp: outcome_def row_of_def terminal_def split: option.splits)

lemma get_job_row:
  assumes inv: "queue_inv used db" and row: "row_of db i = Some r"
  shows "\<exists>job. get_job db i = Inr (Some job) \<and> j_object_key job = r_object_key r
               \<and> j_validation_donation job = validation_donation db i"
proof -
  have r: "r \<in> set (db_jobs db)" "r_id r = i" using row by (simp_all add: row_of_Some [OF inv])
  from row_ok_decodes [OF queue_invD(4) [OF inv r(1)]] obtain job where
    "record_from_row r = Inr job" "j_id job = r_id r" by blast
  moreover from this(1) have "j_object_key job = r_object_key r"
    by (auto simp: record_from_row_def split: if_splits sum.splits)
  ultimately show ?thesis using row r(2) by (simp add: get_job_def fetch_job_def row_of_def)
qed

lemma validation_donation_after:
  assumes "fst (donate_validation db i d) = Inr True"
  shows "\<exists>vd. validation_donation (snd (donate_validation db i d)) i = Some vd
              \<and> vd_object_key vd = vd_object_key d
              \<and> (case validation_donation db i of
                   Some first \<Rightarrow> vd_license_version vd = vd_license_version first
                               \<and> vd_donated_at vd = vd_donated_at first
                 | None \<Rightarrow> vd = d)"
proof (cases "select_one (\<lambda>e. d_job_id e = i) (db_donations db)")
  case None
  then have "\<not> list_ex (\<lambda>e. d_job_id e = i) (db_donations db)"
    by (auto simp: select_one_None list_ex_iff)
  with assms None show ?thesis
    by (auto simp: donate_validation_def Let_def validation_donation_def split: if_splits)
next
  case (Some e)
  then have "list_ex (\<lambda>e. d_job_id e = i) (db_donations db)" "d_job_id e = i"
    using select_one_SomeD [OF Some] by (auto simp: list_ex_iff)
  with assms Some show ?thesis
    by (auto simp: donate_validation_def Let_def validation_donation_def select_one_update_where
        split: if_splits)
qed

text \<open>
  Donating an image never changes the job it documents, is refused unless the job is
  finished, and when accepted makes the durable copy the input of the job while the licence and
  the date of the first donation stand.
\<close>

theorem donation_redirects_input:
  assumes "reachable used db" "fst (donate_validation db i d) = Inr accepted"
  shows "db_jobs (snd (donate_validation db i d)) = db_jobs db
         \<and> (accepted \<longleftrightarrow> outcome db i \<noteq> None)
         \<and> (\<not> accepted \<longrightarrow> snd (donate_validation db i d) = db)
         \<and> (accepted \<longrightarrow>
              (\<exists>job vd. get_job (snd (donate_validation db i d)) i = Inr (Some job)
                 \<and> input_object_key job = vd_object_key d \<and> j_validation_donation job = Some vd
                 \<and> (case validation_donation db i of
                      Some first \<Rightarrow> vd_license_version vd = vd_license_version first
                                  \<and> vd_donated_at vd = vd_donated_at first
                    | None \<Rightarrow> vd = d)))"
proof (intro conjI impI)
  have inv: "queue_inv used db" using assms(1) by (rule reachable_inv)
  let ?db = "snd (donate_validation db i d)"
  have inv1: "queue_inv used ?db" using inv by (rule queue_inv_donate)
  show "db_jobs ?db = db_jobs db" by (simp add: donate_validation_def Let_def)
  show acc: "accepted \<longleftrightarrow> outcome db i \<noteq> None"
    using assms(2) donation_status [of i db]
    by (auto simp: donate_validation_def Let_def split: if_splits)
  show "?db = db" if "\<not> accepted"
    using that assms(2) by (auto simp: donate_validation_def Let_def split: if_splits)
  assume accepted
  with acc obtain r where "row_of db i = Some r" by (auto simp: outcome_def split: option.splits)
  then have "row_of ?db i = Some r" by simp
  from get_job_row [OF inv1 this] validation_donation_after [of db i d] assms(2) \<open>accepted\<close>
  show "\<exists>job vd. get_job ?db i = Inr (Some job)
                 \<and> input_object_key job = vd_object_key d \<and> j_validation_donation job = Some vd
                 \<and> (case validation_donation db i of
                      Some first \<Rightarrow> vd_license_version vd = vd_license_version first
                                  \<and> vd_donated_at vd = vd_donated_at first
                    | None \<Rightarrow> vd = d)"
    by (auto simp: input_object_key_def)
qed

definition sample_donation :: ValidationDonation where
  "sample_donation = \<lparr>vd_object_key = ''donations/1'', vd_comment = None,
     vd_solve_is_invalid = True, vd_license_version = ''v1'', vd_donated_at = 50\<rparr>"

lemma donation_accepted: "fst (donate_validation failed_db 1 sample_donation) = Inr True"
proof -
  have "db_donations failed_db = []"
    by (simp add: failed_db_def leased_db_def one_job_db_def empty_db_def complete_def claim_def
        enqueue_def Let_def queue_eval split: sum.split option.split)
  then show ?thesis
    using terminal_failed_row
    by (simp add: donate_validation_def failed_db_jobs terminal_def)
qed

theorem donation_redirects_input_witness:
  "\<exists>job. get_job (snd (donate_validation failed_db 1 sample_donation)) 1 = Inr (Some job)
         \<and> input_object_key job = ''donations/1''"
  using donation_redirects_input [OF reachable_failed donation_accepted]
  by (auto simp: sample_donation_def)

end
