(* ===== verification/Token_Bucket.thy ===== *)
theory Token_Bucket
  imports Rate_Limit
begin

text \<open>
  The token bucket of \<open>RateLimiter\<close>: its credit per client as the abstract state, the contract of
  an admission control as the locale \<open>admission\<close>, and the limiter as its instance.  The contract
  gives the bound on admitted requests over any stretch of time.
\<close>

section \<open>Admission control\<close>

fun after_checks :: "('s \<Rightarrow> 'k \<Rightarrow> time \<Rightarrow> ('e + unit) \<times> 's) \<Rightarrow> 's \<Rightarrow> ('k \<times> time) list \<Rightarrow> 's" where
  "after_checks chk s [] = s"
| "after_checks chk s ((k, t) # evs) = after_checks chk (snd (chk s k t)) evs"

fun granted :: "('s \<Rightarrow> 'k \<Rightarrow> time \<Rightarrow> ('e + unit) \<times> 's) \<Rightarrow> 's \<Rightarrow> ('k \<times> time) list \<Rightarrow> 'k \<Rightarrow> nat" where
  "granted chk s [] k = 0"
| "granted chk s ((k', t) # evs) k =
     (if k' = k \<and> fst (chk s k' t) = Inr () then 1 else 0) + granted chk (snd (chk s k' t)) evs k"

text \<open>
  What a client is promised: its credit never exceeds the burst, grows at most at the given rate,
  pays one unit for each granted request, and does not depend on other clients.
\<close>

locale admission =
  fixes inv :: "'s \<Rightarrow> time \<Rightarrow> bool"
    and chk :: "'s \<Rightarrow> 'k \<Rightarrow> time \<Rightarrow> ('e + unit) \<times> 's"
    and credit :: "'s \<Rightarrow> 'k \<Rightarrow> time \<Rightarrow> rat"
    and burst :: rat
    and rate :: rat
  assumes inv_check: "inv s t \<Longrightarrow> t \<le> now \<Longrightarrow> inv (snd (chk s k now)) now"
    and credit_range: "inv s t \<Longrightarrow> t \<le> now \<Longrightarrow> 0 \<le> credit s k now \<and> credit s k now \<le> burst"
    and credit_growth: "inv s t \<Longrightarrow> t \<le> now \<Longrightarrow> now \<le> later \<Longrightarrow>
      credit s k later \<le> credit s k now + rate * as_secs (later - now)"
    and rate_nonneg: "inv s t \<Longrightarrow> 0 \<le> rate"
    and credit_spent: "inv s t \<Longrightarrow> t \<le> now \<Longrightarrow>
      credit (snd (chk s k now)) k now = credit s k now - (if fst (chk s k now) = Inr () then 1 else 0)"
    and credit_other: "inv s t \<Longrightarrow> t \<le> now \<Longrightarrow> now \<le> later \<Longrightarrow> k' \<noteq> k \<Longrightarrow>
      credit (snd (chk s k now)) k' later = credit s k' later"
begin

lemma inv_after:
  "inv s t \<Longrightarrow> sorted (t # map snd evs) \<Longrightarrow> inv (after_checks chk s evs) (last (t # map snd evs))"
proof (induction evs arbitrary: s t)
  case Nil
  then show ?case by simp
next
  case (Cons ev evs)
  obtain k u where ev: "ev = (k, u)" by (cases ev)
  with Cons.prems have "inv (snd (chk s k u)) u" by (auto intro: inv_check)
  with Cons.IH [OF this] Cons.prems ev show ?case by simp
qed

theorem granted_bound:
  assumes "inv s t" "sorted (t # map snd evs)" "\<forall>u \<in> set (map snd evs). u \<le> until" "t \<le> until"
  shows "of_nat (granted chk s evs k) \<le> credit s k t + rate * as_secs (until - t)"
  using assms
proof (induction evs arbitrary: s t)
  case Nil
  have "0 \<le> rate * as_secs (until - t)"
    using rate_nonneg [OF Nil.prems(1)] Nil.prems(4) by (simp add: as_secs_def)
  with credit_range [OF Nil.prems(1), of t k] show ?case by simp
next
  case (Cons ev evs)
  obtain k' u where ev: "ev = (k', u)" by (cases ev)
  let ?s = "snd (chk s k' u)" and ?g = "if k' = k \<and> fst (chk s k' u) = Inr () then 1 else 0 :: rat"
  from Cons.prems ev have times: "t \<le> u" "u \<le> until" "sorted (u # map snd evs)" by auto
  have "inv ?s u" using Cons.prems(1) times(1) by (rule inv_check)
  with Cons.IH times Cons.prems(3) ev
  have "of_nat (granted chk ?s evs k) \<le> credit ?s k u + rate * as_secs (until - u)" by simp
  moreover have "credit ?s k u = credit s k u - ?g"
    using credit_spent [OF Cons.prems(1) times(1), of k']
      credit_other [OF Cons.prems(1) times(1), of u k k'] by (cases "k' = k") auto
  moreover have "credit s k u \<le> credit s k t + rate * as_secs (u - t)"
    using Cons.prems(1) times(1) by (intro credit_growth) auto
  moreover have "rate * as_secs (until - t) = rate * as_secs (until - u) + rate * as_secs (u - t)"
    by (simp add: as_secs_def algebra_simps add_divide_distrib [symmetric])
  moreover have "of_nat (granted chk s (ev # evs) k) = ?g + (of_nat (granted chk ?s evs k) :: rat)"
    using ev by auto
  ultimately show ?case by linarith
qed

lemma credit_of_bystander:
  assumes "inv s t" "sorted (t # map snd evs)" "k \<notin> fst ` set evs" "\<forall>u \<in> set (map snd evs). u \<le> later"
  shows "credit (after_checks chk s evs) k later = credit s k later"
  using assms
proof (induction evs arbitrary: s t)
  case Nil
  then show ?case by simp
next
  case (Cons ev evs)
  obtain k' u where ev: "ev = (k', u)" by (cases ev)
  from Cons.prems ev have times: "t \<le> u" "u \<le> later" "sorted (u # map snd evs)" "k \<noteq> k'" by auto
  have "inv (snd (chk s k' u)) u" using Cons.prems(1) times(1) by (rule inv_check)
  from Cons.IH [OF this times(3)] Cons.prems(3,4) ev
    credit_other [OF Cons.prems(1) times(1,2,4)]
  show ?case by simp
qed

end

section \<open>The limiter as an admission control\<close>

definition credit :: "RateLimiter \<Rightarrow> buckets \<Rightarrow> string \<Rightarrow> time \<Rightarrow> rat" where
  "credit lm bs k now =
     (case map_of bs k of Some b \<Rightarrow> min (refilled lm now b) (rl_capacity lm) | None \<Rightarrow> rl_capacity lm)"

definition limiter_inv :: "RateLimiter \<Rightarrow> buckets \<Rightarrow> time \<Rightarrow> bool" where
  "limiter_inv lm bs t =
     (0 \<le> rl_capacity lm \<and> 0 \<le> rl_refill_per_second lm \<and> distinct (map fst bs)
      \<and> (\<forall>(k, b) \<in> set bs. updated_at b \<le> t \<and> 0 \<le> tokens b \<and> tokens b \<le> rl_capacity lm))"

lemma as_secs_nonneg [simp]: "0 \<le> as_secs (duration_since now t)"
  by (simp add: as_secs_def duration_since_def)

lemma refilled_mono:
  assumes "0 \<le> rl_refill_per_second lm" "now \<le> later"
  shows "refilled lm now b \<le> refilled lm later b"
proof -
  have "as_secs (duration_since now (updated_at b)) \<le> as_secs (duration_since later (updated_at b))"
    using assms(2) by (simp add: as_secs_def duration_since_def)
  with assms(1) show ?thesis by (simp add: refilled_def mult_right_mono)
qed

lemma refilled_growth:
  assumes "updated_at b \<le> now" "now \<le> later"
  shows "refilled lm later b = refilled lm now b + rl_refill_per_second lm * as_secs (later - now)"
  using assms
  by (simp add: refilled_def as_secs_def duration_since_def algebra_simps add_divide_distrib [symmetric])

lemma limiter_invD:
  assumes "limiter_inv lm bs t" "map_of bs k = Some b"
  shows "updated_at b \<le> t" "0 \<le> tokens b" "tokens b \<le> rl_capacity lm"
  using assms by (auto simp: limiter_inv_def dest: map_of_SomeD)

lemma refilled_nonneg: "0 \<le> rl_refill_per_second lm \<Longrightarrow> 0 \<le> tokens b \<Longrightarrow> 0 \<le> refilled lm now b"
  by (simp add: refilled_def)

text \<open>The sweep drops full buckets only, so no client's credit changes.\<close>

lemma credit_sweep:
  assumes inv: "limiter_inv lm bs t" and "t \<le> now" "now \<le> later"
  shows "credit lm (sweep_buckets lm identity now bs) k later = credit lm bs k later"
proof (cases "map_of bs k")
  case (Some b)
  from inv have "0 \<le> rl_refill_per_second lm" "distinct (map fst bs)" by (simp_all add: limiter_inv_def)
  with Some assms(3) refilled_mono [of lm now later b] show ?thesis
    by (auto simp: credit_def sweep_buckets_def map_of_filter_value)
next
  case None
  with inv show ?thesis
    by (auto simp: credit_def sweep_buckets_def map_of_filter_value limiter_inv_def)
qed

lemma limiter_inv_sweep: "limiter_inv lm bs t \<Longrightarrow> limiter_inv lm (sweep_buckets lm identity now bs) t"
  by (auto simp: limiter_inv_def sweep_buckets_def distinct_map_filter)

lemma own_bucket_kept: "map_of (sweep_buckets lm k now bs) k = map_of bs k" if "distinct (map fst bs)"
  using that by (auto simp: sweep_buckets_def map_of_filter_value split: option.splits)

lemma check_eq:
  assumes inv: "limiter_inv lm bs t"
  shows "check lm bs k now =
    (let level = credit lm bs k now in
     (if 1 \<le> level then Inr () else Inl (retry_after lm level),
      AList.update k \<lparr>tokens = (if 1 \<le> level then level - 1 else level), updated_at = now\<rparr>
        (sweep_buckets lm k now bs)))"
proof -
  have "distinct (map fst bs)" using inv by (simp add: limiter_inv_def)
  then show ?thesis
    by (auto simp: check_def Let_def credit_def own_bucket_kept refilled_def duration_since_def as_secs_def
        split: option.split)
qed

lemma credit_range:
  assumes "limiter_inv lm bs t"
  shows "0 \<le> credit lm bs k now \<and> credit lm bs k now \<le> rl_capacity lm"
  using limiter_invD [OF assms] assms
  by (auto simp: credit_def limiter_inv_def refilled_nonneg split: option.split)

lemma limiter_inv_update:
  assumes "limiter_inv lm bs t" "t \<le> now" "updated_at b = now" "0 \<le> tokens b" "tokens b \<le> rl_capacity lm"
  shows "limiter_inv lm (AList.update k b bs) now"
  using assms set_AList_update [of k b bs]
  by (fastforce simp: limiter_inv_def distinct_update)

lemma limiter_inv_check:
  assumes "limiter_inv lm bs t" "t \<le> now"
  shows "limiter_inv lm (snd (check lm bs k now)) now"
  unfolding check_eq [OF assms(1)] Let_def snd_conv
  using credit_range [OF assms(1), of k now]
  by (intro limiter_inv_update [OF limiter_inv_sweep [OF assms(1)] assms(2)]) auto

lemma credit_update:
  "credit lm (AList.update k b bs) k' now
   = (if k' = k then min (refilled lm now b) (rl_capacity lm) else credit lm bs k' now)"
  by (simp add: credit_def update_conv')

lemma credit_after_check:
  assumes inv: "limiter_inv lm bs t" and "t \<le> now" "now \<le> later"
  shows "credit lm (snd (check lm bs k now)) k' later =
    (if k' = k
     then min (credit lm bs k now - (if 1 \<le> credit lm bs k now then 1 else 0)
               + rl_refill_per_second lm * as_secs (later - now)) (rl_capacity lm)
     else credit lm bs k' later)"
  using credit_sweep [OF assms, of k k'] assms(3)
  by (simp add: check_eq [OF inv] Let_def credit_update refilled_def duration_since_def mult.commute)

lemma credit_growth:
  assumes inv: "limiter_inv lm bs t" and "t \<le> now" "now \<le> later"
  shows "credit lm bs k later \<le> credit lm bs k now + rl_refill_per_second lm * as_secs (later - now)"
proof (cases "map_of bs k")
  case None
  with inv assms(3) show ?thesis by (simp add: credit_def limiter_inv_def as_secs_def)
next
  case (Some b)
  from limiter_invD(1) [OF inv Some] assms(2) have "updated_at b \<le> now" by simp
  from refilled_growth [OF this assms(3), of lm] Some inv assms(3)
  have "refilled lm later b = refilled lm now b + rl_refill_per_second lm * as_secs (later - now)"
    "0 \<le> rl_refill_per_second lm * as_secs (later - now)"
    by (simp_all add: limiter_inv_def as_secs_def)
  with Some show ?thesis by (simp add: credit_def min_def)
qed

lemma check_answer: "limiter_inv lm bs t \<Longrightarrow> fst (check lm bs k now) = Inr () \<longleftrightarrow> 1 \<le> credit lm bs k now"
  by (simp add: check_eq Let_def)

interpretation bucket: admission "limiter_inv lm" "check lm" "credit lm" "rl_capacity lm" "rl_refill_per_second lm"
proof unfold_locales
  fix s :: buckets and t now later :: time and k k' :: string
  assume inv: "limiter_inv lm s t"
  show "0 \<le> rl_refill_per_second lm" using inv by (simp add: limiter_inv_def)
  assume now: "t \<le> now"
  show "limiter_inv lm (snd (check lm s k now)) now" using inv now by (rule limiter_inv_check)
  show "0 \<le> credit lm s k now \<and> credit lm s k now \<le> rl_capacity lm" using inv by (rule credit_range)
  show "credit lm (snd (check lm s k now)) k now
        = credit lm s k now - (if fst (check lm s k now) = Inr () then 1 else 0)"
    using credit_range [OF inv, of k now]
    by (simp add: credit_after_check [OF inv now] check_answer [OF inv] as_secs_def)
  assume later: "now \<le> later"
  show "credit lm s k later \<le> credit lm s k now + rl_refill_per_second lm * as_secs (later - now)"
    using inv now later by (rule credit_growth)
  show "k' \<noteq> k \<Longrightarrow> credit lm (snd (check lm s k now)) k' later = credit lm s k' later"
    by (simp add: credit_after_check [OF inv now later])
qed

section \<open>Properties\<close>

lemma limiter_inv_new: "0 \<le> rl_capacity lm \<Longrightarrow> 0 \<le> rl_refill_per_second lm \<Longrightarrow> limiter_inv lm [] t"
  by (simp add: limiter_inv_def)

text \<open>
  No client gets more than its burst plus the refill.  Over any stretch of requests from any
  clients, however many buckets are swept meanwhile, the requests granted to one client are at
  most the capacity plus the refill rate times the length of the stretch.
\<close>

theorem granted_requests_bounded:
  assumes "0 \<le> capacity" "0 \<le> per_minute" "sorted (map snd (before @ (k0, start) # evs))"
    and "\<forall>u \<in> set (map snd evs). u \<le> until" "start \<le> until"
  defines "lm \<equiv> new_limiter per_minute capacity"
  shows "of_nat (granted (check lm) (after_checks (check lm) [] before) ((k0, start) # evs) k)
         \<le> capacity + per_minute / 60 * as_secs (until - start)"
proof -
  let ?s = "after_checks (check lm) [] before" and ?evs = "(k0, start) # evs"
  define t where "t = Min (insert start (set (map snd before)))"
  have cap: "rl_capacity lm = capacity" "rl_refill_per_second lm = per_minute / 60"
    by (simp_all add: lm_def new_limiter_def)
  have "limiter_inv lm [] t" using assms(1,2) by (intro limiter_inv_new) (simp_all add: cap)
  moreover have "sorted (t # map snd before)"
    using assms(3) by (auto simp: t_def sorted_append)
  ultimately have inv: "limiter_inv lm ?s (last (t # map snd before))" by (rule bucket.inv_after)
  have "last (t # map snd before) \<le> start"
    using assms(3) by (auto simp: t_def sorted_append last_map)
  then have inv: "limiter_inv lm ?s start"
    using inv by (force simp: limiter_inv_def)
  have "of_nat (granted (check lm) ?s ?evs k)
        \<le> credit lm ?s k start + rl_refill_per_second lm * as_secs (until - start)"
    using assms(3-5) by (intro bucket.granted_bound [OF inv]) (auto simp: sorted_append)
  with credit_range [OF inv, of k start] show ?thesis by (simp add: cap)
qed

theorem granted_requests_bounded_witness:
  "of_nat (granted (check (new_limiter 60 2)) [] [(''a'', 0), (''a'', 1), (''b'', 1), (''a'', 2)] ''a'')
   \<le> (2 + 60 / 60 * as_secs (2 - 0) :: rat)"
  using granted_requests_bounded [of 2 60 "[]" "''a''" 0 "[(''a'', 1), (''b'', 1), (''a'', 2)]" 2 "''a''"]
  by simp

text \<open>
  C31: The limiter is a token bucket per client.  A request is granted just when its client has a
  whole token; it then pays one, keeps refilling up to the capacity, and neither the request nor
  the sweep it may trigger changes the credit of any other client.
\<close>

theorem check_is_token_bucket:
  assumes "limiter_inv lm bs t" "t \<le> now" "now \<le> later"
  shows "(fst (check lm bs k now) = Inr () \<longleftrightarrow> 1 \<le> credit lm bs k now)
         \<and> credit lm (snd (check lm bs k now)) k later =
             min (credit lm bs k now - (if fst (check lm bs k now) = Inr () then 1 else 0)
                  + rl_refill_per_second lm * as_secs (later - now)) (rl_capacity lm)
         \<and> (\<forall>k'. k' \<noteq> k \<longrightarrow> credit lm (snd (check lm bs k now)) k' later = credit lm bs k' later)
         \<and> limiter_inv lm (snd (check lm bs k now)) now"
  using credit_after_check [OF assms] check_answer [OF assms(1), of k now] limiter_inv_check [OF assms(1,2)]
  by simp

theorem check_is_token_bucket_witness:
  "credit (new_limiter 60 2) (snd (check (new_limiter 60 2) [] ''a'' 0)) ''a'' 500000000 = 3 / 2"
proof -
  have inv: "limiter_inv (new_limiter 60 2) [] 0" by (simp add: limiter_inv_def new_limiter_def)
  have "fst (check (new_limiter 60 2) [] ''a'' 0) = Inr ()"
    unfolding check_answer [OF inv] by (simp add: credit_def new_limiter_def)
  with check_is_token_bucket [OF inv, of 0 500000000 "''a''"] show ?thesis
    by (simp add: credit_def new_limiter_def as_secs_def)
qed

text \<open>
  The reported delay is the right one.  A rejected client that waits the reported number of
  seconds is granted its next request, whatever other clients do meanwhile; with one second less
  it would still be rejected, and the delay is at least a second.
\<close>

theorem retry_after_is_exact:
  assumes "limiter_inv lm bs t" "t \<le> now" "1 \<le> rl_capacity lm" "0 < rl_refill_per_second lm"
    and "fst (check lm bs k now) = Inl n" "n < u64_max"
    and others: "k \<notin> fst ` set evs" "sorted (now # map snd evs)" "\<forall>u \<in> set (map snd evs). u \<le> later"
  defines "bs' \<equiv> after_checks (check lm) (snd (check lm bs k now)) evs"
  shows "1 \<le> n \<and> (now + n * nanos_per_second \<le> later \<longrightarrow> fst (check lm bs' k later) = Inr ())
         \<and> (1 < n \<and> now \<le> later \<and> later \<le> now + (n - 1) * nanos_per_second
              \<longrightarrow> fst (check lm bs' k later) \<noteq> Inr ())"
proof -
  let ?c = "credit lm bs k now" and ?r = "rl_refill_per_second lm"
  let ?x = "(1 - ?c) / ?r"
  have inv1: "limiter_inv lm (snd (check lm bs k now)) now" using assms(1,2) by (rule limiter_inv_check)
  from bucket.inv_after [OF inv1 others(2)]
  have inv2: "limiter_inv lm bs' (last (now # map snd evs))" unfolding bs'_def .
  have low: "\<not> 1 \<le> ?c" and n: "n = min (max \<lceil>?x\<rceil> 1) u64_max"
    using assms(4,5) by (auto simp: check_eq [OF assms(1)] Let_def retry_after_def ceil_at_least_one_def
        split: if_splits)
  then have n: "n = max \<lceil>?x\<rceil> 1" using assms(6) by auto
  have credit: "credit lm bs' k later = min (?c + ?r * as_secs (later - now)) (rl_capacity lm)"
    if "now \<le> later"
    unfolding bs'_def using low that
    by (simp add: bucket.credit_of_bystander [OF inv1 others(2,1,3)] credit_after_check [OF assms(1,2)])
  have enough: "1 \<le> ?c + ?r * as_secs d \<longleftrightarrow> ?x \<le> as_secs d" for d
    using assms(4) by (simp add: field_simps)
  have secs: "as_secs (m * nanos_per_second) = of_int m" for m by (simp add: as_secs_def)
  have mono: "d \<le> d' \<Longrightarrow> as_secs d \<le> as_secs d'" for d d' by (simp add: as_secs_def divide_right_mono)
  have grant: "fst (check lm bs' k later) = Inr ()" if "now + n * nanos_per_second \<le> later"
  proof -
    have "?x \<le> of_int n" using n by linarith
    also have "\<dots> \<le> as_secs (later - now)" using mono [of "n * nanos_per_second" "later - now"] that secs by simp
    finally show ?thesis
      using that n assms(3) enough credit by (simp add: check_answer [OF inv2])
  qed
  have reject: "fst (check lm bs' k later) \<noteq> Inr ()"
    if "1 < n" "now \<le> later" "later \<le> now + (n - 1) * nanos_per_second"
  proof -
    have "as_secs (later - now) \<le> as_secs ((n - 1) * nanos_per_second)"
      by (rule mono) (use that(3) in linarith)
    also have "\<dots> = of_int (n - 1)" by (rule secs)
    also have "\<dots> < ?x" using n that(1) by linarith
    finally show ?thesis
      using that(2) enough credit by (simp add: check_answer [OF inv2])
  qed
  show ?thesis using grant reject n by simp
qed

theorem retry_after_is_exact_witness:
  "fst (check (new_limiter 6 1) (snd (check (new_limiter 6 1) (snd (check (new_limiter 6 1) [] ''a'' 0)) ''a'' 0))
         ''a'' 10000000000) = Inr ()"
proof -
  let ?lm = "new_limiter 6 1"
  have inv: "limiter_inv ?lm [] 0" by (simp add: limiter_inv_def new_limiter_def)
  have c1: "credit ?lm (snd (check ?lm [] ''a'' 0)) ''a'' 0 = 0"
    using credit_after_check [OF inv, of 0 0 "''a''" "''a''"]
    by (simp add: credit_def new_limiter_def as_secs_def)
  note inv1 = limiter_inv_check [OF inv, of 0 "''a''", simplified]
  have "fst (check ?lm (snd (check ?lm [] ''a'' 0)) ''a'' 0) = Inl 10"
    by (simp add: check_eq [OF inv1] Let_def c1 retry_after_def ceil_at_least_one_def, simp add: new_limiter_def)
  from retry_after_is_exact [OF inv1 _ _ _ this, of "[]" 10000000000] show ?thesis
    by (simp add: new_limiter_def)
qed

end
