(* ===== verification/Email_Limits.thy ===== *)
theory Email_Limits
  imports Rate_Limit
begin

text \<open>
  The rolling-window limiter for authentication email.  Its abstract specification is the log of
  all accepted sends; the limiter, which forgets expired events and sweeps its maps, refines it,
  and the limits are proved on the log.
\<close>

section \<open>The specification: a log of accepted sends\<close>

type_synonym email_request = "string \<times> string \<times> time"
type_synonym email_log = "(string \<times> SourceSend) list"

definition log_source :: "email_log \<Rightarrow> string \<Rightarrow> SourceSend list" where
  "log_source sends s = map snd (filter (\<lambda>(s', _). s' = s) sends)"

definition log_recipient :: "email_log \<Rightarrow> string \<Rightarrow> time list" where
  "log_recipient sends r = map (\<lambda>(_, e). ss_at e) (filter (\<lambda>(_, e). ss_recipient e = r) sends)"

definition log_times :: "email_log \<Rightarrow> time list" where
  "log_times sends = map (\<lambda>(_, e). ss_at e) sends"

definition spec_check_at ::
  "EmailSendRateLimits \<Rightarrow> email_log \<Rightarrow> string \<Rightarrow> string \<Rightarrow> time \<Rightarrow> (int + unit) option \<times> email_log" where
  "spec_check_at lm sends source recipient now =
     (case email_retries lm (log_source sends source) (log_recipient sends recipient) (log_times sends)
             recipient now of
        None \<Rightarrow> (None, sends)
      | Some (r # rs) \<Rightarrow> (Some (Inl (fold max rs r)), sends)
      | Some [] \<Rightarrow> (Some (Inr ()), sends @ [(source, new_send lm (log_source sends source) recipient now)]))"

fun answers ::
  "('s \<Rightarrow> string \<Rightarrow> string \<Rightarrow> time \<Rightarrow> 'a \<times> 's) \<Rightarrow> 's \<Rightarrow> email_request list \<Rightarrow> 'a list" where
  "answers chk s [] = []"
| "answers chk s ((source, recipient, now) # evs) =
     fst (chk s source recipient now) # answers chk (snd (chk s source recipient now)) evs"

fun final_state ::
  "('s \<Rightarrow> string \<Rightarrow> string \<Rightarrow> time \<Rightarrow> 'a \<times> 's) \<Rightarrow> 's \<Rightarrow> email_request list \<Rightarrow> 's" where
  "final_state chk s [] = s"
| "final_state chk s ((source, recipient, now) # evs) =
     final_state chk (snd (chk s source recipient now)) evs"

section \<open>Only events inside the windows count\<close>

lemma recipient_cost_cong:
  "filter (\<lambda>e. active now w (ss_at e)) es = filter (\<lambda>e. active now w (ss_at e)) es'
   \<Longrightarrow> recipient_cost es r now w = recipient_cost es' r now w"
  by (simp add: recipient_cost_def)

lemma weighted_retry_after_cong:
  "filter (\<lambda>e. active now w (ss_at e)) es = filter (\<lambda>e. active now w (ss_at e)) es'
   \<Longrightarrow> weighted_retry_after es now w b c cost = weighted_retry_after es' now w b c cost"
  by (simp add: weighted_retry_after_def)

lemma count_retry_after_cong:
  "filter (active now w) es = filter (active now w) es'
   \<Longrightarrow> count_retry_after es now w l = count_retry_after es' now w l"
  by (simp add: count_retry_after_def)

text \<open>\<open>kept\<close> is \<open>full\<close> without a prefix of events that have left the window.\<close>

definition trimmed :: "('e \<Rightarrow> time) \<Rightarrow> time \<Rightarrow> int \<Rightarrow> 'e list \<Rightarrow> 'e list \<Rightarrow> bool" where
  "trimmed tm now w full kept =
     (\<exists>dropped. full = dropped @ kept \<and> (\<forall>e \<in> set dropped. \<not> active now w (tm e)))"

lemma active_later: "\<not> active now w t \<Longrightarrow> now \<le> later \<Longrightarrow> w' \<le> w \<Longrightarrow> \<not> active later w' t"
  by (auto simp: active_def duration_since_def)

lemma trimmed_refl [simp]: "trimmed tm now w es es"
  by (simp add: trimmed_def)

lemma trimmed_filter:
  assumes "trimmed tm now w full kept" "now \<le> later" "w' \<le> w"
  shows "filter (\<lambda>e. active later w' (tm e)) full = filter (\<lambda>e. active later w' (tm e)) kept"
  using assms active_later by (fastforce simp: trimmed_def filter_empty_conv)

lemma trimmed_later:
  "trimmed tm now w full kept \<Longrightarrow> now \<le> later \<Longrightarrow> trimmed tm later w full kept"
  unfolding trimmed_def by (metis active_later order_refl)

lemma trimmed_snoc: "trimmed tm now w full kept \<Longrightarrow> trimmed tm now w (full @ [e]) (kept @ [e])"
  by (auto simp: trimmed_def)

lemma trimmed_dropWhile:
  assumes "trimmed tm now w full kept"
  shows "trimmed tm now w full (dropWhile (\<lambda>e. w \<le> duration_since now (tm e)) kept)"
proof -
  let ?p = "\<lambda>e. w \<le> duration_since now (tm e)"
  from assms obtain d where d: "full = d @ kept" "\<forall>e \<in> set d. \<not> active now w (tm e)"
    by (auto simp: trimmed_def)
  have "full = (d @ takeWhile ?p kept) @ dropWhile ?p kept" using d(1) by simp
  moreover have "\<forall>e \<in> set (takeWhile ?p kept). \<not> active now w (tm e)"
    by (auto simp: active_def dest: set_takeWhileD)
  ultimately show ?thesis using d(2) unfolding trimmed_def
    by (intro exI [of _ "d @ takeWhile ?p kept"] conjI) auto
qed

lemma trimmed_retain_source:
  "trimmed ss_at now w full kept \<Longrightarrow> trimmed ss_at now w full (retain_recent_source now w kept)"
  unfolding retain_recent_source_def by (rule trimmed_dropWhile)

lemma trimmed_retain:
  "trimmed (\<lambda>t. t) now w full kept \<Longrightarrow> trimmed (\<lambda>t. t) now w full (retain_recent now w kept)"
  unfolding retain_recent_def by (rule trimmed_dropWhile)

section \<open>Maps of events\<close>

lemma events_of_map:
  "events_of (map (\<lambda>(k, es). (k, f es)) m) x = (case map_of m x of None \<Rightarrow> [] | Some es \<Rightarrow> f es)"
  by (induction m) (auto simp: events_of_def)

lemma events_of_filter_nonempty:
  "distinct (map fst m) \<Longrightarrow> events_of (filter (\<lambda>(_, es). es \<noteq> []) m) x = events_of m x"
  by (auto simp: events_of_def map_of_filter_value split: option.split)

lemma keys_map [simp]: "map fst (map (\<lambda>(k, es). (k, g k es)) m) = map fst m"
  by (induction m) auto

lemma sweep_map_cases:
  assumes "distinct (map fst m)"
  shows "events_of (sweep_map retain key m) x = events_of m x
         \<or> events_of (sweep_map retain key m) x = retain (events_of m x)
         \<or> events_of (sweep_map retain key m) x = retain (retain (events_of m x))
         \<or> events_of (sweep_map retain key m) x = []  \<and> events_of m x = []"
proof -
  let ?m1 = "map (\<lambda>(k, es). (k, if k = key then retain es else es)) m"
  have m1: "events_of ?m1 x = events_of m x \<or> events_of ?m1 x = retain (events_of m x)"
    by (simp add: events_of_def map_of_map_key split: option.split)
  have "distinct (map fst (map (\<lambda>(k, es). (k, retain es)) ?m1))"
    using assms by (simp add: comp_def case_prod_beta)
  from events_of_filter_nonempty [OF this, of x] m1 show ?thesis
    unfolding sweep_map_def Let_def events_of_map
    by (auto simp: events_of_def split: option.splits)
qed

lemma distinct_sweep_map: "distinct (map fst m) \<Longrightarrow> distinct (map fst (sweep_map retain key m))"
  by (auto simp: sweep_map_def Let_def intro!: distinct_map_filter simp: comp_def case_prod_beta)

lemma trimmed_sweep_map:
  assumes "distinct (map fst m)" "trimmed tm now w full (events_of m x)"
    and "\<And>es. trimmed tm now w full es \<Longrightarrow> trimmed tm now w full (retain es)"
  shows "trimmed tm now w full (events_of (sweep_map retain key m) x)"
  using sweep_map_cases [OF assms(1), of retain key x] assms(2,3) by metis

lemma events_of_or_default [simp]: "events_of (or_default key m) x = events_of m x"
  by (auto simp: or_default_def events_of_def map_add_def split: option.split)

lemma distinct_or_default: "distinct (map fst m) \<Longrightarrow> distinct (map fst (or_default key m))"
  by (auto simp: or_default_def map_of_eq_None_iff)

lemma events_of_update: "events_of (AList.update k es m) x = (if x = k then es else events_of m x)"
  by (simp add: events_of_def update_conv')

section \<open>The limiter refines the specification\<close>

definition email_rel :: "EmailSendRateLimits \<Rightarrow> time \<Rightarrow> EmailSendRateState \<Rightarrow> email_log \<Rightarrow> bool" where
  "email_rel lm t st sends =
     (distinct (map fst (es_sources st)) \<and> distinct (map fst (es_recipients st))
      \<and> (\<forall>s. trimmed ss_at t (source_retention lm) (log_source sends s) (events_of (es_sources st) s))
      \<and> (\<forall>r. trimmed (\<lambda>t. t) t (recipient_retention lm) (log_recipient sends r) (events_of (es_recipients st) r))
      \<and> trimmed (\<lambda>t. t) t (global_retention lm) (log_times sends) (es_global st))"

definition prepared :: "EmailSendRateLimits \<Rightarrow> EmailSendRateState \<Rightarrow> string \<Rightarrow> string \<Rightarrow> time \<Rightarrow> EmailSendRateState" where
  "prepared lm st source recipient now =
     (sweep lm st source recipient now)
       \<lparr>es_sources := or_default source (es_sources (sweep lm st source recipient now)),
        es_recipients := or_default recipient (es_recipients (sweep lm st source recipient now))\<rparr>"

lemma email_rel_empty: "email_rel lm t empty_email_state []"
  by (simp add: email_rel_def empty_email_state_def events_of_def log_source_def log_recipient_def log_times_def)

lemma email_rel_prepared:
  assumes "email_rel lm t st sends" "t \<le> now"
  shows "email_rel lm now (prepared lm st source recipient now) sends"
proof -
  from assms(1) have rel:
    "distinct (map fst (es_sources st))" "distinct (map fst (es_recipients st))"
    "trimmed ss_at now (source_retention lm) (log_source sends s) (events_of (es_sources st) s)"
    "trimmed (\<lambda>t. t) now (recipient_retention lm) (log_recipient sends r) (events_of (es_recipients st) r)"
    "trimmed (\<lambda>t. t) now (global_retention lm) (log_times sends) (es_global st)" for s r
    by (auto simp: email_rel_def intro: trimmed_later [OF _ assms(2)])
  show ?thesis
    using trimmed_sweep_map [OF rel(1,3) trimmed_retain_source, where key = source]
      trimmed_sweep_map [OF rel(2,4) trimmed_retain, where key = recipient] trimmed_retain [OF rel(5)] rel(1,2)
    by (simp add: email_rel_def prepared_def sweep_def distinct_or_default distinct_sweep_map)
qed

lemma email_retries_rel:
  assumes "email_rel lm now st sends"
  shows "email_retries lm (events_of (es_sources st) s) (events_of (es_recipients st) r) (es_global st) rcp now
         = email_retries lm (log_source sends s) (log_recipient sends r) (log_times sends) rcp now"
    and "new_send lm (events_of (es_sources st) s) rcp now = new_send lm (log_source sends s) rcp now"
proof -
  have S: "filter (\<lambda>e. active now w (ss_at e)) (events_of (es_sources st) s)
           = filter (\<lambda>e. active now w (ss_at e)) (log_source sends s)"
    if "w \<le> source_retention lm" for w
    using assms that by (intro trimmed_filter [symmetric, where now = now]) (simp_all add: email_rel_def)
  have R: "filter (active now w) (events_of (es_recipients st) r) = filter (active now w) (log_recipient sends r)"
    if "w \<le> recipient_retention lm" for w
    using assms that
    by (intro trimmed_filter [of "\<lambda>t. t" now, symmetric, simplified]) (auto simp: email_rel_def)
  have G: "filter (active now w) (es_global st) = filter (active now w) (log_times sends)"
    if "w \<le> global_retention lm" for w
    using assms that
    by (intro trimmed_filter [of "\<lambda>t. t" now, symmetric, simplified]) (auto simp: email_rel_def)
  note retention = source_retention_def recipient_retention_def global_retention_def
  note cong = weighted_retry_after_cong [OF S] recipient_cost_cong [OF S] count_retry_after_cong [OF R]
    count_retry_after_cong [OF G]
  show "email_retries lm (events_of (es_sources st) s) (events_of (es_recipients st) r) (es_global st) rcp now
         = email_retries lm (log_source sends s) (log_recipient sends r) (log_times sends) rcp now"
    "new_send lm (events_of (es_sources st) s) rcp now = new_send lm (log_source sends s) rcp now"
    by (simp_all add: email_retries_def new_send_def cong retention)
qed

lemma log_snoc [simp]:
  "log_source (sends @ [(s, e)]) s' = log_source sends s' @ (if s = s' then [e] else [])"
  "log_recipient (sends @ [(s, e)]) r = log_recipient sends r @ (if ss_recipient e = r then [ss_at e] else [])"
  "log_times (sends @ [(s, e)]) = log_times sends @ [ss_at e]"
  by (simp_all add: log_source_def log_recipient_def log_times_def)

lemma new_send_simps [simp]:
  "ss_at (new_send lm es r now) = now" "ss_recipient (new_send lm es r now) = r"
  by (simp_all add: new_send_def)

lemma check_at_prepared:
  "check_at lm st source recipient now =
     (let st' = prepared lm st source recipient now;
          es = events_of (es_sources st') source; rs = events_of (es_recipients st') recipient in
      case email_retries lm es rs (es_global st') recipient now of
        None \<Rightarrow> (None, st')
      | Some (x # xs) \<Rightarrow> (Some (Inl (fold max xs x)), st')
      | Some [] \<Rightarrow> (Some (Inr ()),
          \<lparr>es_sources = AList.update source (es @ [new_send lm es recipient now]) (es_sources st'),
           es_recipients = AList.update recipient (rs @ [now]) (es_recipients st'),
           es_global = es_global st' @ [now]\<rparr>))"
  by (simp add: check_at_def prepared_def Let_def cong: option.case_cong list.case_cong)

lemma check_at_refines:
  assumes "email_rel lm t st sends" "t \<le> now"
  shows "fst (check_at lm st s r now) = fst (spec_check_at lm sends s r now)
         \<and> email_rel lm now (snd (check_at lm st s r now)) (snd (spec_check_at lm sends s r now))"
proof -
  define st' where "st' = prepared lm st s r now"
  have rel: "email_rel lm now st' sends" unfolding st'_def using assms by (rule email_rel_prepared)
  let ?es = "events_of (es_sources st') s" and ?rs = "events_of (es_recipients st') r"
  have step: "email_rel lm now
      \<lparr>es_sources = AList.update s (?es @ [new_send lm (log_source sends s) r now]) (es_sources st'),
       es_recipients = AList.update r (?rs @ [now]) (es_recipients st'),
       es_global = es_global st' @ [now]\<rparr>
      (sends @ [(s, new_send lm (log_source sends s) r now)])"
    using rel by (auto simp: email_rel_def events_of_update distinct_update trimmed_snoc)
  show ?thesis
    using rel step
    by (auto simp: check_at_prepared spec_check_at_def st'_def [symmetric] Let_def email_retries_rel [OF rel]
        split: option.split list.split)
qed

lemma answers_refine:
  "email_rel lm t st sends \<Longrightarrow> sorted (t # map (\<lambda>(_, _, u). u) evs)
   \<Longrightarrow> answers (check_at lm) st evs = answers (spec_check_at lm) sends evs"
proof (induction evs arbitrary: t st sends)
  case Nil
  then show ?case by simp
next
  case (Cons ev evs)
  obtain s r now where ev: "ev = (s, r, now)" by (cases ev)
  with Cons.prems have "t \<le> now" "sorted (now # map (\<lambda>(_, _, u). u) evs)" by auto
  with check_at_refines [OF Cons.prems(1) this(1), of s r] Cons.IH [of now] ev show ?case by simp
qed

lemma answers_from_empty:
  assumes "sorted (map (\<lambda>(_, _, t). t) evs)"
  shows "answers (check_at lm) empty_email_state evs = answers (spec_check_at lm) [] evs"
proof (cases evs)
  case (Cons ev evs')
  with assms show ?thesis
    by (intro answers_refine [where t = "case ev of (_, _, t) \<Rightarrow> t"] email_rel_empty)
      (auto split: prod.splits)
qed simp

text \<open>
  C32: Forgetting is safe.  The limiter, which trims the buckets it touches and sweeps full maps,
  gives every request the same answer as the specification that remembers every send ever
  accepted and charges rejected requests nothing.
\<close>

theorem email_limiter_refines_log:
  assumes "sorted (map (\<lambda>(_, _, t). t) evs)"
  shows "answers (check_at lm) empty_email_state evs = answers (spec_check_at lm) [] evs"
  using assms by (rule answers_from_empty)

section \<open>The limits hold on the log\<close>

text \<open>A window of length \<open>w\<close> ending at any time holds events of total cost at most \<open>n\<close>.\<close>

definition window_bounded :: "(time \<times> nat) list \<Rightarrow> int \<Rightarrow> nat \<Rightarrow> bool" where
  "window_bounded es w n =
     (\<forall>now. sum_list (map snd (filter (\<lambda>(t, _). t \<le> now \<and> now - t < w) es)) \<le> n)"

lemma window_bounded_Nil [simp]: "window_bounded [] w n"
  by (simp add: window_bounded_def)

lemma sum_filter_mono:
  "(\<And>e. e \<in> set es \<Longrightarrow> p e \<Longrightarrow> q e) \<Longrightarrow>
   sum_list (map f (filter p es)) \<le> sum_list (map (f :: _ \<Rightarrow> nat) (filter q es))"
  by (induction es) (auto simp: trans_le_add2)

lemma window_bounded_snoc:
  assumes "window_bounded es w n" "\<forall>(u, _) \<in> set es. u \<le> t"
    and "sum_list (map snd (filter (\<lambda>(u, _). active t w u) es)) + c \<le> n"
  shows "window_bounded (es @ [(t, c)]) w n"
  unfolding window_bounded_def
proof
  fix now
  let ?in = "\<lambda>(u, _ :: nat). u \<le> now \<and> now - u < w"
  show "sum_list (map snd (filter ?in (es @ [(t, c)]))) \<le> n"
  proof (cases "t \<le> now \<and> now - t < w")
    case True
    with assms(2) have "sum_list (map snd (filter ?in es))
        \<le> sum_list (map snd (filter (\<lambda>(u, _). active t w u) es))"
      by (intro sum_filter_mono) (auto simp: active_def duration_since_def)
    with True assms(3) show ?thesis by simp
  next
    case False
    with assms(1) show ?thesis by (auto simp: window_bounded_def)
  qed
qed

lemma flatten_retries_Nil:
  "flatten_retries rs = Some [] \<longleftrightarrow> (\<forall>r \<in> set rs. r = Some None)"
  by (induction rs rule: flatten_retries.induct) (auto split: option.splits)

lemma weighted_granted:
  assumes "weighted_retry_after es now w budget c cost = None" "budget < u32_max"
  shows "sum_list (map cost (filter (\<lambda>e. active now w (ss_at e)) es)) + c \<le> budget"
  using assms
  by (auto simp: weighted_retry_after_def Let_def saturating_add_def split: if_splits option.splits)

lemma count_granted:
  "count_retry_after es now w n = Some None \<Longrightarrow> length (filter (active now w) es) + 1 \<le> n"
  by (auto simp: count_retry_after_def Let_def split: if_splits)

definition unit_costs :: "time list \<Rightarrow> (time \<times> nat) list" where
  "unit_costs ts = map (\<lambda>t. (t, 1)) ts"

lemma sum_unit_costs [simp]:
  "sum_list (map snd (filter (\<lambda>(u, _). p u) (unit_costs ts))) = length (filter p ts)"
  by (induction ts) (auto simp: unit_costs_def)

lemma sum_costs [simp]:
  "sum_list (map snd (filter (\<lambda>(u, _). p u) (map (\<lambda>e. (ss_at e, cost e)) es)))
   = sum_list (map cost (filter (\<lambda>e. p (ss_at e)) es))"
  by (induction es) auto

lemma unit_costs_snoc [simp]: "unit_costs (ts @ [t]) = unit_costs ts @ [(t, 1)]"
  by (simp add: unit_costs_def)

definition log_ok :: "EmailSendRateLimits \<Rightarrow> time \<Rightarrow> email_log \<Rightarrow> bool" where
  "log_ok lm t sends =
     ((\<forall>u \<in> set (log_times sends). u \<le> t)
      \<and> (\<forall>s. window_bounded (map (\<lambda>e. (ss_at e, ss_window_cost e)) (log_source sends s))
               (source_window lm) (source_budget lm)
           \<and> window_bounded (map (\<lambda>e. (ss_at e, ss_daily_cost e)) (log_source sends s))
               (source_daily_window lm) (source_daily_budget lm))
      \<and> (\<forall>r. window_bounded (unit_costs (log_recipient sends r)) (recipient_cooldown lm) 1
           \<and> window_bounded (unit_costs (log_recipient sends r)) (recipient_hour_window lm) (recipient_hour_limit lm)
           \<and> window_bounded (unit_costs (log_recipient sends r)) (recipient_daily_window lm) (recipient_daily_limit lm))
      \<and> window_bounded (unit_costs (log_times sends)) (global_hour_window lm) (global_hour_limit lm)
      \<and> window_bounded (unit_costs (log_times sends)) (global_daily_window lm) (global_daily_limit lm))"

lemma log_times_subset:
  "e \<in> set (log_source sends s) \<Longrightarrow> ss_at e \<in> set (log_times sends)"
  "t \<in> set (log_recipient sends r) \<Longrightarrow> t \<in> set (log_times sends)"
  by (force simp: log_source_def log_recipient_def log_times_def)+

lemma log_ok_accept:
  assumes ok: "log_ok lm t sends" and "t \<le> now"
    and granted: "email_retries lm (log_source sends s) (log_recipient sends r) (log_times sends) r now = Some []"
    and budgets: "source_budget lm < u32_max" "source_daily_budget lm < u32_max"
  shows "log_ok lm now (sends @ [(s, new_send lm (log_source sends s) r now)])"
proof -
  let ?es = "log_source sends s" and ?e = "new_send lm (log_source sends s) r now"
  from granted have none:
    "weighted_retry_after ?es now (source_window lm) (source_budget lm)
       (recipient_cost ?es r now (source_window lm)) ss_window_cost = None"
    "weighted_retry_after ?es now (source_daily_window lm) (source_daily_budget lm)
       (recipient_cost ?es r now (source_daily_window lm)) ss_daily_cost = None"
    "count_retry_after (log_recipient sends r) now (recipient_cooldown lm) 1 = Some None"
    "count_retry_after (log_recipient sends r) now (recipient_hour_window lm) (recipient_hour_limit lm) = Some None"
    "count_retry_after (log_recipient sends r) now (recipient_daily_window lm) (recipient_daily_limit lm) = Some None"
    "count_retry_after (log_times sends) now (global_hour_window lm) (global_hour_limit lm) = Some None"
    "count_retry_after (log_times sends) now (global_daily_window lm) (global_daily_limit lm) = Some None"
    unfolding email_retries_def flatten_retries_Nil by simp_all
  note old = weighted_granted [OF none(1) budgets(1)] weighted_granted [OF none(2) budgets(2)]
    none(3-7) [THEN count_granted]
  have past: "\<forall>u \<in> set (log_times sends). u \<le> now" using ok assms(2) by (auto simp: log_ok_def)
  then have past_s: "\<forall>(u, _) \<in> set (map (\<lambda>e. (ss_at e, cost e)) ?es). u \<le> now" for cost :: "SourceSend \<Rightarrow> nat"
    using log_times_subset(1) by auto
  have past_r: "\<forall>(u, _) \<in> set (unit_costs (log_recipient sends r)). u \<le> now"
    using past log_times_subset(2) by (auto simp: unit_costs_def)
  have past_g: "\<forall>(u, _) \<in> set (unit_costs (log_times sends)). u \<le> now"
    using past by (auto simp: unit_costs_def)
  have costs: "ss_window_cost ?e = recipient_cost ?es r now (source_window lm)"
    "ss_daily_cost ?e = recipient_cost ?es r now (source_daily_window lm)"
    by (simp_all add: new_send_def)
  show ?thesis
    using ok past old
    unfolding log_ok_def
    by (simp add: costs window_bounded_snoc [OF _ past_s] window_bounded_snoc [OF _ past_r]
        window_bounded_snoc [OF _ past_g])
qed

lemma log_ok_later: "log_ok lm t sends \<Longrightarrow> t \<le> now \<Longrightarrow> log_ok lm now sends"
  unfolding log_ok_def by (meson order_trans)

lemma log_ok_step:
  assumes "log_ok lm t sends" "t \<le> now" "source_budget lm < u32_max" "source_daily_budget lm < u32_max"
  shows "log_ok lm now (snd (spec_check_at lm sends s r now))"
  using log_ok_accept [OF assms(1,2) _ assms(3,4), of s r] log_ok_later [OF assms(1,2)]
  by (auto simp: spec_check_at_def split: option.split list.split)

lemma log_ok_run:
  "log_ok lm t sends \<Longrightarrow> sorted (t # map (\<lambda>(_, _, u). u) evs) \<Longrightarrow> source_budget lm < u32_max
   \<Longrightarrow> source_daily_budget lm < u32_max
   \<Longrightarrow> \<exists>t'. log_ok lm t' (final_state (spec_check_at lm) sends evs)"
proof (induction evs arbitrary: t sends)
  case Nil
  then show ?case by auto
next
  case (Cons ev evs)
  obtain s r now where ev: "ev = (s, r, now)" by (cases ev)
  with Cons.prems have "t \<le> now" "sorted (now # map (\<lambda>(_, _, u). u) evs)" by auto
  with Cons.IH [OF log_ok_step [OF Cons.prems(1) this(1) Cons.prems(3,4)]] Cons.prems(3,4) ev
  show ?case by simp
qed

section \<open>Accepted requests\<close>

definition accepted :: "email_request list \<Rightarrow> (int + unit) option list \<Rightarrow> email_request list" where
  "accepted evs as = map fst (filter (\<lambda>(_, a). a = Some (Inr ())) (zip evs as))"

definition request_of :: "string \<times> SourceSend \<Rightarrow> email_request" where
  "request_of = (\<lambda>(s, e). (s, ss_recipient e, ss_at e))"

lemma accepted_log:
  "map request_of (final_state (spec_check_at lm) sends evs)
   = map request_of sends @ accepted evs (answers (spec_check_at lm) sends evs)"
proof (induction evs arbitrary: sends)
  case Nil
  then show ?case by (simp add: accepted_def)
next
  case (Cons ev evs)
  obtain s r now where ev: "ev = (s, r, now)" by (cases ev)
  show ?case
    using Cons.IH [of "snd (spec_check_at lm sends s r now)"] ev
    by (auto simp: accepted_def spec_check_at_def request_of_def split: option.split list.split)
qed

lemma count_window:
  "length (filter (\<lambda>(_, r', t). r' = r \<and> t \<le> now \<and> now - t < w) (map request_of sends))
     = length (filter (\<lambda>t. t \<le> now \<and> now - t < w) (log_recipient sends r))"
  "length (filter (\<lambda>(_, _, t). t \<le> now \<and> now - t < w) (map request_of sends))
     = length (filter (\<lambda>t. t \<le> now \<and> now - t < w) (log_times sends))"
  "length (filter (\<lambda>(s', _, t). s' = s \<and> t \<le> now \<and> now - t < w) (map request_of sends))
     = length (filter (\<lambda>e. ss_at e \<le> now \<and> now - ss_at e < w) (log_source sends s))"
  by (induction sends) (auto simp: request_of_def log_recipient_def log_times_def log_source_def)

definition costs_positive :: "email_log \<Rightarrow> bool" where
  "costs_positive sends = (\<forall>(_, e) \<in> set sends. 1 \<le> ss_window_cost e \<and> 1 \<le> ss_daily_cost e)"

lemma recipient_cost_ge: "Suc 0 \<le> recipient_cost es r now w"
  by (simp add: recipient_cost_def Let_def)

lemma costs_positive_run:
  "costs_positive sends \<Longrightarrow> costs_positive (final_state (spec_check_at lm) sends evs)"
proof (induction evs arbitrary: sends)
  case (Cons ev evs)
  obtain s r now where ev: "ev = (s, r, now)" by (cases ev)
  have "costs_positive (snd (spec_check_at lm sends s r now))"
    using Cons.prems
    by (auto simp: recipient_cost_ge costs_positive_def spec_check_at_def new_send_def split: option.split list.split)
  from Cons.IH [OF this] ev show ?case by simp
qed simp

lemma length_le_costs:
  "(\<And>e. e \<in> set es \<Longrightarrow> 1 \<le> cost e) \<Longrightarrow> length (filter p es) \<le> sum_list (map cost (filter p es))"
  by (induction es) (auto, force)

text \<open>
  The price of a send, from the accepted requests alone: one unit for the first recent send of a source
  and for a recipient it has recently written to, two for any other recipient.
\<close>

fun send_price :: "int \<Rightarrow> email_request list \<Rightarrow> email_request \<Rightarrow> nat" where
  "send_price w earlier (s, r, t) =
     (let recent = map (\<lambda>(_, r', _). r') (filter (\<lambda>(s', _, t'). s' = s \<and> active t w t') earlier) in
      if recent = [] \<or> r \<in> set recent then 1 else 2)"

fun priced :: "int \<Rightarrow> email_request list \<Rightarrow> email_request list \<Rightarrow> (email_request \<times> nat) list" where
  "priced w earlier [] = []"
| "priced w earlier (q # qs) = (q, send_price w earlier q) # priced w (earlier @ [q]) qs"

definition spent :: "int \<Rightarrow> email_request list \<Rightarrow> string \<Rightarrow> time \<Rightarrow> nat" where
  "spent w sends s now =
     sum_list (map snd (filter (\<lambda>((s', _, t), _). s' = s \<and> t \<le> now \<and> now - t < w) (priced w [] sends)))"

lemma priced_snoc: "priced w pre (qs @ [q]) = priced w pre qs @ [(q, send_price w (pre @ qs) q)]"
  by (induction qs arbitrary: pre) auto

lemma recent_recipients:
  "map (\<lambda>(_, r', _). r') (filter (\<lambda>(s', _, t'). s' = s \<and> active now w t') (map request_of sends))
   = map ss_recipient (filter (\<lambda>e. active now w (ss_at e)) (log_source sends s))"
  by (induction sends) (auto simp: request_of_def log_source_def)

lemma send_price_log: "send_price w (map request_of sends) (s, r, now) = recipient_cost (log_source sends s) r now w"
  unfolding send_price.simps recent_recipients Let_def recipient_cost_def
  by (auto simp: list_ex_iff)

definition paid :: "int \<Rightarrow> (SourceSend \<Rightarrow> nat) \<Rightarrow> email_log \<Rightarrow> bool" where
  "paid w cost sends = (priced w [] (map request_of sends) = map (\<lambda>(s, e). (request_of (s, e), cost e)) sends)"

lemma paid_run:
  "paid (source_window lm) ss_window_cost sends \<and> paid (source_daily_window lm) ss_daily_cost sends
   \<Longrightarrow> paid (source_window lm) ss_window_cost (final_state (spec_check_at lm) sends evs)
     \<and> paid (source_daily_window lm) ss_daily_cost (final_state (spec_check_at lm) sends evs)"
proof (induction evs arbitrary: sends)
  case (Cons ev evs)
  obtain s r now where ev: "ev = (s, r, now)" by (cases ev)
  have price: "send_price w (map request_of sends) (request_of (s, new_send lm es r now)) = recipient_cost (log_source sends s) r now w"
    for w es
  proof -
    have "request_of (s, new_send lm es r now) = (s, r, now)" by (simp add: request_of_def)
    then show ?thesis by (simp only: send_price_log)
  qed
  have "paid (source_window lm) ss_window_cost (snd (spec_check_at lm sends s r now))
    \<and> paid (source_daily_window lm) ss_daily_cost (snd (spec_check_at lm sends s r now))"
    using Cons.prems
    by (auto simp: spec_check_at_def paid_def priced_snoc price split: option.split list.split)
      (simp_all add: new_send_def)
  from Cons.IH [OF this] ev show ?case by simp
qed simp

lemma spent_log:
  assumes "paid w cost sends"
  shows "spent w (map request_of sends) s now
    = sum_list (map cost (filter (\<lambda>e. ss_at e \<le> now \<and> now - ss_at e < w) (log_source sends s)))"
proof -
  have "sum_list (map snd (filter (\<lambda>((s', _, t), _). s' = s \<and> t \<le> now \<and> now - t < w)
      (map (\<lambda>(s, e). (request_of (s, e), cost e)) sends)))
    = sum_list (map cost (filter (\<lambda>e. ss_at e \<le> now \<and> now - ss_at e < w) (log_source sends s)))"
    by (induction sends) (auto simp: request_of_def log_source_def)
  with assms show ?thesis by (simp add: spent_def paid_def)
qed

text \<open>
  C33: The email limits hold over every rolling window.  Whatever sequence of requests arrives,
  within any window of time the accepted messages stay within the cooldown, hourly and daily
  limits of each recipient and the global limits, and what each source has spent stays within its
  two budgets, where a send costs two units unless it is the first recent send of the source or goes
  to a recipient the source has recently written to, recent meaning within the window of the budget.
  The number of messages of a source, each of which costs at least one unit, is bounded too.
\<close>

theorem email_limits_hold:
  assumes "sorted (map (\<lambda>(_, _, t). t) evs)" "source_budget lm < u32_max" "source_daily_budget lm < u32_max"
  defines "sent \<equiv> accepted evs (answers (check_at lm) empty_email_state evs)"
  shows "length (filter (\<lambda>(_, r', t). r' = r \<and> t \<le> now \<and> now - t < recipient_cooldown lm) sent) \<le> 1
         \<and> length (filter (\<lambda>(_, r', t). r' = r \<and> t \<le> now \<and> now - t < recipient_hour_window lm) sent)
             \<le> recipient_hour_limit lm
         \<and> length (filter (\<lambda>(_, r', t). r' = r \<and> t \<le> now \<and> now - t < recipient_daily_window lm) sent)
             \<le> recipient_daily_limit lm
         \<and> length (filter (\<lambda>(s', _, t). s' = s \<and> t \<le> now \<and> now - t < source_window lm) sent)
             \<le> source_budget lm
         \<and> length (filter (\<lambda>(s', _, t). s' = s \<and> t \<le> now \<and> now - t < source_daily_window lm) sent)
             \<le> source_daily_budget lm
         \<and> spent (source_window lm) sent s now \<le> source_budget lm
         \<and> spent (source_daily_window lm) sent s now \<le> source_daily_budget lm
         \<and> length (filter (\<lambda>(_, _, t). t \<le> now \<and> now - t < global_hour_window lm) sent)
             \<le> global_hour_limit lm
         \<and> length (filter (\<lambda>(_, _, t). t \<le> now \<and> now - t < global_daily_window lm) sent)
             \<le> global_daily_limit lm"
proof -
  let ?log = "final_state (spec_check_at lm) [] evs"
  note answers_from_empty [OF assms(1)]
  then have sent: "sent = map request_of ?log"
    by (simp add: sent_def accepted_log)
  have "sorted ((case evs of [] \<Rightarrow> 0 | (_, _, t) # _ \<Rightarrow> t) # map (\<lambda>(_, _, t). t) evs)"
    using assms(1) by (cases evs) (auto split: prod.splits)
  then obtain t where ok: "log_ok lm t ?log"
    using log_ok_run [of lm _ "[]" evs] assms(2,3)
    by (fastforce simp: log_ok_def log_source_def log_recipient_def log_times_def unit_costs_def)
  have "paid w cost []" for w cost by (simp add: paid_def)
  then have paid: "paid (source_window lm) ss_window_cost ?log" "paid (source_daily_window lm) ss_daily_cost ?log"
    using paid_run [of lm "[]" evs] by simp_all
  have "costs_positive ?log" by (rule costs_positive_run) (simp add: costs_positive_def)
  then have pos: "1 \<le> ss_window_cost e" "1 \<le> ss_daily_cost e" if "e \<in> set (log_source ?log s)" for e
    using that by (auto simp: costs_positive_def log_source_def)
  from ok have bound:
    "sum_list (map ss_window_cost (filter (\<lambda>e. ss_at e \<le> now \<and> now - ss_at e < source_window lm) (log_source ?log s)))
       \<le> source_budget lm"
    "sum_list (map ss_daily_cost (filter (\<lambda>e. ss_at e \<le> now \<and> now - ss_at e < source_daily_window lm) (log_source ?log s)))
       \<le> source_daily_budget lm"
    by (simp_all add: log_ok_def window_bounded_def)
  from order_trans [OF length_le_costs [OF pos(1)] bound(1)]
    order_trans [OF length_le_costs [OF pos(2)] bound(2)] ok bound
  show ?thesis
    unfolding sent count_window spent_log [OF paid(1)] spent_log [OF paid(2)] by (simp add: log_ok_def window_bounded_def)
qed

text \<open>Requests of one source for two recipients, the third of which is over the source's budget.\<close>

definition sample_requests :: "email_request list" where
  "sample_requests =
     [(''net'', ''a'', 0), (''net'', ''b'', 60000000000), (''net'', ''a'', 870000000000)]"

lemmas email_eval = log_source_def log_recipient_def log_times_def email_retries_def
  weighted_retry_after_def count_retry_after_def recipient_cost_def active_def duration_since_def
  saturating_add_def seconds_until_expiry_def ceil_at_least_one_def as_secs_def new_send_def
  default_email_limits_def Let_def

lemma sample_answers: "answers (spec_check_at default_email_limits) [] sample_requests
   = [Some (Inr ()), Some (Inr ()), Some (Inl 30)]"
  by (simp add: sample_requests_def spec_check_at_def email_eval)

theorem email_limiter_refines_log_witness:
  "answers (check_at default_email_limits) empty_email_state sample_requests
   = [Some (Inr ()), Some (Inr ()), Some (Inl 30)]"
  using email_limiter_refines_log [of sample_requests default_email_limits] sample_answers
  by (simp add: sample_requests_def)

text \<open>The first send of the source cost one unit, the second, to another recipient, two.\<close>

theorem email_limits_hold_witness:
  "spent (source_window default_email_limits)
     (accepted sample_requests (answers (check_at default_email_limits) empty_email_state sample_requests)) ''net'' 60000000000 \<le> 3
   \<and> priced (source_window default_email_limits) []
     (accepted sample_requests (answers (check_at default_email_limits) empty_email_state sample_requests))
     = [((''net'', ''a'', 0), 1), ((''net'', ''b'', 60000000000), 2)]"
proof
  show "spent (source_window default_email_limits)
     (accepted sample_requests (answers (check_at default_email_limits) empty_email_state sample_requests)) ''net'' 60000000000 \<le> 3"
    using email_limits_hold [where evs = sample_requests and lm = default_email_limits
        and s = "''net''" and now = 60000000000]
    by (simp add: sample_requests_def default_email_limits_def)
  have "answers (check_at default_email_limits) empty_email_state sample_requests = [Some (Inr ()), Some (Inr ()), Some (Inl 30)]"
    using answers_from_empty [of sample_requests default_email_limits] sample_answers by (simp add: sample_requests_def)
  then show "priced (source_window default_email_limits) []
     (accepted sample_requests (answers (check_at default_email_limits) empty_email_state sample_requests))
     = [((''net'', ''a'', 0), 1), ((''net'', ''b'', 60000000000), 2)]"
    by (simp add: accepted_def) (simp add: sample_requests_def active_def duration_since_def default_email_limits_def)
qed

text \<open>
  The delay of a rejected message can be too short.  With the default limits, a source that
  is told to wait thirty seconds and does so is rejected again: the event whose expiry it waited
  for was also what made the recipient cheap, and the send now costs two units.
\<close>

theorem email_retry_can_be_short:
  "answers (check_at default_email_limits) empty_email_state
     (sample_requests @ [(''net'', ''a'', 870000000000 + 30 * nanos_per_second)])
   = [Some (Inr ()), Some (Inr ()), Some (Inl 30), Some (Inl 60)]"
proof -
  let ?evs = "sample_requests @ [(''net'', ''a'', 870000000000 + 30 * nanos_per_second)]"
  have "answers (check_at default_email_limits) empty_email_state ?evs
        = answers (spec_check_at default_email_limits) [] ?evs"
    by (rule answers_from_empty) (simp add: sample_requests_def)
  also have "\<dots> = [Some (Inr ()), Some (Inr ()), Some (Inl 30), Some (Inl 60)]"
    by (simp add: sample_requests_def spec_check_at_def email_eval)
  finally show ?thesis .
qed

end
