(* ===== verification/Storage.thy ===== *)
theory Storage
  imports Text
begin

text \<open>
  Object storage, \<open>src/storage.rs\<close>: the interface \<open>ObjectStore\<close> as a record of operations, the
  local store on a file system, and the sweep of expired objects.  The file system below the
  store's root is a table of files and a list of directories; a key names the path of its
  components.  File operations fail for the reasons the paths give (a directory in the way, a
  missing file); failures of the disk are not modelled.
\<close>

section \<open>The interface\<close>

record StoredObjectPart =
  sp_key :: string
  sp_size :: u64

datatype store_error =
    UnsafeKey
  | IoError
  | NoFilename
  | WrongPartLength string
  | LengthOverflow

record 's ObjectStore =
  os_put :: "'s \<Rightarrow> time \<Rightarrow> string \<Rightarrow> bytes \<Rightarrow> string option \<Rightarrow> (store_error + unit) \<times> 's"
  os_get :: "'s \<Rightarrow> string \<Rightarrow> store_error + bytes"
  os_get_range :: "'s \<Rightarrow> string \<Rightarrow> nat \<Rightarrow> nat \<Rightarrow> store_error + bytes"
  os_compose :: "'s \<Rightarrow> time \<Rightarrow> string \<Rightarrow> StoredObjectPart list \<Rightarrow> string option \<Rightarrow> (store_error + unit) \<times> 's"
  os_exists :: "'s \<Rightarrow> string \<Rightarrow> store_error + bool"
  os_copy :: "'s \<Rightarrow> time \<Rightarrow> string \<Rightarrow> string \<Rightarrow> string option \<Rightarrow> (store_error + unit) \<times> 's"
  os_delete :: "'s \<Rightarrow> string \<Rightarrow> (store_error + unit) \<times> 's"
  os_delete_older_than :: "'s \<Rightarrow> time \<Rightarrow> string list \<Rightarrow> (store_error + nat) \<times> 's"

section \<open>The default methods of the trait\<close>

definition default_get_range :: "(string \<Rightarrow> store_error + bytes) \<Rightarrow> string \<Rightarrow> nat \<Rightarrow> nat \<Rightarrow> store_error + bytes" where
  "default_get_range get key start len =
     (case get key of
        Inl e \<Rightarrow> Inl e
      | Inr content \<Rightarrow>
          if length content \<le> start \<or> len = 0 then Inr []
          else Inr (take (min (start + len) (length content) - start) (drop start content)))"

fun checked_total :: "u64 \<Rightarrow> StoredObjectPart list \<Rightarrow> u64 option" where
  "checked_total acc [] = Some acc"
| "checked_total acc (p # ps) =
     (if uint acc + uint (sp_size p) < 2 ^ 64 then checked_total (acc + sp_size p) ps else None)"

fun collect_contents :: "(string \<Rightarrow> store_error + bytes) \<Rightarrow> bytes \<Rightarrow> StoredObjectPart list \<Rightarrow> store_error + bytes" where
  "collect_contents get content [] = Inr content"
| "collect_contents get content (p # ps) =
     (case get (sp_key p) of
        Inl e \<Rightarrow> Inl e
      | Inr data \<Rightarrow> if length data \<noteq> unat (sp_size p) then Inl (WrongPartLength (sp_key p))
                   else collect_contents get (content @ data) ps)"

definition collect_parts :: "(string \<Rightarrow> store_error + bytes) \<Rightarrow> StoredObjectPart list \<Rightarrow> store_error + bytes" where
  "collect_parts get parts =
     (case checked_total 0 parts of
        None \<Rightarrow> Inl LengthOverflow
      | Some _ \<Rightarrow> collect_contents get [] parts)"

section \<open>The file system below the root\<close>

type_synonym path = "string list"

record LocalStore =
  ls_files :: "(path \<times> bytes \<times> time) list"
  ls_dirs :: "path list"

definition new_local_store :: LocalStore where
  "new_local_store = \<lparr>ls_files = [], ls_dirs = [[]]\<rparr>"

text \<open>\<open>Path::components\<close> drops empty parts and single dots.\<close>

definition components :: "string \<Rightarrow> path" where
  "components key = filter (\<lambda>c. c \<noteq> '''' \<and> c \<noteq> ''.'') (split_on (CHR ''/'') key)"

definition path_for :: "string \<Rightarrow> store_error + path" where
  "path_for key =
     (if starts_with key ''/'' \<or> list_ex (\<lambda>c. c = ''..'') (components key) then Inl UnsafeKey
      else Inr (components key))"

definition is_file :: "LocalStore \<Rightarrow> path \<Rightarrow> bool" where
  "is_file st p = (map_of (ls_files st) p \<noteq> None)"

definition is_dir :: "LocalStore \<Rightarrow> path \<Rightarrow> bool" where
  "is_dir st p = (p \<in> set (ls_dirs st))"

definition ancestors :: "path \<Rightarrow> path list" where
  "ancestors p = map (\<lambda>n. take n p) [0..<Suc (length p)]"

definition create_dir_all :: "LocalStore \<Rightarrow> path \<Rightarrow> (store_error + unit) \<times> LocalStore" where
  "create_dir_all st p =
     (if list_ex (is_file st) (ancestors p) then (Inl IoError, st)
      else (Inr (), st\<lparr>ls_dirs := ls_dirs st @ filter (\<lambda>q. \<not> is_dir st q) (ancestors p)\<rparr>))"

definition write_file :: "LocalStore \<Rightarrow> time \<Rightarrow> path \<Rightarrow> bytes \<Rightarrow> (store_error + unit) \<times> LocalStore" where
  "write_file st now p content =
     (if is_dir st p \<or> \<not> is_dir st (butlast p) then (Inl IoError, st)
      else (Inr (), st\<lparr>ls_files := AList.update p (content, now) (ls_files st)\<rparr>))"

definition read_file :: "LocalStore \<Rightarrow> path \<Rightarrow> store_error + bytes" where
  "read_file st p = (case map_of (ls_files st) p of None \<Rightarrow> Inl IoError | Some (content, _) \<Rightarrow> Inr content)"

definition remove_file :: "LocalStore \<Rightarrow> path \<Rightarrow> LocalStore" where
  "remove_file st p = st\<lparr>ls_files := AList.delete p (ls_files st)\<rparr>"

section \<open>The local store\<close>

definition local_put ::
  "LocalStore \<Rightarrow> time \<Rightarrow> string \<Rightarrow> bytes \<Rightarrow> string option \<Rightarrow> (store_error + unit) \<times> LocalStore" where
  "local_put st now key content content_type =
     (case path_for key of
        Inl e \<Rightarrow> (Inl e, st)
      | Inr p \<Rightarrow>
          (case create_dir_all st (butlast p) of
             (Inl e, st1) \<Rightarrow> (Inl e, st1)
           | (Inr _, st1) \<Rightarrow> write_file st1 now p content))"

definition local_get :: "LocalStore \<Rightarrow> string \<Rightarrow> store_error + bytes" where
  "local_get st key = (case path_for key of Inl e \<Rightarrow> Inl e | Inr p \<Rightarrow> read_file st p)"

text \<open>\<open>read_exact\<close> fails when the file ends early.\<close>

definition local_get_range :: "LocalStore \<Rightarrow> string \<Rightarrow> nat \<Rightarrow> nat \<Rightarrow> store_error + bytes" where
  "local_get_range st key start len =
     (if len = 0 then Inr []
      else case path_for key of
        Inl e \<Rightarrow> Inl e
      | Inr p \<Rightarrow>
          (case read_file st p of
             Inl e \<Rightarrow> Inl e
           | Inr content \<Rightarrow>
               if start + len \<le> length content then Inr (take len (drop start content)) else Inl IoError))"

definition temporary_path :: "path \<Rightarrow> path" where
  "temporary_path p = butlast p @ [''.'' @ last p @ ''.assembling'']"

text \<open>The loop that copies the parts; \<open>content\<close> is what the temporary file holds.\<close>

fun copy_parts :: "LocalStore \<Rightarrow> bytes \<Rightarrow> StoredObjectPart list \<Rightarrow> store_error + bytes" where
  "copy_parts st content [] = Inr content"
| "copy_parts st content (p # ps) =
     (case path_for (sp_key p) of
        Inl e \<Rightarrow> Inl e
      | Inr source \<Rightarrow>
          (case read_file st source of
             Inl e \<Rightarrow> Inl e
           | Inr data \<Rightarrow> if length data \<noteq> unat (sp_size p) then Inl (WrongPartLength (sp_key p))
                        else copy_parts st (content @ data) ps))"

definition local_compose ::
  "LocalStore \<Rightarrow> time \<Rightarrow> string \<Rightarrow> StoredObjectPart list \<Rightarrow> string option
    \<Rightarrow> (store_error + unit) \<times> LocalStore" where
  "local_compose st now key parts content_type =
     (case path_for key of
        Inl e \<Rightarrow> (Inl e, st)
      | Inr destination \<Rightarrow>
          (case create_dir_all st (butlast destination) of
             (Inl e, st1) \<Rightarrow> (Inl e, st1)
           | (Inr _, st1) \<Rightarrow>
               if destination = [] then (Inl NoFilename, st1)
               else (let temporary = temporary_path destination in
                 case write_file st1 now temporary [] of
                   (Inl e, st2) \<Rightarrow> (Inl e, st2)
                 | (Inr _, st2) \<Rightarrow>
                     (case copy_parts st2 [] parts of
                        Inl e \<Rightarrow> (Inl e, remove_file st2 temporary)
                      | Inr content \<Rightarrow>
                          if is_dir st2 destination then (Inl IoError, remove_file st2 temporary)
                          else (Inr (), (remove_file st2 temporary)
                                 \<lparr>ls_files := AList.update destination (content, now)
                                    (ls_files (remove_file st2 temporary))\<rparr>)))))"

text \<open>\<open>try_exists\<close> reports a file below a file as an error, not as absent.\<close>

definition local_exists :: "LocalStore \<Rightarrow> string \<Rightarrow> store_error + bool" where
  "local_exists st key =
     (case path_for key of
        Inl e \<Rightarrow> Inl e
      | Inr p \<Rightarrow> if is_file st p \<or> is_dir st p then Inr True
                 else if list_ex (is_file st) (ancestors (butlast p)) then Inl IoError
                 else Inr False)"

definition local_copy ::
  "LocalStore \<Rightarrow> time \<Rightarrow> string \<Rightarrow> string \<Rightarrow> string option \<Rightarrow> (store_error + unit) \<times> LocalStore" where
  "local_copy st now source_key destination_key content_type =
     (case local_get st source_key of
        Inl e \<Rightarrow> (Inl e, st)
      | Inr content \<Rightarrow> local_put st now destination_key content content_type)"

definition local_delete :: "LocalStore \<Rightarrow> string \<Rightarrow> (store_error + unit) \<times> LocalStore" where
  "local_delete st key =
     (case path_for key of
        Inl e \<Rightarrow> (Inl e, st)
      | Inr p \<Rightarrow>
          if is_file st p then (Inr (), remove_file st p)
          else if is_dir st p \<or> list_ex (is_file st) (ancestors (butlast p)) then (Inl IoError, st)
          else (Inr (), st))"

section \<open>Expiry\<close>

definition key_is_protected :: "string \<Rightarrow> string list \<Rightarrow> bool" where
  "key_is_protected key protected_prefixes =
     list_ex (\<lambda>prefix.
         let p = trim_matches (CHR ''/'') prefix in
         p \<noteq> '''' \<and> (key = p \<or> starts_with key (p @ ''/''))) protected_prefixes"

fun join_path :: "path \<Rightarrow> string" where
  "join_path [] = ''''"
| "join_path [c] = c"
| "join_path (c # cs) = c @ ''/'' @ join_path cs"

definition replace_backslash :: "string \<Rightarrow> string" where
  "replace_backslash s = map (\<lambda>c. if c = CHR 0x5C then CHR ''/'' else c) s"

definition path_is_protected :: "path \<Rightarrow> string list \<Rightarrow> bool" where
  "path_is_protected p protected_prefixes =
     key_is_protected (replace_backslash (join_path p)) protected_prefixes"

definition in_directory :: "path \<Rightarrow> path \<Rightarrow> bool" where
  "in_directory d p = (p \<noteq> [] \<and> butlast p = d)"

definition expired_file :: "time \<Rightarrow> string list \<Rightarrow> path \<times> bytes \<times> time \<Rightarrow> bool" where
  "expired_file cutoff protected_prefixes f =
     (case f of (p, _, modified) \<Rightarrow> \<not> path_is_protected p protected_prefixes \<and> modified \<le> cutoff)"

text \<open>
  The walk over the directories: a stack of directories to read, the directories visited so far,
  and the number of files removed.  Every directory is pushed once, so fuel for one step per
  directory is enough; the walk gives \<open>None\<close> when fuel runs out.
\<close>

fun sweep_walk ::
  "nat \<Rightarrow> time \<Rightarrow> string list \<Rightarrow> path list \<Rightarrow> path list \<Rightarrow> nat \<Rightarrow> LocalStore
    \<Rightarrow> (path list \<times> nat \<times> LocalStore) option" where
  "sweep_walk fuel cutoff protected [] visited removed st = Some (visited, removed, st)"
| "sweep_walk 0 cutoff protected (d # ds) visited removed st = None"
| "sweep_walk (Suc fuel) cutoff protected (d # ds) visited removed st =
     (let subdirs = filter (\<lambda>q. in_directory d q \<and> \<not> path_is_protected q protected) (ls_dirs st);
          gone = filter (\<lambda>f. in_directory d (fst f) \<and> expired_file cutoff protected f) (ls_files st) in
      sweep_walk fuel cutoff protected (rev subdirs @ ds) (visited @ [d]) (removed + length gone)
        (st\<lparr>ls_files := filter (\<lambda>f. \<not> (in_directory d (fst f) \<and> expired_file cutoff protected f)) (ls_files st)\<rparr>))"

text \<open>\<open>remove_dir\<close> succeeds on an empty directory only.\<close>

definition remove_dir :: "path \<Rightarrow> LocalStore \<Rightarrow> LocalStore" where
  "remove_dir d st =
     (if list_ex (\<lambda>f. in_directory d (fst f)) (ls_files st) \<or> list_ex (in_directory d) (ls_dirs st)
      then st else st\<lparr>ls_dirs := removeAll d (ls_dirs st)\<rparr>)"

definition sweep_directory ::
  "LocalStore \<Rightarrow> time \<Rightarrow> string list \<Rightarrow> (nat \<times> LocalStore) option" where
  "sweep_directory st cutoff protected_prefixes =
     (case sweep_walk (length (ls_dirs st)) cutoff protected_prefixes [[]] [] 0 st of
        None \<Rightarrow> None
      | Some (visited, removed, st1) \<Rightarrow>
          Some (removed, fold remove_dir (filter (\<lambda>d. d \<noteq> []) (rev visited)) st1))"

definition local_delete_older_than ::
  "LocalStore \<Rightarrow> time \<Rightarrow> string list \<Rightarrow> (store_error + nat) \<times> LocalStore" where
  "local_delete_older_than st cutoff protected_prefixes =
     (case sweep_directory st cutoff protected_prefixes of
        None \<Rightarrow> (Inl IoError, st)
      | Some (removed, st1) \<Rightarrow> (Inr removed, st1))"

definition local_store :: "LocalStore ObjectStore" where
  "local_store = \<lparr>os_put = local_put, os_get = local_get, os_get_range = local_get_range,
     os_compose = local_compose, os_exists = local_exists, os_copy = local_copy,
     os_delete = local_delete, os_delete_older_than = local_delete_older_than\<rparr>"

section \<open>Multipart copies on S3\<close>

definition s3_multipart_copy_compatible :: "StoredObjectPart list \<Rightarrow> bool" where
  "s3_multipart_copy_compatible parts =
     (parts \<noteq> [] \<and> length parts \<le> 10000
      \<and> list_all (\<lambda>(index, part). 0 < sp_size part \<and> sp_size part \<le> 5 * 1024 * 1024 * 1024
           \<and> (index + 1 = length parts \<or> 5 * 1024 * 1024 \<le> sp_size part)) (enumerate 0 parts))"

end
