(* ===== verification/Local_Storage.thy ===== *)
theory Local_Storage
  imports Storage "HOL-Library.Sublist"
begin

text \<open>
  The contract of an object store as the locale \<open>object_store\<close>, the local store as its instance,
  and the properties of the local store: its file-system invariant, confinement below the root,
  atomic composition, and the expiry sweep.
\<close>

section \<open>The contract\<close>

text \<open>A file name that is an ordinary path component.\<close>

definition plain :: "string \<Rightarrow> bool" where
  "plain b = (b \<noteq> '''' \<and> b \<noteq> ''.'' \<and> b \<noteq> ''..'' \<and> CHR ''/'' \<notin> set b)"

text \<open>
  \<open>same k k'\<close>: the keys name one object.  \<open>scratch k k'\<close>: composing \<open>k\<close> may overwrite \<open>k'\<close>.
\<close>

locale object_store =
  fixes ops :: "'s ObjectStore"
    and same :: "string \<Rightarrow> string \<Rightarrow> bool"
    and scratch :: "string \<Rightarrow> string \<Rightarrow> bool"
  assumes put_ok: "os_put ops s now k c ct = (Inr (), s') \<Longrightarrow> os_get ops s' k = Inr c"
    and put_frame: "os_put ops s now k c ct = (res, s') \<Longrightarrow> \<not> same k k' \<or> isl res \<Longrightarrow>
      os_get ops s' k' = os_get ops s k'"
    and get_exists: "os_get ops s k = Inr c \<Longrightarrow> os_exists ops s k = Inr True"
    and get_range: "os_get ops s k = Inr c \<Longrightarrow> start + len \<le> length c \<Longrightarrow>
      os_get_range ops s k start len = Inr (take len (drop start c))"
    and compose_ok: "os_compose ops s now k ps ct = (Inr (), s') \<Longrightarrow>
      list_all2 (\<lambda>p c. os_get ops s (sp_key p) = Inr c) ps cs \<Longrightarrow> \<forall>p \<in> set ps. \<not> scratch k (sp_key p) \<Longrightarrow>
      os_get ops s' k = Inr (concat cs)"
    and compose_frame: "os_compose ops s now k ps ct = (res, s') \<Longrightarrow> \<not> same k k' \<or> isl res \<Longrightarrow>
      \<not> scratch k k' \<Longrightarrow> os_get ops s' k' = os_get ops s k'"
    and delete_frame: "os_delete ops s k = (res, s') \<Longrightarrow> \<not> same k k' \<or> isl res \<Longrightarrow>
      os_get ops s' k' = os_get ops s k'"
    and delete_ok: "os_delete ops s k = (Inr (), s') \<Longrightarrow> isl (os_get ops s' k)"
    and same_names: "plain b \<Longrightarrow> plain b' \<Longrightarrow> same (d @ ''/'' @ b) (d' @ ''/'' @ b') \<Longrightarrow> b = b'"
    and scratch_names: "plain b \<Longrightarrow> plain b' \<Longrightarrow> scratch (d @ ''/'' @ b) (d' @ ''/'' @ b') \<Longrightarrow>
      b' = ''.'' @ b @ ''.assembling''"

section \<open>Keys and paths\<close>

lemma components_append: "components (d @ CHR ''/'' # b) = components d @ components b"
  by (simp add: components_def split_on_append)

lemma components_plain: "plain b \<Longrightarrow> components b = [b]"
  by (simp add: components_def plain_def split_on_none)

lemma components_parts: "c \<in> set (components k) \<Longrightarrow> c \<noteq> '''' \<and> c \<noteq> ''.'' \<and> CHR ''/'' \<notin> set c"
  by (auto simp: components_def dest: split_on_parts)

lemma path_for_Inr: "path_for k = Inr p \<longleftrightarrow>
    \<not> starts_with k ''/'' \<and> ''..'' \<notin> set (components k) \<and> p = components k"
  by (auto simp: path_for_def list_ex_iff)

lemma last_component:
  "path_for (d @ ''/'' @ b) = Inr p \<Longrightarrow> plain b \<Longrightarrow> p \<noteq> [] \<and> last p = b"
  by (simp add: path_for_Inr components_append components_plain)

definition same_path :: "string \<Rightarrow> string \<Rightarrow> bool" where
  "same_path k k' = (\<exists>p. path_for k = Inr p \<and> path_for k' = Inr p)"

definition assembles_at :: "string \<Rightarrow> string \<Rightarrow> bool" where
  "assembles_at k k' = (\<exists>p. path_for k = Inr p \<and> path_for k' = Inr (temporary_path p))"

section \<open>Operations seen through the files\<close>

lemma create_dir_all_files: "create_dir_all st p = (res, st') \<Longrightarrow> ls_files st' = ls_files st"
  by (auto simp: create_dir_all_def split: if_splits)

lemma write_file_cases:
  "write_file st now p c = (res, st') \<Longrightarrow>
   (isl res \<and> st' = st) \<or> (res = Inr () \<and> \<not> is_dir st p
      \<and> st' = st\<lparr>ls_files := AList.update p (c, now) (ls_files st)\<rparr>)"
  by (auto simp: write_file_def split: if_splits)

lemma local_get_eq:
  "local_get st k = (case path_for k of Inl e \<Rightarrow> Inl e | Inr p \<Rightarrow>
     (case map_of (ls_files st) p of None \<Rightarrow> Inl IoError | Some (c, _) \<Rightarrow> Inr c))"
  by (simp add: local_get_def read_file_def split: sum.split)

lemma local_get_cong:
  "(\<And>p. path_for k = Inr p \<Longrightarrow> map_of (ls_files st) p = map_of (ls_files st') p) \<Longrightarrow>
   local_get st k = local_get st' k"
  by (simp add: local_get_eq split: sum.split)

lemma local_put_files:
  assumes "local_put st now k c ct = (res, st')"
  shows "(isl res \<and> ls_files st' = ls_files st)
         \<or> (\<exists>p. path_for k = Inr p \<and> res = Inr () \<and> ls_files st' = AList.update p (c, now) (ls_files st))"
proof (cases "path_for k")
  case (Inl e)
  with assms show ?thesis by (auto simp: local_put_def)
next
  case (Inr p)
  obtain r1 st1 where c1: "create_dir_all st (butlast p) = (r1, st1)" by force
  note files = create_dir_all_files [OF c1]
  show ?thesis
  proof (cases r1)
    case (Inl e)
    with assms Inr c1 files show ?thesis by (auto simp: local_put_def)
  next
    case (Inr u)
    with assms \<open>path_for k = Inr p\<close> c1 have "write_file st1 now p c = (res, st')"
      by (simp add: local_put_def)
    from write_file_cases [OF this] files \<open>path_for k = Inr p\<close> show ?thesis by auto
  qed
qed

lemma copy_parts_Inr:
  "copy_parts st acc ps = Inr content \<longleftrightarrow>
   (\<exists>cs. content = acc @ concat cs
      \<and> list_all2 (\<lambda>p c. local_get st (sp_key p) = Inr c \<and> length c = unat (sp_size p)) ps cs)"
proof (induction ps arbitrary: acc)
  case Nil
  then show ?case by auto
next
  case (Cons p ps)
  show ?case
  proof (cases "local_get st (sp_key p)")
    case (Inl e)
    then show ?thesis
      by (auto simp: local_get_def list_all2_Cons1 split: sum.splits)
  next
    case (Inr data)
    then have step: "copy_parts st acc (p # ps) =
        (if length data \<noteq> unat (sp_size p) then Inl (WrongPartLength (sp_key p))
         else copy_parts st (acc @ data) ps)"
      by (auto simp: local_get_def split: sum.splits)
    let ?R = "\<lambda>p c. local_get st (sp_key p) = Inr c \<and> length c = unat (sp_size p)"
    have "(\<exists>cs. content = acc @ concat cs \<and> list_all2 ?R (p # ps) cs)
          \<longleftrightarrow> length data = unat (sp_size p) \<and> (\<exists>cs. content = (acc @ data) @ concat cs \<and> list_all2 ?R ps cs)"
    proof (intro iffI; elim exE conjE)
      fix cs
      assume "content = acc @ concat cs" "list_all2 ?R (p # ps) cs"
      then show "length data = unat (sp_size p) \<and> (\<exists>cs. content = (acc @ data) @ concat cs \<and> list_all2 ?R ps cs)"
        using Inr by (auto simp: list_all2_Cons1)
    next
      fix cs
      assume "length data = unat (sp_size p)" "content = (acc @ data) @ concat cs" "list_all2 ?R ps cs"
      then have "content = acc @ concat (data # cs)" "list_all2 ?R (p # ps) (data # cs)"
        using Inr by simp_all
      then show "\<exists>cs. content = acc @ concat cs \<and> list_all2 ?R (p # ps) cs" by blast
    qed
    then show ?thesis unfolding step by (simp add: Cons.IH)
  qed
qed

lemma local_compose_files:
  assumes "local_compose st now k ps ct = (res, st')"
  shows "(isl res \<and> (\<forall>p q. path_for k = Inr p \<longrightarrow> q \<noteq> temporary_path p \<longrightarrow>
            map_of (ls_files st') q = map_of (ls_files st) q)
           \<and> ((\<exists>e. path_for k = Inl e) \<longrightarrow> st' = st))
         \<or> (\<exists>p st2 content. path_for k = Inr p \<and> p \<noteq> [] \<and> res = Inr ()
              \<and> ls_files st2 = AList.update (temporary_path p) ([], now) (ls_files st)
              \<and> copy_parts st2 [] ps = Inr content
              \<and> ls_files st' = AList.update p (content, now) (AList.delete (temporary_path p) (ls_files st2)))"
proof (cases "path_for k")
  case (Inl e)
  with assms show ?thesis by (auto simp: local_compose_def)
next
  case k: (Inr p)
  obtain r1 st1 where c1: "create_dir_all st (butlast p) = (r1, st1)" by force
  note files1 = create_dir_all_files [OF c1]
  show ?thesis
  proof (cases "isl r1 \<or> p = []")
    case True
    with assms k c1 files1 show ?thesis by (auto simp: local_compose_def split: sum.splits)
  next
    case False
    then have p: "p \<noteq> []" "r1 = Inr ()" by (cases r1; simp)+
    let ?t = "temporary_path p"
    obtain r2 st2 where w: "write_file st1 now ?t [] = (r2, st2)" by force
    show ?thesis
    proof (cases r2)
      case (Inl e)
      with write_file_cases [OF w] assms k c1 p w files1 show ?thesis
        by (auto simp: local_compose_def)
    next
      case (Inr u)
      with write_file_cases [OF w] files1
      have files2: "ls_files st2 = AList.update ?t ([], now) (ls_files st)" by auto
      show ?thesis
      proof (cases "copy_parts st2 [] ps")
        case (Inl e)
        with assms k c1 p w Inr files2 show ?thesis
          by (auto simp: local_compose_def remove_file_def delete_conv' update_conv' Let_def)
      next
        case copied: (Inr content)
        show ?thesis
        proof (cases "is_dir st2 p")
          case True
          with assms k c1 p w Inr files2 copied show ?thesis
            by (auto simp: local_compose_def remove_file_def delete_conv' update_conv' Let_def)
        next
          case False
          then have "res = Inr ()"
            "ls_files st' = AList.update p (content, now) (AList.delete ?t (ls_files st2))"
            using assms k c1 p w Inr copied by (auto simp: local_compose_def remove_file_def Let_def)
          with k p files2 copied show ?thesis by blast
        qed
      qed
    qed
  qed
qed

lemma local_delete_files:
  assumes "local_delete st k = (res, st')"
  shows "(isl res \<and> st' = st)
         \<or> (\<exists>p. path_for k = Inr p \<and> res = Inr () \<and> map_of (ls_files st') = (map_of (ls_files st))(p := None))"
proof (cases "path_for k")
  case (Inr p)
  have "(map_of (ls_files st))(p := None) = map_of (ls_files st)" if "\<not> is_file st p"
    using that by (intro fun_upd_idem) (simp add: is_file_def del: not_None_eq)
  with Inr assms show ?thesis
    by (auto simp: local_delete_def remove_file_def delete_conv' split: if_splits)
qed (use assms in \<open>auto simp: local_delete_def\<close>)

section \<open>The local store as an object store\<close>

lemma local_store_simps [simp]:
  "os_put local_store = local_put" "os_get local_store = local_get"
  "os_get_range local_store = local_get_range" "os_compose local_store = local_compose"
  "os_exists local_store = local_exists" "os_delete local_store = local_delete"
  "os_copy local_store = local_copy" "os_delete_older_than local_store = local_delete_older_than"
  by (simp_all add: local_store_def)

lemma local_compose_ok:
  assumes "local_compose st now k ps ct = (Inr (), st')"
    and "list_all2 (\<lambda>p c. local_get st (sp_key p) = Inr c) ps cs"
    and "\<forall>p \<in> set ps. \<not> assembles_at k (sp_key p)"
  shows "local_get st' k = Inr (concat cs)"
proof -
  from local_compose_files [OF assms(1)] obtain p st2 content where
    k: "path_for k = Inr p" and files2: "ls_files st2 = AList.update (temporary_path p) ([], now) (ls_files st)"
    and copied: "copy_parts st2 [] ps = Inr content"
    and files: "ls_files st' = AList.update p (content, now) (AList.delete (temporary_path p) (ls_files st2))"
    by auto
  have same: "local_get st2 (sp_key part) = local_get st (sp_key part)" if "part \<in> set ps" for part
    using that assms(3) k
    by (intro local_get_cong) (auto simp: files2 update_conv' assembles_at_def)
  from copied obtain ds where ds: "content = concat ds"
    "list_all2 (\<lambda>p c. local_get st2 (sp_key p) = Inr c \<and> length c = unat (sp_size p)) ps ds"
    by (auto simp: copy_parts_Inr)
  have "ds = cs"
  proof (rule nth_equalityI)
    show "length ds = length cs" using ds(2) assms(2) by (auto simp: list_all2_conv_all_nth)
    show "ds ! i = cs ! i" if "i < length ds" for i
      using ds(2) assms(2) that same by (auto simp: list_all2_conv_all_nth)
  qed
  with k files ds(1) show ?thesis by (simp add: local_get_eq update_conv')
qed

interpretation local_disk: object_store local_store same_path assembles_at
proof (unfold_locales, unfold local_store_simps)
  fix s s' :: LocalStore and now k k' c ct res
  show "local_put s now k c ct = (Inr (), s') \<Longrightarrow> local_get s' k = Inr c"
    by (drule local_put_files) (auto simp: local_get_eq update_conv')
  show "local_put s now k c ct = (res, s') \<Longrightarrow> \<not> same_path k k' \<or> isl res \<Longrightarrow>
      local_get s' k' = local_get s k'"
    by (drule local_put_files) (auto intro!: local_get_cong simp: update_conv' same_path_def)
next
  fix s k c
  show "local_get s k = Inr c \<Longrightarrow> local_exists s k = Inr True"
    by (auto simp: local_get_eq local_exists_def is_file_def split: sum.splits option.splits)
next
  fix s k c start len
  show "local_get s k = Inr c \<Longrightarrow> start + len \<le> length c \<Longrightarrow>
      local_get_range s k start len = Inr (take len (drop start c))"
    by (auto simp: local_get_def local_get_range_def split: sum.splits)
next
  fix s s' now k k' ct res and ps :: "StoredObjectPart list" and cs
  show "local_compose s now k ps ct = (Inr (), s') \<Longrightarrow>
      list_all2 (\<lambda>p c. local_get s (sp_key p) = Inr c) ps cs \<Longrightarrow>
      \<forall>p \<in> set ps. \<not> assembles_at k (sp_key p) \<Longrightarrow> local_get s' k = Inr (concat cs)"
    by (rule local_compose_ok)
  show "local_compose s now k ps ct = (res, s') \<Longrightarrow> \<not> same_path k k' \<or> isl res \<Longrightarrow>
      \<not> assembles_at k k' \<Longrightarrow> local_get s' k' = local_get s k'"
    by (cases "path_for k"; drule local_compose_files, intro local_get_cong)
      (auto simp: update_conv' delete_conv' same_path_def assembles_at_def)
next
  fix s s' k k' res
  show "local_delete s k = (res, s') \<Longrightarrow> \<not> same_path k k' \<or> isl res \<Longrightarrow>
      local_get s' k' = local_get s k'"
    by (drule local_delete_files) (auto intro!: local_get_cong simp: same_path_def)
  show "local_delete s k = (Inr (), s') \<Longrightarrow> isl (local_get s' k)"
    by (drule local_delete_files) (auto simp: local_get_eq)
next
  fix b b' d d'
  show "plain b \<Longrightarrow> plain b' \<Longrightarrow> same_path (d @ ''/'' @ b) (d' @ ''/'' @ b') \<Longrightarrow> b = b'"
    unfolding same_path_def by (metis last_component)
  show "plain b \<Longrightarrow> plain b' \<Longrightarrow> assembles_at (d @ ''/'' @ b) (d' @ ''/'' @ b') \<Longrightarrow>
      b' = ''.'' @ b @ ''.assembling''"
    unfolding assembles_at_def using last_component by (fastforce simp: temporary_path_def)
qed

section \<open>The expiry sweep\<close>

text \<open>Paths below a protected path are protected.\<close>

lemma join_path_append:
  "p \<noteq> [] \<Longrightarrow> q \<noteq> [] \<Longrightarrow> join_path (p @ q) = join_path p @ ''/'' @ join_path q"
proof (induction p rule: join_path.induct)
  case (2 c)
  then show ?case by (cases q) auto
qed auto

lemma protected_below:
  assumes "path_is_protected p prot" "p \<noteq> []"
  shows "path_is_protected (p @ q) prot"
proof (cases "q = []")
  case False
  have slash: "replace_backslash (a @ ''/'' @ b) = replace_backslash a @ ''/'' @ replace_backslash b" for a b
    by (simp add: replace_backslash_def)
  let ?k = "replace_backslash (join_path p)"
  from assms(1) obtain pre where pre: "pre \<in> set prot" "trim_matches (CHR ''/'') pre \<noteq> ''''"
    "?k = trim_matches (CHR ''/'') pre \<or> starts_with ?k (trim_matches (CHR ''/'') pre @ ''/'')"
    by (auto simp: path_is_protected_def key_is_protected_def list_ex_iff Let_def)
  have "starts_with (?k @ ''/'' @ replace_backslash (join_path q)) (trim_matches (CHR ''/'') pre @ ''/'')"
    using pre(3) by (auto simp: starts_with_iff)
  with pre(1,2) show ?thesis
    unfolding path_is_protected_def key_is_protected_def join_path_append [OF assms(2) False] slash
    by (auto simp: list_ex_iff Let_def)
qed (use assms in simp)

text \<open>The directories below the stack that the walk still has to read.\<close>

definition to_visit :: "LocalStore \<Rightarrow> string list \<Rightarrow> path list \<Rightarrow> path set" where
  "to_visit st prot stack =
     {q \<in> set (ls_dirs st). \<exists>d \<in> set stack. prefix d q
        \<and> (\<forall>n. length d < n \<and> n \<le> length q \<longrightarrow> \<not> path_is_protected (take n q) prot)}"

definition antichain :: "path list \<Rightarrow> bool" where
  "antichain stack = (distinct stack \<and> (\<forall>d \<in> set stack. \<forall>e \<in> set stack. prefix d e \<longrightarrow> d = e))"

definition dirs_closed :: "LocalStore \<Rightarrow> bool" where
  "dirs_closed st = (distinct (ls_dirs st) \<and> [] \<in> set (ls_dirs st)
     \<and> (\<forall>d \<in> set (ls_dirs st). butlast d \<in> set (ls_dirs st)))"

abbreviation subdirs :: "LocalStore \<Rightarrow> string list \<Rightarrow> path \<Rightarrow> path list" where
  "subdirs st prot d \<equiv> filter (\<lambda>q. in_directory d q \<and> \<not> path_is_protected q prot) (ls_dirs st)"

lemma in_directory_iff: "in_directory d q \<longleftrightarrow> (\<exists>x. q = d @ [x])"
  by (auto simp: in_directory_def) (metis append_butlast_last_id)

lemma closed_take:
  "dirs_closed st \<Longrightarrow> d \<in> set (ls_dirs st) \<Longrightarrow> take n d \<in> set (ls_dirs st)"
proof (induction "length d - n" arbitrary: n)
  case 0
  then show ?case by simp
next
  case (Suc k)
  then have "n < length d" by simp
  with Suc have "take (Suc n) d \<in> set (ls_dirs st)" by simp
  then have "butlast (take (Suc n) d) \<in> set (ls_dirs st)"
    using Suc.prems(1) by (auto simp: dirs_closed_def)
  with \<open>n < length d\<close> show ?case by (simp add: butlast_take)
qed

lemma antichain_push:
  assumes "antichain (d # ds)" "dirs_closed st"
  shows "antichain (rev (subdirs st prot d) @ ds)"
proof -
  have fresh: "\<not> prefix e (d @ [x])" "\<not> prefix (d @ [x]) e" if "e \<in> set ds" for e x
  proof -
    from that assms(1) have ne: "e \<noteq> d" "\<not> prefix e d" "\<not> prefix d e" by (auto simp: antichain_def)
    then show "\<not> prefix e (d @ [x])" by (auto simp: prefix_snoc)
    show "\<not> prefix (d @ [x]) e" using ne(3) by (meson append_prefixD)
  qed
  with assms show ?thesis
    by (auto simp: antichain_def dirs_closed_def in_directory_iff)
qed

lemma to_visit_pop:
  assumes "antichain (d # ds)" "dirs_closed st" "d \<in> set (ls_dirs st)"
  shows "to_visit st prot (d # ds) = insert d (to_visit st prot (rev (subdirs st prot d) @ ds))"
    and "d \<notin> to_visit st prot (rev (subdirs st prot d) @ ds)"
proof -
  show "to_visit st prot (d # ds) = insert d (to_visit st prot (rev (subdirs st prot d) @ ds))" (is "?l = ?r")
  proof
    show "?l \<subseteq> ?r"
    proof
      fix q
      assume "q \<in> ?l"
      then obtain e where e: "q \<in> set (ls_dirs st)" "e \<in> set (d # ds)" "prefix e q"
        "\<forall>n. length e < n \<and> n \<le> length q \<longrightarrow> \<not> path_is_protected (take n q) prot"
        by (auto simp: to_visit_def)
      show "q \<in> ?r"
      proof (cases "e = d \<and> q \<noteq> d")
        case True
        then have len: "length d < length q" using e(3) by (auto simp: prefix_def)
        have sub: "take (Suc (length d)) q = d @ [q ! length d]"
          using e(3) len True by (auto simp: prefix_def take_Suc_conv_app_nth)
        have "d @ [q ! length d] \<in> set (subdirs st prot d)"
          using closed_take [OF assms(2) e(1), of "Suc (length d)"] e(4) True len
          by (auto simp: sub [symmetric] in_directory_iff) (auto simp: sub)
        moreover have "prefix (d @ [q ! length d]) q" unfolding sub [symmetric] by (rule take_is_prefix)
        ultimately show ?thesis using e(1,4) True by (auto simp: to_visit_def intro!: bexI)
      next
        case False
        with e show ?thesis by (auto simp: to_visit_def)
      qed
    qed
  next
    show "?r \<subseteq> ?l"
    proof
      fix q
      assume "q \<in> ?r"
      then consider "q = d" | "q \<in> to_visit st prot ds"
        | x where "d @ [x] \<in> set (subdirs st prot d)" "q \<in> to_visit st prot [d @ [x]]"
        by (auto simp: to_visit_def in_directory_iff)
      then show "q \<in> ?l"
      proof cases
        case 1
        then show ?thesis using assms(3) by (auto simp: to_visit_def)
      next
        case 2
        then show ?thesis by (auto simp: to_visit_def)
      next
        case (3 x)
        then have q: "q \<in> set (ls_dirs st)" "prefix (d @ [x]) q"
          "\<forall>n. Suc (length d) < n \<and> n \<le> length q \<longrightarrow> \<not> path_is_protected (take n q) prot"
          by (auto simp: to_visit_def)
        have "take (Suc (length d)) q = d @ [x]" using q(2) by (auto simp: prefix_def)
        with 3(1) q(3) have "\<not> path_is_protected (take n q) prot" if "length d < n" "n \<le> length q" for n
          using that by (cases "n = Suc (length d)") auto
        moreover have "prefix d q" using q(2) by (meson append_prefixD)
        ultimately show ?thesis using q(1) by (auto simp: to_visit_def)
      qed
    qed
  qed
  show "d \<notin> to_visit st prot (rev (subdirs st prot d) @ ds)"
    using assms(1) by (auto simp: to_visit_def antichain_def in_directory_iff)
qed

text \<open>With fuel for every directory left, the walk visits each of them once.\<close>

lemma sweep_walk_result:
  assumes "antichain stack" "dirs_closed st" "set stack \<subseteq> set (ls_dirs st)"
    and "card (to_visit st prot stack) \<le> fuel"
  shows "\<exists>visited'. sweep_walk fuel cutoff prot stack visited removed st =
    (let gone = (\<lambda>f. fst f \<noteq> [] \<and> butlast (fst f) \<in> to_visit st prot stack \<and> expired_file cutoff prot f) in
     Some (visited @ visited', removed + length (filter gone (ls_files st)),
           st\<lparr>ls_files := filter (\<lambda>f. \<not> gone f) (ls_files st)\<rparr>)) \<and> set visited' \<subseteq> set (ls_dirs st)"
  using assms
proof (induction fuel arbitrary: stack visited removed st)
  case 0
  have "finite (to_visit st prot stack)" by (simp add: to_visit_def)
  with 0 have none: "to_visit st prot stack = {}" by simp
  moreover have "set stack \<subseteq> to_visit st prot stack" using 0(3) by (auto simp: to_visit_def)
  ultimately have "stack = []" by auto
  then show ?case by (simp add: to_visit_def)
next
  case (Suc fuel)
  show ?case
  proof (cases stack)
    case Nil
    then show ?thesis by (simp add: to_visit_def)
  next
    case (Cons d ds)
    let ?here = "\<lambda>f. in_directory d (fst f) \<and> expired_file cutoff prot f"
    let ?st = "st\<lparr>ls_files := filter (\<lambda>f. \<not> ?here f) (ls_files st)\<rparr>"
    let ?stack = "rev (subdirs st prot d) @ ds"
    have d: "d \<in> set (ls_dirs st)" and anti: "antichain (d # ds)" using Suc.prems Cons by auto
    note pop = to_visit_pop [OF anti Suc.prems(2) d, of prot]
    have tv: "to_visit ?st prot ?stack = to_visit st prot ?stack" by (simp add: to_visit_def)
    have fin: "finite (to_visit st prot ?stack)" by (simp add: to_visit_def)
    have "card (to_visit ?st prot ?stack) \<le> fuel"
      using Suc.prems(4) pop fin unfolding Cons tv by simp
    moreover have "antichain ?stack" using anti Suc.prems(2) by (rule antichain_push)
    moreover have "dirs_closed ?st" using Suc.prems(2) by (simp add: dirs_closed_def)
    moreover have "set ?stack \<subseteq> set (ls_dirs ?st)" using Suc.prems(3) Cons by auto
    ultimately obtain visited' where IH: "sweep_walk fuel cutoff prot ?stack (visited @ [d])
        (removed + length (filter ?here (ls_files st))) ?st =
      (let gone = (\<lambda>f. fst f \<noteq> [] \<and> butlast (fst f) \<in> to_visit ?st prot ?stack \<and> expired_file cutoff prot f) in
       Some ((visited @ [d]) @ visited',
             removed + length (filter ?here (ls_files st)) + length (filter gone (ls_files ?st)),
             ?st\<lparr>ls_files := filter (\<lambda>f. \<not> gone f) (ls_files ?st)\<rparr>))" "set visited' \<subseteq> set (ls_dirs ?st)"
      using Suc.IH [of ?stack ?st "visited @ [d]" "removed + length (filter ?here (ls_files st))"] by blast
    let ?gone = "\<lambda>f. fst f \<noteq> [] \<and> butlast (fst f) \<in> to_visit st prot (d # ds) \<and> expired_file cutoff prot f"
    let ?rest = "\<lambda>f. fst f \<noteq> [] \<and> butlast (fst f) \<in> to_visit st prot ?stack \<and> expired_file cutoff prot f"
    have split: "?gone f \<longleftrightarrow> ?here f \<or> ?rest f" "\<not> (?here f \<and> ?rest f)" for f
      unfolding pop(1) using pop(2) by (auto simp: in_directory_def)
    have len: "length (filter ?gone fs) = length (filter ?here fs) + length (filter ?rest (filter (\<lambda>f. \<not> ?here f) fs))"
      for fs
      using split by (induction fs) auto
    have "filter (\<lambda>f. \<not> ?gone f) fs = filter (\<lambda>f. \<not> ?rest f) (filter (\<lambda>f. \<not> ?here f) fs)" for fs
      using split by (induction fs) auto
    with IH len d show ?thesis
      unfolding Cons tv Let_def
      by (intro exI [of _ "d # visited'"]) (simp add: Let_def)
  qed
qed

section \<open>The file-system invariant\<close>

text \<open>
  Directories are closed under parents; every file lies in a directory, is listed once, and is
  not a directory.
\<close>

definition fs_ok :: "LocalStore \<Rightarrow> bool" where
  "fs_ok st = (dirs_closed st \<and> distinct (map fst (ls_files st))
     \<and> (\<forall>p \<in> fst ` set (ls_files st). p \<noteq> [] \<and> butlast p \<in> set (ls_dirs st) \<and> p \<notin> set (ls_dirs st)))"

lemma ancestors_iff: "q \<in> set (ancestors p) \<longleftrightarrow> prefix q p"
proof
  show "q \<in> set (ancestors p) \<Longrightarrow> prefix q p" by (auto simp: ancestors_def take_is_prefix)
  assume "prefix q p"
  then have "q = take (length q) p" "length q \<le> length p" by (auto simp: prefix_def)
  then show "q \<in> set (ancestors p)" unfolding ancestors_def set_map set_upt by (metis atLeast0LessThan image_eqI le_imp_less_Suc lessThan_iff)
qed

lemma distinct_ancestors: "distinct (ancestors p)"
proof -
  have "inj_on (\<lambda>n. take n p) {0..<Suc (length p)}"
    by (rule inj_onI) (auto dest!: arg_cong [where f = length])
  then show ?thesis by (simp add: ancestors_def distinct_map del: upt_Suc)
qed

lemma fs_ok_create_dir_all:
  assumes "fs_ok st" "create_dir_all st p = (res, st')"
  shows "fs_ok st'" and "res = Inr () \<Longrightarrow> is_dir st' p"
proof -
  have closed: "dirs_closed st" using assms(1) by (simp add: fs_ok_def)
  have parents: "prefix (butlast q) p" if "prefix q p" for q
    using that by (meson prefixeq_butlast prefix_order.trans)
  show "fs_ok st'"
  proof (cases "list_ex (is_file st) (ancestors p)")
    case True
    with assms show ?thesis by (simp add: create_dir_all_def)
  next
    case False
    then have new: "\<forall>q. prefix q p \<longrightarrow> q \<notin> fst ` set (ls_files st)"
      by (simp add: list_ex_iff ancestors_iff is_file_def map_of_eq_None_iff)
    have "st' = st\<lparr>ls_dirs := ls_dirs st @ filter (\<lambda>q. \<not> is_dir st q) (ancestors p)\<rparr>"
      using assms(2) False by (simp add: create_dir_all_def)
    then have dirs: "set (ls_dirs st') = set (ls_dirs st) \<union> {q. prefix q p}"
      and dist: "distinct (ls_dirs st')" and files: "ls_files st' = ls_files st"
      using closed by (auto simp: is_dir_def ancestors_iff dirs_closed_def distinct_ancestors)
    have "dirs_closed st'"
      using closed dist parents by (auto simp: dirs_closed_def dirs)
    with assms(1) new show ?thesis by (auto simp: fs_ok_def dirs files)
  qed
  show "res = Inr () \<Longrightarrow> is_dir st' p"
    using assms(2) by (auto simp: create_dir_all_def is_dir_def ancestors_iff split: if_splits)
qed

lemma fs_ok_write_file:
  assumes "fs_ok st" "write_file st now p c = (res, st')"
  shows "fs_ok st'"
proof -
  have "[] \<in> set (ls_dirs st)" using assms(1) by (simp add: fs_ok_def dirs_closed_def)
  with assms show ?thesis
    by (auto simp: write_file_def fs_ok_def dirs_closed_def is_dir_def distinct_update
        dest!: subsetD [OF set_AList_update] split: if_splits) (metis fst_conv)+
qed

lemma fs_ok_filter_files: "fs_ok st \<Longrightarrow> fs_ok (st\<lparr>ls_files := filter P (ls_files st)\<rparr>)"
  by (auto simp: fs_ok_def dirs_closed_def distinct_map_filter)

lemma fs_ok_remove_file: "fs_ok st \<Longrightarrow> fs_ok (remove_file st p)"
  unfolding remove_file_def AList.delete_eq by (rule fs_ok_filter_files)

lemma fs_ok_local_put: "fs_ok st \<Longrightarrow> fs_ok (snd (local_put st now k c ct))"
proof (cases "path_for k")
  case (Inr p)
  assume ok: "fs_ok st"
  obtain r1 st1 where c1: "create_dir_all st (butlast p) = (r1, st1)" by force
  obtain r2 st2 where w: "write_file st1 now p c = (r2, st2)" by force
  from fs_ok_create_dir_all(1) [OF ok c1] fs_ok_write_file [OF _ w] Inr c1 w show ?thesis
    by (cases r1) (simp_all add: local_put_def)
qed (simp add: local_put_def)

lemma fs_ok_local_copy: "fs_ok st \<Longrightarrow> fs_ok (snd (local_copy st now k k' ct))"
  by (auto simp: local_copy_def fs_ok_local_put split: sum.split)

lemma fs_ok_local_delete: "fs_ok st \<Longrightarrow> fs_ok (snd (local_delete st k))"
  by (auto simp: local_delete_def fs_ok_remove_file split: sum.split)

lemma fs_ok_local_compose: "fs_ok st \<Longrightarrow> fs_ok (snd (local_compose st now k ps ct))"
proof (cases "path_for k")
  case (Inr p)
  assume ok: "fs_ok st"
  obtain r1 st1 where c1: "create_dir_all st (butlast p) = (r1, st1)" by force
  note ok1 = fs_ok_create_dir_all [OF ok c1]
  obtain r2 st2 where w: "write_file st1 now (temporary_path p) [] = (r2, st2)" by force
  have ok2: "fs_ok st2" using ok1(1) w by (rule fs_ok_write_file)
  have dir2: "is_dir st2 (butlast p)" if "r1 = Inr ()"
    using ok1(2) [OF that] write_file_cases [OF w] by (auto simp: is_dir_def)
  let ?st3 = "remove_file st2 (temporary_path p)"
  have ok3: "fs_ok ?st3" using ok2 by (rule fs_ok_remove_file)
  have "fs_ok (?st3\<lparr>ls_files := AList.update p (c, now) (ls_files ?st3)\<rparr>)"
    if "r1 = Inr ()" "p \<noteq> []" "\<not> is_dir st2 p" for c
  proof -
    have "write_file ?st3 now p c = (Inr (), ?st3\<lparr>ls_files := AList.update p (c, now) (ls_files ?st3)\<rparr>)"
      using dir2 that by (simp add: write_file_def is_dir_def remove_file_def)
    with ok3 show ?thesis by (rule fs_ok_write_file)
  qed
  with ok1 ok2 ok3 show ?thesis
    by (cases r1; cases r2) (auto simp: local_compose_def Inr c1 w Let_def split: sum.split)
qed (simp add: local_compose_def)

lemma ls_files_remove_dir [simp]: "ls_files (remove_dir d st) = ls_files st"
  by (simp add: remove_dir_def)

lemma fs_ok_remove_dir: "fs_ok st \<Longrightarrow> d \<noteq> [] \<Longrightarrow> fs_ok (remove_dir d st)"
  by (force simp: fs_ok_def remove_dir_def dirs_closed_def list_ex_iff in_directory_def distinct_removeAll
      split: if_splits)

lemma remove_dirs:
  "fs_ok st \<Longrightarrow> [] \<notin> set ds \<Longrightarrow> fs_ok (fold remove_dir ds st) \<and> ls_files (fold remove_dir ds st) = ls_files st"
proof (induction ds arbitrary: st)
  case Nil
  then show ?case by simp
next
  case (Cons d ds)
  with fs_ok_remove_dir [of st d] Cons.IH [of "remove_dir d st"] show ?case by auto
qed

lemma sweep_directory_result:
  assumes "fs_ok st"
  shows "\<exists>st'. sweep_directory st cutoff prot
     = Some (length (filter (expired_file cutoff prot) (ls_files st)), st')
     \<and> ls_files st' = filter (\<lambda>f. \<not> expired_file cutoff prot f) (ls_files st) \<and> fs_ok st'"
proof -
  have closed: "dirs_closed st" using assms by (simp add: fs_ok_def)
  have "card (to_visit st prot [[]]) \<le> card (set (ls_dirs st))"
    by (intro card_mono) (auto simp: to_visit_def)
  also have "\<dots> \<le> length (ls_dirs st)" by (rule card_length)
  finally have fuel: "card (to_visit st prot [[]]) \<le> length (ls_dirs st)" .
  have seen: "fst f \<noteq> [] \<and> butlast (fst f) \<in> to_visit st prot [[]] \<and> expired_file cutoff prot f
              \<longleftrightarrow> expired_file cutoff prot f" if "f \<in> set (ls_files st)" for f
  proof -
    have fl: "fst f \<noteq> []" "butlast (fst f) \<in> set (ls_dirs st)"
      using assms that by (auto simp: fs_ok_def)
    have "\<not> path_is_protected (take n (butlast (fst f))) prot"
      if "expired_file cutoff prot f" "0 < n" "n \<le> length (butlast (fst f))" for n
    proof
      assume "path_is_protected (take n (butlast (fst f))) prot"
      moreover have "take n (butlast (fst f)) \<noteq> []" using that(2,3) fl(1) by (cases "fst f") auto
      ultimately have "path_is_protected (take n (butlast (fst f)) @ drop n (butlast (fst f)) @ [last (fst f)]) prot"
        by (rule protected_below)
      also have "take n (butlast (fst f)) @ drop n (butlast (fst f)) @ [last (fst f)] = fst f"
        using fl(1) by (metis append_assoc append_butlast_last_id append_take_drop_id)
      finally show False using that(1) by (cases f) (auto simp: expired_file_def)
    qed
    with fl show ?thesis by (auto simp: to_visit_def)
  qed
  let ?st1 = "st\<lparr>ls_files := filter (\<lambda>f. \<not> expired_file cutoff prot f) (ls_files st)\<rparr>"
  have "antichain [[]]" "set [[]] \<subseteq> set (ls_dirs st)" using closed by (auto simp: antichain_def dirs_closed_def)
  from sweep_walk_result [OF this(1) closed this(2) fuel, of cutoff "[]" 0] obtain visited where
    walk: "sweep_walk (length (ls_dirs st)) cutoff prot [[]] [] 0 st
      = Some (visited, length (filter (expired_file cutoff prot) (ls_files st)), ?st1)"
    by (auto simp: Let_def seen cong: filter_cong)
  have ok1: "fs_ok ?st1" using assms by (rule fs_ok_filter_files)
  from remove_dirs [OF ok1, of "filter (\<lambda>d. d \<noteq> []) (rev visited)"] walk show ?thesis
    by (simp add: sweep_directory_def)
qed

section \<open>Properties\<close>

definition contents :: "LocalStore \<Rightarrow> path \<Rightarrow> bytes option" where
  "contents st p = map_option fst (map_of (ls_files st) p)"

lemma local_get_contents:
  "local_get st k = (case path_for k of Inl e \<Rightarrow> Inl e | Inr p \<Rightarrow>
     (case contents st p of None \<Rightarrow> Inl IoError | Some c \<Rightarrow> Inr c))"
  by (auto simp: local_get_eq contents_def split: sum.split option.split)

text \<open>
  The local store is a map from paths to contents.  A key names a path of plain components
  below the root or is refused; a successful put or delete changes the content of that path and
  of no other, a failed one changes nothing, and a get reads it.
\<close>

theorem local_store_refines_map:
  "(case path_for k of Inr p \<Rightarrow> list_all plain p | Inl _ \<Rightarrow> True)
   \<and> local_get st k = (case path_for k of Inl e \<Rightarrow> Inl e | Inr p \<Rightarrow>
        (case contents st p of None \<Rightarrow> Inl IoError | Some c \<Rightarrow> Inr c))
   \<and> (case local_put st now k c ct of
        (Inl e, st') \<Rightarrow> contents st' = contents st
      | (Inr _, st') \<Rightarrow> \<exists>p. path_for k = Inr p \<and> contents st' = (contents st)(p := Some c))
   \<and> (case local_delete st k of
        (Inl e, st') \<Rightarrow> contents st' = contents st
      | (Inr _, st') \<Rightarrow> \<exists>p. path_for k = Inr p \<and> contents st' = (contents st)(p := None))"
proof (intro conjI)
  show "case path_for k of Inr p \<Rightarrow> list_all plain p | Inl _ \<Rightarrow> True"
    by (auto simp: path_for_Inr list_all_iff plain_def dest: components_parts split: sum.split)

  show "local_get st k = (case path_for k of Inl e \<Rightarrow> Inl e | Inr p \<Rightarrow>
        (case contents st p of None \<Rightarrow> Inl IoError | Some c \<Rightarrow> Inr c))"
    by (rule local_get_contents)
  obtain r st' where put: "local_put st now k c ct = (r, st')" by force
  show "case local_put st now k c ct of
        (Inl e, st') \<Rightarrow> contents st' = contents st
      | (Inr _, st') \<Rightarrow> \<exists>p. path_for k = Inr p \<and> contents st' = (contents st)(p := Some c)"
    using local_put_files [OF put] put
    by (cases r) (auto simp: contents_def update_conv' fun_eq_iff)
  obtain r2 st2 where del: "local_delete st k = (r2, st2)" by force
  show "case local_delete st k of
        (Inl e, st') \<Rightarrow> contents st' = contents st
      | (Inr _, st') \<Rightarrow> \<exists>p. path_for k = Inr p \<and> contents st' = (contents st)(p := None)"
    using local_delete_files [OF del] del
    by (cases r2) (auto simp: contents_def fun_eq_iff)
qed

text \<open>
  C35: Composing an object is all or nothing.  It succeeds only with the concatenation of all its
  parts, each of its recorded size, as the content of the destination; on any failure the
  destination and every other object but the temporary file keep their content.
\<close>

theorem compose_is_atomic:
  assumes "path_for k = Inr p" "\<forall>part \<in> set ps. path_for (sp_key part) \<noteq> Inr (temporary_path p)"
  shows "case local_compose st now k ps ct of
      (Inl e, st') \<Rightarrow> \<forall>q. q \<noteq> temporary_path p \<longrightarrow> contents st' q = contents st q
    | (Inr _, st') \<Rightarrow> (\<exists>cs. list_all2 (\<lambda>part c. local_get st (sp_key part) = Inr c
                              \<and> length c = unat (sp_size part)) ps cs
                        \<and> contents st' = (contents st)(temporary_path p := None, p := Some (concat cs)))"
proof -
  obtain r st' where c: "local_compose st now k ps ct = (r, st')" by force
  note files = local_compose_files [OF c]
  show ?thesis
  proof (cases r)
    case (Inl e)
    with files c assms(1) show ?thesis by (auto simp: contents_def)
  next
    case (Inr u)
    with files assms(1) obtain st2 content where
      files2: "ls_files st2 = AList.update (temporary_path p) ([], now) (ls_files st)"
      and copied: "copy_parts st2 [] ps = Inr content"
      and files': "ls_files st' = AList.update p (content, now) (AList.delete (temporary_path p) (ls_files st2))"
      by auto
    have same: "local_get st2 (sp_key part) = local_get st (sp_key part)" if "part \<in> set ps" for part
      using that assms(2) by (intro local_get_cong) (auto simp: files2 update_conv')
    from copied obtain cs where cs: "content = concat cs"
      "list_all2 (\<lambda>p c. local_get st2 (sp_key p) = Inr c \<and> length c = unat (sp_size p)) ps cs"
      by (auto simp: copy_parts_Inr)
    from cs(2) same have "list_all2 (\<lambda>p c. local_get st (sp_key p) = Inr c \<and> length c = unat (sp_size p)) ps cs"
      by (auto simp: list_all2_conv_all_nth)
    moreover have "contents st' = (contents st)(temporary_path p := None, p := Some (concat cs))"
      by (auto simp: contents_def files' files2 cs(1) update_conv' delete_conv' fun_eq_iff)
    ultimately show ?thesis using c Inr by auto
  qed
qed

definition sample_disk :: LocalStore where
  "sample_disk = snd (local_put (snd (local_put new_local_store 5 ''up/1'' [1, 2] None)) 9 ''up/2'' [3] None)"

lemma sample_disk_eq: "sample_disk = \<lparr>
   ls_files = [([''up'', ''1''], [1, 2], 5), ([''up'', ''2''], [3], 9)], ls_dirs = [[], [''up'']]\<rparr>"
  by code_simp

theorem compose_is_atomic_witness:
  "contents (snd (local_compose sample_disk 10 ''out/x''
       [\<lparr>sp_key = ''up/1'', sp_size = 2\<rparr>, \<lparr>sp_key = ''up/2'', sp_size = 1\<rparr>] None)) [''out'', ''x''] = Some [1, 2, 3]"
proof -
  let ?ps = "[\<lparr>sp_key = ''up/1'', sp_size = 2\<rparr>, \<lparr>sp_key = ''up/2'', sp_size = 1\<rparr>]"
  have k: "path_for ''out/x'' = Inr [''out'', ''x'']" by code_simp
  have parts: "\<forall>part \<in> set ?ps. path_for (sp_key part) \<noteq> Inr (temporary_path [''out'', ''x''])" by code_simp
  have ok: "fst (local_compose sample_disk 10 ''out/x'' ?ps None) = Inr ()" unfolding sample_disk_eq by code_simp
  have got: "local_get sample_disk ''up/1'' = Inr [1, 2]" "local_get sample_disk ''up/2'' = Inr [3]"
    unfolding sample_disk_eq by code_simp+
  from compose_is_atomic [OF k parts, of sample_disk 10 None] ok got show ?thesis
    by (cases "local_compose sample_disk 10 ''out/x'' ?ps None") (auto simp: list_all2_Cons1)
qed

text \<open>
  Every operation keeps the file system well formed: parents of directories and files are
  directories, no path is both, and no file is listed twice.
\<close>

lemma local_store_keeps_fs_ok:
  assumes "fs_ok st"
  shows "fs_ok (snd (local_put st now k c ct)) \<and> fs_ok (snd (local_copy st now k k' ct))
    \<and> fs_ok (snd (local_compose st now k ps ct)) \<and> fs_ok (snd (local_delete st k))
    \<and> fs_ok (snd (local_delete_older_than st cutoff prot))"
proof -
  from sweep_directory_result [OF assms, of cutoff prot]
  have "fs_ok (snd (local_delete_older_than st cutoff prot))"
    by (auto simp: local_delete_older_than_def)
  with assms show ?thesis
    by (simp add: fs_ok_local_put fs_ok_local_copy fs_ok_local_compose fs_ok_local_delete)
qed

lemma fs_ok_new: "fs_ok new_local_store"
  by (simp add: fs_ok_def new_local_store_def dirs_closed_def)

text \<open>
  C36: The expiry sweep is exact.  It ends, and removes just the files that were last written at
  or before the cutoff and lie under no protected prefix, and returns their number.
\<close>

theorem sweep_is_exact:
  assumes "fs_ok st"
  shows "\<exists>st'. local_delete_older_than st cutoff prot
               = (Inr (length (filter (expired_file cutoff prot) (ls_files st))), st')
           \<and> (\<forall>p. map_of (ls_files st') p
                 = (case map_of (ls_files st) p of
                      Some (c, modified) \<Rightarrow>
                        if modified \<le> cutoff \<and> \<not> path_is_protected p prot then None else Some (c, modified)
                    | None \<Rightarrow> None))"
proof -
  from sweep_directory_result [OF assms, of cutoff prot] obtain st' where st':
    "sweep_directory st cutoff prot = Some (length (filter (expired_file cutoff prot) (ls_files st)), st')"
    "ls_files st' = filter (\<lambda>f. \<not> expired_file cutoff prot f) (ls_files st)" by blast
  have "map_of (filter (\<lambda>f. \<not> expired_file cutoff prot f) fs) p
        = (case map_of fs p of
             Some (c, modified) \<Rightarrow> if modified \<le> cutoff \<and> \<not> path_is_protected p prot then None else Some (c, modified)
           | None \<Rightarrow> None)" if "distinct (map fst fs)" for fs p
    using that
  proof (induction fs)
    case (Cons f fs)
    obtain q c m where f: "f = (q, c, m)" by (cases f)
    from Cons.prems f have "map_of fs q = None" by (auto simp: map_of_eq_None_iff)
    with Cons f show ?case by (auto simp: expired_file_def)
  qed simp
  moreover have "distinct (map fst (ls_files st))" using assms by (simp add: fs_ok_def)
  ultimately show ?thesis using st' by (simp add: local_delete_older_than_def)
qed

theorem sweep_is_exact_witness:
  "\<exists>st'. local_delete_older_than sample_disk 6 [''donations''] = (Inr 1, st') \<and> map_of (ls_files st') [''up'', ''1''] = None"
proof -
  have "fs_ok sample_disk" unfolding sample_disk_def by (intro fs_ok_local_put fs_ok_new)
  from sweep_is_exact [OF this, of 6 "[''donations'']"] obtain st' where
    "local_delete_older_than sample_disk 6 [''donations'']
       = (Inr (length (filter (expired_file 6 [''donations'']) (ls_files sample_disk))), st')"
    "map_of (ls_files st') [''up'', ''1'']
       = (case map_of (ls_files sample_disk) [''up'', ''1''] of
            Some (c, modified) \<Rightarrow>
              if modified \<le> 6 \<and> \<not> path_is_protected [''up'', ''1''] [''donations''] then None else Some (c, modified)
          | None \<Rightarrow> None)" by blast
  moreover have "length (filter (expired_file 6 [''donations'']) (ls_files sample_disk)) = 1"
    "\<not> path_is_protected [''up'', ''1''] [''donations'']"
    unfolding sample_disk_eq by code_simp+
  ultimately show ?thesis by (simp add: sample_disk_eq)
qed

end
