(* ===== verification/Uploads.thy ===== *)
theory Uploads
  imports Models Storage
begin

text \<open>
  Resumable uploads, \<open>src/uploads.rs\<close>.  An upload is a record saved as one object; each chunk is
  an object of its own.  The object store is a parameter (its record of operations and its
  state), as are the JSON codec of \<open>serde_json\<close> and the UUID check of the \<open>uuid\<close> crate.  Fresh
  ids and the clock are arguments.
\<close>

datatype upload_internal =
    FromStore store_error
  | BadStateJson
  | UploadLengthOverflow
  | WrongChunkLength
  | WrongAssembledLength

datatype upload_error =
    UploadNotFound
  | OffsetMismatch u64 u64
  | ExceedsLength
  | Incomplete u64 u64
  | Completed
  | UploadInternal upload_internal

datatype PersistedJobId = PersistedUuid JobId | PersistedLegacy LegacyJobId

record ResumableUpload =
  up_id :: string
  up_original_filename :: string
  up_content_type :: "string option"
  up_total_size :: u64
  up_offset :: u64
  up_object_key :: string
  up_options :: SolveOptions
  up_owner :: string
  up_queue_weight :: f64
  up_created_at :: time
  up_job_id :: "PersistedJobId option"
  up_partial :: bool
  up_concat_parts :: "string list"
  up_chunks :: "StoredObjectPart list"

definition new_upload ::
  "string \<Rightarrow> time \<Rightarrow> string \<Rightarrow> string option \<Rightarrow> u64 \<Rightarrow> string \<Rightarrow> SolveOptions \<Rightarrow> string \<Rightarrow> f64 \<Rightarrow> ResumableUpload" where
  "new_upload i now filename content_type total_size object_key options owner queue_weight = \<lparr>
     up_id = i, up_original_filename = filename, up_content_type = content_type,
     up_total_size = total_size, up_offset = 0, up_object_key = object_key, up_options = options,
     up_owner = owner, up_queue_weight = queue_weight, up_created_at = now, up_job_id = None,
     up_partial = False, up_concat_parts = [], up_chunks = []\<rparr>"

definition new_partial :: "string \<Rightarrow> time \<Rightarrow> u64 \<Rightarrow> string \<Rightarrow> f64 \<Rightarrow> ResumableUpload" where
  "new_partial i now total_size owner queue_weight = \<lparr>
     up_id = i, up_original_filename = '''', up_content_type = None,
     up_total_size = total_size, up_offset = 0, up_object_key = '''', up_options = default_options,
     up_owner = owner, up_queue_weight = queue_weight, up_created_at = now, up_job_id = None,
     up_partial = True, up_concat_parts = [], up_chunks = []\<rparr>"

definition checked_add :: "u64 \<Rightarrow> u64 \<Rightarrow> u64 option" where
  "checked_add a b = (if uint a + uint b < 2 ^ 64 then Some (a + b) else None)"

fun total_of_parts :: "u64 \<Rightarrow> ResumableUpload list \<Rightarrow> u64 option" where
  "total_of_parts acc [] = Some acc"
| "total_of_parts acc (part # parts) =
     (case checked_add acc (up_total_size part) of
        None \<Rightarrow> None
      | Some acc' \<Rightarrow> total_of_parts acc' parts)"

definition concatenate ::
  "string \<Rightarrow> time \<Rightarrow> string \<Rightarrow> string option \<Rightarrow> string \<Rightarrow> SolveOptions \<Rightarrow> string \<Rightarrow> f64
    \<Rightarrow> ResumableUpload list \<Rightarrow> upload_error + ResumableUpload" where
  "concatenate i now filename content_type object_key options owner queue_weight parts =
     (case total_of_parts 0 parts of
        None \<Rightarrow> Inl (UploadInternal UploadLengthOverflow)
      | Some total_size \<Rightarrow> Inr \<lparr>
          up_id = i, up_original_filename = filename, up_content_type = content_type,
          up_total_size = total_size, up_offset = total_size, up_object_key = object_key,
          up_options = options, up_owner = owner, up_queue_weight = queue_weight,
          up_created_at = now, up_job_id = None, up_partial = False,
          up_concat_parts = map up_id parts, up_chunks = concat (map up_chunks parts)\<rparr>)"

section \<open>Keys\<close>

definition upload_namespace :: "string \<Rightarrow> string \<Rightarrow> string" where
  "upload_namespace storage_prefix i =
     (let p = trim_matches (CHR ''/'') storage_prefix in
      if p = '''' then ''.resumable/'' @ i else p @ ''/.resumable/'' @ i)"

definition state_key :: "string \<Rightarrow> string \<Rightarrow> string" where
  "state_key storage_prefix i = upload_namespace storage_prefix i @ ''/state.json''"

definition chunk_key :: "string \<Rightarrow> string \<Rightarrow> u64 \<Rightarrow> string" where
  "chunk_key storage_prefix i offset =
     upload_namespace storage_prefix i @ ''/chunks/'' @ zero_padded 20 (unat offset)"

section \<open>Loading and saving\<close>

definition load ::
  "'s ObjectStore \<Rightarrow> (string \<Rightarrow> bool) \<Rightarrow> (bytes \<Rightarrow> ResumableUpload option) \<Rightarrow> 's \<Rightarrow> string \<Rightarrow> string
    \<Rightarrow> upload_error + ResumableUpload" where
  "load ops is_uuid from_json s storage_prefix i =
     (if \<not> is_uuid i then Inl UploadNotFound
      else case os_exists ops s (state_key storage_prefix i) of
        Inl e \<Rightarrow> Inl (UploadInternal (FromStore e))
      | Inr False \<Rightarrow> Inl UploadNotFound
      | Inr True \<Rightarrow>
          (case os_get ops s (state_key storage_prefix i) of
             Inl e \<Rightarrow> Inl (UploadInternal (FromStore e))
           | Inr content \<Rightarrow>
               (case from_json content of
                  None \<Rightarrow> Inl (UploadInternal BadStateJson)
                | Some u \<Rightarrow> Inr u)))"

definition save ::
  "'s ObjectStore \<Rightarrow> (ResumableUpload \<Rightarrow> bytes) \<Rightarrow> 's \<Rightarrow> time \<Rightarrow> string \<Rightarrow> ResumableUpload
    \<Rightarrow> (upload_error + unit) \<times> 's" where
  "save ops to_json s now storage_prefix u =
     (case os_put ops s now (state_key storage_prefix (up_id u)) (to_json u) (Some ''application/json'') of
        (Inl e, s') \<Rightarrow> (Inl (UploadInternal (FromStore e)), s')
      | (Inr _, s') \<Rightarrow> (Inr (), s'))"

section \<open>Appending\<close>

text \<open>The checks before anything is written; the result is the new offset.\<close>

definition append_checks :: "ResumableUpload \<Rightarrow> u64 \<Rightarrow> bytes \<Rightarrow> upload_error + u64" where
  "append_checks u offset data =
     (if up_job_id u \<noteq> None \<or> up_offset u = up_total_size u then Inl Completed
      else if offset \<noteq> up_offset u then Inl (OffsetMismatch (up_offset u) offset)
      else if 2 ^ 64 \<le> length data then Inl (UploadInternal UploadLengthOverflow)
      else case checked_add offset (of_nat (length data)) of
        None \<Rightarrow> Inl ExceedsLength
      | Some new_offset \<Rightarrow>
          if \<not> new_offset \<le> up_total_size u then Inl ExceedsLength
          else if length data = 0 \<and> new_offset < up_total_size u
          then Inl (Incomplete new_offset (up_total_size u))
          else Inr new_offset)"

definition append_upload ::
  "'s ObjectStore \<Rightarrow> (ResumableUpload \<Rightarrow> bytes) \<Rightarrow> 's \<Rightarrow> time \<Rightarrow> string \<Rightarrow> ResumableUpload \<Rightarrow> u64 \<Rightarrow> bytes
    \<Rightarrow> (upload_error + u64) \<times> ResumableUpload \<times> 's" where
  "append_upload ops to_json s now storage_prefix u offset data =
     (case append_checks u offset data of
        Inl e \<Rightarrow> (Inl e, u, s)
      | Inr new_offset \<Rightarrow>
          (let key = chunk_key storage_prefix (up_id u) offset in
           case os_put ops s now key data (Some ''application/offset+octet-stream'') of
             (Inl e, s1) \<Rightarrow> (Inl (UploadInternal (FromStore e)), u, s1)
           | (Inr _, s1) \<Rightarrow>
               (let u1 = u\<lparr>up_chunks := up_chunks u @ [\<lparr>sp_key = key, sp_size = of_nat (length data)\<rparr>],
                           up_offset := new_offset\<rparr> in
                case save ops to_json s1 now storage_prefix u1 of
                  (Inl e, s2) \<Rightarrow> (Inl e, u1, s2)
                | (Inr _, s2) \<Rightarrow> (Inr new_offset, u1, s2))))"

section \<open>Reading the upload back\<close>

fun assemble_chunks :: "(string \<Rightarrow> store_error + bytes) \<Rightarrow> bytes \<Rightarrow> StoredObjectPart list \<Rightarrow> upload_error + bytes" where
  "assemble_chunks get out [] = Inr out"
| "assemble_chunks get out (c # cs) =
     (case get (sp_key c) of
        Inl e \<Rightarrow> Inl (UploadInternal (FromStore e))
      | Inr data \<Rightarrow> if length data \<noteq> unat (sp_size c) then Inl (UploadInternal WrongChunkLength)
                   else assemble_chunks get (out @ data) cs)"

definition assemble :: "'s ObjectStore \<Rightarrow> 's \<Rightarrow> ResumableUpload \<Rightarrow> upload_error + bytes" where
  "assemble ops s u =
     (if up_offset u \<noteq> up_total_size u then Inl (Incomplete (up_offset u) (up_total_size u))
      else case assemble_chunks (os_get ops s) [] (up_chunks u) of
        Inl e \<Rightarrow> Inl e
      | Inr out \<Rightarrow> if length out \<noteq> unat (up_total_size u) then Inl (UploadInternal WrongAssembledLength)
                  else Inr out)"

fun read_prefix_chunks ::
  "(string \<Rightarrow> nat \<Rightarrow> nat \<Rightarrow> store_error + bytes) \<Rightarrow> nat \<Rightarrow> bytes \<Rightarrow> StoredObjectPart list \<Rightarrow> upload_error + bytes" where
  "read_prefix_chunks get_range capacity out [] = Inr out"
| "read_prefix_chunks get_range capacity out (c # cs) =
     (if length out = capacity then Inr out
      else let requested = min (capacity - length out) (unat (sp_size c)) in
        case get_range (sp_key c) 0 requested of
          Inl e \<Rightarrow> Inl (UploadInternal (FromStore e))
        | Inr data \<Rightarrow> if length data \<noteq> requested then Inl (UploadInternal WrongChunkLength)
                     else read_prefix_chunks get_range capacity (out @ data) cs)"

definition read_prefix :: "'s ObjectStore \<Rightarrow> 's \<Rightarrow> ResumableUpload \<Rightarrow> nat \<Rightarrow> upload_error + bytes" where
  "read_prefix ops s u limit =
     (if up_offset u \<noteq> up_total_size u then Inl (Incomplete (up_offset u) (up_total_size u))
      else let capacity = min (unat (up_total_size u)) limit in
        case read_prefix_chunks (os_get_range ops s) capacity [] (up_chunks u) of
          Inl e \<Rightarrow> Inl e
        | Inr out \<Rightarrow> if length out \<noteq> capacity then Inl (UploadInternal WrongAssembledLength) else Inr out)"

definition compose_upload :: "'s ObjectStore \<Rightarrow> 's \<Rightarrow> time \<Rightarrow> ResumableUpload \<Rightarrow> (upload_error + unit) \<times> 's" where
  "compose_upload ops s now u =
     (if up_offset u \<noteq> up_total_size u then (Inl (Incomplete (up_offset u) (up_total_size u)), s)
      else case os_compose ops s now (up_object_key u) (up_chunks u) (up_content_type u) of
        (Inl e, s') \<Rightarrow> (Inl (UploadInternal (FromStore e)), s')
      | (Inr _, s') \<Rightarrow> (Inr (), s'))"

section \<open>Removing\<close>

text \<open>The deletes of \<open>cleanup_chunks\<close> run as tasks whose failures are only logged.\<close>

definition cleanup_chunks :: "'s ObjectStore \<Rightarrow> 's \<Rightarrow> ResumableUpload \<Rightarrow> ResumableUpload \<times> 's" where
  "cleanup_chunks ops s u =
     (u\<lparr>up_chunks := []\<rparr>, fold (\<lambda>c s. snd (os_delete ops s (sp_key c))) (up_chunks u) s)"

fun delete_keys :: "'s ObjectStore \<Rightarrow> 's \<Rightarrow> string list \<Rightarrow> (upload_error + unit) \<times> 's" where
  "delete_keys ops s [] = (Inr (), s)"
| "delete_keys ops s (k # ks) =
     (case os_delete ops s k of
        (Inl e, s') \<Rightarrow> (Inl (UploadInternal (FromStore e)), s')
      | (Inr _, s') \<Rightarrow> delete_keys ops s' ks)"

definition terminate :: "'s ObjectStore \<Rightarrow> 's \<Rightarrow> string \<Rightarrow> ResumableUpload \<Rightarrow> (upload_error + unit) \<times> 's" where
  "terminate ops s storage_prefix u =
     (if up_job_id u \<noteq> None then (Inl Completed, s)
      else delete_keys ops s (map sp_key (up_chunks u) @ [state_key storage_prefix (up_id u)]))"

definition delete_state :: "'s ObjectStore \<Rightarrow> 's \<Rightarrow> string \<Rightarrow> ResumableUpload \<Rightarrow> (upload_error + unit) \<times> 's" where
  "delete_state ops s storage_prefix u = delete_keys ops s [state_key storage_prefix (up_id u)]"

end
