(* ===== verification/Upload_Assembly.thy ===== *)
theory Upload_Assembly
  imports Uploads Local_Storage "HOL-Library.Countable"
begin

text \<open>
  Correctness of resumable uploads over any store that meets the contract \<open>object_store\<close>: what
  the accepted chunks were is what is read back, whatever attempts were rejected, repeated, or
  cut off by a crash in between.  The properties are stated for the local store.
\<close>

section \<open>The requests of one upload\<close>

text \<open>
  \<open>Patch\<close> loads the saved state and appends a chunk.  \<open>Torn\<close> is the same request cut off by a
  crash after the chunk was written and before the state was saved.
\<close>

datatype upload_event = Patch time u64 bytes | Torn time u64 bytes

fun upload_request ::
  "'s ObjectStore \<Rightarrow> (ResumableUpload \<Rightarrow> bytes) \<Rightarrow> (string \<Rightarrow> bool) \<Rightarrow> (bytes \<Rightarrow> ResumableUpload option)
    \<Rightarrow> string \<Rightarrow> string \<Rightarrow> upload_event \<Rightarrow> 's \<Rightarrow> (upload_error + u64) \<times> 's" where
  "upload_request ops to_json is_uuid from_json prfx i (Patch now offset data) s =
     (case load ops is_uuid from_json s prfx i of
        Inl e \<Rightarrow> (Inl e, s)
      | Inr u \<Rightarrow> (case append_upload ops to_json s now prfx u offset data of (r, _, s') \<Rightarrow> (r, s')))"
| "upload_request ops to_json is_uuid from_json prfx i (Torn now offset data) s =
     (case load ops is_uuid from_json s prfx i of
        Inl e \<Rightarrow> (Inl e, s)
      | Inr u \<Rightarrow>
          (case append_checks u offset data of
             Inl e \<Rightarrow> (Inl e, s)
           | Inr _ \<Rightarrow> (Inl Completed,
               snd (os_put ops s now (chunk_key prfx (up_id u) offset) data
                      (Some ''application/offset+octet-stream'')))))"

fun upload_requests ::
  "'s ObjectStore \<Rightarrow> (ResumableUpload \<Rightarrow> bytes) \<Rightarrow> (string \<Rightarrow> bool) \<Rightarrow> (bytes \<Rightarrow> ResumableUpload option)
    \<Rightarrow> string \<Rightarrow> string \<Rightarrow> upload_event list \<Rightarrow> 's \<Rightarrow> bytes \<times> 's" where
  "upload_requests ops to_json is_uuid from_json prfx i [] s = ([], s)"
| "upload_requests ops to_json is_uuid from_json prfx i (ev # evs) s =
     (case upload_request ops to_json is_uuid from_json prfx i ev s of
        (r, s') \<Rightarrow>
          (case upload_requests ops to_json is_uuid from_json prfx i evs s' of
             (accepted, s'') \<Rightarrow>
               ((case (r, ev) of (Inr _, Patch _ _ data) \<Rightarrow> data | _ \<Rightarrow> []) @ accepted, s'')))"

section \<open>Chunks\<close>

definition chunk_held :: "'s ObjectStore \<Rightarrow> 's \<Rightarrow> StoredObjectPart \<Rightarrow> bytes \<Rightarrow> bool" where
  "chunk_held ops s p c = (os_get ops s (sp_key p) = Inr c \<and> length c = unat (sp_size p))"

definition holds_chunks :: "'s ObjectStore \<Rightarrow> 's \<Rightarrow> StoredObjectPart list \<Rightarrow> bytes \<Rightarrow> bool" where
  "holds_chunks ops s ps content = (\<exists>cs. list_all2 (chunk_held ops s) ps cs \<and> content = concat cs)"

lemma holds_chunks_Nil [simp]: "holds_chunks ops s [] content \<longleftrightarrow> content = []"
  by (auto simp: holds_chunks_def)

lemma holds_chunks_Cons [simp]:
  "holds_chunks ops s (p # ps) content
   \<longleftrightarrow> (\<exists>c rest. chunk_held ops s p c \<and> holds_chunks ops s ps rest \<and> content = c @ rest)"
proof
  assume "holds_chunks ops s (p # ps) content"
  then obtain c cs where "chunk_held ops s p c" "list_all2 (chunk_held ops s) ps cs" "content = c @ concat cs"
    by (auto simp: holds_chunks_def list_all2_Cons1)
  then show "\<exists>c rest. chunk_held ops s p c \<and> holds_chunks ops s ps rest \<and> content = c @ rest"
    unfolding holds_chunks_def by blast
next
  assume "\<exists>c rest. chunk_held ops s p c \<and> holds_chunks ops s ps rest \<and> content = c @ rest"
  then obtain c cs where "chunk_held ops s p c" "list_all2 (chunk_held ops s) ps cs" "content = concat (c # cs)"
    by (auto simp: holds_chunks_def)
  then show "holds_chunks ops s (p # ps) content"
    unfolding holds_chunks_def by (intro exI [of _ "c # cs"]) simp
qed

lemma holds_chunks_append:
  "holds_chunks ops s ps a \<Longrightarrow> holds_chunks ops s qs b \<Longrightarrow> holds_chunks ops s (ps @ qs) (a @ b)"
proof (induction ps arbitrary: a)
  case (Cons p ps)
  then obtain c rest where "chunk_held ops s p c" "holds_chunks ops s ps rest" "a = c @ rest" by auto
  with Cons.IH [of rest] Cons.prems(2) show ?case by auto
qed simp

lemma holds_chunks_frame:
  assumes "holds_chunks ops s ps content"
    and "\<forall>p \<in> set ps. os_get ops s' (sp_key p) = os_get ops s (sp_key p)"
  shows "holds_chunks ops s' ps content"
  using assms by (induction ps arbitrary: content) (auto simp: chunk_held_def)

lemma assemble_chunks_held:
  "holds_chunks ops s ps content \<Longrightarrow> assemble_chunks (os_get ops s) out ps = Inr (out @ content)"
  by (induction ps arbitrary: out content) (auto simp: chunk_held_def)

text \<open>The chunks of an upload lie at consecutive offsets, and none is empty.\<close>

fun laid_out :: "string \<Rightarrow> string \<Rightarrow> nat \<Rightarrow> StoredObjectPart list \<Rightarrow> bool" where
  "laid_out prfx i off [] = True"
| "laid_out prfx i off (p # ps) =
     (sp_key p = chunk_key prfx i (of_nat off) \<and> off + unat (sp_size p) < 2 ^ 64 \<and> 0 < unat (sp_size p)
      \<and> laid_out prfx i (off + unat (sp_size p)) ps)"

lemma laid_out_snoc:
  "laid_out prfx i off (ps @ [p]) \<longleftrightarrow>
     laid_out prfx i off ps \<and> laid_out prfx i (off + sum_list (map (unat \<circ> sp_size) ps)) [p]"
  by (induction ps arbitrary: off) (auto simp: add.assoc)

lemma laid_out_keys:
  assumes "laid_out prfx i off ps" "p \<in> set ps"
  shows "\<exists>n. sp_key p = chunk_key prfx i (of_nat n) \<and> off \<le> n
             \<and> n < off + sum_list (map (unat \<circ> sp_size) ps) \<and> n < 2 ^ 64"
  using assms
proof (induction ps arbitrary: off)
  case (Cons q ps)
  show ?case
  proof (cases "p = q")
    case True
    with Cons.prems show ?thesis by (intro exI [of _ off]) auto
  next
    case False
    with Cons.prems Cons.IH [of "off + unat (sp_size q)"] show ?thesis by force
  qed
qed simp

lemma held_length:
  "holds_chunks ops s ps content \<Longrightarrow> length content = sum_list (map (unat \<circ> sp_size) ps)"
  by (induction ps arbitrary: content) (auto simp: chunk_held_def)

lemma unat_of_nat_64: "n < 2 ^ 64 \<Longrightarrow> unat (of_nat n :: u64) = n"
  by (simp add: unat_of_nat)

section \<open>Keys of one upload do not meet\<close>

lemma state_key_shape: "state_key prfx i = upload_namespace prfx i @ ''/'' @ ''state.json''"
  by (simp add: state_key_def)

lemma chunk_key_shape:
  "chunk_key prfx i off = (upload_namespace prfx i @ ''/chunks'') @ ''/'' @ zero_padded 20 (unat off)"
  by (simp add: chunk_key_def)

lemma plain_names: "plain ''state.json''" "plain (zero_padded 20 n)"
  using zero_padded_plain [of 20 n] by (auto simp: plain_def)

lemma chunk_name_no_dot: "CHR ''.'' \<in> set b \<Longrightarrow> zero_padded 20 n \<noteq> b"
  using zero_padded_plain(2) by metis

section \<open>One upload\<close>

definition upload_ok ::
  "'s ObjectStore \<Rightarrow> (ResumableUpload \<Rightarrow> bytes) \<Rightarrow> string \<Rightarrow> string \<Rightarrow> 's \<Rightarrow> ResumableUpload \<Rightarrow> bytes \<Rightarrow> bool" where
  "upload_ok ops to_json prfx i s u content =
     (up_id u = i \<and> os_get ops s (state_key prfx i) = Inr (to_json u)
      \<and> holds_chunks ops s (up_chunks u) content \<and> laid_out prfx i 0 (up_chunks u)
      \<and> unat (up_offset u) = length content \<and> up_offset u \<le> up_total_size u)"

text \<open>The upload's own states pass through the JSON codec unchanged.\<close>

definition codec_ok :: "(ResumableUpload \<Rightarrow> bytes) \<Rightarrow> (bytes \<Rightarrow> ResumableUpload option) \<Rightarrow> ResumableUpload \<Rightarrow> bool" where
  "codec_ok to_json from_json u0 =
     (\<forall>off chunks. from_json (to_json (u0\<lparr>up_offset := off, up_chunks := chunks\<rparr>))
                   = Some (u0\<lparr>up_offset := off, up_chunks := chunks\<rparr>))"

definition same_upload :: "ResumableUpload \<Rightarrow> ResumableUpload \<Rightarrow> bool" where
  "same_upload u0 u = (u = u0\<lparr>up_offset := up_offset u, up_chunks := up_chunks u\<rparr>)"

lemma codec_okD: "codec_ok to_json from_json u0 \<Longrightarrow> same_upload u0 u \<Longrightarrow> from_json (to_json u) = Some u"
  unfolding codec_ok_def same_upload_def by metis

context object_store
begin

lemma chunk_not_state:
  "\<not> same (chunk_key prfx i off) (state_key prfx' i')" "\<not> same (state_key prfx' i') (chunk_key prfx i off)"
proof -
  have differ: "zero_padded 20 n \<noteq> ''state.json''" for n by (rule chunk_name_no_dot) simp
  show "\<not> same (chunk_key prfx i off) (state_key prfx' i')" "\<not> same (state_key prfx' i') (chunk_key prfx i off)"
    unfolding chunk_key_shape state_key_shape
    using same_names [OF plain_names(2) plain_names(1)] same_names [OF plain_names] differ by (metis, metis)
qed

lemma chunk_not_chunk:
  "off \<noteq> off' \<Longrightarrow> \<not> same (chunk_key prfx i off) (chunk_key prfx i off')"
  unfolding chunk_key_shape using same_names [OF plain_names(2) plain_names(2)]
  by (metis unsigned_word_eqI zero_padded_eq_iff)

lemma object_not_chunk:
  assumes "plain b" "CHR ''.'' \<in> set b"
  shows "\<not> same (d @ ''/'' @ b) (chunk_key prfx i off)" "\<not> scratch (d @ ''/'' @ b) (chunk_key prfx i off)"
    "\<not> same (chunk_key prfx i off) (d @ ''/'' @ b)"
proof -
  note no_dot = chunk_name_no_dot [OF assms(2)]
  show "\<not> same (d @ ''/'' @ b) (chunk_key prfx i off)" "\<not> same (chunk_key prfx i off) (d @ ''/'' @ b)"
    unfolding chunk_key_shape using same_names [OF assms(1) plain_names(2)]
      same_names [OF plain_names(2) assms(1)] no_dot by (metis, metis)
  show "\<not> scratch (d @ ''/'' @ b) (chunk_key prfx i off)"
  proof
    assume "scratch (d @ ''/'' @ b) (chunk_key prfx i off)"
    then have "zero_padded 20 (unat off) = ''.'' @ b @ ''.assembling''"
      unfolding chunk_key_shape by (rule scratch_names [OF assms(1) plain_names(2)])
    then show False using chunk_name_no_dot [of "''.'' @ b @ ''.assembling''"] by simp
  qed
qed

lemma load_ok:
  assumes "os_get ops s (state_key prfx i) = Inr (to_json u)" "is_uuid i" "from_json (to_json u) = Some u"
  shows "load ops is_uuid from_json s prfx i = Inr u"
  using assms get_exists [OF assms(1)] by (simp add: load_def)

lemma append_checks_Inr:
  assumes "append_checks u offset data = Inr n"
  shows "up_job_id u = None" "offset = up_offset u" "length data < 2 ^ 64"
    "unat n = unat offset + length data" "n \<le> up_total_size u" "data \<noteq> []"
proof -
  from assms have c: "up_job_id u = None" "up_offset u \<noteq> up_total_size u" "offset = up_offset u"
    "length data < 2 ^ 64" "checked_add offset (of_nat (length data)) = Some n" "n \<le> up_total_size u"
    "length data = 0 \<longrightarrow> n = up_total_size u"
    by (auto simp: append_checks_def split: if_splits option.splits)
  from c(5) have n: "n = offset + of_nat (length data)" "uint offset + uint (of_nat (length data) :: u64) < 2 ^ 64"
    by (auto simp: checked_add_def split: if_splits)
  have "unat n = unat offset + unat (of_nat (length data) :: u64)"
    using n by (simp add: unat_plus_simple [symmetric] no_olen_add)
  then show "unat n = unat offset + length data" using c(4) by (simp add: unat_of_nat_64)
  show "data \<noteq> []" using c(2,3,7) n(1) by auto
qed (use assms in \<open>auto simp: append_checks_def split: if_splits option.splits\<close>)

lemma chunk_put_frame:
  assumes ok: "upload_ok ops to_json prfx i s u content"
    and put: "os_put ops s now (chunk_key prfx i (up_offset u)) data ct = (r, s1)"
  shows "upload_ok ops to_json prfx i s1 u content"
proof -
  have "os_get ops s1 (sp_key p) = os_get ops s (sp_key p)" if "p \<in> set (up_chunks u)" for p
  proof -
    from ok have lay: "laid_out prfx i 0 (up_chunks u)" and len: "length content = unat (up_offset u)"
      and held: "holds_chunks ops s (up_chunks u) content" by (auto simp: upload_ok_def)
    from laid_out_keys [OF lay that] held_length [OF held] len obtain n where
      n: "sp_key p = chunk_key prfx i (of_nat n)" "n < unat (up_offset u)" "n < 2 ^ 64" by auto
    then have "up_offset u \<noteq> of_nat n" using unat_of_nat_64 [of n] by auto
    then show ?thesis
      unfolding n(1) using put_frame [OF put] chunk_not_chunk [of "up_offset u" "of_nat n"] by blast
  qed
  moreover have "os_get ops s1 (state_key prfx i) = os_get ops s (state_key prfx i)"
    using put_frame [OF put] chunk_not_state(1) by blast
  ultimately show ?thesis
    using ok holds_chunks_frame unfolding upload_ok_def by metis
qed

lemma append_result:
  assumes ok: "upload_ok ops to_json prfx i s u content"
    and app: "append_upload ops to_json s now prfx u offset data = (r, u', s')"
  shows "case r of
      Inr n \<Rightarrow> upload_ok ops to_json prfx i s' u' (content @ data) \<and> offset = up_offset u \<and> n = up_offset u'
              \<and> u' = u\<lparr>up_chunks := up_chunks u', up_offset := up_offset u'\<rparr>
    | Inl e \<Rightarrow> upload_ok ops to_json prfx i s' u content"
proof (cases "append_checks u offset data")
  case (Inl e)
  then have "r = Inl e" "s' = s" using app by (simp_all add: append_upload_def)
  with ok show ?thesis by simp
next
  case (Inr n)
  note chk = append_checks_Inr [OF Inr]
  have i: "up_id u = i" using ok by (simp add: upload_ok_def)
  let ?key = "chunk_key prfx i offset"
  obtain r1 s1 where put: "os_put ops s now ?key data (Some ''application/offset+octet-stream'') = (r1, s1)"
    by force
  from chunk_put_frame [OF ok put [unfolded chk(2)]] have ok1: "upload_ok ops to_json prfx i s1 u content" .
  show ?thesis
  proof (cases r1)
    case (Inl e)
    with app \<open>append_checks u offset data = Inr n\<close> put i ok1 show ?thesis
      by (auto simp: append_upload_def)
  next
    case r1: (Inr _)
    let ?part = "\<lparr>sp_key = ?key, sp_size = of_nat (length data)\<rparr>"
    let ?u1 = "u\<lparr>up_chunks := up_chunks u @ [?part], up_offset := n\<rparr>"
    obtain r2 s2 where put2: "os_put ops s1 now (state_key prfx i) (to_json ?u1) (Some ''application/json'') = (r2, s2)"
      by force
    have kept: "os_get ops s2 (sp_key p) = os_get ops s1 (sp_key p)" if "p \<in> set (up_chunks u @ [?part])" for p
    proof -
      have "\<exists>off. sp_key p = chunk_key prfx i off"
        using that ok laid_out_keys [of prfx i 0 "up_chunks u" p] by (auto simp: upload_ok_def)
      then show ?thesis using put_frame [OF put2] chunk_not_state(2) by metis
    qed
    have app': "r = (case r2 of Inl e \<Rightarrow> Inl (UploadInternal (FromStore e)) | Inr _ \<Rightarrow> Inr n)"
      "u' = ?u1" "s' = s2"
      using app \<open>append_checks u offset data = Inr n\<close> put i r1 put2
      by (auto simp: append_upload_def save_def Let_def split: sum.splits)
    show ?thesis
    proof (cases r2)
      case (Inl e)
      from put_frame [OF put2] Inl have "os_get ops s2 k = os_get ops s1 k" for k by simp
      then have "upload_ok ops to_json prfx i s2 u content"
        using ok1 holds_chunks_frame unfolding upload_ok_def by metis
      with Inl app' show ?thesis by simp
    next
      case r2: (Inr v)
      then have state: "os_get ops s2 (state_key prfx i) = Inr (to_json ?u1)"
        using put_ok [of s1 now "state_key prfx i" "to_json ?u1" _ s2] put2 by simp
      have "os_get ops s1 ?key = Inr data" using put_ok put r1 by simp
      then have "chunk_held ops s1 ?part data" using chk(3) by (simp add: chunk_held_def unat_of_nat_64)
      with ok1 have "holds_chunks ops s1 (up_chunks u @ [?part]) (content @ data)"
        by (intro holds_chunks_append) (auto simp: upload_ok_def)
      then have held: "holds_chunks ops s2 (up_chunks u @ [?part]) (content @ data)"
        by (rule holds_chunks_frame) (use kept in blast)
      have len: "length content = unat (up_offset u)" "length content = sum_list (map (unat \<circ> sp_size) (up_chunks u))"
        using ok held_length by (auto simp: upload_ok_def)
      have bound: "unat n < 2 ^ 64" 
      proof -
        have "(unsigned n :: nat) < 2 ^ LENGTH(64)" by (rule unsigned_less)
        then show ?thesis by simp
      qed
      have "laid_out prfx i (sum_list (map (unat \<circ> sp_size) (up_chunks u))) [?part]"
      proof -
        have "sum_list (map (unat \<circ> sp_size) (up_chunks u)) = unat offset" using len chk(2) by simp
        moreover have "of_nat (unat offset) = offset" by simp
        moreover have "unat offset + length data < 2 ^ 64" using chk(4) bound by simp
        moreover have "0 < length data" using chk(6) by simp
        moreover have "unat (of_nat (length data) :: u64) = length data" using chk(3) by (rule unat_of_nat_64)
        ultimately show ?thesis by (simp only: laid_out.simps StoredObjectPart.simps simp_thms)
      qed
      then have lay: "laid_out prfx i 0 (up_chunks u @ [?part])"
        using ok by (simp add: laid_out_snoc upload_ok_def)
      have "upload_ok ops to_json prfx i s2 ?u1 (content @ data)"
        using state held lay chk len i by (simp add: upload_ok_def)
      with app' r2 chk(2) show ?thesis by simp
    qed
  qed
qed

lemma same_upload_step:
  "same_upload u0 u \<Longrightarrow> u' = u\<lparr>up_chunks := cs, up_offset := off\<rparr> \<Longrightarrow> same_upload u0 u'"
  by (cases u0; cases u) (simp add: same_upload_def)

lemma request_result:
  assumes ok: "upload_ok ops to_json prfx i s u content" and u: "same_upload u0 u"
    and codec: "codec_ok to_json from_json u0" "is_uuid i"
    and req: "upload_request ops to_json is_uuid from_json prfx i ev s = (r, s')"
  shows "\<exists>u'. upload_ok ops to_json prfx i s' u' (content @ (case (r, ev) of (Inr _, Patch _ _ data) \<Rightarrow> data | _ \<Rightarrow> []))
              \<and> same_upload u0 u'"
proof -
  have loaded: "load ops is_uuid from_json s prfx i = Inr u"
    using ok codec_okD [OF codec(1) u] codec(2) by (intro load_ok) (auto simp: upload_ok_def)
  show ?thesis
  proof (cases ev)
    case (Patch now offset data)
    obtain r' u' s'' where app: "append_upload ops to_json s now prfx u offset data = (r', u', s'')"
      by (metis prod_cases3)
    with req loaded Patch have "r' = r" "s'' = s'" by simp_all
    with append_result [OF ok app] Patch u show ?thesis
      by (cases r) (auto intro: same_upload_step)
  next
    case (Torn now offset data)
    show ?thesis
    proof (cases "append_checks u offset data")
      case (Inl e)
      then have "r = Inl e" "s' = s" using req loaded Torn by simp_all
      with ok u show ?thesis by auto
    next
      case (Inr n)
      have i: "up_id u = i" using ok by (simp add: upload_ok_def)
      obtain r1 s1 where put: "os_put ops s now (chunk_key prfx i offset) data
          (Some ''application/offset+octet-stream'') = (r1, s1)" by force
      with req loaded Torn Inr i have "s' = s1" "r = Inl Completed" by auto
      with chunk_put_frame [OF ok put [unfolded append_checks_Inr(2) [OF Inr]]] u show ?thesis
        by auto
    qed
  qed
qed

lemma requests_result:
  assumes "upload_ok ops to_json prfx i s u content" "same_upload u0 u"
    and codec: "codec_ok to_json from_json u0" "is_uuid i"
    and "upload_requests ops to_json is_uuid from_json prfx i evs s = (accepted, s')"
  shows "\<exists>u'. upload_ok ops to_json prfx i s' u' (content @ accepted) \<and> same_upload u0 u'"
  using assms(1,2,5)
proof (induction evs arbitrary: s u content accepted s')
  case Nil
  then show ?case by auto
next
  case (Cons ev evs)
  obtain r s1 where req: "upload_request ops to_json is_uuid from_json prfx i ev s = (r, s1)" by force
  obtain acc s2 where rest: "upload_requests ops to_json is_uuid from_json prfx i evs s1 = (acc, s2)" by force
  from request_result [OF Cons.prems(1,2) codec req] obtain u1 where u1:
    "upload_ok ops to_json prfx i s1 u1 (content @ (case (r, ev) of (Inr _, Patch _ _ data) \<Rightarrow> data | _ \<Rightarrow> []))"
    "same_upload u0 u1" by blast
  from Cons.IH [OF u1 rest] Cons.prems(3) req rest show ?case by (simp only: upload_requests.simps prod.case append_assoc) simp
qed

lemma read_prefix_held:
  assumes "holds_chunks ops s ps content" "length out \<le> capacity" "capacity \<le> length out + length content"
  shows "read_prefix_chunks (os_get_range ops s) capacity out ps = Inr (out @ take (capacity - length out) content)"
  using assms
proof (induction ps arbitrary: out content)
  case Nil
  then show ?case by simp
next
  case (Cons p ps)
  then obtain c rest where c: "os_get ops s (sp_key p) = Inr c" "length c = unat (sp_size p)"
    "holds_chunks ops s ps rest" "content = c @ rest" by (auto simp: chunk_held_def)
  show ?case
  proof (cases "length out = capacity")
    case False
    let ?n = "min (capacity - length out) (unat (sp_size p))"
    have range: "os_get_range ops s (sp_key p) 0 ?n = Inr (take ?n c)"
      using get_range [OF c(1), of 0 ?n] c(2) by simp
    have "take ?n c = take (capacity - length out) c" using c(2) by (simp add: min_def)
    moreover have "read_prefix_chunks (os_get_range ops s) capacity (out @ take ?n c) ps
        = Inr ((out @ take ?n c) @ take (capacity - length (out @ take ?n c)) rest)"
      using Cons.prems(2,3) c(2,4) False by (intro Cons.IH [OF c(3)]) auto
    moreover have "take (capacity - length out) c @ take (capacity - length (out @ take ?n c)) rest
        = take (capacity - length out) content"
      using c(2,4) by (cases "capacity - length out \<le> length c") (auto simp: min_def)
    ultimately show ?thesis
      using False range c(2) by (simp add: Let_def min.commute)
  qed simp
qed

text \<open>What a complete upload gives back.\<close>

lemma complete_upload:
  assumes ok: "upload_ok ops to_json prfx i s u content" and full: "up_offset u = up_total_size u"
  shows "assemble ops s u = Inr content" "read_prefix ops s u limit = Inr (take limit content)"
proof -
  from ok full have held: "holds_chunks ops s (up_chunks u) content"
    and len: "length content = unat (up_total_size u)" by (auto simp: upload_ok_def)
  show "assemble ops s u = Inr content"
    using full len assemble_chunks_held [OF held, of "[]"] by (simp add: assemble_def)
  have "read_prefix_chunks (os_get_range ops s) (min (unat (up_total_size u)) limit) [] (up_chunks u)
        = Inr (take limit content)"
    using read_prefix_held [OF held, of "[]" "min (unat (up_total_size u)) limit"] len by (simp add: min_def)
  then show "read_prefix ops s u limit = Inr (take limit content)"
    using full len by (simp add: read_prefix_def Let_def min_def)
qed

lemma fold_delete_frame:
  assumes "\<forall>p \<in> set ps. \<not> same (sp_key p) k"
  shows "os_get ops (fold (\<lambda>c s. snd (os_delete ops s (sp_key c))) ps s) k = os_get ops s k"
  using assms
proof (induction ps arbitrary: s)
  case (Cons p ps)
  obtain r s' where d: "os_delete ops s (sp_key p) = (r, s')" by force
  with Cons.IH [of s'] Cons.prems delete_frame [OF d, of k] show ?case by simp
qed simp

lemma composed_chunks:
  assumes held: "holds_chunks ops s (up_chunks u) content" "laid_out prfx i 0 (up_chunks u)"
    and key: "up_object_key u = d @ ''/'' @ b" "plain b" "CHR ''.'' \<in> set b"
    and comp: "compose_upload ops s now u = (Inr (), s')"
  shows "os_get ops s' (up_object_key u) = Inr content"
    and "os_get ops (snd (cleanup_chunks ops s' u)) (up_object_key u) = Inr content"
proof -
  have keys: "\<exists>off. sp_key p = chunk_key prfx i off" if "p \<in> set (up_chunks u)" for p
    using laid_out_keys [OF held(2) that] by auto
  from held(1) obtain cs where cs: "list_all2 (chunk_held ops s) (up_chunks u) cs" "content = concat cs"
    by (auto simp: holds_chunks_def)
  have "os_compose ops s now (up_object_key u) (up_chunks u) (up_content_type u) = (Inr (), s')"
    using comp by (auto simp: compose_upload_def split: if_splits sum.splits prod.splits)
  moreover have "list_all2 (\<lambda>p c. os_get ops s (sp_key p) = Inr c) (up_chunks u) cs"
    using cs(1) by (rule list_all2_mono) (simp add: chunk_held_def)
  moreover have "\<forall>p \<in> set (up_chunks u). \<not> scratch (up_object_key u) (sp_key p)"
    unfolding key(1) using keys object_not_chunk(2) [OF key(2,3)] by metis
  ultimately show got: "os_get ops s' (up_object_key u) = Inr content"
    using compose_ok cs(2) by blast
  have "\<forall>p \<in> set (up_chunks u). \<not> same (sp_key p) (up_object_key u)"
    unfolding key(1) using keys object_not_chunk(3) [OF key(2,3)] by metis
  from fold_delete_frame [OF this, of s'] got
  show "os_get ops (snd (cleanup_chunks ops s' u)) (up_object_key u) = Inr content"
    by (simp add: cleanup_chunks_def)
qed

lemma composed_upload:
  assumes "upload_ok ops to_json prfx i s u content"
    and "up_object_key u = d @ ''/'' @ b" "plain b" "CHR ''.'' \<in> set b"
    and "compose_upload ops s now u = (Inr (), s')"
  shows "os_get ops s' (up_object_key u) = Inr content"
    and "os_get ops (snd (cleanup_chunks ops s' u)) (up_object_key u) = Inr content"
proof -
  from assms(1) have "holds_chunks ops s (up_chunks u) content" "laid_out prfx i 0 (up_chunks u)"
    by (simp_all add: upload_ok_def)
  from composed_chunks [OF this assms(2-5)] show "os_get ops s' (up_object_key u) = Inr content"
    "os_get ops (snd (cleanup_chunks ops s' u)) (up_object_key u) = Inr content" .
qed

text \<open>Saving an upload's record leaves its image alone.\<close>

lemma save_keeps_object:
  assumes "save ops to_json s now prfx u = (r, s')" "plain b" "b \<noteq> ''state.json''"
  shows "os_get ops s' (d @ ''/'' @ b) = os_get ops s (d @ ''/'' @ b)"
proof -
  have "\<not> same (state_key prfx (up_id u)) (d @ ''/'' @ b)"
    unfolding state_key_shape using same_names [OF plain_names(1) assms(2)] assms(3) by metis
  moreover obtain r1 where "os_put ops s now (state_key prfx (up_id u)) (to_json u) (Some ''application/json'') = (r1, s')"
    using assms(1) by (auto simp: save_def split: sum.splits prod.splits)
  ultimately show ?thesis using put_frame by blast
qed

lemma saved_upload_ok:
  assumes "save ops to_json s now prfx u = (Inr (), s')" "up_offset u = 0" "up_chunks u = []"
  shows "upload_ok ops to_json prfx (up_id u) s' u []"
proof -
  from assms(1) obtain v where "os_put ops s now (state_key prfx (up_id u)) (to_json u) (Some ''application/json'') = (Inr v, s')"
    by (auto simp: save_def split: prod.splits sum.splits)
  then have "os_get ops s' (state_key prfx (up_id u)) = Inr (to_json u)" using put_ok by simp
  with assms(2,3) show ?thesis by (simp add: upload_ok_def)
qed

end

section \<open>Properties\<close>

text \<open>
  C34: An upload reads back as the accepted chunks.  After any sequence of requests, also ones
  that were rejected or cut off by a crash, the saved upload loads with an offset that counts the
  accepted bytes; once it is complete, its assembly is exactly the accepted chunks in order, and
  a prefix read returns a prefix of them.
\<close>

theorem upload_reads_back:
  assumes "up_offset u0 = 0" "up_chunks u0 = []" "is_uuid (up_id u0)" "codec_ok to_json from_json u0"
    and "save local_store to_json s0 now prfx u0 = (Inr (), s1)"
    and "upload_requests local_store to_json is_uuid from_json prfx (up_id u0) evs s1 = (accepted, s2)"
  shows "\<exists>u. load local_store is_uuid from_json s2 prfx (up_id u0) = Inr u
           \<and> u = u0\<lparr>up_offset := up_offset u, up_chunks := up_chunks u\<rparr>
           \<and> unat (up_offset u) = length accepted
           \<and> (up_offset u = up_total_size u \<longrightarrow>
                assemble local_store s2 u = Inr accepted
                \<and> read_prefix local_store s2 u limit = Inr (take limit accepted))"
proof -
  have "same_upload u0 u0" by (simp add: same_upload_def)
  from local_disk.requests_result [OF local_disk.saved_upload_ok [OF assms(5,1,2)] this assms(4,3,6)]
  obtain u where u: "upload_ok local_store to_json prfx (up_id u0) s2 u accepted" "same_upload u0 u" by auto
  have loaded: "load local_store is_uuid from_json s2 prfx (up_id u0) = Inr u"
    using u codec_okD [OF assms(4) u(2)] assms(3)
    by (intro local_disk.load_ok) (auto simp: upload_ok_def)
  have "unat (up_offset u) = length accepted" using u(1) by (simp add: upload_ok_def)
  with loaded u(2) local_disk.complete_upload [OF u(1)] show ?thesis
    by (intro exI [of _ u]) (auto simp: same_upload_def)
qed

text \<open>A codec that distinguishes the states of one upload.\<close>

definition sample_upload :: ResumableUpload where
  "sample_upload = new_upload ''id'' 0 ''m31.fits'' None 3 ''public-1/token.fits'' default_options ''a'' (Fin 1)"

definition sample_to_json :: "ResumableUpload \<Rightarrow> bytes" where
  "sample_to_json u =
     replicate (to_nat (unat (up_offset u), map (\<lambda>p. (sp_key p, unat (sp_size p))) (up_chunks u))) 0"

definition sample_from_json :: "bytes \<Rightarrow> ResumableUpload option" where
  "sample_from_json b =
     (case from_nat (length b) of (off, cs) \<Rightarrow>
        Some (sample_upload\<lparr>up_offset := of_nat off,
               up_chunks := map (\<lambda>(k, n). \<lparr>sp_key = k, sp_size = of_nat n\<rparr>) cs\<rparr>))"

lemma sample_codec: "codec_ok sample_to_json sample_from_json sample_upload"
proof -
  have "map (\<lambda>p. \<lparr>sp_key = sp_key p, sp_size = sp_size p\<rparr>) ps = ps" for ps
    by (rule map_idI) simp
  then show ?thesis
    by (simp add: codec_ok_def sample_to_json_def sample_from_json_def comp_def)

qed

definition sample_saved :: LocalStore where
  "sample_saved = snd (save local_store sample_to_json new_local_store 0 '''' sample_upload)"

lemma sample_save:
  "save local_store sample_to_json new_local_store 0 '''' sample_upload = (Inr (), sample_saved)"
proof -
  have "path_for (state_key '''' (up_id sample_upload)) = Inr [''.resumable'', ''id'', ''state.json'']"
    unfolding sample_upload_def new_upload_def by code_simp
  then have "fst (local_put new_local_store 0 (state_key '''' (up_id sample_upload)) c ct) = Inr ()" for c ct
    by (simp add: local_put_def create_dir_all_def write_file_def new_local_store_def ancestors_def
        is_file_def is_dir_def)
  then obtain st where "local_put new_local_store 0 (state_key '''' (up_id sample_upload))
      (sample_to_json sample_upload) (Some ''application/json'') = (Inr (), st)"
    by (metis prod.collapse)
  then show ?thesis by (simp add: sample_saved_def save_def)

qed

definition sample_chunks :: "upload_event list" where
  "sample_chunks = [Patch 1 0 [10, 11], Torn 2 2 [99], Patch 3 2 [12]]"

theorem upload_reads_back_witness:
  "\<exists>u. load local_store (\<lambda>_. True) sample_from_json
         (snd (upload_requests local_store sample_to_json (\<lambda>_. True) sample_from_json '''' ''id'' sample_chunks sample_saved))
         '''' ''id'' = Inr u
       \<and> unat (up_offset u) = length (fst (upload_requests local_store sample_to_json (\<lambda>_. True) sample_from_json
            '''' ''id'' sample_chunks sample_saved))"
proof -
  have "up_offset sample_upload = 0" "up_chunks sample_upload = []" "up_id sample_upload = ''id''"
    by (simp_all add: sample_upload_def new_upload_def)
  with upload_reads_back [OF _ _ _ sample_codec sample_save surjective_pairing, of "\<lambda>_. True" sample_chunks]
  show ?thesis by auto
qed

text \<open>
  The queued image is the uploaded image.  When a complete upload is composed, the object
  under its key holds exactly the accepted bytes, and removing the chunks afterwards keeps it.
\<close>

theorem composed_object_is_upload:
  assumes "up_offset u0 = 0" "up_chunks u0 = []" "is_uuid (up_id u0)" "codec_ok to_json from_json u0"
    and "save local_store to_json s0 now prfx u0 = (Inr (), s1)"
    and "upload_requests local_store to_json is_uuid from_json prfx (up_id u0) evs s1 = (accepted, s2)"
    and "up_object_key u0 = d @ ''/'' @ b" "plain b" "CHR ''.'' \<in> set b"
    and "load local_store is_uuid from_json s2 prfx (up_id u0) = Inr u"
    and "compose_upload local_store s2 now' u = (Inr (), s3)"
  shows "local_get s3 (up_object_key u0) = Inr accepted
         \<and> local_get (snd (cleanup_chunks local_store s3 u)) (up_object_key u0) = Inr accepted"
proof -
  have "same_upload u0 u0" by (simp add: same_upload_def)
  from local_disk.requests_result [OF local_disk.saved_upload_ok [OF assms(5,1,2)] this assms(4,3,6)]
  obtain u' where u': "upload_ok local_store to_json prfx (up_id u0) s2 u' accepted" "same_upload u0 u'" by auto
  have "load local_store is_uuid from_json s2 prfx (up_id u0) = Inr u'"
    using u' codec_okD [OF assms(4) u'(2)] assms(3)
    by (intro local_disk.load_ok) (auto simp: upload_ok_def)
  with assms(10) have "u' = u" by simp
  have "up_object_key (u0\<lparr>up_offset := x, up_chunks := y\<rparr>) = up_object_key u0" for x y by simp
  then have key: "up_object_key u = up_object_key u0"
    using u'(2) \<open>u' = u\<close> unfolding same_upload_def by metis
  from local_disk.composed_upload [OF u'(1) [unfolded \<open>u' = u\<close>] assms(7) [folded key] assms(8,9,11)] key
  show ?thesis by simp
qed

text \<open>The sample upload received in one chunk.\<close>

lemma sample_paths:
  "path_for (state_key '''' ''id'') = Inr [''.resumable'', ''id'', ''state.json'']"
  "path_for (chunk_key '''' ''id'' 0) = Inr [''.resumable'', ''id'', ''chunks'', ''00000000000000000000'']"
  "path_for ''public-1/token.fits'' = Inr [''public-1'', ''token.fits'']"
  by code_simp+

lemmas disk_eval = local_put_def create_dir_all_def write_file_def ancestors_def is_file_def is_dir_def
  read_file_def local_get_def local_exists_def local_compose_def temporary_path_def remove_file_def

definition sample_full :: ResumableUpload where
  "sample_full = sample_upload\<lparr>up_offset := 3,
     up_chunks := [\<lparr>sp_key = chunk_key '''' ''id'' 0, sp_size = 3\<rparr>]\<rparr>"

lemma sample_upload_simps [simp]:
  "up_id sample_upload = ''id''" "up_offset sample_upload = 0" "up_chunks sample_upload = []"
  "up_total_size sample_upload = 3" "up_job_id sample_upload = None"
  "up_object_key sample_upload = ''public-1/token.fits''"
  by (simp_all add: sample_upload_def new_upload_def)

lemma sample_saved_eq: "sample_saved =
   \<lparr>ls_files = [([''.resumable'', ''id'', ''state.json''], sample_to_json sample_upload, 0)],
    ls_dirs = [[], [''.resumable''], [''.resumable'', ''id'']]\<rparr>"
  by (simp add: sample_saved_def save_def sample_paths disk_eval new_local_store_def)

lemma sample_json:
  "sample_from_json (sample_to_json sample_upload) = Some sample_upload"
  "sample_from_json (sample_to_json sample_full) = Some sample_full"
  by (rule codec_okD [OF sample_codec], simp add: same_upload_def sample_full_def)+

definition sample_received :: LocalStore where
  "sample_received = \<lparr>
     ls_files = [([''.resumable'', ''id'', ''state.json''], sample_to_json sample_full, 1),
                 ([''.resumable'', ''id'', ''chunks'', ''00000000000000000000''], [10, 11, 12], 1)],
     ls_dirs = [[], [''.resumable''], [''.resumable'', ''id''], [''.resumable'', ''id'', ''chunks'']]\<rparr>"

lemma sample_patch:
  "upload_requests local_store sample_to_json (\<lambda>_. True) sample_from_json '''' ''id'' [Patch 1 0 [10, 11, 12]] sample_saved
   = ([10, 11, 12], sample_received)"
proof -
  have loaded: "load local_store (\<lambda>_. True) sample_from_json sample_saved '''' ''id'' = Inr sample_upload"
    by (simp add: load_def sample_saved_eq sample_paths disk_eval sample_json)
  have checked: "append_checks sample_upload 0 [10, 11, 12] = Inr 3"
    by (simp add: append_checks_def checked_add_def)
  have full: "sample_upload\<lparr>up_chunks := [\<lparr>sp_key = chunk_key '''' ''id'' 0, sp_size = 3\<rparr>], up_offset := 3\<rparr> = sample_full"
    by (simp add: sample_full_def)
  have full_id: "up_id sample_full = ''id''" by (simp add: sample_full_def)
  have "append_upload local_store sample_to_json sample_saved 1 '''' sample_upload 0 [10, 11, 12]
        = (Inr 3, sample_full, sample_received)"
    by (simp add: append_upload_def checked Let_def full full_id save_def sample_saved_eq sample_paths disk_eval
        sample_received_def)
  then show ?thesis by (simp add: loaded)
qed

lemma sample_load: "load local_store (\<lambda>_. True) sample_from_json sample_received '''' ''id'' = Inr sample_full"
  by (simp add: load_def sample_received_def sample_paths disk_eval sample_json)

lemma sample_compose: "fst (compose_upload local_store sample_received 2 sample_full) = Inr ()"
  by (simp add: compose_upload_def sample_full_def sample_received_def sample_paths disk_eval Let_def)

theorem composed_object_is_upload_witness:
  "local_get (snd (compose_upload local_store sample_received 2 sample_full)) ''public-1/token.fits''
   = Inr [10, 11, 12]"
proof -
  have "compose_upload local_store sample_received 2 sample_full
        = (Inr (), snd (compose_upload local_store sample_received 2 sample_full))"
    using sample_compose by (metis prod.collapse)
  with composed_object_is_upload [OF _ _ _ sample_codec sample_save, of "\<lambda>_. True" "[Patch 1 0 [10, 11, 12]]"
      "[10, 11, 12]" sample_received "''public-1''" "''token.fits''" sample_full 2]
  show ?thesis
    by (simp add: sample_patch sample_load plain_def del: upload_requests.simps)

qed

text \<open>
  A chunk is accepted exactly when it is the next one.  The upload must be open, the offset
  must be the number of bytes received, and the chunk must not be empty or run past the declared
  length; the new offset follows it.  Any other chunk leaves the upload and the store untouched.
\<close>

theorem append_takes_next_chunk_only:
  "if up_job_id u = None \<and> up_offset u \<noteq> up_total_size u \<and> offset = up_offset u \<and> data \<noteq> []
      \<and> unat offset + length data \<le> unat (up_total_size u)
   then append_checks u offset data = Inr (offset + of_nat (length data))
        \<and> unat (offset + of_nat (length data)) = unat offset + length data
   else \<exists>e. append_upload ops to_json s now prfx u offset data = (Inl e, u, s)"
proof (cases "up_job_id u = None \<and> up_offset u \<noteq> up_total_size u \<and> offset = up_offset u \<and> data \<noteq> []
      \<and> unat offset + length data \<le> unat (up_total_size u)")
  case True
  have small: "unat (up_total_size u) < 2 ^ 64"
  proof -
    have "(unsigned (up_total_size u) :: nat) < 2 ^ LENGTH(64)" by (rule unsigned_less)
    then show ?thesis by simp
  qed
  then have len: "length data < 2 ^ 64" using True by linarith
  then have n: "unat (of_nat (length data) :: u64) = length data" by (rule unat_of_nat_64)
  have sum: "unat (offset + of_nat (length data)) = unat offset + length data"
    using True small n by (subst unat_add_lem [THEN iffD1]) auto
  have "uint offset + uint (of_nat (length data) :: u64) < 2 ^ 64"
  proof -
    have "unat offset + length data < 2 ^ 64" using True small by linarith
    then have "int (unat offset + length data) < int (2 ^ 64)" by (simp only: of_nat_less_iff)
    then show ?thesis by (simp add: uint_nat n del: of_nat_unat)
  qed
  then have "checked_add offset (of_nat (length data)) = Some (offset + of_nat (length data))"
    by (simp add: checked_add_def)
  moreover have "offset + of_nat (length data) \<le> up_total_size u"
    using True sum by (auto simp: word_le_nat_alt)

  ultimately show ?thesis using True sum len by (auto simp: append_checks_def)
next
  case False
  have "\<exists>e. append_checks u offset data = Inl e"
  proof (cases "append_checks u offset data")
    case (Inr n)
    from Inr have "up_offset u \<noteq> up_total_size u" by (auto simp: append_checks_def split: if_splits)
    with local_disk.append_checks_Inr [OF Inr] False show ?thesis by (auto simp: word_le_nat_alt)
  qed simp
  with False show ?thesis by (auto simp: append_upload_def simp del: split_paired_Ex)
qed

section \<open>Concatenated uploads\<close>

lemma assemble_chunks_append:
  "assemble_chunks get out (ps @ qs)
   = (case assemble_chunks get out ps of Inl e \<Rightarrow> Inl e | Inr out' \<Rightarrow> assemble_chunks get out' qs)"
  by (induction ps arbitrary: out) (auto split: sum.split)

lemma assemble_chunks_prefix:
  "assemble_chunks get [] ps = Inr c \<Longrightarrow> assemble_chunks get out ps = Inr (out @ c)"
proof -
  have "assemble_chunks get (a @ b) ps = (case assemble_chunks get b ps of Inl e \<Rightarrow> Inl e | Inr r \<Rightarrow> Inr (a @ r))"
    for a b
    by (induction ps arbitrary: b) (auto split: sum.split)
  from this [of out "[]"] show "assemble_chunks get [] ps = Inr c \<Longrightarrow> assemble_chunks get out ps = Inr (out @ c)"
    by simp
qed

lemma assemble_parts:
  assumes "list_all2 (\<lambda>part c. assemble ops s part = Inr c) parts cs" "total_of_parts acc parts = Some n"
  shows "assemble_chunks (os_get ops s) out (concat (map up_chunks parts)) = Inr (out @ concat cs)
         \<and> unat n = unat acc + length (concat cs)"
  using assms
proof (induction parts cs arbitrary: acc out rule: list_all2_induct)
  case Nil
  then show ?case by simp
next
  case (Cons part parts c cs)
  from Cons(1) have part: "assemble_chunks (os_get ops s) [] (up_chunks part) = Inr c"
    "length c = unat (up_total_size part)"
    by (auto simp: assemble_def split: if_splits sum.splits)
  from Cons.prems obtain acc' where acc': "checked_add acc (up_total_size part) = Some acc'"
    "total_of_parts acc' parts = Some n" by (auto split: option.splits)
  have "unat acc' = unat acc + length c"
    using acc'(1) part(2)
    by (auto simp: checked_add_def no_olen_add unat_plus_simple [symmetric] split: if_splits)
  with Cons.IH [OF acc'(2), of "out @ c"] assemble_chunks_prefix [OF part(1), of out]
  show ?case by (simp add: assemble_chunks_append)
qed

text \<open>
  A concatenated upload is the concatenation.  An upload made from parts is complete at once,
  and it assembles to the parts' contents one after the other; lengths that would overflow are an
  error.
\<close>

theorem concatenated_upload_is_concatenation:
  assumes "list_all2 (\<lambda>part c. assemble ops s part = Inr c) parts cs"
    and "concatenate i now filename content_type object_key options owner w parts = Inr u"
  shows "up_offset u = up_total_size u \<and> unat (up_total_size u) = length (concat cs)
         \<and> assemble ops s u = Inr (concat cs)"
proof -
  from assms(2) obtain n where n: "total_of_parts 0 parts = Some n"
    "up_total_size u = n" "up_offset u = n" "up_chunks u = concat (map up_chunks parts)"
    by (auto simp: concatenate_def split: option.splits)
  from assemble_parts [OF assms(1) n(1), of "[]"] n show ?thesis
    by (simp add: assemble_def)
qed

theorem concatenated_upload_is_concatenation_witness:
  "\<exists>u. concatenate ''new'' 3 ''m31.fits'' None ''k'' default_options ''a'' (Fin 1) [sample_full, sample_full] = Inr u
       \<and> assemble local_store sample_received u = Inr [10, 11, 12, 10, 11, 12]"
proof -
  have part: "assemble local_store sample_received sample_full = Inr [10, 11, 12]"
    by (simp add: assemble_def sample_full_def sample_received_def sample_paths disk_eval)
  obtain u where u: "concatenate ''new'' 3 ''m31.fits'' None ''k'' default_options ''a'' (Fin 1) [sample_full, sample_full] = Inr u"
    by (simp add: concatenate_def checked_add_def sample_full_def)
  from concatenated_upload_is_concatenation [OF _ u, of local_store sample_received "[[10, 11, 12], [10, 11, 12]]"] part u
  show ?thesis by simp
qed

end
