(* ===== verification/Transport.thy ===== *)
theory Transport
  imports Queue_Properties Text
begin

text \<open>
  The notification transport of \<open>src/transport.rs\<close> and the dispatcher of \<open>src/api.rs\<close> that moves
  pending notifications from the outbox of the job database to it.  The queue service and the
  text form of a UUID are parameters.
\<close>

section \<open>Messages\<close>

record SqsTransport =
  st_queue_url :: string
  st_priority_queue_url :: "string option"

record SqsMessage =
  sm_queue_url :: string
  sm_body :: string
  sm_group_id :: string

definition is_priority :: "f64 \<Rightarrow> bool" where
  "is_priority queue_weight = f64_lt (Fin 1) queue_weight"

definition queue_url :: "SqsTransport \<Rightarrow> JobRecord \<Rightarrow> string" where
  "queue_url t job =
     (case (is_priority (j_queue_weight job), st_priority_queue_url t) of
        (True, Some url) \<Rightarrow> url
      | _ \<Rightarrow> st_queue_url t)"

definition is_ascii_graphic :: "char \<Rightarrow> bool" where
  "is_ascii_graphic c = (33 \<le> (of_char c :: nat) \<and> (of_char c :: nat) \<le> 126)"

definition fair_queue_group_id :: "string \<Rightarrow> string option" where
  "fair_queue_group_id owner =
     (let group_id = ''seiza:v1:'' @ owner in
      if 128 < length group_id \<or> \<not> list_all is_ascii_graphic group_id then None else Some group_id)"

text \<open>The message \<open>publish\<close> sends, or \<open>None\<close> when the owner has no group id.\<close>

definition sqs_message :: "(JobId \<Rightarrow> string) \<Rightarrow> SqsTransport \<Rightarrow> JobRecord \<Rightarrow> SqsMessage option" where
  "sqs_message show_uuid t job =
     map_option (\<lambda>g. \<lparr>sm_queue_url = queue_url t job, sm_body = show_uuid (j_id job), sm_group_id = g\<rparr>)
       (fair_queue_group_id (j_owner job))"

section \<open>The dispatcher\<close>

text \<open>
  One round of \<open>dispatch_outbox\<close>: every listed notification is published and then marked
  delivered; a notification of a missing job is discarded; a failed publish or lookup keeps it.
  \<open>publish job\<close> says whether the service took the message; the first component of the result
  lists the published jobs.
\<close>

fun dispatch_jobs ::
  "(JobRecord \<Rightarrow> bool) \<Rightarrow> time \<Rightarrow> JobId list \<Rightarrow> JobDb \<Rightarrow> JobId list \<times> JobDb" where
  "dispatch_jobs publish now [] db = ([], db)"
| "dispatch_jobs publish now (i # is) db =
     (case get_job db i of
        Inl e \<Rightarrow> dispatch_jobs publish now is db
      | Inr None \<Rightarrow> dispatch_jobs publish now is (mark_notification_delivered db now i)
      | Inr (Some job) \<Rightarrow>
          if publish job
          then (case dispatch_jobs publish now is (mark_notification_delivered db now i) of
                  (sent, db') \<Rightarrow> (i # sent, db'))
          else dispatch_jobs publish now is db)"

definition dispatch_round :: "(JobRecord \<Rightarrow> bool) \<Rightarrow> time \<Rightarrow> JobDb \<Rightarrow> JobId list \<times> JobDb" where
  "dispatch_round publish now db =
     (case pending_notifications db now 100 of (is, db1) \<Rightarrow> dispatch_jobs publish now is db1)"

section \<open>Properties\<close>

lemma pending_mark_other: "pending db i \<Longrightarrow> i \<noteq> j \<Longrightarrow> pending (mark_notification_delivered db now j) i"
  using pending_kept [of db i "EvDelivered now j"] by simp

lemma get_job_mark [simp]: "get_job (mark_notification_delivered db now j) i = get_job db i"
proof -
  have "validation_donation (mark_notification_delivered db now j) k = validation_donation db k" for k
    by (simp add: validation_donation_def mark_notification_delivered_def)
  moreover have "db_jobs (mark_notification_delivered db now j) = db_jobs db"
    by (simp add: mark_notification_delivered_def)
  ultimately show ?thesis by (simp only: get_job_def fetch_job_def)
qed

lemma dispatch_jobs_result:
  assumes "dispatch_jobs publish now is db = (sent, db')" "\<forall>i \<in> set is. get_job db i \<noteq> Inr None"
  shows "(\<forall>i. pending db i \<longrightarrow> i \<in> set sent \<or> pending db' i)
         \<and> set sent = {i \<in> set is. \<exists>job. get_job db i = Inr (Some job) \<and> publish job}
         \<and> db_jobs db' = db_jobs db"
  using assms
proof (induction "is" arbitrary: db sent db')
  case Nil
  then show ?case by auto
next
  case (Cons i "is")
  show ?case
  proof (cases "\<exists>job. get_job db i = Inr (Some job) \<and> publish job")
    case True
    let ?m = "mark_notification_delivered db now i"
    obtain sent1 db1 where rest: "dispatch_jobs publish now is ?m = (sent1, db1)" by force
    with True Cons.prems(1) have res: "sent = i # sent1" "db' = db1" by auto
    have "\<forall>j \<in> set is. get_job ?m j \<noteq> Inr None" using Cons.prems(2) by simp
    note IH0 = Cons.IH [OF rest this, unfolded get_job_mark]
    have IH: "\<forall>j. pending ?m j \<longrightarrow> j \<in> set sent1 \<or> pending db1 j"
      "set sent1 = {j \<in> set is. \<exists>job. get_job db j = Inr (Some job) \<and> publish job}"
      "db_jobs db1 = db_jobs ?m" using IH0 by blast+
    have "j \<in> set sent \<or> pending db' j" if "pending db j" for j
      using pending_mark_other [OF that, of i now] IH(1) res by auto
    with IH(2,3) res True show ?thesis by (auto simp: mark_notification_delivered_def)
  next
    case False
    have "dispatch_jobs publish now (i # is) db = dispatch_jobs publish now is db"
      using False Cons.prems(2) by (auto split: sum.split option.split)
    with Cons.prems have "dispatch_jobs publish now is db = (sent, db')" by simp
    from Cons.IH [OF this] Cons.prems(2) False show ?thesis by auto
  qed
qed

lemma dispatch_jobs_get:
  "dispatch_jobs publish now is db = (sent, db') \<Longrightarrow> get_job db' i = get_job db i"
proof (induction "is" arbitrary: db sent)
  case (Cons j "is")
  then show ?case
    by (auto split: sum.splits option.splits if_splits prod.splits)
qed simp

text \<open>
  A dispatcher round loses no notification.  Every job whose notification is pending is
  published by the round or stays pending; the jobs published are existing jobs the service
  accepted; and when at most a hundred jobs exist, every pending one the service accepts is
  published.
\<close>

theorem dispatch_loses_nothing:
  assumes "reachable used db" "dispatch_round publish now db = (sent, db')"
  shows "(\<forall>i. pending db i \<longrightarrow> i \<in> set sent \<or> pending db' i)
         \<and> (\<forall>i \<in> set sent. \<exists>job. get_job db' i = Inr (Some job) \<and> publish job)
         \<and> (\<forall>i. pending db i \<and> length (db_jobs db) \<le> 100 \<and> (\<forall>job. publish job) \<longrightarrow> i \<in> set sent)"
proof -
  have inv: "queue_inv used db" using assms(1) by (rule reachable_inv)
  obtain ids db1 where listed: "pending_notifications db now 100 = (ids, db1)" by force
  then have db1: "db1 = reclaim_expired db now" by (simp add: pending_notifications_def Let_def)
  have rinv: "queue_inv used db1" unfolding db1 using inv by (rule queue_inv_reclaim)
  have rows: "\<exists>r. row_of db1 i = Some r" if "i \<in> set ids" for i
  proof -
    from that listed db1 have "i \<in> r_id ` set (db_jobs db1)"
      by (auto simp: pending_notifications_def Let_def dest!: in_set_takeD)
    then show ?thesis using row_of_Some [OF rinv] by blast
  qed
  have dispatch: "dispatch_jobs publish now ids db1 = (sent, db')"
    using assms(2) listed by (simp add: dispatch_round_def)
  have found: "\<exists>job. get_job db1 i = Inr (Some job)" if "i \<in> set ids" for i
    using rows [OF that] get_job_row [OF rinv] by blast
  then have "\<forall>i \<in> set ids. get_job db1 i \<noteq> Inr None" by force
  from dispatch_jobs_result [OF dispatch this] have
    kept: "\<forall>i. pending db1 i \<longrightarrow> i \<in> set sent \<or> pending db' i"
    and sent: "set sent = {i \<in> set ids. \<exists>job. get_job db1 i = Inr (Some job) \<and> publish job}" by blast+
  have "pending db1 i" if "pending db i" for i unfolding db1 using that by (rule pending_reclaim)
  moreover have "i \<in> set ids" if "pending db i" "length (db_jobs db) \<le> 100" for i
    using pending_listed [OF inv that, of now] listed by simp
  ultimately show ?thesis
    using kept sent found dispatch_jobs_get [OF dispatch] by auto
qed

theorem dispatch_loses_nothing_witness:
  "1 \<in> set (fst (dispatch_round (\<lambda>_. True) 5 one_job_db))"
proof -
  have "pending one_job_db 1" "length (db_jobs one_job_db) \<le> 100"
    by (simp_all add: pending_def one_job_db_eq)
  with dispatch_loses_nothing [OF reachable_one_job, of "\<lambda>_. True" 5] show ?thesis
    by (metis prod.collapse)
qed

text \<open>
  Queue messages are well formed and fair.  A message goes to the priority queue just for a
  weight above one, carries the job's id as its body, and its group identifies the owner: two
  jobs share a group exactly when they share the owner, within the service's limits on group ids.
\<close>

lemma sqs_message_groups_by_owner:
  "case (sqs_message show_uuid t job, sqs_message show_uuid t job') of
     (Some m, Some m') \<Rightarrow>
       (sm_group_id m = sm_group_id m' \<longleftrightarrow> j_owner job = j_owner job')
       \<and> sm_body m = show_uuid (j_id job)
       \<and> length (sm_group_id m) \<le> 128 \<and> list_all is_ascii_graphic (sm_group_id m)
       \<and> sm_queue_url m = (case st_priority_queue_url t of
            Some url \<Rightarrow> if f64_lt (Fin 1) (j_queue_weight job) then url else st_queue_url t
          | None \<Rightarrow> st_queue_url t)
   | _ \<Rightarrow> True"
  by (auto simp: sqs_message_def fair_queue_group_id_def queue_url_def is_priority_def Let_def not_less
      split: option.splits bool.splits if_splits)

end
