(* ===== verification/Server_Config.thy ===== *)
theory Server_Config
  imports Text
begin

text \<open>
  The configuration of the server, \<open>src/config.rs\<close>: the variables of the environment, their parsers
  and defaults, and the checks that \<open>Config::from_env\<close> makes, in its order.  The environment is a
  function from names to values.  The parsers of socket addresses, floating-point numbers and
  URLs, reading a file, and the search of the \<open>seiza\<close> package for its catalogues are the record
  \<open>config_io\<close>.  A variable that is not Unicode counts as absent.
\<close>

section \<open>Enumerations\<close>

datatype config_error =
    InvalidVariable string
  | ConfigRejected string

datatype AuthMode = Public | StubApiKey | Accounts
datatype EmailProvider = Ses | Smtp
datatype SmtpTls = StartTls | ImplicitTls
datatype StorageBackend = LocalStorage | S3Storage
datatype QueueDelivery = LocalQueue | SqsQueue
datatype JobBackend = SqlxBackend | DynamoDbBackend

definition keyword :: "string \<Rightarrow> string" where
  "keyword v = to_ascii_lowercase (trim v)"

definition auth_mode_from_str :: "string \<Rightarrow> config_error + AuthMode" where
  "auth_mode_from_str v =
     (let v = keyword v in
      if v = ''public'' then Inr Public
      else if v = ''stub-api-key'' \<or> v = ''stub_api_key'' then Inr StubApiKey
      else if v = ''accounts'' then Inr Accounts
      else Inl (ConfigRejected ''SEIZA_AUTH_MODE must be `public`, `stub-api-key`, or `accounts`''))"

definition email_provider_from_str :: "string \<Rightarrow> config_error + EmailProvider" where
  "email_provider_from_str v =
     (let v = keyword v in
      if v = ''ses'' then Inr Ses
      else if v = ''smtp'' then Inr Smtp
      else Inl (ConfigRejected ''SEIZA_EMAIL_PROVIDER must be `ses` or `smtp`''))"

definition smtp_tls_from_str :: "string \<Rightarrow> config_error + SmtpTls" where
  "smtp_tls_from_str v =
     (let v = keyword v in
      if v = ''starttls'' then Inr StartTls
      else if v = ''implicit'' then Inr ImplicitTls
      else Inl (ConfigRejected ''SEIZA_SMTP_TLS must be `starttls` or `implicit`''))"

definition job_backend_from_str :: "string \<Rightarrow> config_error + JobBackend" where
  "job_backend_from_str v =
     (let v = keyword v in
      if v = ''sqlx'' \<or> v = ''sqlite'' \<or> v = ''postgres'' \<or> v = ''postgresql'' then Inr SqlxBackend
      else if v = ''dynamodb'' \<or> v = ''dynamo'' then Inr DynamoDbBackend
      else Inl (ConfigRejected ''SEIZA_JOB_BACKEND must be `sqlx` or `dynamodb`''))"

definition queue_delivery_from_str :: "string \<Rightarrow> config_error + QueueDelivery" where
  "queue_delivery_from_str v =
     (let v = keyword v in
      if v = ''local'' \<or> v = ''sqlite'' \<or> v = ''disk'' then Inr LocalQueue
      else if v = ''sqs'' then Inr SqsQueue
      else Inl (ConfigRejected ''SEIZA_QUEUE_TRANSPORT must be `local` or `sqs`''))"

definition storage_backend_from_str :: "string \<Rightarrow> config_error + StorageBackend" where
  "storage_backend_from_str v =
     (let v = keyword v in
      if v = ''local'' then Inr LocalStorage
      else if v = ''s3'' then Inr S3Storage
      else Inl (ConfigRejected ''SEIZA_STORAGE_BACKEND must be `local` or `s3`''))"

section \<open>API keys with priority\<close>

definition parse_priority_keys :: "string option \<Rightarrow> string list" where
  "parse_priority_keys v =
     (case v of None \<Rightarrow> [] | Some s \<Rightarrow> filter (\<lambda>k. k \<noteq> []) (map trim (split_on (CHR '','') s)))"

definition priority_key_weight :: "string list \<Rightarrow> string option \<Rightarrow> u64 \<Rightarrow> f64" where
  "priority_key_weight keys api_key priority_weight =
     (if is_some_and (\<lambda>key. list_ex (\<lambda>k. k = key) keys) api_key then Fin (of_nat (unat priority_weight))
      else Fin 1)"

section \<open>Markup of the site\<close>

definition max_site_head_html_bytes :: nat where
  "max_site_head_html_bytes = 64 * 1024"

definition site_head_html ::
  "(string \<Rightarrow> string option) \<Rightarrow> string option \<Rightarrow> string option \<Rightarrow> config_error + string option" where
  "site_head_html read_file inline path =
     (if inline \<noteq> None \<and> path \<noteq> None
      then Inl (ConfigRejected ''SEIZA_SITE_HEAD_HTML and SEIZA_SITE_HEAD_HTML_FILE are mutually exclusive'')
      else and_then
        (case (inline, path) of
           (Some html, _) \<Rightarrow> Inr (Some html)
         | (None, Some p) \<Rightarrow>
             map_sum id Some (ok_or (ConfigRejected ''reading SEIZA_SITE_HEAD_HTML_FILE'') (read_file p))
         | (None, None) \<Rightarrow> Inr None)
        (\<lambda>found.
          let html = filter_option (\<lambda>h. trim h \<noteq> []) found in
          if is_some_and (\<lambda>h. max_site_head_html_bytes < length h) html
          then Inl (ConfigRejected ''site head HTML must not exceed 65536 bytes'')
          else Inr html))"

section \<open>The public URL\<close>

record url_parts =
  url_scheme :: string
  url_username :: string
  url_password :: "string option"
  url_host :: "string option"
  url_path :: string
  url_query :: "string option"
  url_fragment :: "string option"

definition is_loopback_url :: "url_parts \<Rightarrow> bool" where
  "is_loopback_url url = is_some_and (\<lambda>h. to_ascii_lowercase h = ''localhost'') (url_host url)"

definition validate_public_base_url ::
  "(string \<Rightarrow> url_parts option) \<Rightarrow> string \<Rightarrow> config_error + url_parts" where
  "validate_public_base_url parse v =
     and_then (ok_or (InvalidVariable ''SEIZA_PUBLIC_BASE_URL'') (parse v)) (\<lambda>url.
       if url_username url \<noteq> [] \<or> url_password url \<noteq> None \<or> url_query url \<noteq> None
          \<or> url_fragment url \<noteq> None \<or> url_path url \<noteq> ''/''
       then Inl (ConfigRejected ''SEIZA_PUBLIC_BASE_URL must be an origin without credentials, path, query, or fragment'')
       else if url_scheme url \<noteq> ''https'' \<and> \<not> (url_scheme url = ''http'' \<and> is_loopback_url url)
       then Inl (ConfigRejected ''SEIZA_PUBLIC_BASE_URL must use HTTPS except for localhost development'')
       else Inr url)"

section \<open>Reading the environment\<close>

type_synonym environment = "string \<Rightarrow> string option"

datatype data_path_error = NoDefault | DataPathFailed

record config_io =
  io_parse_addr :: "string \<Rightarrow> string option"
  io_parse_f64 :: "string \<Rightarrow> f64 option"
  io_parse_url :: "string \<Rightarrow> url_parts option"
  io_read_file :: "string \<Rightarrow> string option"
  io_star_data :: "string option \<Rightarrow> data_path_error + string"
  io_blind_index :: "string option \<Rightarrow> data_path_error + string option"
  io_blind_index_beside :: "string option \<Rightarrow> string \<Rightarrow> data_path_error + string option"
  io_objects :: "string option \<Rightarrow> data_path_error + string"
  io_star_identifiers :: "string option \<Rightarrow> data_path_error + string"
  io_transients :: "string option \<Rightarrow> data_path_error + string"
  io_minor_bodies :: "string option \<Rightarrow> data_path_error + string"
  io_default_cache_bytes :: u64

definition env_or :: "environment \<Rightarrow> string \<Rightarrow> string \<Rightarrow> string" where
  "env_or env key dflt = (case env key of Some v \<Rightarrow> v | None \<Rightarrow> dflt)"

definition nonempty_env :: "environment \<Rightarrow> string \<Rightarrow> string option" where
  "nonempty_env env key = filter_option (\<lambda>v. v \<noteq> []) (env key)"

definition parse_env :: "(string \<Rightarrow> 'a option) \<Rightarrow> environment \<Rightarrow> string \<Rightarrow> 'a \<Rightarrow> config_error + 'a" where
  "parse_env parse env key dflt =
     (case env key of Some v \<Rightarrow> ok_or (InvalidVariable key) (parse v) | None \<Rightarrow> Inr dflt)"

definition parse_u64 :: "string \<Rightarrow> u64 option" where
  "parse_u64 s = map_option of_nat (parse_unsigned 64 s)"

definition parse_u16 :: "string \<Rightarrow> 16 word option" where
  "parse_u16 s = map_option of_nat (parse_unsigned 16 s)"

definition parse_bool :: "string \<Rightarrow> bool option" where
  "parse_bool s = (if s = ''true'' then Some True else if s = ''false'' then Some False else None)"

text \<open>\<open>Option::transpose\<close> after \<open>map\<close>.\<close>

definition traverse :: "('a \<Rightarrow> 'e + 'b) \<Rightarrow> 'a option \<Rightarrow> 'e + 'b option" where
  "traverse f x = (case x of None \<Rightarrow> Inr None | Some a \<Rightarrow> map_sum id Some (f a))"

definition optional_data_path :: "string \<Rightarrow> data_path_error + string \<Rightarrow> config_error + string option" where
  "optional_data_path what r =
     (case r of Inr p \<Rightarrow> Inr (Some p) | Inl NoDefault \<Rightarrow> Inr None
      | Inl DataPathFailed \<Rightarrow> Inl (InvalidVariable what))"

definition optional_catalog_from_env ::
  "environment \<Rightarrow> string \<Rightarrow> (string option \<Rightarrow> data_path_error + string) \<Rightarrow> config_error + string option" where
  "optional_catalog_from_env env variable resolver =
     optional_data_path variable (resolver (nonempty_env env variable))"

text \<open>\<open>PathBuf::join\<close> with a relative path.\<close>

definition path_join :: "string \<Rightarrow> string \<Rightarrow> string" where
  "path_join d f = (if d = [] \<or> List.last d = CHR ''/'' then d @ f else d @ ''/'' @ f)"

definition valid_priority_weight :: "u64 \<Rightarrow> bool" where
  "valid_priority_weight w = (2 \<le> w \<and> w \<le> 100)"

section \<open>The configuration\<close>

record Config =
  cf_bind_addr :: string
  cf_frontend_dir :: string
  cf_media_dir :: "string option"
  cf_site_head_html :: "string option"
  cf_data_dir :: string
  cf_catalog_path :: "string option"
  cf_blind_index_path :: "string option"
  cf_object_catalog_path :: "string option"
  cf_star_identifier_catalog_path :: "string option"
  cf_transient_catalog_path :: "string option"
  cf_minor_body_catalog_path :: "string option"
  cf_satellite_tracks_enabled :: bool
  cf_satellite_cache_dir :: string
  cf_satellite_cache_max_bytes :: u64
  cf_job_backend :: JobBackend
  cf_sql_database_url :: string
  cf_dynamodb_table :: "string option"
  cf_identity_backend :: JobBackend
  cf_identity_sql_database_url :: string
  cf_identity_dynamodb_table :: "string option"
  cf_queue_transport :: QueueDelivery
  cf_sqs_queue_url :: "string option"
  cf_sqs_priority_queue_url :: "string option"
  cf_sqs_priority_weight :: u64
  cf_priority_api_keys :: "string list"
  cf_embedded_workers :: bool
  cf_worker_token :: "string option"
  cf_lease_seconds :: u64
  cf_worker_count :: u64
  cf_max_upload_bytes :: u64
  cf_upload_retention_seconds :: u64
  cf_upload_cleanup_interval_seconds :: u64
  cf_rate_limit_per_minute :: f64
  cf_rate_limit_burst :: f64
  cf_trusted_proxy_hops :: u64
  cf_auth_mode :: AuthMode
  cf_public_ui_solves :: bool
  cf_public_api_solves :: bool
  cf_public_base_url :: "url_parts option"
  cf_auth_code_pepper_file :: "string option"
  cf_email_provider :: "EmailProvider option"
  cf_email_from :: "string option"
  cf_ses_from_identity_arn :: "string option"
  cf_ses_role_arn :: "string option"
  cf_ses_role_external_id_file :: "string option"
  cf_smtp_host :: "string option"
  cf_smtp_port :: "16 word option"
  cf_smtp_username :: "string option"
  cf_smtp_password_file :: "string option"
  cf_smtp_tls :: SmtpTls
  cf_smtp_timeout_seconds :: u64
  cf_storage_backend :: StorageBackend
  cf_s3_bucket :: "string option"
  cf_s3_prefix :: string
  cf_validation_prefix :: string

text \<open>What accounts need.\<close>

definition require_accounts ::
  "AuthMode \<Rightarrow> url_parts option \<Rightarrow> string option \<Rightarrow> EmailProvider option \<Rightarrow> string option
    \<Rightarrow> string option \<Rightarrow> string option \<Rightarrow> string option \<Rightarrow> config_error + unit" where
  "require_accounts auth_mode base_url pepper_file provider email_sender host username password_file =
     (if auth_mode \<noteq> Accounts then Inr ()
      else if base_url = None
      then Inl (ConfigRejected ''SEIZA_PUBLIC_BASE_URL is required when SEIZA_AUTH_MODE=accounts'')
      else if pepper_file = None
      then Inl (ConfigRejected ''SEIZA_AUTH_CODE_PEPPER_FILE is required when SEIZA_AUTH_MODE=accounts'')
      else if provider = None
      then Inl (ConfigRejected ''SEIZA_EMAIL_PROVIDER is required when SEIZA_AUTH_MODE=accounts'')
      else if email_sender = None
      then Inl (ConfigRejected ''SEIZA_EMAIL_FROM is required when SEIZA_AUTH_MODE=accounts'')
      else if provider = Some Smtp \<and> (host = None \<or> username = None \<or> password_file = None)
      then Inl (ConfigRejected ''SMTP email requires SEIZA_SMTP_HOST, SEIZA_SMTP_USERNAME, and SEIZA_SMTP_PASSWORD_FILE'')
      else Inr ())"

definition safe_prefix :: "string \<Rightarrow> bool" where
  "safe_prefix p =
     (\<not> (p = [] \<or> list_ex (\<lambda>c. c = [] \<or> c = ''.'' \<or> c = ''..'') (split_on (CHR ''/'') p)))"

definition prefixes_overlap :: "string \<Rightarrow> string \<Rightarrow> bool" where
  "prefixes_overlap s v =
     (s = v \<or> (s \<noteq> [] \<and> starts_with s (v @ ''/'')) \<or> (s \<noteq> [] \<and> starts_with v (s @ ''/'')))"

definition from_env :: "config_io \<Rightarrow> environment \<Rightarrow> config_error + Config" where
  "from_env io env =
     and_then (ok_or (InvalidVariable ''SEIZA_BIND_ADDR'') (io_parse_addr io (env_or env ''SEIZA_BIND_ADDR'' ''127.0.0.1:8080''))) (\<lambda>bind_addr.
     and_then (parse_env parse_u64 env ''SEIZA_WORKER_COUNT'' 1) (\<lambda>worker_count.
     and_then (ensure (worker_count \<noteq> 0)
       (ConfigRejected ''SEIZA_WORKER_COUNT must be at least 1'')) (\<lambda>_.
     and_then (parse_env parse_u64 env ''SEIZA_MAX_UPLOAD_BYTES'' (100 * 1024 * 1024)) (\<lambda>max_upload_bytes.
     and_then (parse_env parse_u64 env ''SEIZA_UPLOAD_RETENTION_SECONDS'' 86400) (\<lambda>upload_retention_seconds.
     and_then (parse_env parse_u64 env ''SEIZA_UPLOAD_CLEANUP_INTERVAL_SECONDS'' 3600) (\<lambda>upload_cleanup_interval_seconds.
     and_then (parse_env (io_parse_f64 io) env ''SEIZA_RATE_LIMIT_PER_MINUTE'' (Fin 6)) (\<lambda>rate_limit_per_minute.
     and_then (parse_env (io_parse_f64 io) env ''SEIZA_RATE_LIMIT_BURST'' (Fin 3)) (\<lambda>rate_limit_burst.
     and_then (parse_env parse_u64 env ''SEIZA_TRUSTED_PROXY_HOPS'' 0) (\<lambda>trusted_proxy_hops.
     and_then (parse_env parse_bool env ''SEIZA_EMBEDDED_WORKERS'' True) (\<lambda>embedded_workers.
     and_then (parse_env parse_u64 env ''SEIZA_LEASE_SECONDS'' 900) (\<lambda>lease_seconds.
     and_then (parse_env parse_u64 env ''SEIZA_SQS_PRIORITY_WEIGHT'' 2) (\<lambda>sqs_priority_weight.
     and_then (ensure (\<not> (f64_le rate_limit_per_minute (Fin 0) \<or> f64_lt rate_limit_burst (Fin 1)))
       (ConfigRejected ''rate limit values must be positive and burst must be at least 1'')) (\<lambda>_.
     and_then (ensure (lease_seconds \<noteq> 0)
       (ConfigRejected ''SEIZA_LEASE_SECONDS must be at least 1'')) (\<lambda>_.
     and_then (ensure (valid_priority_weight sqs_priority_weight)
       (ConfigRejected ''SEIZA_SQS_PRIORITY_WEIGHT must be between 2 and 100'')) (\<lambda>_.
     and_then (ensure (\<not> (upload_retention_seconds = 0 \<or> i64_max < uint upload_retention_seconds))
       (ConfigRejected ''SEIZA_UPLOAD_RETENTION_SECONDS must be between 1 and i64::MAX'')) (\<lambda>_.
     and_then (ensure (upload_cleanup_interval_seconds \<noteq> 0)
       (ConfigRejected ''SEIZA_UPLOAD_CLEANUP_INTERVAL_SECONDS must be at least 1'')) (\<lambda>_.
     let data_dir = env_or env ''SEIZA_DATA_DIR'' ''data'' in
     and_then (parse_env parse_bool env ''SEIZA_SATELLITE_TRACKS'' True) (\<lambda>satellite_tracks_enabled.
     let satellite_cache_dir = (case nonempty_env env ''SEIZA_SATELLITE_CACHE_DIR'' of Some d \<Rightarrow> d
       | None \<Rightarrow> path_join data_dir ''satellites'') in
     and_then (parse_env parse_u64 env ''SEIZA_SATELLITE_CACHE_MAX_BYTES'' (io_default_cache_bytes io)) (\<lambda>satellite_cache_max_bytes.
     and_then (ensure (\<not> (satellite_tracks_enabled \<and> satellite_cache_max_bytes = 0))
       (ConfigRejected ''SEIZA_SATELLITE_CACHE_MAX_BYTES must be at least 1'')) (\<lambda>_.
     and_then (optional_data_path ''star catalog'' (io_star_data io None)) (\<lambda>catalog_path.
     and_then (map_sum (\<lambda>_. InvalidVariable ''blind index'') id
       (case catalog_path of Some catalog \<Rightarrow> io_blind_index_beside io None catalog
        | None \<Rightarrow> io_blind_index io None)) (\<lambda>blind_index_path.
     and_then (optional_catalog_from_env env ''SEIZA_OBJECT_DATA'' (io_objects io)) (\<lambda>object_catalog_path.
     and_then (optional_catalog_from_env env ''SEIZA_STAR_IDENTIFIER_DATA'' (io_star_identifiers io)) (\<lambda>star_identifier_catalog_path.
     and_then (optional_catalog_from_env env ''SEIZA_TRANSIENT_DATA'' (io_transients io)) (\<lambda>transient_catalog_path.
     and_then (optional_catalog_from_env env ''SEIZA_MINOR_BODY_DATA'' (io_minor_bodies io)) (\<lambda>minor_body_catalog_path.
     let queue_database = (case env ''SEIZA_QUEUE_DATABASE'' of Some p \<Rightarrow> p | None \<Rightarrow> path_join data_dir ''jobs.sqlite3'') in
     let sql_database_url = (case env ''SEIZA_SQL_DATABASE_URL'' of Some u \<Rightarrow> u
       | None \<Rightarrow> ''sqlite://'' @ queue_database @ ''?mode=rwc'') in
     and_then (job_backend_from_str (env_or env ''SEIZA_JOB_BACKEND'' ''sqlx'')) (\<lambda>job_backend.
     and_then ((case env ''SEIZA_IDENTITY_BACKEND'' of Some v \<Rightarrow> job_backend_from_str v | None \<Rightarrow> Inr job_backend)) (\<lambda>identity_backend.
     let identity_sql_database_url = (case env ''SEIZA_IDENTITY_SQL_DATABASE_URL'' of Some u \<Rightarrow> u | None \<Rightarrow> sql_database_url) in
     let identity_dynamodb_table = nonempty_env env ''SEIZA_IDENTITY_DYNAMODB_TABLE'' in
     and_then (auth_mode_from_str (env_or env ''SEIZA_AUTH_MODE'' ''public'')) (\<lambda>auth_mode.
     and_then (parse_env parse_bool env ''SEIZA_PUBLIC_UI_SOLVES'' True) (\<lambda>public_ui_solves.
     and_then (parse_env parse_bool env ''SEIZA_PUBLIC_API_SOLVES'' True) (\<lambda>public_api_solves.
     and_then (ensure (\<not> (auth_mode = Accounts \<and> identity_backend = DynamoDbBackend \<and> identity_dynamodb_table = None))
       (ConfigRejected ''SEIZA_IDENTITY_DYNAMODB_TABLE is required when accounts use the DynamoDB identity backend'')) (\<lambda>_.
     and_then (traverse (validate_public_base_url (io_parse_url io)) (nonempty_env env ''SEIZA_PUBLIC_BASE_URL'')) (\<lambda>public_base_url.
     let auth_code_pepper_file = nonempty_env env ''SEIZA_AUTH_CODE_PEPPER_FILE'' in
     and_then (traverse email_provider_from_str (nonempty_env env ''SEIZA_EMAIL_PROVIDER'')) (\<lambda>email_provider.
     let email_from = nonempty_env env ''SEIZA_EMAIL_FROM'' in
     let ses_from_identity_arn = nonempty_env env ''SEIZA_SES_FROM_IDENTITY_ARN'' in
     let ses_role_arn = nonempty_env env ''SEIZA_SES_ROLE_ARN'' in
     let ses_role_external_id_file = nonempty_env env ''SEIZA_SES_ROLE_EXTERNAL_ID_FILE'' in
     let smtp_host = nonempty_env env ''SEIZA_SMTP_HOST'' in
     and_then (traverse (\<lambda>v. ok_or (InvalidVariable ''SEIZA_SMTP_PORT'') (parse_u16 v)) (env ''SEIZA_SMTP_PORT'')) (\<lambda>smtp_port.
     let smtp_username = nonempty_env env ''SEIZA_SMTP_USERNAME'' in
     let smtp_password_file = nonempty_env env ''SEIZA_SMTP_PASSWORD_FILE'' in
     and_then (smtp_tls_from_str (env_or env ''SEIZA_SMTP_TLS'' ''starttls'')) (\<lambda>smtp_tls.
     and_then (parse_env parse_u64 env ''SEIZA_SMTP_TIMEOUT_SECONDS'' 30) (\<lambda>smtp_timeout_seconds.
     and_then (ensure (smtp_timeout_seconds \<noteq> 0)
       (ConfigRejected ''SEIZA_SMTP_TIMEOUT_SECONDS must be at least 1'')) (\<lambda>_.
     and_then (require_accounts auth_mode public_base_url auth_code_pepper_file email_provider email_from
       smtp_host smtp_username smtp_password_file) (\<lambda>_.
     let s3_prefix = trim_matches (CHR ''/'') (env_or env ''SEIZA_S3_PREFIX'' ''uploads'') in
     let validation_prefix = trim_matches (CHR ''/'') (env_or env ''SEIZA_VALIDATION_PREFIX'' ''validation'') in
     and_then (ensure (safe_prefix validation_prefix)
       (ConfigRejected ''SEIZA_VALIDATION_PREFIX must be a non-empty safe object-key prefix'')) (\<lambda>_.
     and_then (ensure (\<not> prefixes_overlap s3_prefix validation_prefix)
       (ConfigRejected ''SEIZA_VALIDATION_PREFIX and SEIZA_S3_PREFIX must not overlap'')) (\<lambda>_.
     and_then (site_head_html (io_read_file io) (nonempty_env env ''SEIZA_SITE_HEAD_HTML'')
       (nonempty_env env ''SEIZA_SITE_HEAD_HTML_FILE'')) (\<lambda>head_html.
     and_then (queue_delivery_from_str (case env ''SEIZA_QUEUE_TRANSPORT'' of Some v \<Rightarrow> v
       | None \<Rightarrow> env_or env ''SEIZA_QUEUE_BACKEND'' ''local'')) (\<lambda>queue_transport.
     and_then (storage_backend_from_str (env_or env ''SEIZA_STORAGE_BACKEND'' ''local'')) (\<lambda>storage_backend.
     Inr \<lparr>cf_bind_addr = bind_addr,
       cf_frontend_dir = env_or env ''SEIZA_FRONTEND_DIR'' ''frontend/dist'',
       cf_media_dir = nonempty_env env ''SEIZA_MEDIA_DIR'',
       cf_site_head_html = head_html,
       cf_data_dir = data_dir,
       cf_catalog_path = catalog_path,
       cf_blind_index_path = blind_index_path,
       cf_object_catalog_path = object_catalog_path,
       cf_star_identifier_catalog_path = star_identifier_catalog_path,
       cf_transient_catalog_path = transient_catalog_path,
       cf_minor_body_catalog_path = minor_body_catalog_path,
       cf_satellite_tracks_enabled = satellite_tracks_enabled,
       cf_satellite_cache_dir = satellite_cache_dir,
       cf_satellite_cache_max_bytes = satellite_cache_max_bytes,
       cf_job_backend = job_backend,
       cf_sql_database_url = sql_database_url,
       cf_dynamodb_table = nonempty_env env ''SEIZA_DYNAMODB_TABLE'',
       cf_identity_backend = identity_backend,
       cf_identity_sql_database_url = identity_sql_database_url,
       cf_identity_dynamodb_table = identity_dynamodb_table,
       cf_queue_transport = queue_transport,
       cf_sqs_queue_url = nonempty_env env ''SEIZA_SQS_QUEUE_URL'',
       cf_sqs_priority_queue_url = nonempty_env env ''SEIZA_SQS_PRIORITY_QUEUE_URL'',
       cf_sqs_priority_weight = sqs_priority_weight,
       cf_priority_api_keys = parse_priority_keys (env ''SEIZA_PRIORITY_API_KEYS''),
       cf_embedded_workers = embedded_workers,
       cf_worker_token = nonempty_env env ''SEIZA_WORKER_TOKEN'',
       cf_lease_seconds = lease_seconds,
       cf_worker_count = worker_count,
       cf_max_upload_bytes = max_upload_bytes,
       cf_upload_retention_seconds = upload_retention_seconds,
       cf_upload_cleanup_interval_seconds = upload_cleanup_interval_seconds,
       cf_rate_limit_per_minute = rate_limit_per_minute,
       cf_rate_limit_burst = rate_limit_burst,
       cf_trusted_proxy_hops = trusted_proxy_hops,
       cf_auth_mode = auth_mode,
       cf_public_ui_solves = public_ui_solves,
       cf_public_api_solves = public_api_solves,
       cf_public_base_url = public_base_url,
       cf_auth_code_pepper_file = auth_code_pepper_file,
       cf_email_provider = email_provider,
       cf_email_from = email_from,
       cf_ses_from_identity_arn = ses_from_identity_arn,
       cf_ses_role_arn = ses_role_arn,
       cf_ses_role_external_id_file = ses_role_external_id_file,
       cf_smtp_host = smtp_host,
       cf_smtp_port = smtp_port,
       cf_smtp_username = smtp_username,
       cf_smtp_password_file = smtp_password_file,
       cf_smtp_tls = smtp_tls,
       cf_smtp_timeout_seconds = smtp_timeout_seconds,
       cf_storage_backend = storage_backend,
       cf_s3_bucket = nonempty_env env ''SEIZA_S3_BUCKET'',
       cf_s3_prefix = s3_prefix,
       cf_validation_prefix = validation_prefix\<rparr>))))))))))))))))))))))))))))))))))))))))))))"

definition queue_weight_for_api_key :: "Config \<Rightarrow> string option \<Rightarrow> f64" where
  "queue_weight_for_api_key cf api_key =
     priority_key_weight (cf_priority_api_keys cf) api_key (cf_sqs_priority_weight cf)"

definition secure_auth_cookies :: "Config \<Rightarrow> bool" where
  "secure_auth_cookies cf = is_some_and (\<lambda>url. url_scheme url = ''https'') (cf_public_base_url cf)"

section \<open>What an accepted configuration guarantees\<close>

lemma prefixes_disjoint:
  assumes "\<not> prefixes_overlap s v" "s \<noteq> []"
  shows "s @ ''/'' @ a \<noteq> v @ ''/'' @ b"
proof
  assume "s @ ''/'' @ a = v @ ''/'' @ b"
  then obtain us where "s = v @ us \<and> us @ ''/'' @ a = ''/'' @ b \<or> s @ us = v \<and> ''/'' @ a = us @ ''/'' @ b"
    by (auto simp: append_eq_append_conv2)
  then show False
  proof
    assume "s = v @ us \<and> us @ ''/'' @ a = ''/'' @ b"
    with assms show False by (cases us) (auto simp: prefixes_overlap_def starts_with_def)
  next
    assume "s @ us = v \<and> ''/'' @ a = us @ ''/'' @ b"
    with assms show False by (cases us) (auto simp: prefixes_overlap_def starts_with_def)
  qed
qed

lemma require_accounts_Inr:
  "require_accounts m base pepper provider sender host username password_file = Inr u \<longleftrightarrow>
     (m = Accounts \<longrightarrow> base \<noteq> None \<and> pepper \<noteq> None \<and> provider \<noteq> None \<and> sender \<noteq> None
        \<and> (provider = Some Smtp \<longrightarrow> host \<noteq> None \<and> username \<noteq> None \<and> password_file \<noteq> None))"
  by (auto simp: require_accounts_def split: if_splits)

lemma traverse_InrD: "traverse f x = Inr (Some b) \<Longrightarrow> \<exists>a. x = Some a \<and> f a = Inr b"
  by (cases x; cases "f (the x)") (auto simp: traverse_def)

lemma validated_base_url:
  "traverse (validate_public_base_url parse) v = Inr (Some url)
   \<Longrightarrow> url_scheme url = ''https'' \<or> url_scheme url = ''http'' \<and> is_loopback_url url"
  by (drule traverse_InrD) (auto simp: validate_public_base_url_def split: if_splits)

definition sane_limits :: "Config \<Rightarrow> bool" where
  "sane_limits cf \<longleftrightarrow>
     0 < cf_worker_count cf \<and> 0 < cf_lease_seconds cf
     \<and> 2 \<le> cf_sqs_priority_weight cf \<and> cf_sqs_priority_weight cf \<le> 100
     \<and> 0 < uint (cf_upload_retention_seconds cf) \<and> uint (cf_upload_retention_seconds cf) \<le> i64_max
     \<and> 0 < cf_upload_cleanup_interval_seconds cf \<and> 0 < cf_smtp_timeout_seconds cf
     \<and> (cf_satellite_tracks_enabled cf \<longrightarrow> 0 < cf_satellite_cache_max_bytes cf)
     \<and> (f64_lt (Fin 0) (cf_rate_limit_per_minute cf) \<or> cf_rate_limit_per_minute cf = NaN)
     \<and> (f64_le (Fin 1) (cf_rate_limit_burst cf) \<or> cf_rate_limit_burst cf = NaN)"

definition sane_accounts :: "Config \<Rightarrow> bool" where
  "sane_accounts cf \<longleftrightarrow>
     (cf_auth_mode cf = Accounts \<longrightarrow>
        (\<exists>url. cf_public_base_url cf = Some url \<and> (secure_auth_cookies cf \<or> is_loopback_url url))
        \<and> cf_auth_code_pepper_file cf \<noteq> None \<and> cf_email_provider cf \<noteq> None \<and> cf_email_from cf \<noteq> None
        \<and> (cf_email_provider cf = Some Smtp \<longrightarrow>
             cf_smtp_host cf \<noteq> None \<and> cf_smtp_username cf \<noteq> None \<and> cf_smtp_password_file cf \<noteq> None)
        \<and> (cf_identity_backend cf = DynamoDbBackend \<longrightarrow> cf_identity_dynamodb_table cf \<noteq> None))"

definition sane_prefixes :: "Config \<Rightarrow> bool" where
  "sane_prefixes cf \<longleftrightarrow>
     safe_prefix (cf_validation_prefix cf)
     \<and> (cf_s3_prefix cf \<noteq> [] \<longrightarrow>
          (\<forall>a b. cf_s3_prefix cf @ ''/'' @ a \<noteq> cf_validation_prefix cf @ ''/'' @ b))"

lemma word_nonzero: "(w :: 'a::len word) \<noteq> 0 \<Longrightarrow> 0 < w" "(w :: 'a::len word) \<noteq> 0 \<Longrightarrow> 0 < uint w"
  by (simp_all add: word_gt_0 order_less_le uint_0_iff)

lemma sane_limitsI:
  assumes "cf_worker_count cf \<noteq> 0 \<and> cf_lease_seconds cf \<noteq> 0
     \<and> 2 \<le> cf_sqs_priority_weight cf \<and> cf_sqs_priority_weight cf \<le> 100
     \<and> cf_upload_retention_seconds cf \<noteq> 0 \<and> \<not> i64_max < uint (cf_upload_retention_seconds cf)
     \<and> cf_upload_cleanup_interval_seconds cf \<noteq> 0 \<and> cf_smtp_timeout_seconds cf \<noteq> 0
     \<and> (cf_satellite_tracks_enabled cf \<longrightarrow> cf_satellite_cache_max_bytes cf \<noteq> 0)
     \<and> \<not> f64_le (cf_rate_limit_per_minute cf) (Fin 0) \<and> \<not> f64_lt (cf_rate_limit_burst cf) (Fin 1)"
  shows "sane_limits cf"
proof -
  have "f64_lt (Fin 0) x \<or> x = NaN" if "\<not> f64_le x (Fin 0)" for x using that by (cases x) (auto simp: f64_lt_def)
  moreover have "f64_le (Fin 1) x \<or> x = NaN" if "\<not> f64_lt x (Fin 1)" for x using that by (cases x) (auto simp: f64_lt_def)
  ultimately show ?thesis using assms by (auto simp: sane_limits_def word_nonzero not_le not_less)
qed

lemma sane_prefixesI:
  "safe_prefix (cf_validation_prefix cf) \<and> \<not> prefixes_overlap (cf_s3_prefix cf) (cf_validation_prefix cf)
   \<Longrightarrow> sane_prefixes cf"
  using prefixes_disjoint by (auto simp: sane_prefixes_def)

text \<open>
  C38: What the checks of the configuration ensure.  In every configuration that the server accepts the
  number of workers, the lease, the retention of uploads, which fits 63 bits, the interval of their clean-up, the timeout of the mail
  server and, with satellite tracks, their cache are positive, and the queue weight is between 2 and
  100.  The request rate is positive and its burst at least one, or they are no numbers, which the checks
  let pass (lemma \<open>nan_rates_are_accepted\<close>).  The prefix of the retained validation images is a safe one, and
  no key below the upload prefix, if there is one, lies below it.  Account mode comes with an HTTPS
  origin (or localhost), a pepper, an email provider with its credentials, and a table when identities
  are in DynamoDB.  The largest upload is not checked and may be zero (lemma
  \<open>zero_upload_limit_is_accepted\<close>).
\<close>

theorem accepted_config_is_sane:
  assumes "from_env io env = Inr cf"
  shows "sane_limits cf \<and> sane_accounts cf \<and> sane_prefixes cf"
proof -
  note inr = assms [unfolded from_env_def Let_def, simplified and_then_Inr ensure_Inr require_accounts_Inr]
  have "sane_limits cf"
    by (rule sane_limitsI) (use inr in \<open>clarsimp simp: valid_priority_weight_def not_less\<close>)


  moreover have "sane_accounts cf"
    using inr by (clarsimp simp: sane_accounts_def secure_auth_cookies_def dest!: validated_base_url) 
  moreover have "sane_prefixes cf"
    by (rule sane_prefixesI) (use inr in clarsimp)

  ultimately show ?thesis by blast
qed

definition sample_io :: config_io where
  "sample_io = \<lparr>
     io_parse_addr = Some, io_parse_f64 = (\<lambda>v. if v = ''NaN'' then Some NaN else None),
     io_parse_url = (\<lambda>_. None), io_read_file = (\<lambda>_. None), io_star_data = (\<lambda>_. Inl NoDefault),
     io_blind_index = (\<lambda>_. Inr None), io_blind_index_beside = (\<lambda>_ _. Inr None),
     io_objects = (\<lambda>_. Inl NoDefault), io_star_identifiers = (\<lambda>_. Inl NoDefault),
     io_transients = (\<lambda>_. Inl NoDefault), io_minor_bodies = (\<lambda>_. Inl NoDefault),
     io_default_cache_bytes = 1000\<rparr>"

text \<open>The keywords and prefixes of an empty environment, evaluated.\<close>

lemma keyword_defaults:
  "job_backend_from_str ''sqlx'' = Inr SqlxBackend" "auth_mode_from_str ''public'' = Inr Public"
  "smtp_tls_from_str ''starttls'' = Inr StartTls" "queue_delivery_from_str ''local'' = Inr LocalQueue"
  "storage_backend_from_str ''local'' = Inr LocalStorage"
  by code_simp+

lemma prefix_defaults:
  "trim_matches (CHR ''/'') ''uploads'' = ''uploads''" "trim_matches (CHR ''/'') ''validation'' = ''validation''"
  "safe_prefix ''validation''" "\<not> prefixes_overlap ''uploads'' ''validation''"
  by code_simp+

lemma and_then_weak_cong: "r = r' \<Longrightarrow> and_then r f = and_then r' f"
  by simp

lemma and_then_Inr_eq: "and_then (Inr a) f = f a" "ensure True e = Inr ()"
  by (simp_all add: and_then_def ensure_def)

lemmas env_eval = from_env_def and_then_Inr_eq env_or_def parse_env_def nonempty_env_def filter_option_def
  keyword_defaults prefix_defaults traverse_def require_accounts_def optional_catalog_from_env_def
  optional_data_path_def site_head_html_def ok_or_def sample_io_def valid_priority_weight_def

text \<open>The server started with an empty environment.\<close>

definition default_config :: Config where
  "default_config = (case from_env sample_io (\<lambda>_. None) of Inr cf \<Rightarrow> cf | Inl _ \<Rightarrow> undefined)"

lemma from_env_default: "from_env sample_io (\<lambda>_. None) = Inr default_config"
proof -
  have "\<exists>cf. from_env sample_io (\<lambda>_. None) = Inr cf"
    by (simp add: env_eval Let_def cong: and_then_weak_cong let_weak_cong)
  then show ?thesis by (auto simp: default_config_def)
qed

theorem accepted_config_is_sane_witness:
  "sane_limits default_config \<and> sane_accounts default_config \<and> sane_prefixes default_config"
  by (rule accepted_config_is_sane [OF from_env_default])

text \<open>
  The checks of the rates let a NaN pass: \<open>NaN <= 0.0\<close> and \<open>NaN < 1.0\<close> are false.
\<close>

lemma nan_rates_are_accepted:
  "\<exists>cf. from_env sample_io [''SEIZA_RATE_LIMIT_PER_MINUTE'' \<mapsto> ''NaN'', ''SEIZA_RATE_LIMIT_BURST'' \<mapsto> ''NaN''] = Inr cf
     \<and> cf_rate_limit_per_minute cf = NaN \<and> cf_rate_limit_burst cf = NaN"
  by (simp add: env_eval Let_def f64_lt_def cong: and_then_weak_cong let_weak_cong)

text \<open>Nothing checks the largest upload: with zero no image can be submitted.\<close>

lemma zero_upload_limit_is_accepted:
  "\<exists>cf. from_env sample_io [''SEIZA_MAX_UPLOAD_BYTES'' \<mapsto> ''0''] = Inr cf \<and> cf_max_upload_bytes cf = 0"
proof -
  have zero: "parse_u64 ''0'' = Some 0"
    by (simp add: parse_u64_def parse_unsigned_def is_digit_def decimal_value_def)
  show ?thesis
    by (simp add: env_eval zero Let_def cong: and_then_weak_cong let_weak_cong)
qed

end
