(* ===== verification/Image_Headers.thy ===== *)
theory Image_Headers
  imports Models Text
begin

text \<open>
  The metadata of an uploaded image, \<open>src/solver.rs\<close>: which bytes hold its header, and how
  \<open>prepare_solve_options\<close> promotes acquisition metadata of a FITS or XISF header or of EXIF data into
  the options of the solve.  Parsing one header value, an XISF header, EXIF data, dates and
  floating-point numbers belongs to other packages and is the record \<open>header_libs\<close>, together with
  the square root.  Arithmetic on finite numbers is exact, and zero has no sign.
\<close>

section \<open>Floating-point arithmetic\<close>

fun f64_neg :: "f64 \<Rightarrow> f64" where
  "f64_neg NegInf = PosInf"
| "f64_neg (Fin a) = Fin (- a)"
| "f64_neg PosInf = NegInf"
| "f64_neg NaN = NaN"

fun f64_abs :: "f64 \<Rightarrow> f64" where
  "f64_abs (Fin a) = Fin \<bar>a\<bar>"
| "f64_abs NaN = NaN"
| "f64_abs _ = PosInf"

fun f64_add :: "f64 \<Rightarrow> f64 \<Rightarrow> f64" where
  "f64_add (Fin a) (Fin b) = Fin (a + b)"
| "f64_add NaN _ = NaN"
| "f64_add _ NaN = NaN"
| "f64_add PosInf NegInf = NaN"
| "f64_add NegInf PosInf = NaN"
| "f64_add PosInf _ = PosInf"
| "f64_add NegInf _ = NegInf"
| "f64_add (Fin _) b = b"

fun f64_mul :: "f64 \<Rightarrow> f64 \<Rightarrow> f64" where
  "f64_mul (Fin a) b = f64_scale a b"
| "f64_mul NaN _ = NaN"
| "f64_mul a (Fin b) = f64_scale b a"
| "f64_mul _ NaN = NaN"
| "f64_mul PosInf b = b"
| "f64_mul NegInf b = f64_neg b"

fun f64_div :: "f64 \<Rightarrow> f64 \<Rightarrow> f64" where
  "f64_div (Fin a) (Fin b) =
     (if b \<noteq> 0 then Fin (a / b) else if a = 0 then NaN else if 0 < a then PosInf else NegInf)"
| "f64_div NaN _ = NaN"
| "f64_div _ NaN = NaN"
| "f64_div (Fin _) _ = Fin 0"
| "f64_div a (Fin b) = (if b < 0 then f64_neg a else a)"
| "f64_div _ _ = NaN"

section \<open>Headers\<close>

record HeaderValue =
  hv_str :: "string option"
  hv_f64 :: "f64 option"

datatype ImageHeaderSource = FitsSource | XisfSource

fun hint_source :: "ImageHeaderSource \<Rightarrow> SolveHintSource" where
  "hint_source FitsSource = HintFitsHeader"
| "hint_source XisfSource = HintXisfHeader"

fun satellite_source :: "ImageHeaderSource \<Rightarrow> SatelliteMetadataSource" where
  "satellite_source FitsSource = SatFitsHeader"
| "satellite_source XisfSource = SatXisfHeader"

datatype capture_time_source = DateTimeOriginal | GpsTime

record PhotoMetadata =
  ph_capture_time_utc :: "string option"
  ph_capture_time_source :: "capture_time_source option"
  ph_sub_sec_time_original :: "string option"
  ph_gps_latitude_deg :: "f64 option"
  ph_gps_longitude_deg :: "f64 option"

type_synonym headers = "(string \<times> HeaderValue) list"

record header_libs =
  hl_header_value :: "string \<Rightarrow> HeaderValue"
  hl_xisf :: "bytes \<Rightarrow> nat \<Rightarrow> headers option"
  hl_photo :: "bytes \<Rightarrow> PhotoMetadata"
  hl_rfc3339 :: "string \<Rightarrow> time option"
  hl_date_time :: "string \<Rightarrow> string \<Rightarrow> time option"
  hl_date :: "string \<Rightarrow> time option"
  hl_f64 :: "string \<Rightarrow> f64 option"
  hl_sqrt :: "f64 \<Rightarrow> f64"

definition text_of :: "bytes \<Rightarrow> string" where
  "text_of b = map (\<lambda>w. char_of (unat w)) b"

definition bytes_of :: "string \<Rightarrow> bytes" where
  "bytes_of s = map (\<lambda>c. of_nat (of_char c)) s"

text \<open>\<open>std::str::from_utf8\<close>: the well-formed byte sequences of the Unicode standard.\<close>

definition continuation :: "u8 \<Rightarrow> bool" where
  "continuation b = (0x80 \<le> b \<and> b \<le> 0xBF)"

fun utf8_ok :: "bytes \<Rightarrow> bool" where
  "utf8_ok [] = True"
| "utf8_ok (a # r) =
     (if a < 0x80 then utf8_ok r
      else case r of
        [] \<Rightarrow> False
      | b # r1 \<Rightarrow>
          if 0xC2 \<le> a \<and> a \<le> 0xDF then continuation b \<and> utf8_ok r1
          else case r1 of
            [] \<Rightarrow> False
          | c # r2 \<Rightarrow>
              if 0xE0 \<le> a \<and> a \<le> 0xEF
              then (if a = 0xE0 then 0xA0 \<le> b \<and> b \<le> 0xBF
                    else if a = 0xED then 0x80 \<le> b \<and> b \<le> 0x9F else continuation b)
                   \<and> continuation c \<and> utf8_ok r2
              else case r2 of
                [] \<Rightarrow> False
              | d # r3 \<Rightarrow>
                  0xF0 \<le> a \<and> a \<le> 0xF4
                  \<and> (if a = 0xF0 then 0x90 \<le> b \<and> b \<le> 0xBF
                     else if a = 0xF4 then 0x80 \<le> b \<and> b \<le> 0x8F else continuation b)
                  \<and> continuation c \<and> continuation d \<and> utf8_ok r3)"

definition from_utf8 :: "bytes \<Rightarrow> string option" where
  "from_utf8 b = (if utf8_ok b then Some (text_of b) else None)"

definition header_f64 :: "headers \<Rightarrow> string \<Rightarrow> f64 option" where
  "header_f64 hs key = Option.bind (map_of hs key) hv_f64"

section \<open>Recognising a format\<close>

definition fits_header_probe_bytes :: nat where "fits_header_probe_bytes = 80 * 1440"
definition xisf_preamble_bytes :: nat where "xisf_preamble_bytes = 16"
definition xisf_max_header_bytes :: nat where "xisf_max_header_bytes = 16 * 1024 * 1024"

definition has_extension :: "string \<Rightarrow> string list \<Rightarrow> bool" where
  "has_extension filename es = (to_ascii_lowercase (last_part (CHR ''.'') filename) \<in> set es)"

definition begins_with :: "bytes \<Rightarrow> string \<Rightarrow> bool" where
  "begins_with b s = (take (length s) b = bytes_of s)"

definition looks_like_fits :: "bytes \<Rightarrow> string \<Rightarrow> bool" where
  "looks_like_fits b filename =
     (has_extension filename [''fits'', ''fit'', ''fts''] \<or> begins_with b ''SIMPLE  '')"

definition looks_like_xisf :: "bytes \<Rightarrow> string \<Rightarrow> bool" where
  "looks_like_xisf b filename = (has_extension filename [''xisf''] \<or> begins_with b ''XISF0100'')"

definition le_number :: "bytes \<Rightarrow> nat" where
  "le_number b = foldr (\<lambda>w n. unat w + 256 * n) b 0"

definition xisf_header_prefix_bytes :: "bytes \<Rightarrow> nat option" where
  "xisf_header_prefix_bytes b =
     (if length b < xisf_preamble_bytes \<or> \<not> begins_with b ''XISF0100'' then None
      else let header_bytes = le_number (take 4 (drop 8 b)) in
           if header_bytes = 0 \<or> xisf_max_header_bytes < header_bytes then None
           else Some (xisf_preamble_bytes + header_bytes))"

definition image_header_probe_bytes :: "bytes \<Rightarrow> string \<Rightarrow> nat" where
  "image_header_probe_bytes b filename =
     (if looks_like_xisf b filename
      then (case xisf_header_prefix_bytes b of Some n \<Rightarrow> n | None \<Rightarrow> xisf_preamble_bytes)
      else fits_header_probe_bytes)"

text \<open>\<open>chunks_exact(80)\<close> drops an incomplete card.\<close>

fun cards :: "nat \<Rightarrow> bytes \<Rightarrow> bytes list" where
  "cards 0 b = []"
| "cards (Suc n) b = (if length b < 80 then [] else take 80 b # cards n (drop 80 b))"

fun read_cards :: "header_libs \<Rightarrow> headers \<Rightarrow> bytes list \<Rightarrow> headers option" where
  "read_cards L hs [] = None"
| "read_cards L hs (line # rest) =
     (case from_utf8 (take 8 line) of
        None \<Rightarrow> None
      | Some k \<Rightarrow>
          let keyword = trim k in
          if keyword = ''END'' then Some hs
          else if keyword = [] \<or> take 2 (drop 8 line) \<noteq> bytes_of ''= '' then read_cards L hs rest
          else (case from_utf8 (drop 10 line) of
                  None \<Rightarrow> None
                | Some raw \<Rightarrow> read_cards L (AList.update keyword (hl_header_value L raw) hs) rest))"

definition image_headers ::
  "header_libs \<Rightarrow> bytes \<Rightarrow> string \<Rightarrow> nat \<Rightarrow> (headers \<times> ImageHeaderSource) option" where
  "image_headers L b filename file_size =
     (if looks_like_xisf b filename
      then (case xisf_header_prefix_bytes b of
              None \<Rightarrow> None
            | Some header_bytes \<Rightarrow>
                if length b < header_bytes \<or> file_size < header_bytes then None
                else map_option (\<lambda>hs. (hs, XisfSource)) (hl_xisf L (take header_bytes b) file_size))
      else if \<not> looks_like_fits b filename \<or> \<not> begins_with b ''SIMPLE  '' then None
      else map_option (\<lambda>hs. (hs, FitsSource))
             (read_cards L [] (cards (fits_header_probe_bytes div 80) b)))"

section \<open>Angles, scales and times\<close>

text \<open>\<open>split_whitespace\<close>.\<close>

function split_white :: "string \<Rightarrow> string list" where
  "split_white s =
     (case s of
        [] \<Rightarrow> [[]]
      | x # xs \<Rightarrow>
          (case find (\<lambda>w. w \<noteq> [] \<and> starts_with s w) white_space of
             Some w \<Rightarrow> [] # split_white (drop (length w) s)
           | None \<Rightarrow> (case split_white xs of [] \<Rightarrow> [[x]] | p # ps \<Rightarrow> (x # p) # ps)))"
  by pat_completeness auto
termination
  by (relation "measure length") (auto simp: find_Some_iff starts_with_iff)

definition split_whitespace :: "string \<Rightarrow> string list" where
  "split_whitespace s = filter (\<lambda>p. p \<noteq> []) (split_white s)"

fun parse_all :: "('a \<Rightarrow> 'b option) \<Rightarrow> 'a list \<Rightarrow> 'b list option" where
  "parse_all f [] = Some []"
| "parse_all f (x # xs) =
     (case f x of None \<Rightarrow> None | Some y \<Rightarrow> map_option ((#) y) (parse_all f xs))"

definition parse_fits_angle :: "header_libs \<Rightarrow> HeaderValue \<Rightarrow> bool \<Rightarrow> f64 option" where
  "parse_fits_angle L v right_ascension =
     (case hv_f64 v of
        Some x \<Rightarrow> Some x
      | None \<Rightarrow>
      case hv_str v of
        None \<Rightarrow> None
      | Some s \<Rightarrow>
          let raw = trim s;
              normalized = map (\<lambda>c. if c \<in> set '':hHdDmMsS'' then CHR '' '' else c) raw in
          case parse_all (hl_f64 L) (split_whitespace normalized) of
            None \<Rightarrow> None
          | Some components \<Rightarrow>
              if \<not> (2 \<le> length components \<and> length components \<le> 3) then None
              else
                let sign = (if starts_with raw ''-'' then Fin (- 1) else Fin 1);
                    third = (if length components = 3 then components ! 2 else Fin 0);
                    angle = f64_add (f64_add (f64_abs (components ! 0))
                                       (f64_div (f64_abs (components ! 1)) (Fin 60)))
                              (f64_div (f64_abs third) (Fin 3600)) in
                Some (f64_mul angle (if right_ascension then Fin 15 else sign)))"

fun find_center :: "header_libs \<Rightarrow> headers \<Rightarrow> (string \<times> string) list \<Rightarrow> (f64 \<times> f64 \<times> string list) option" where
  "find_center L hs [] = None"
| "find_center L hs ((ra_key, dec_key) # keys) =
     (case Option.bind (map_of hs ra_key) (\<lambda>v. parse_fits_angle L v True) of
        None \<Rightarrow> find_center L hs keys
      | Some ra \<Rightarrow>
      case Option.bind (map_of hs dec_key) (\<lambda>v. parse_fits_angle L v False) of
        None \<Rightarrow> find_center L hs keys
      | Some dec \<Rightarrow>
          if f64_in 0 360 ra \<and> f64_in (- 90) 90 dec then Some (ra, dec, [ra_key, dec_key])
          else find_center L hs keys)"

definition fits_center :: "header_libs \<Rightarrow> headers \<Rightarrow> (f64 \<times> f64 \<times> string list) option" where
  "fits_center L hs = find_center L hs
     [(''CRVAL1'', ''CRVAL2''), (''RA'', ''DEC''), (''OBJCTRA'', ''OBJCTDEC'')]"

definition usable_scale :: "f64 \<Rightarrow> string list \<Rightarrow> (f64 \<times> string list) option" where
  "usable_scale scale keys = (if f64_pos scale then Some (scale, keys) else None)"

definition first_some :: "'a option \<Rightarrow> 'a option \<Rightarrow> 'a option" where
  "first_some a b = (case a of Some x \<Rightarrow> Some x | None \<Rightarrow> b)"

definition fits_pixel_scale :: "header_libs \<Rightarrow> headers \<Rightarrow> (f64 \<times> string list) option" where
  "fits_pixel_scale L hs =
     (let named = (\<lambda>key. Option.bind (header_f64 hs key) (\<lambda>scale. usable_scale scale [key]));
          product = (\<lambda>x. f64_mul (hl_sqrt L (f64_abs x)) (Fin 3600));
          cd = (case (header_f64 hs ''CD1_1'', header_f64 hs ''CD2_2'') of
                  (Some cd11, Some cd22) \<Rightarrow>
                    let cd12 = (case header_f64 hs ''CD1_2'' of Some v \<Rightarrow> v | None \<Rightarrow> Fin 0);
                        cd21 = (case header_f64 hs ''CD2_1'' of Some v \<Rightarrow> v | None \<Rightarrow> Fin 0) in
                    usable_scale (product (f64_add (f64_mul cd11 cd22) (f64_neg (f64_mul cd12 cd21))))
                      (filter (\<lambda>key. map_of hs key \<noteq> None) [''CD1_1'', ''CD1_2'', ''CD2_1'', ''CD2_2''])
                | _ \<Rightarrow> None);
          cdelt = (case (header_f64 hs ''CDELT1'', header_f64 hs ''CDELT2'') of
                     (Some c1, Some c2) \<Rightarrow> usable_scale (product (f64_mul c1 c2)) [''CDELT1'', ''CDELT2'']
                   | _ \<Rightarrow> None);
          optics = (case (header_f64 hs ''XPIXSZ'', header_f64 hs ''FOCALLEN'') of
                      (Some pixel_size_um, Some focal_length_mm) \<Rightarrow>
                        usable_scale (f64_div (f64_scale (206264806247 / 1000000000) pixel_size_um) focal_length_mm)
                          [''XPIXSZ'', ''FOCALLEN'']
                    | _ \<Rightarrow> None) in
      first_some (named ''PIXSCALE'') (first_some (named ''SECPIX'')
        (first_some cd (first_some cdelt optics))))"

definition parse_capture_time :: "header_libs \<Rightarrow> string \<Rightarrow> time option" where
  "parse_capture_time L v0 =
     (let v = trim v0; bare = rev (dropWhile ((=) (CHR ''Z'')) (rev v)) in
      first_some (hl_rfc3339 L v)
        (first_some (hl_date_time L bare ''%Y-%m-%dT%H:%M:%S%.f'')
          (first_some (hl_date_time L bare ''%Y-%m-%d %H:%M:%S%.f'') (hl_date L v))))"

definition fits_time :: "header_libs \<Rightarrow> headers \<Rightarrow> string \<Rightarrow> time option" where
  "fits_time L hs key = Option.bind (Option.bind (map_of hs key) hv_str) (parse_capture_time L)"

abbreviation utc_min :: time where
  "utc_min \<equiv> - 8334601228800000000000"

definition num_microseconds :: "int \<Rightarrow> int option" where
  "num_microseconds d =
     (let us = d sdiv 1000 in if - i64_max - 1 \<le> us \<and> us \<le> i64_max then Some us else None)"

text \<open>Rounding to the nearest integer, halves away from zero, saturating at 64 bits.\<close>

definition round_to_i64 :: "rat \<Rightarrow> int" where
  "round_to_i64 x =
     max (- i64_max - 1) (min i64_max (if 0 \<le> x then \<lfloor>x + 1 / 2\<rfloor> else \<lceil>x - 1 / 2\<rceil>))"

definition subtract_seconds :: "time \<Rightarrow> f64 \<Rightarrow> time option" where
  "subtract_seconds t seconds =
     (case seconds of
        Fin s \<Rightarrow>
          if s \<le> 0 \<or> 2 ^ 63 / 1000000 < s then None
          else let t' = t - round_to_i64 (s * 1000000) * 1000 in
               if utc_min \<le> t' then Some t' else None
      | _ \<Rightarrow> None)"

section \<open>Promoting metadata into options\<close>

definition push_keyword :: "string list \<Rightarrow> string \<Rightarrow> string list" where
  "push_keyword ks k = (if list_ex (\<lambda>e. e = k) ks then ks else ks @ [k])"

definition satellite_metadata_present :: "SolveOptions \<Rightarrow> bool" where
  "satellite_metadata_present o1 =
     (so_capture_time o1 \<noteq> None \<or> so_exposure_seconds o1 \<noteq> None
      \<or> so_observer_latitude_deg o1 \<noteq> None \<or> so_observer_longitude_deg o1 \<noteq> None
      \<or> so_observer_altitude_m o1 \<noteq> None \<or> so_observer_itrf_m o1 \<noteq> None)"

definition explicit_observer :: "SolveOptions \<Rightarrow> bool" where
  "explicit_observer o1 =
     (so_observer_itrf_m o1 \<noteq> None \<or> so_observer_latitude_deg o1 \<noteq> None
      \<or> so_observer_longitude_deg o1 \<noteq> None)"

text \<open>The first of the exposure keywords with a positive value.\<close>

fun header_duration :: "headers \<Rightarrow> string list \<Rightarrow> (f64 \<times> string) option" where
  "header_duration hs [] = None"
| "header_duration hs (k # ks) =
     (case filter_option f64_pos (header_f64 hs k) of
        Some seconds \<Rightarrow> Some (seconds, k)
      | None \<Rightarrow> header_duration hs ks)"

definition header_text_value :: "headers \<Rightarrow> string \<Rightarrow> string option" where
  "header_text_value hs key = Option.bind (map_of hs key) hv_str"

definition header_time_is_usable :: "headers \<Rightarrow> bool" where
  "header_time_is_usable hs =
     (is_none_or (\<lambda>v. to_ascii_lowercase v = ''utc'') (header_text_value hs ''TIMESYS'')
      \<and> is_none_or (\<lambda>v. starts_with (to_ascii_lowercase v) ''top'') (header_text_value hs ''TREFPOS''))"

definition take_duration :: "headers \<Rightarrow> SolveOptions \<Rightarrow> SolveOptions" where
  "take_duration hs o1 =
     (case (so_exposure_seconds o1, header_duration hs [''XPOSURE'', ''EXPTIME'', ''EXPOSURE'']) of
        (None, Some (seconds, keyword)) \<Rightarrow>
          o1\<lparr>so_exposure_seconds := Some seconds,
             so_satellite_metadata_keywords := so_satellite_metadata_keywords o1 @ [keyword]\<rparr>
      | _ \<Rightarrow> o1)"

definition seconds_between :: "time \<Rightarrow> time \<Rightarrow> f64 option" where
  "seconds_between start finish =
     Option.bind (num_microseconds (finish - start))
       (\<lambda>us. if 0 < us then Some (Fin (of_int us / 1000000)) else None)"

definition take_interval :: "header_libs \<Rightarrow> headers \<Rightarrow> SolveOptions \<Rightarrow> SolveOptions" where
  "take_interval L hs o1 =
     (case (fits_time L hs ''DATE-BEG'', fits_time L hs ''DATE-END'') of
        (Some start, Some finish) \<Rightarrow>
          (case seconds_between start finish of
             Some seconds \<Rightarrow>
               o1\<lparr>so_exposure_seconds := Some seconds,
                  so_satellite_metadata_keywords :=
                    so_satellite_metadata_keywords o1 @ [''DATE-BEG'', ''DATE-END'']\<rparr>
           | None \<Rightarrow> o1)
      | _ \<Rightarrow> o1)"

definition resolve_time ::
  "header_libs \<Rightarrow> headers \<Rightarrow> f64 option \<Rightarrow> (time \<times> f64 \<times> string list) option" where
  "resolve_time L hs duration =
     (let date_beg = fits_time L hs ''DATE-BEG''; date_end = fits_time L hs ''DATE-END'';
          date_avg = fits_time L hs ''DATE-AVG''; date_obs = fits_time L hs ''DATE-OBS'' in
      if date_beg \<noteq> None \<and> date_end \<noteq> None
      then map_option (\<lambda>seconds. (the date_beg, seconds, [''DATE-BEG'', ''DATE-END'']))
             (seconds_between (the date_beg) (the date_end))
      else case duration of
        None \<Rightarrow> None
      | Some seconds \<Rightarrow>
          (case date_avg of
             Some midpoint \<Rightarrow>
               map_option (\<lambda>start. (start, seconds, [''DATE-AVG'']))
                 (subtract_seconds midpoint (f64_div seconds (Fin 2)))
           | None \<Rightarrow>
          (case first_some date_obs date_beg of
             Some start \<Rightarrow> Some (start, seconds, [if date_obs \<noteq> None then ''DATE-OBS'' else ''DATE-BEG''])
           | None \<Rightarrow>
          (case date_end of
             Some finish \<Rightarrow>
               map_option (\<lambda>start. (start, seconds, [''DATE-END''])) (subtract_seconds finish seconds)
           | None \<Rightarrow> None))))"

definition take_time :: "header_libs \<Rightarrow> headers \<Rightarrow> SolveOptions \<Rightarrow> SolveOptions" where
  "take_time L hs o1 =
     (case resolve_time L hs (so_exposure_seconds o1) of
        Some (start, seconds, keywords) \<Rightarrow>
          o1\<lparr>so_capture_time := Some start, so_exposure_seconds := Some seconds,
             so_satellite_metadata_keywords :=
               foldl push_keyword (so_satellite_metadata_keywords o1) keywords\<rparr>
      | None \<Rightarrow>
          (case fits_time L hs ''DATE-OBS'' of
             Some capture_time \<Rightarrow>
               o1\<lparr>so_capture_time := Some capture_time,
                  so_satellite_metadata_keywords :=
                    push_keyword (so_satellite_metadata_keywords o1) ''DATE-OBS''\<rparr>
           | None \<Rightarrow> o1))"

definition with_keywords :: "string list \<Rightarrow> SolveOptions \<Rightarrow> SolveOptions" where
  "with_keywords ks o1 =
     o1\<lparr>so_satellite_metadata_keywords := so_satellite_metadata_keywords o1 @ ks\<rparr>"

definition set_itrf :: "f64 \<times> f64 \<times> f64 \<Rightarrow> SolveOptions \<Rightarrow> SolveOptions" where
  "set_itrf p o1 = with_keywords [''OBSGEO-X'', ''OBSGEO-Y'', ''OBSGEO-Z''] (o1\<lparr>so_observer_itrf_m := Some p\<rparr>)"

definition set_geodetic :: "f64 \<Rightarrow> f64 \<Rightarrow> f64 \<Rightarrow> string list \<Rightarrow> SolveOptions \<Rightarrow> SolveOptions" where
  "set_geodetic latitude longitude altitude keywords o1 = with_keywords keywords
     (o1\<lparr>so_observer_latitude_deg := Some latitude, so_observer_longitude_deg := Some longitude,
         so_observer_altitude_m := Some altitude\<rparr>)"

definition itrf_site :: "headers \<Rightarrow> (SolveOptions \<Rightarrow> SolveOptions) option" where
  "itrf_site hs =
     (case (header_f64 hs ''OBSGEO-X'', header_f64 hs ''OBSGEO-Y'', header_f64 hs ''OBSGEO-Z'') of
        (Some x, Some y, Some z) \<Rightarrow> Some (set_itrf (x, y, z))
      | _ \<Rightarrow> None)"

definition geodetic_site :: "headers \<Rightarrow> (SolveOptions \<Rightarrow> SolveOptions) option" where
  "geodetic_site hs =
     (case (header_f64 hs ''OBSGEO-B'', header_f64 hs ''OBSGEO-L'', header_f64 hs ''OBSGEO-H'') of
        (Some latitude, Some longitude, Some altitude) \<Rightarrow>
          Some (set_geodetic latitude longitude altitude [''OBSGEO-B'', ''OBSGEO-L'', ''OBSGEO-H''])
      | _ \<Rightarrow> None)"

definition named_site :: "headers \<Rightarrow> (SolveOptions \<Rightarrow> SolveOptions) option" where
  "named_site hs =
     (case (header_f64 hs ''SITELAT'', header_f64 hs ''SITELONG'') of
        (Some latitude, Some longitude) \<Rightarrow>
          Some (set_geodetic latitude longitude
            (case header_f64 hs ''SITEALT'' of Some a \<Rightarrow> a | None \<Rightarrow> Fin 0)
            ([''SITELAT'', ''SITELONG''] @ (if map_of hs ''SITEALT'' \<noteq> None then [''SITEALT''] else [])))
      | _ \<Rightarrow> None)"

definition take_observer :: "headers \<Rightarrow> SolveOptions \<Rightarrow> SolveOptions" where
  "take_observer hs o1 =
     (case first_some (itrf_site hs) (first_some (geodetic_site hs) (named_site hs)) of
        Some f \<Rightarrow> f o1 | None \<Rightarrow> o1)"

definition note_source :: "bool \<Rightarrow> SatelliteMetadataSource \<Rightarrow> SolveOptions \<Rightarrow> SolveOptions" where
  "note_source explicit src o1 =
     (if so_satellite_metadata_keywords o1 = [] then o1
      else o1\<lparr>so_satellite_metadata_source := Some (if explicit then SatExplicit else src)\<rparr>)"

definition prepare_satellite_metadata ::
  "header_libs \<Rightarrow> headers \<Rightarrow> ImageHeaderSource \<Rightarrow> bool \<Rightarrow> SolveOptions \<Rightarrow> SolveOptions" where
  "prepare_satellite_metadata L hs src explicit o0 =
     (let explicit_time = so_capture_time o0 \<noteq> None;
          explicit_site = explicit_observer o0;
          o1 = take_duration hs o0;
          o2 = (if explicit_time \<and> so_exposure_seconds o1 = None then take_interval L hs o1 else o1);
          o3 = (if \<not> explicit_time \<and> header_time_is_usable hs then take_time L hs o2 else o2);
          o4 = (if \<not> explicit_site then take_observer hs o3 else o3) in
      note_source explicit (satellite_source src) o4)"

definition capture_time_tags :: "PhotoMetadata \<Rightarrow> string list" where
  "capture_time_tags photo =
     (case ph_capture_time_source photo of
        Some DateTimeOriginal \<Rightarrow>
          if ph_sub_sec_time_original photo \<noteq> None
          then [''DateTimeOriginal'', ''SubSecTimeOriginal'', ''OffsetTimeOriginal'']
          else [''DateTimeOriginal'', ''OffsetTimeOriginal'']
      | _ \<Rightarrow> [''GPSDateStamp'', ''GPSTimeStamp''])"

definition exif_time :: "header_libs \<Rightarrow> PhotoMetadata \<Rightarrow> SolveOptions \<Rightarrow> SolveOptions" where
  "exif_time L photo o1 =
     (case (so_capture_time o1, Option.bind (ph_capture_time_utc photo) (parse_capture_time L)) of
        (None, Some t) \<Rightarrow>
          o1\<lparr>so_capture_time := Some t,
             so_satellite_metadata_keywords :=
               foldl push_keyword (so_satellite_metadata_keywords o1) (capture_time_tags photo)\<rparr>
      | _ \<Rightarrow> o1)"

definition exif_site :: "PhotoMetadata \<Rightarrow> SolveOptions \<Rightarrow> SolveOptions" where
  "exif_site photo o1 =
     (if explicit_observer o1 then o1
      else case (ph_gps_latitude_deg photo, ph_gps_longitude_deg photo) of
        (Some latitude, Some longitude) \<Rightarrow>
          o1\<lparr>so_observer_latitude_deg := Some latitude, so_observer_longitude_deg := Some longitude,
             so_satellite_metadata_keywords :=
               foldl push_keyword (so_satellite_metadata_keywords o1)
                 [''GPSLatitude'', ''GPSLatitudeRef'', ''GPSLongitude'', ''GPSLongitudeRef'']\<rparr>
      | _ \<Rightarrow> o1)"

definition prepare_exif_metadata :: "header_libs \<Rightarrow> PhotoMetadata \<Rightarrow> bool \<Rightarrow> SolveOptions \<Rightarrow> SolveOptions" where
  "prepare_exif_metadata L photo explicit o0 =
     note_source explicit SatExif (exif_site photo (exif_time L photo o0))"

definition reset_metadata :: "SolveOptions \<Rightarrow> SolveOptions" where
  "reset_metadata o1 =
     o1\<lparr>so_hint_source := (if so_center_ra_deg o1 \<noteq> None \<and> so_center_dec_deg o1 \<noteq> None
                             \<and> so_scale_arcsec_per_pixel o1 \<noteq> None then Some HintExplicit else None),
        so_hint_keywords := [],
        so_satellite_metadata_keywords := [],
        so_satellite_metadata_source :=
          (if satellite_metadata_present o1 then Some SatExplicit else None)\<rparr>"

definition prepare_from_prefix ::
  "header_libs \<Rightarrow> SolveOptions \<Rightarrow> bytes \<Rightarrow> string \<Rightarrow> nat \<Rightarrow> SolveOptions" where
  "prepare_from_prefix L opts b filename file_size =
     (let explicit = satellite_metadata_present opts; o0 = reset_metadata opts in
      if \<not> looks_like_fits b filename \<and> \<not> looks_like_xisf b filename
      then prepare_exif_metadata L (hl_photo L b) explicit o0
      else case image_headers L b filename file_size of
        None \<Rightarrow> o0
      | Some (hs, src) \<Rightarrow>
          let o1 = prepare_satellite_metadata L hs src explicit o0 in
          if so_center_ra_deg o1 \<noteq> None \<or> so_center_dec_deg o1 \<noteq> None
             \<or> so_scale_arcsec_per_pixel o1 \<noteq> None
          then o1
          else case (fits_center L hs, fits_pixel_scale L hs) of
            (Some (ra, dec, center_keywords), Some (scale, scale_keywords)) \<Rightarrow>
              if is_finite ra \<and> f64_in 0 360 ra \<and> is_finite dec \<and> f64_in (- 90) 90 dec \<and> f64_pos scale
              then o1\<lparr>so_center_ra_deg := Some ra, so_center_dec_deg := Some dec,
                      so_scale_arcsec_per_pixel := Some scale, so_hint_source := Some (hint_source src),
                      so_hint_keywords := center_keywords @ scale_keywords\<rparr>
              else o1
          | _ \<Rightarrow> o1)"

definition prepare_solve_options :: "header_libs \<Rightarrow> SolveOptions \<Rightarrow> bytes \<Rightarrow> string \<Rightarrow> SolveOptions" where
  "prepare_solve_options L opts b filename = prepare_from_prefix L opts b filename (length b)"

section \<open>What preparing can change\<close>

text \<open>An exposure is the old one or a positive one.\<close>

definition exposure_step :: "f64 option \<Rightarrow> f64 option \<Rightarrow> bool" where
  "exposure_step e e' \<longleftrightarrow> e' = e \<or> is_some_and f64_pos e'"

lemma exposure_step_trans: "exposure_step a b \<Longrightarrow> exposure_step b c \<Longrightarrow> exposure_step a c"
  by (auto simp: exposure_step_def)

lemma header_duration_pos: "header_duration hs ks = Some (s, k) \<Longrightarrow> f64_pos s"
  by (induction ks) (auto split: option.splits)

lemma seconds_between_pos: "seconds_between a b = Some s \<Longrightarrow> f64_pos s"
  by (auto simp: seconds_between_def f64_pos_def bind_eq_Some_conv split: if_splits)

lemma take_duration_frame:
  "\<exists>e k. take_duration hs o1 = o1\<lparr>so_exposure_seconds := e, so_satellite_metadata_keywords := k\<rparr>
     \<and> exposure_step (so_exposure_seconds o1) e \<and> (so_exposure_seconds o1 \<noteq> None \<longrightarrow> e = so_exposure_seconds o1)"
proof (cases "so_exposure_seconds o1 = None \<and> header_duration hs [''XPOSURE'', ''EXPTIME'', ''EXPOSURE''] \<noteq> None")
  case True
  then obtain s k where "header_duration hs [''XPOSURE'', ''EXPTIME'', ''EXPOSURE''] = Some (s, k)" by auto
  with True header_duration_pos [OF this] show ?thesis
    by (intro exI [of _ "Some s"] exI [of _ "so_satellite_metadata_keywords o1 @ [k]"])
      (simp add: take_duration_def exposure_step_def)
next
  case False
  then have "take_duration hs o1 = o1"
    by (cases "so_exposure_seconds o1"; cases "header_duration hs [''XPOSURE'', ''EXPTIME'', ''EXPOSURE'']")
      (auto simp: take_duration_def simp del: header_duration.simps)

  then show ?thesis
    by (intro exI [of _ "so_exposure_seconds o1"] exI [of _ "so_satellite_metadata_keywords o1"])
      (simp add: exposure_step_def)
qed

lemma take_interval_frame:
  "\<exists>e k. take_interval L hs o1 = o1\<lparr>so_exposure_seconds := e, so_satellite_metadata_keywords := k\<rparr>
     \<and> exposure_step (so_exposure_seconds o1) e"
proof (cases "take_interval L hs o1 = o1")
  case True
  then show ?thesis
    by (intro exI [of _ "so_exposure_seconds o1"] exI [of _ "so_satellite_metadata_keywords o1"])
      (simp add: exposure_step_def)
next
  case False
  then obtain a b s where "fits_time L hs ''DATE-BEG'' = Some a" "fits_time L hs ''DATE-END'' = Some b"
    "seconds_between a b = Some s"
    by (auto simp: take_interval_def split: option.splits)
  with seconds_between_pos [OF this(3)] show ?thesis
    by (intro exI [of _ "Some s"]
          exI [of _ "so_satellite_metadata_keywords o1 @ [''DATE-BEG'', ''DATE-END'']"])
      (simp add: take_interval_def exposure_step_def)
qed

lemma resolve_time_exposure: "resolve_time L hs d = Some (t, s, ks) \<Longrightarrow> d = Some s \<or> f64_pos s"
  by (auto simp: resolve_time_def Let_def dest: seconds_between_pos split: if_splits option.splits)

lemma take_time_frame:
  "\<exists>t e k. take_time L hs o1
       = o1\<lparr>so_capture_time := t, so_exposure_seconds := e, so_satellite_metadata_keywords := k\<rparr>
     \<and> exposure_step (so_exposure_seconds o1) e"
proof (cases "resolve_time L hs (so_exposure_seconds o1)")
  case None
  show ?thesis
  proof (cases "fits_time L hs ''DATE-OBS''")
    case (Some t)
    with None show ?thesis
      by (intro exI [of _ "Some t"] exI [of _ "so_exposure_seconds o1"]
            exI [of _ "push_keyword (so_satellite_metadata_keywords o1) ''DATE-OBS''"])
        (simp add: take_time_def exposure_step_def)
  next
    case None': None
    with None show ?thesis
      by (intro exI [of _ "so_capture_time o1"] exI [of _ "so_exposure_seconds o1"]
            exI [of _ "so_satellite_metadata_keywords o1"])
        (simp add: take_time_def exposure_step_def)
  qed
next
  case (Some r)
  obtain t s ks where r: "r = (t, s, ks)" by (cases r)
  with Some resolve_time_exposure [of L hs "so_exposure_seconds o1" t s ks] show ?thesis
    by (intro exI [of _ "Some t"] exI [of _ "Some s"]
          exI [of _ "foldl push_keyword (so_satellite_metadata_keywords o1) ks"])
      (auto simp: take_time_def exposure_step_def)
qed

text \<open>The fields of the options that metadata never touches, and those of the site.\<close>

definition same_solver_settings :: "SolveOptions \<Rightarrow> SolveOptions \<Rightarrow> bool" where
  "same_solver_settings o1 o2 \<longleftrightarrow>
     so_radius_deg o1 = so_radius_deg o2 \<and> so_scale_tolerance o1 = so_scale_tolerance o2
     \<and> so_min_scale_arcsec_per_pixel o1 = so_min_scale_arcsec_per_pixel o2
     \<and> so_max_scale_arcsec_per_pixel o1 = so_max_scale_arcsec_per_pixel o2
     \<and> so_sigma o1 = so_sigma o2 \<and> so_ignore_border o1 = so_ignore_border o2
     \<and> so_max_stars o1 = so_max_stars o2 \<and> so_sip_order o1 = so_sip_order o2"

definition same_hint :: "SolveOptions \<Rightarrow> SolveOptions \<Rightarrow> bool" where
  "same_hint o1 o2 \<longleftrightarrow>
     so_center_ra_deg o1 = so_center_ra_deg o2 \<and> so_center_dec_deg o1 = so_center_dec_deg o2
     \<and> so_scale_arcsec_per_pixel o1 = so_scale_arcsec_per_pixel o2"

definition same_site :: "SolveOptions \<Rightarrow> SolveOptions \<Rightarrow> bool" where
  "same_site o1 o2 \<longleftrightarrow>
     so_observer_latitude_deg o1 = so_observer_latitude_deg o2
     \<and> so_observer_longitude_deg o1 = so_observer_longitude_deg o2
     \<and> so_observer_altitude_m o1 = so_observer_altitude_m o2
     \<and> so_observer_itrf_m o1 = so_observer_itrf_m o2"

text \<open>A site that is replaced gives way to a complete one, in coordinates of the Earth or by latitude and longitude.\<close>

definition complete_site :: "SolveOptions \<Rightarrow> bool" where
  "complete_site o1 \<longleftrightarrow> so_observer_itrf_m o1 \<noteq> None
     \<or> (so_observer_latitude_deg o1 \<noteq> None \<and> so_observer_longitude_deg o1 \<noteq> None)"

definition site_step :: "SolveOptions \<Rightarrow> SolveOptions \<Rightarrow> bool" where
  "site_step o1 o2 \<longleftrightarrow> same_site o1 o2 \<or> (\<not> explicit_observer o1 \<and> complete_site o2)"

definition metadata_step :: "SolveOptions \<Rightarrow> SolveOptions \<Rightarrow> bool" where
  "metadata_step o1 o2 \<longleftrightarrow>
     same_solver_settings o1 o2 \<and> same_hint o1 o2
     \<and> (so_capture_time o1 \<noteq> None \<longrightarrow> so_capture_time o2 = so_capture_time o1)
     \<and> (explicit_observer o1 \<longrightarrow> same_site o1 o2) \<and> site_step o1 o2
     \<and> exposure_step (so_exposure_seconds o1) (so_exposure_seconds o2)
     \<and> (so_capture_time o1 \<noteq> None \<and> so_exposure_seconds o1 \<noteq> None \<longrightarrow>
          so_exposure_seconds o2 = so_exposure_seconds o1)"

lemmas same_defs = same_solver_settings_def same_hint_def same_site_def site_step_def complete_site_def

lemma metadata_step_refl: "metadata_step o1 o1"
  by (simp add: metadata_step_def same_defs exposure_step_def)

lemma explicit_same_site: "same_site a b \<Longrightarrow> explicit_observer a = explicit_observer b"
  by (simp add: same_site_def explicit_observer_def)

lemma same_trans:
  "same_solver_settings a b \<Longrightarrow> same_solver_settings b c \<Longrightarrow> same_solver_settings a c"
  "same_hint a b \<Longrightarrow> same_hint b c \<Longrightarrow> same_hint a c"
  "same_site a b \<Longrightarrow> same_site b c \<Longrightarrow> same_site a c"
  by (simp_all add: same_defs)

lemma site_step_trans:
  assumes "site_step a b" "site_step b c"
  shows "site_step a c"
proof -
  have "same_site b c \<Longrightarrow> complete_site b \<Longrightarrow> complete_site c" by (simp add: same_site_def complete_site_def)
  moreover have "complete_site b \<Longrightarrow> explicit_observer b" by (auto simp: complete_site_def explicit_observer_def)
  ultimately show ?thesis
    using assms explicit_same_site [of a b] same_trans(3) [of a b c] unfolding site_step_def by blast
qed

lemma same_site_step: "same_site a b \<Longrightarrow> site_step a b"
  by (simp add: site_step_def)

lemma metadata_step_trans:
  assumes "metadata_step a b" "metadata_step b c"
  shows "metadata_step a c"
proof -
  have "explicit_observer a \<longrightarrow> same_site a c"
    using assms explicit_same_site [of a b] same_trans(3) [of a b c] unfolding metadata_step_def by blast
  moreover have "same_solver_settings a c \<and> same_hint a c"
    using assms same_trans(1,2) [of a b c] unfolding metadata_step_def by blast
  moreover have "site_step a c" using assms site_step_trans unfolding metadata_step_def by blast
  moreover have "exposure_step (so_exposure_seconds a) (so_exposure_seconds c)"
    using assms exposure_step_trans unfolding metadata_step_def by blast
  moreover have "so_capture_time a \<noteq> None \<longrightarrow> so_capture_time c = so_capture_time a"
    "so_capture_time a \<noteq> None \<and> so_exposure_seconds a \<noteq> None \<longrightarrow> so_exposure_seconds c = so_exposure_seconds a"
    using assms unfolding metadata_step_def by simp_all
  ultimately show ?thesis unfolding metadata_step_def by blast
qed

lemma keep_duration:
  "so_capture_time (take_duration hs o1) = so_capture_time o1" "same_site o1 (take_duration hs o1)"
  using take_duration_frame [of hs o1] by (auto simp: same_site_def)

lemma keep_interval:
  "so_capture_time (take_interval L hs o1) = so_capture_time o1" "same_site o1 (take_interval L hs o1)"
  using take_interval_frame [of L hs o1] by (auto simp: same_site_def)

lemma keep_time: "same_site o1 (take_time L hs o1)"
  using take_time_frame [of L hs o1] by (auto simp: same_site_def)

lemma step_if: "(c \<Longrightarrow> metadata_step a b) \<Longrightarrow> metadata_step a (if c then b else a)"
  by (simp add: metadata_step_refl)

lemma step_duration: "metadata_step o1 (take_duration hs o1)"
proof -
  obtain e k where "take_duration hs o1 = o1\<lparr>so_exposure_seconds := e, so_satellite_metadata_keywords := k\<rparr>"
    "exposure_step (so_exposure_seconds o1) e" "so_exposure_seconds o1 \<noteq> None \<longrightarrow> e = so_exposure_seconds o1"
    using take_duration_frame by blast
  then show ?thesis by (simp add: metadata_step_def same_defs)
qed

lemma step_interval: "so_exposure_seconds o1 = None \<Longrightarrow> metadata_step o1 (take_interval L hs o1)"
proof -
  assume none: "so_exposure_seconds o1 = None"
  obtain e k where "take_interval L hs o1 = o1\<lparr>so_exposure_seconds := e, so_satellite_metadata_keywords := k\<rparr>"
    "exposure_step (so_exposure_seconds o1) e" using take_interval_frame by blast
  with none show ?thesis by (simp add: metadata_step_def same_defs)
qed

lemma step_time: "so_capture_time o1 = None \<Longrightarrow> metadata_step o1 (take_time L hs o1)"
proof -
  assume none: "so_capture_time o1 = None"
  obtain t e k where "take_time L hs o1
      = o1\<lparr>so_capture_time := t, so_exposure_seconds := e, so_satellite_metadata_keywords := k\<rparr>"
    "exposure_step (so_exposure_seconds o1) e" using take_time_frame by blast
  with none show ?thesis by (simp add: metadata_step_def same_defs)
qed

lemma step_note_source: "metadata_step o1 (note_source explicit src o1)"
  by (simp add: note_source_def metadata_step_def same_defs exposure_step_def)

lemma step_exif_time: "metadata_step o1 (exif_time L photo o1)"
  by (cases "so_capture_time o1"; cases "Option.bind (ph_capture_time_utc photo) (parse_capture_time L)")
    (simp_all add: exif_time_def metadata_step_def same_defs exposure_step_def)

lemma step_exif_site: "metadata_step o1 (exif_site photo o1)"
  by (cases "explicit_observer o1"; cases "ph_gps_latitude_deg photo"; cases "ph_gps_longitude_deg photo")
    (simp_all add: exif_site_def metadata_step_def same_defs exposure_step_def)

lemma metadata_step_exif: "metadata_step o0 (prepare_exif_metadata L photo explicit o0)"
  unfolding prepare_exif_metadata_def
  by (rule metadata_step_trans [OF metadata_step_trans [OF step_exif_time step_exif_site] step_note_source])

lemma take_observer_cases:
  obtains (none) "take_observer hs o1 = o1" | (itrf) p where "take_observer hs o1 = set_itrf p o1"
    | (geodetic) lat lon alt ks where "take_observer hs o1 = set_geodetic lat lon alt ks o1"
proof (cases "first_some (itrf_site hs) (first_some (geodetic_site hs) (named_site hs))")
  case (Some f)
  then have "itrf_site hs = Some f \<or> geodetic_site hs = Some f \<or> named_site hs = Some f"
    by (auto simp: first_some_def split: option.splits)
  moreover have "itrf_site hs = Some f \<Longrightarrow> \<exists>p. f = set_itrf p"
    by (auto simp: itrf_site_def split: option.splits)
  moreover have "geodetic_site hs = Some f \<or> named_site hs = Some f
      \<Longrightarrow> \<exists>lat lon alt ks. f = set_geodetic lat lon alt ks"
    by (auto simp: geodetic_site_def named_site_def simp del: append.simps split: option.splits)
  moreover have "take_observer hs o1 = f o1" using Some by (simp add: take_observer_def)
  ultimately show thesis using itrf geodetic by metis
qed (use none in \<open>simp add: take_observer_def\<close>)

lemma step_observer: "\<not> explicit_observer o1 \<Longrightarrow> metadata_step o1 (take_observer hs o1)"
  by (cases rule: take_observer_cases [of hs o1])
    (simp_all add: set_itrf_def set_geodetic_def with_keywords_def metadata_step_def same_defs
      exposure_step_def)

text \<open>The time and the site of the user survive every step, so the tests on them can be made at any point.\<close>

lemma metadata_step_satellite: "metadata_step o0 (prepare_satellite_metadata L hs src explicit o0)"
proof -
  let ?o1 = "take_duration hs o0"
  let ?o2 = "if so_capture_time o0 \<noteq> None \<and> so_exposure_seconds ?o1 = None then take_interval L hs ?o1 else ?o1"
  let ?o3 = "if so_capture_time o0 = None \<and> header_time_is_usable hs then take_time L hs ?o2 else ?o2"
  let ?o4 = "if \<not> explicit_observer o0 then take_observer hs ?o3 else ?o3"
  have unfolded: "prepare_satellite_metadata L hs src explicit o0
      = note_source explicit (satellite_source src) ?o4"
    unfolding prepare_satellite_metadata_def Let_def by (simp only: not_not)
  have kept2: "so_capture_time ?o2 = so_capture_time o0" "same_site o0 ?o2"
    using same_trans(3) [OF keep_duration(2) keep_interval(2)] keep_duration(2)
    by (simp_all only: keep_duration(1) keep_interval(1) if_cancel simp_thms split: if_split)

  have kept3: "same_site o0 ?o3"
    using kept2(2) same_trans(3) [OF kept2(2) keep_time] by (simp only: simp_thms split: if_split)
  have s12: "metadata_step ?o1 ?o2" by (rule step_if, rule step_interval) blast
  have s23: "metadata_step ?o2 ?o3" by (rule step_if, rule step_time, unfold kept2(1)) blast
  have s34: "metadata_step ?o3 ?o4"
    by (rule step_if, rule step_observer, unfold explicit_same_site [OF kept3, symmetric]) assumption

  show ?thesis unfolding unfolded
    by (rule metadata_step_trans [OF _ step_note_source], rule metadata_step_trans [OF _ s34],
        rule metadata_step_trans [OF _ s23], rule metadata_step_trans [OF step_duration s12])
qed

lemma reset_metadata_frame:
  "same_solver_settings o1 (reset_metadata o1)" "same_hint o1 (reset_metadata o1)" "same_site o1 (reset_metadata o1)"
  "so_capture_time (reset_metadata o1) = so_capture_time o1"
  "so_exposure_seconds (reset_metadata o1) = so_exposure_seconds o1"
  "explicit_observer (reset_metadata o1) = explicit_observer o1"
  by (simp_all add: reset_metadata_def same_defs explicit_observer_def)

lemma metadata_step_reset: "metadata_step (reset_metadata o1) o2 \<Longrightarrow> metadata_step o1 o2"
proof (rule metadata_step_trans)
  show "metadata_step o1 (reset_metadata o1)"
    unfolding metadata_step_def using reset_metadata_frame [of o1] same_site_step [of o1] by (simp add: exposure_step_def)
qed

text \<open>A hint: none of the three values, or all of them and in range.\<close>

definition hint_given :: "SolveOptions \<Rightarrow> bool" where
  "hint_given o1 \<longleftrightarrow> so_center_ra_deg o1 \<noteq> None \<or> so_center_dec_deg o1 \<noteq> None
                      \<or> so_scale_arcsec_per_pixel o1 \<noteq> None"

definition hint_in_range :: "SolveOptions \<Rightarrow> bool" where
  "hint_in_range o1 \<longleftrightarrow>
     (\<exists>ra dec scale. so_center_ra_deg o1 = Some ra \<and> so_center_dec_deg o1 = Some dec
        \<and> so_scale_arcsec_per_pixel o1 = Some scale \<and> f64_in 0 360 ra \<and> f64_in (- 90) 90 dec \<and> f64_pos scale)"

lemma prepare_from_prefix_cases:
  obtains (metadata) "metadata_step opts (prepare_from_prefix L opts b filename n)"
    | (hint) o1 where "metadata_step opts o1" "\<not> hint_given o1"
        "same_solver_settings o1 (prepare_from_prefix L opts b filename n)"
        "same_site o1 (prepare_from_prefix L opts b filename n)"
        "so_capture_time (prepare_from_prefix L opts b filename n) = so_capture_time o1"
        "so_exposure_seconds (prepare_from_prefix L opts b filename n) = so_exposure_seconds o1"
        "hint_in_range (prepare_from_prefix L opts b filename n)"
proof -
  let ?o0 = "reset_metadata opts" and ?explicit = "satellite_metadata_present opts"
  show thesis
  proof (cases "\<not> looks_like_fits b filename \<and> \<not> looks_like_xisf b filename")
    case True
    with metadata metadata_step_reset [OF metadata_step_exif] show thesis by (simp add: prepare_from_prefix_def)
  next
    case False
    show thesis
    proof (cases "image_headers L b filename n")
      case None
      note metadata_step_reset [OF metadata_step_refl]
      with False None metadata show thesis by (auto simp: prepare_from_prefix_def)
    next
      case (Some hsrc)
      obtain hs src where hsrc: "hsrc = (hs, src)" by force
      let ?o1 = "prepare_satellite_metadata L hs src ?explicit ?o0"
      note step = metadata_step_reset [OF metadata_step_satellite [of ?o0 L hs src ?explicit]]
      have unfolded: "prepare_from_prefix L opts b filename n =
          (if hint_given ?o1 then ?o1
           else case (fits_center L hs, fits_pixel_scale L hs) of
             (Some (ra, dec, center_keywords), Some (scale, scale_keywords)) \<Rightarrow>
               if is_finite ra \<and> f64_in 0 360 ra \<and> is_finite dec \<and> f64_in (- 90) 90 dec \<and> f64_pos scale
               then ?o1\<lparr>so_center_ra_deg := Some ra, so_center_dec_deg := Some dec,
                       so_scale_arcsec_per_pixel := Some scale, so_hint_source := Some (hint_source src),
                       so_hint_keywords := center_keywords @ scale_keywords\<rparr>
               else ?o1
           | _ \<Rightarrow> ?o1)"
        using False Some hsrc by (auto simp: prepare_from_prefix_def hint_given_def Let_def)
      show thesis
      proof (cases "prepare_from_prefix L opts b filename n = ?o1")
        case True
        with step metadata show thesis by simp
      next
        case changed: False
        then have quiet: "\<not> hint_given ?o1" using unfolded by auto
        obtain ra dec ck scale sk where found: "fits_center L hs = Some (ra, dec, ck)"
          "fits_pixel_scale L hs = Some (scale, sk)"
          using changed unfolded quiet by (auto split: option.splits)
        then have range: "is_finite ra \<and> f64_in 0 360 ra \<and> is_finite dec \<and> f64_in (- 90) 90 dec \<and> f64_pos scale"
          using changed unfolded quiet by (auto split: if_splits)
        have res: "prepare_from_prefix L opts b filename n
            = ?o1\<lparr>so_center_ra_deg := Some ra, so_center_dec_deg := Some dec,
                  so_scale_arcsec_per_pixel := Some scale, so_hint_source := Some (hint_source src),
                  so_hint_keywords := ck @ sk\<rparr>"
          unfolding unfolded using quiet found range by simp
        show thesis
          by (rule hint [OF step quiet]; unfold res) (use range in \<open>simp_all add: same_defs hint_in_range_def\<close>)
      qed
    qed
  qed
qed

section \<open>Properties\<close>

lemma same_hint_given: "same_hint a b \<Longrightarrow> hint_given a = hint_given b"
  by (simp add: same_hint_def hint_given_def)

text \<open>
  C40: What the user states of the solve and the exposure is kept beside what the image says: the settings of the
  solver are never touched; a center or scale of the user keeps all three values of the hint; a capture
  time is kept, and so is an exposure given together with its time.  An observing site is kept whole when the user
  gave its latitude, its longitude or its place in coordinates of the Earth; otherwise it is kept unless
  the image has a complete site.  An altitude that the user gave alone is not protected (lemma
  \<open>lone_altitude_is_replaced\<close>), nor is an exposure given without its time.
\<close>

theorem explicit_options_win:
  fixes opts :: SolveOptions
  assumes "prepared = prepare_from_prefix L opts b filename file_size"
  shows "same_solver_settings opts prepared
    \<and> (hint_given opts \<longrightarrow> same_hint opts prepared)
    \<and> (so_capture_time opts \<noteq> None \<longrightarrow> so_capture_time prepared = so_capture_time opts)
    \<and> (explicit_observer opts \<longrightarrow> same_site opts prepared)
    \<and> (\<not> same_site opts prepared \<longrightarrow> complete_site prepared)
    \<and> (so_capture_time opts \<noteq> None \<and> so_exposure_seconds opts \<noteq> None \<longrightarrow>
         so_exposure_seconds prepared = so_exposure_seconds opts)"
proof (cases rule: prepare_from_prefix_cases [of opts L b filename file_size])
  case metadata
  have "hint_given opts \<longrightarrow> same_hint opts (prepare_from_prefix L opts b filename file_size)"
    using metadata by (simp add: metadata_step_def)
  with metadata show ?thesis unfolding metadata_step_def site_step_def assms by blast
next
  case (hint o1)
  note o1 = hint(1) [unfolded metadata_step_def]
  have "\<not> hint_given opts" using hint(2) same_hint_given [of opts o1] o1 by blast
  moreover have "same_solver_settings opts (prepare_from_prefix L opts b filename file_size)"
    using same_trans(1) hint(3) o1 by blast
  moreover have site: "site_step opts (prepare_from_prefix L opts b filename file_size)"
    using site_step_trans [OF _ same_site_step [OF hint(4)]] o1 by blast
  ultimately show ?thesis using o1 site unfolding assms hint(5,6) site_step_def by blast
qed

lemma has_hint_cong: "same_hint a b \<Longrightarrow> has_hint a h = has_hint b h"
  by (cases h) (simp_all add: same_hint_def has_hint_def)

lemma has_site_cong: "same_site a b \<Longrightarrow> has_site a s = has_site b s"
  by (cases s) (simp_all add: same_site_def has_site_def)

lemma hint_in_range_ok:
  "hint_in_range o1 \<Longrightarrow> is_none_or f64_pos (so_scale_arcsec_per_pixel o1) \<and> (\<exists>h. hint_ok h \<and> has_hint o1 h)"
  unfolding hint_in_range_def
  by (elim exE conjE, intro conjI exI [of _ "Hint ra dec scale" for ra dec scale]) (auto simp: has_hint_def)

lemma exposure_step_pos: "exposure_step e e' \<Longrightarrow> is_none_or f64_pos e \<Longrightarrow> is_none_or f64_pos e'"
  by (cases e') (auto simp: exposure_step_def)

text \<open>
  Promoting metadata cannot spoil valid options except by the observing site: after it, valid options
  are still valid, unless the user gave no site and the one in the image is not a possible one.
\<close>

theorem metadata_keeps_options_valid:
  assumes "validate_options opts = Inr ()"
    and "prepared = prepare_from_prefix L opts b filename file_size"
  shows "validate_options prepared = Inr ()
         \<or> \<not> explicit_observer opts \<and> (\<nexists>s. site_ok s \<and> has_site prepared s)"
proof -
  note valid = assms(1) [unfolded validate_options_accepts]
  let ?p = "prepare_from_prefix L opts b filename file_size"
  have pos: "is_none_or f64_pos (so_exposure_seconds o1)" if "metadata_step opts o1" for o1
    using that valid exposure_step_pos unfolding metadata_step_def by blast
  have "same_solver_settings opts ?p \<and> is_none_or f64_pos (so_exposure_seconds ?p)
    \<and> (explicit_observer opts \<longrightarrow> same_site opts ?p) \<and> (same_hint opts ?p \<or> hint_in_range ?p)"
  proof (cases rule: prepare_from_prefix_cases [of opts L b filename file_size])
    case metadata
    with pos show ?thesis unfolding metadata_step_def by blast
  next
    case (hint o1)
    note o1 = hint(1) [unfolded metadata_step_def]
    have "explicit_observer opts \<longrightarrow> same_site opts ?p" using same_trans(3) hint(4) o1 by blast
    moreover have "same_solver_settings opts ?p" using same_trans(1) hint(3) o1 by blast
    ultimately show ?thesis using pos [OF hint(1)] hint(7) unfolding hint(6) by blast
  qed
  then have parts: "same_solver_settings opts prepared" "is_none_or f64_pos (so_exposure_seconds prepared)"
    "explicit_observer opts \<longrightarrow> same_site opts prepared" "same_hint opts prepared \<or> hint_in_range prepared"
    unfolding assms(2) by blast+
  have hint: "is_none_or f64_pos (so_scale_arcsec_per_pixel prepared) \<and> (\<exists>h. hint_ok h \<and> has_hint prepared h)"
    using parts(4)
  proof
    assume "same_hint opts prepared"
    with valid has_hint_cong [OF this] show ?thesis by (simp add: same_hint_def)
  qed (rule hint_in_range_ok)
  have settings: "validate_options prepared = Inr () \<longleftrightarrow> (\<exists>s. site_ok s \<and> has_site prepared s)"
  proof -
    have eq: "so_sigma prepared = so_sigma opts" "so_scale_tolerance prepared = so_scale_tolerance opts"
      "so_min_scale_arcsec_per_pixel prepared = so_min_scale_arcsec_per_pixel opts"
      "so_max_scale_arcsec_per_pixel prepared = so_max_scale_arcsec_per_pixel opts"
      "so_sip_order prepared = so_sip_order opts"
      using parts(1) by (simp_all add: same_solver_settings_def)
    show ?thesis unfolding validate_options_accepts eq using valid hint parts(2) by blast
  qed
  show ?thesis
  proof (cases "explicit_observer opts")
    case True
    with parts(3) valid has_site_cong [of opts prepared] settings show ?thesis by blast
  qed (use settings in blast)
qed

section \<open>Sample images\<close>

definition number_value :: "rat \<Rightarrow> HeaderValue" where
  "number_value x = \<lparr>hv_str = None, hv_f64 = Some (Fin x)\<rparr>"

definition text_value :: "string \<Rightarrow> HeaderValue" where
  "text_value s = \<lparr>hv_str = Some s, hv_f64 = None\<rparr>"

text \<open>Libraries that read the given XISF header, and know two dates five seconds apart.\<close>

definition sample_header_libs :: "headers \<Rightarrow> header_libs" where
  "sample_header_libs hs = \<lparr>
     hl_header_value = text_value, hl_xisf = (\<lambda>_ _. Some hs),
     hl_photo = (\<lambda>_. \<lparr>ph_capture_time_utc = None, ph_capture_time_source = None,
                      ph_sub_sec_time_original = None, ph_gps_latitude_deg = None,
                      ph_gps_longitude_deg = None\<rparr>),
     hl_rfc3339 = (\<lambda>v. if v = ''B'' then Some 0 else if v = ''E'' then Some 5000000000 else None),
     hl_date_time = (\<lambda>_ _. None), hl_date = (\<lambda>_. None), hl_f64 = (\<lambda>_. None), hl_sqrt = (\<lambda>x. x)\<rparr>"

definition sample_xisf :: bytes where
  "sample_xisf = bytes_of ''XISF0100'' @ [1, 0, 0, 0, 0, 0, 0, 0, 0]"

definition sample_headers :: headers where
  "sample_headers = [(''RA'', number_value 10), (''DEC'', number_value 20), (''PIXSCALE'', number_value 2),
     (''DATE-BEG'', text_value ''B''), (''DATE-END'', text_value ''E''), (''SITELAT'', number_value 40),
     (''SITELONG'', number_value 7)]"

lemma default_options_valid: "validate_options default_options = Inr ()"
  by (simp add: validate_options_def validate_observer_def default_options_def f64_in_def f64_pos_def)

lemma sample_image:
  "looks_like_xisf sample_xisf ''a.xisf''" "xisf_header_prefix_bytes sample_xisf = Some 17"
  "length sample_xisf = 17"
  by (simp_all add: looks_like_xisf_def begins_with_def sample_xisf_def bytes_of_def
      xisf_header_prefix_bytes_def xisf_preamble_bytes_def xisf_max_header_bytes_def le_number_def)


lemma sample_image_headers:
  "image_headers (sample_header_libs hs) sample_xisf ''a.xisf'' 17 = Some (hs, XisfSource)"
  by (simp add: image_headers_def sample_image sample_header_libs_def)

lemma sample_trims: "trim ''B'' = ''B''" "trim ''E'' = ''E''"
  by code_simp+

lemma sample_times:
  "parse_capture_time (sample_header_libs hs) ''B'' = Some 0"
  "parse_capture_time (sample_header_libs hs) ''E'' = Some 5000000000"
  by (simp_all add: parse_capture_time_def sample_header_libs_def first_some_def sample_trims)

lemmas sample_eval = prepare_from_prefix_def sample_image sample_image_headers reset_metadata_def
  satellite_metadata_present_def prepare_satellite_metadata_def explicit_observer_def take_duration_def
  filter_option_def header_f64_def take_interval_def fits_time_def sample_times seconds_between_def
  num_microseconds_def header_time_is_usable_def header_text_value_def take_time_def resolve_time_def
  push_keyword_def take_observer_def first_some_def itrf_site_def geodetic_site_def named_site_def
  set_itrf_def set_geodetic_def with_keywords_def note_source_def number_value_def text_value_def
  default_options_def

definition user_options :: SolveOptions where
  "user_options = default_options\<lparr>so_capture_time := Some 7\<rparr>"

theorem explicit_options_win_witness:
  "so_capture_time (prepare_from_prefix (sample_header_libs sample_headers) user_options sample_xisf ''a.xisf'' 17)
     = Some 7"
  using explicit_options_win [OF refl, of user_options "sample_header_libs sample_headers" sample_xisf
      "''a.xisf''" 17]
  by (simp add: user_options_def)

text \<open>
  The altitude of a user who gave no latitude or longitude gives way to the site of the image, and to sea level
  when that has no altitude.
\<close>

lemma lone_altitude_is_replaced:
  "so_observer_altitude_m (prepare_from_prefix (sample_header_libs sample_headers)
     (default_options\<lparr>so_observer_altitude_m := Some (Fin 2400)\<rparr>) sample_xisf ''a.xisf'' 17) = Some (Fin 0)"
  by (simp add: sample_eval sample_headers_def fits_center_def parse_fits_angle_def fits_pixel_scale_def
      usable_scale_def f64_in_def f64_pos_def)

theorem metadata_keeps_options_valid_witness:
  "validate_options (prepare_from_prefix (sample_header_libs sample_headers) default_options sample_xisf ''a.xisf'' 17)
     = Inr ()"
proof -
  let ?p = "prepare_from_prefix (sample_header_libs sample_headers) default_options sample_xisf ''a.xisf'' 17"
  have site: "so_observer_latitude_deg ?p = Some (Fin 40) \<and> so_observer_longitude_deg ?p = Some (Fin 7)
    \<and> so_observer_altitude_m ?p = Some (Fin 0) \<and> so_observer_itrf_m ?p = None"
    by (simp add: sample_eval sample_headers_def fits_center_def parse_fits_angle_def fits_pixel_scale_def
        usable_scale_def f64_in_def f64_pos_def)
  then have "\<exists>s. site_ok s \<and> has_site ?p s"
    by (intro exI [of _ "Geodetic (Fin 40) (Fin 7) (Some (Fin 0))"]) (simp add: has_site_def f64_in_def)
  with metadata_keeps_options_valid [OF default_options_valid refl, of "sample_header_libs sample_headers"
      sample_xisf "''a.xisf''" 17]
  show ?thesis by blast
qed

text \<open>
  The other side: an exposure given without its time is replaced by the header's interval, and a
  header with an impossible site makes valid options invalid.
\<close>

lemma header_replaces_explicit_exposure:
  "so_exposure_seconds (prepare_from_prefix (sample_header_libs sample_headers)
     (default_options\<lparr>so_exposure_seconds := Some (Fin 10)\<rparr>) sample_xisf ''a.xisf'' 17) = Some (Fin 5)"
  by (simp add: sample_eval sample_headers_def fits_center_def parse_fits_angle_def fits_pixel_scale_def
      usable_scale_def f64_in_def f64_pos_def)

lemma header_site_can_reject_upload:
  "validate_options default_options = Inr ()
   \<and> validate_options (prepare_from_prefix
        (sample_header_libs [(''SITELAT'', number_value 120), (''SITELONG'', number_value 7)])
        default_options sample_xisf ''a.xisf'' 17)
     = Inl ''observer_latitude_deg must be between -90 and 90''"
  by (simp add: default_options_valid)
    (simp add: sample_eval fits_center_def fits_pixel_scale_def validate_options_def validate_observer_def
      f64_in_def f64_pos_def)

end
