(* ===== verification/Api_Base.thy ===== *)
theory Api_Base
  imports Server_Config Auth Uploads
begin

text \<open>
  The parts of the HTTP layer that every handler shares (\<open>src/api.rs\<close>, \<open>src/api/auth.rs\<close>): errors and
  their responses, request headers, the identity of the client, the names of stored files, and the
  public identifiers of jobs.  A request's headers are the list of its fields; a value that is not
  visible ASCII is \<open>None\<close>.  UUID text, IP addresses, the standard hasher and the cookie syntax are
  the record \<open>api_libs\<close>.
\<close>

section \<open>Errors\<close>

record ApiError =
  ae_status :: nat
  ae_code :: string
  ae_message :: string
  ae_retry_after :: "int option"

definition api_error :: "nat \<Rightarrow> string \<Rightarrow> string \<Rightarrow> ApiError" where
  "api_error status code message =
     \<lparr>ae_status = status, ae_code = code, ae_message = message, ae_retry_after = None\<rparr>"

definition bad_request :: "string \<Rightarrow> ApiError" where "bad_request = api_error 400 ''bad_request''"
definition unauthorized :: "string \<Rightarrow> ApiError" where "unauthorized = api_error 401 ''unauthorized''"
definition forbidden :: "string \<Rightarrow> ApiError" where "forbidden = api_error 403 ''forbidden''"
definition not_found_message :: "string \<Rightarrow> ApiError" where "not_found_message = api_error 404 ''not_found''"
definition not_found :: ApiError where "not_found = not_found_message ''solve job not found''"
definition lease_conflict :: "string \<Rightarrow> ApiError" where "lease_conflict = api_error 409 ''lease_conflict''"
definition upload_conflict :: "string \<Rightarrow> ApiError" where "upload_conflict = api_error 409 ''upload_conflict''"
definition retry_conflict :: "string \<Rightarrow> ApiError" where "retry_conflict = api_error 409 ''retry_conflict''"
definition validation_conflict :: "string \<Rightarrow> ApiError" where
  "validation_conflict = api_error 409 ''validation_conflict''"
definition artifact_not_ready :: "string \<Rightarrow> ApiError" where
  "artifact_not_ready = api_error 409 ''artifact_not_ready''"
definition input_gone :: "string \<Rightarrow> ApiError" where "input_gone = api_error 410 ''input_expired''"
definition payload_too_large :: ApiError where
  "payload_too_large = api_error 413 ''payload_too_large'' ''image exceeds SEIZA_MAX_UPLOAD_BYTES''"
definition rate_limited :: "int \<Rightarrow> ApiError" where
  "rate_limited retry = (api_error 429 ''rate_limited'' ''submission rate limit exceeded'')
     \<lparr>ae_retry_after := Some retry\<rparr>"
definition internal_error :: ApiError where
  "internal_error = api_error 500 ''internal'' ''internal server error''"

definition auth_api_error :: "auth_error \<Rightarrow> ApiError" where
  "auth_api_error e =
     (case e of
        InvalidEmail \<Rightarrow> bad_request ''enter a valid email address''
      | InvalidCredential \<Rightarrow> unauthorized ''the sign-in credential is invalid or expired''
      | RateLimited retry \<Rightarrow> (api_error 429 ''auth_rate_limited'' ''too many sign-in requests'')
          \<lparr>ae_retry_after := Some retry\<rparr>
      | Delivery \<Rightarrow> (api_error 503 ''email_unavailable'' ''email delivery is temporarily unavailable'')
          \<lparr>ae_retry_after := Some 30\<rparr>
      | RecentAuthenticationRequired \<Rightarrow> forbidden ''sign in again before changing account security''
      | InvalidPasskeyLabel \<Rightarrow> bad_request ''passkey label must be between 1 and 80 characters''
      | InvalidApiKeyRequest \<Rightarrow>
          bad_request ''API key name must be 1-80 characters and scopes must be supported''
      | Internal \<Rightarrow> internal_error)"

section \<open>Headers\<close>

type_synonym Headers = "(string \<times> string option) list"

definition header_text :: "Headers \<Rightarrow> string \<Rightarrow> string option" where
  "header_text h name = (case map_of h name of Some (Some v) \<Rightarrow> Some v | _ \<Rightarrow> None)"

text \<open>\<open>get_all\<close>, without the values that are not text.\<close>

definition header_values :: "Headers \<Rightarrow> string \<Rightarrow> string list" where
  "header_values h name = List.map_filter (\<lambda>(k, v). if k = name then v else None) h"

datatype ip_addr = V4 "32 word" | V6 "128 word"

record api_libs =
  lib_uuid_str :: "uuid \<Rightarrow> string"
  lib_uuid_parse :: "string \<Rightarrow> uuid option"
  lib_ip_parse :: "string \<Rightarrow> ip_addr option"
  lib_ip_str :: "ip_addr \<Rightarrow> string"
  lib_hash :: "string \<Rightarrow> u64"
  lib_cookies :: "string \<Rightarrow> (string \<times> string) list"

text \<open>Everything a handler can read: the configuration, the account service and the libraries.\<close>

record ApiEnv =
  en_config :: Config
  en_auth :: "(AuthConfig \<times> string) option"
  en_libs :: api_libs

definition request_cookie :: "api_libs \<Rightarrow> Headers \<Rightarrow> string \<Rightarrow> string option" where
  "request_cookie lib h name =
     map_option snd (find (\<lambda>(k, _). k = name) (concat (map (lib_cookies lib) (header_values h ''cookie''))))"

definition bearer_token :: "Headers \<Rightarrow> string option" where
  "bearer_token h = Option.bind (header_text h ''authorization'') (strip_prefix ''Bearer '')"

definition request_api_key :: "Headers \<Rightarrow> string option" where
  "request_api_key h =
     filter_option (\<lambda>v. trim v \<noteq> [])
       (case header_text h ''x-api-key'' of Some v \<Rightarrow> Some v | None \<Rightarrow> bearer_token h)"

section \<open>The identity of a client\<close>

record Client =
  cl_id :: string
  cl_queue_weight :: f64

datatype PublicSolveSurface = Ui | Api

text \<open>The network of an IPv6 address: its upper 64 bits.\<close>

definition client_network :: "ip_addr \<Rightarrow> ip_addr" where
  "client_network a = (case a of V4 x \<Rightarrow> V4 x | V6 x \<Rightarrow> V6 (and x (push_bit 64 (- 1))))"

definition public_client_id :: "api_libs \<Rightarrow> string \<Rightarrow> string" where
  "public_client_id lib source_ip =
     (case lib_ip_parse lib (trim source_ip) of
        Some a \<Rightarrow> ''public:'' @ lib_ip_str lib (client_network a)
      | None \<Rightarrow> ''public:anonymous'')"

definition public_client :: "api_libs \<Rightarrow> Headers \<Rightarrow> Client" where
  "public_client lib h =
     (let field = (case map_of h ''x-forwarded-for'' of Some v \<Rightarrow> Some v | None \<Rightarrow> map_of h ''x-real-ip'');
          source_ip = (case field of Some (Some v) \<Rightarrow> hd (split_on (CHR '','') v) | _ \<Rightarrow> ''anonymous'') in
      \<lparr>cl_id = public_client_id lib source_ip, cl_queue_weight = Fin 1\<rparr>)"

definition rate_limit_source :: "api_libs \<Rightarrow> ip_addr \<Rightarrow> string" where
  "rate_limit_source lib a = lib_ip_str lib (client_network a)"

definition request_source :: "api_libs \<Rightarrow> Config \<Rightarrow> Headers \<Rightarrow> ip_addr \<Rightarrow> string" where
  "request_source lib cf h peer =
     (let hops = unat (cf_trusted_proxy_hops cf);
          forwarded = filter (\<lambda>v. v \<noteq> []) (map trim
                        (concat (map (split_on (CHR '','')) (header_values h ''x-forwarded-for''))));
          claimed = (if hops \<le> length forwarded then Some (forwarded ! (length forwarded - hops))
                     else map_option trim (header_text h ''x-real-ip'')) in
      case (if 0 < hops then Option.bind claimed (lib_ip_parse lib) else None) of
        Some address \<Rightarrow> rate_limit_source lib address
      | None \<Rightarrow> rate_limit_source lib peer)"

definition public_solve_surface :: "Headers \<Rightarrow> PublicSolveSurface" where
  "public_solve_surface h = (if header_text h ''x-seiza-client'' = Some ''web'' then Ui else Api)"

definition ensure_public_solve_allowed :: "Config \<Rightarrow> PublicSolveSurface \<Rightarrow> ApiError + unit" where
  "ensure_public_solve_allowed cf surface =
     (case surface of
        Ui \<Rightarrow> ensure (cf_public_ui_solves cf)
                (forbidden ''public browser UI solves are disabled by SEIZA_PUBLIC_UI_SOLVES'')
      | Api \<Rightarrow> ensure (cf_public_api_solves cf)
                 (forbidden ''public API solves are disabled by SEIZA_PUBLIC_API_SOLVES''))"

definition public_client_for_request ::
  "api_libs \<Rightarrow> Config \<Rightarrow> Headers \<Rightarrow> PublicSolveSurface option \<Rightarrow> ApiError + Client" where
  "public_client_for_request lib cf h surface =
     and_then (case surface of Some s \<Rightarrow> ensure_public_solve_allowed cf s | None \<Rightarrow> Inr ())
       (\<lambda>_. Inr (public_client lib h))"

definition public_astrometry_session_prefix :: string where
  "public_astrometry_session_prefix = ''seiza_public_''"

definition new_public_astrometry_session :: "api_libs \<Rightarrow> uuid \<Rightarrow> string" where
  "new_public_astrometry_session lib i = public_astrometry_session_prefix @ lib_uuid_str lib i"

definition is_public_astrometry_session :: "api_libs \<Rightarrow> string \<Rightarrow> bool" where
  "is_public_astrometry_session lib s =
     is_some_and (\<lambda>i. lib_uuid_parse lib i \<noteq> None) (strip_prefix public_astrometry_session_prefix s)"

text \<open>The format \<open>{:016x}\<close>.\<close>

definition hex_digit :: "nat \<Rightarrow> char" where
  "hex_digit d = char_of (if d < 10 then 48 + d else 87 + d)"

definition hex16 :: "u64 \<Rightarrow> string" where
  "hex16 w = map (\<lambda>i. hex_digit (unat w div 16 ^ i mod 16)) (rev [0 ..< 16])"

definition session_cookie_name :: "Config \<Rightarrow> string" where
  "session_cookie_name cf = (if secure_auth_cookies cf then ''__Host-seiza_session'' else ''seiza_session'')"

definition csrf_cookie_name :: "Config \<Rightarrow> string" where
  "csrf_cookie_name cf = (if secure_auth_cookies cf then ''__Host-seiza_csrf'' else ''seiza_csrf'')"

definition auth_service :: "ApiEnv \<Rightarrow> ApiError + AuthConfig \<times> string" where
  "auth_service en = ok_or (not_found_message ''account authentication is disabled'') (en_auth en)"

definition authenticated_browser ::
  "ApiEnv \<Rightarrow> IdentityDb \<Rightarrow> Headers \<Rightarrow> time \<Rightarrow> (ApiError + AuthenticatedBrowserSession) \<times> IdentityDb" where
  "authenticated_browser en db h now =
     (case auth_service en of
        Inl e \<Rightarrow> (Inl e, db)
      | Inr (cfg, _) \<Rightarrow>
      case request_cookie (en_libs en) h (session_cookie_name (en_config en)) of
        None \<Rightarrow> (Inl (unauthorized ''sign in to continue''), db)
      | Some token \<Rightarrow>
          apfst (map_sum auth_api_error id)
            (authenticate_browser_session cfg db token
               (request_cookie (en_libs en) h (csrf_cookie_name (en_config en))) now))"

definition authenticated_browser_for_mutation ::
  "ApiEnv \<Rightarrow> IdentityDb \<Rightarrow> Headers \<Rightarrow> time \<Rightarrow> (ApiError + AuthenticatedBrowserSession) \<times> IdentityDb" where
  "authenticated_browser_for_mutation en db h now =
     (case auth_service en of
        Inl e \<Rightarrow> (Inl e, db)
      | Inr (_, public_origin) \<Rightarrow>
      case header_text h ''origin'' of
        None \<Rightarrow> (Inl (unauthorized ''request origin is required''), db)
      | Some origin \<Rightarrow>
      if origin \<noteq> public_origin then (Inl (unauthorized ''request origin is not allowed''), db)
      else case authenticated_browser en db h now of
        (Inl e, db') \<Rightarrow> (Inl e, db')
      | (Inr authenticated, db') \<Rightarrow>
          (case require_csrf authenticated (header_text h ''x-csrf-token'') of
             Inl e \<Rightarrow> (Inl (auth_api_error e), db')
           | Inr _ \<Rightarrow> (Inr authenticated, db')))"

definition account_client :: "api_libs \<Rightarrow> AccountId \<Rightarrow> f64 \<Rightarrow> Client" where
  "account_client lib i w = \<lparr>cl_id = ''account:'' @ lib_uuid_str lib i, cl_queue_weight = w\<rparr>"

definition client_from_account ::
  "ApiEnv \<Rightarrow> IdentityDb \<Rightarrow> Headers \<Rightarrow> time \<Rightarrow> string option \<Rightarrow> bool \<Rightarrow> PublicSolveSurface option
    \<Rightarrow> (ApiError + Client) \<times> IdentityDb" where
  "client_from_account en db h now session_arg mutation surface =
     (let lib = en_libs en; cf = en_config en in
      case (session_arg, request_api_key h) of
        (Some _, Some _) \<Rightarrow> (Inl (unauthorized ''provide exactly one account credential''), db)
      | (Some s, None) \<Rightarrow>
          if is_public_astrometry_session lib s
          then (public_client_for_request lib cf h surface, db)
          else (case auth_service en of
                  Inl e \<Rightarrow> (Inl e, db)
                | Inr (cfg, _) \<Rightarrow>
                    apfst (map_sum auth_api_error
                            (\<lambda>a. account_client lib (acc_id (as_account a)) (as_queue_weight a)))
                      (authenticate_astrometry_session cfg db s now))
      | (None, Some key) \<Rightarrow>
          (case auth_service en of
             Inl e \<Rightarrow> (Inl e, db)
           | Inr (cfg, _) \<Rightarrow>
               apfst (map_sum auth_api_error
                       (\<lambda>a. account_client lib (acc_id (ak_account a)) (key_queue_weight (ak_api_key a))))
                 (authenticate_api_key cfg db key (if mutation then scope_solve_submit else scope_solve_read) now))
      | (None, None) \<Rightarrow>
          if request_cookie lib h (session_cookie_name cf) = None
          then (public_client_for_request lib cf h surface, db)
          else apfst (map_sum id (\<lambda>a. account_client lib (acc_id (ab_account a)) (Fin 1)))
                 (if mutation then authenticated_browser_for_mutation en db h now
                  else authenticated_browser en db h now))"

definition client_from_headers ::
  "ApiEnv \<Rightarrow> IdentityDb \<Rightarrow> Headers \<Rightarrow> time \<Rightarrow> string option \<Rightarrow> bool \<Rightarrow> PublicSolveSurface option
    \<Rightarrow> (ApiError + Client) \<times> IdentityDb" where
  "client_from_headers en db h now session_arg mutation surface =
     (if cf_auth_mode (en_config en) = Accounts
      then client_from_account en db h now session_arg mutation surface
      else
        let lib = en_libs en; cf = en_config en;
            api_key = filter_option (\<lambda>v. trim v \<noteq> [])
                        (case request_api_key h of Some k \<Rightarrow> Some k | None \<Rightarrow> session_arg);
            keyed = (\<lambda>key. \<lparr>cl_id = ''key:'' @ hex16 (lib_hash lib key),
                           cl_queue_weight = queue_weight_for_api_key cf api_key\<rparr>) in
        (case (cf_auth_mode cf, api_key) of
           (StubApiKey, None) \<Rightarrow>
             Inl (unauthorized ''provide X-API-Key, Bearer token, or Astrometry session'')
         | (StubApiKey, Some key) \<Rightarrow> Inr (keyed key)
         | (_, Some key) \<Rightarrow>
             and_then (case surface of Some s \<Rightarrow> ensure_public_solve_allowed cf s | None \<Rightarrow> Inr ())
               (\<lambda>_. Inr (keyed key))
         | (_, None) \<Rightarrow> public_client_for_request lib cf h surface, db))"

definition authenticate_worker :: "Config \<Rightarrow> Headers \<Rightarrow> ApiError + unit" where
  "authenticate_worker cf h =
     and_then (ok_or (not_found_message ''worker API is disabled'') (cf_worker_token cf))
       (\<lambda>expected. ensure (bearer_token h = Some expected) (unauthorized ''invalid worker token''))"

section \<open>Names of files and jobs\<close>

definition safe_filename :: "string \<Rightarrow> string" where
  "safe_filename filename =
     (let name = rev (takeWhile (\<lambda>c. c \<noteq> CHR ''/'' \<and> c \<noteq> CHR 0x5C) (rev filename));
          kept = trim_matches (CHR ''.'') (take 160 (filter
                   (\<lambda>c. is_ascii_alphanumeric c \<or> c = CHR ''.'' \<or> c = CHR ''_'' \<or> c = CHR ''-'') name)) in
      if kept = [] then ''upload'' else kept)"

definition safe_extension :: "string \<Rightarrow> string" where
  "safe_extension filename =
     (let e = to_ascii_lowercase (last_part (CHR ''.'') filename) in
      if e = ''fit'' \<or> e = ''fits'' \<or> e = ''fts'' then ''fits''
      else if e = ''xisf'' then ''xisf''
      else if e = ''jpg'' \<or> e = ''jpeg'' then ''jpg''
      else if e = ''png'' then ''png''
      else if e = ''tif'' \<or> e = ''tiff'' then ''tiff''
      else if e = ''webp'' then ''webp''
      else ''bin'')"

definition new_object_key :: "api_libs \<Rightarrow> Config \<Rightarrow> uuid \<Rightarrow> uuid \<Rightarrow> string \<Rightarrow> string" where
  "new_object_key lib cf job_id storage_token filename =
     (let extension = safe_extension filename; pre = trim_matches (CHR ''/'') (cf_s3_prefix cf);
          key = ''public-'' @ lib_uuid_str lib job_id @ ''/'' @ lib_uuid_str lib storage_token
                @ ''.'' @ extension in
      if pre = [] then key else pre @ ''/'' @ key)"

definition job_id_from_object_key :: "api_libs \<Rightarrow> string \<Rightarrow> uuid option" where
  "job_id_from_object_key lib object_key =
     (let components = rev (split_on (CHR ''/'') object_key); filename = hd components;
          tagged_parent = (case tl components of
                             parent # _ \<Rightarrow> Option.bind (strip_prefix ''public-'' parent) (lib_uuid_parse lib)
                           | [] \<Rightarrow> None) in
      case tagged_parent of
        Some i \<Rightarrow> Some i
      | None \<Rightarrow> lib_uuid_parse lib (case rsplit_once (CHR ''.'') filename of
                                     Some (stem, _) \<Rightarrow> stem | None \<Rightarrow> filename))"

definition validation_object_key :: "api_libs \<Rightarrow> Config \<Rightarrow> JobRecord \<Rightarrow> string" where
  "validation_object_key lib cf job =
     cf_validation_prefix cf @ ''/public-'' @ lib_uuid_str lib (j_id job) @ ''/''
     @ last_part (CHR ''/'') (j_object_key job)"

definition legacy_public_job_id :: "api_libs \<Rightarrow> string \<Rightarrow> (u64 \<times> uuid) option" where
  "legacy_public_job_id lib public_id =
     (case split_once (CHR ''-'') public_id of
        None \<Rightarrow> None
      | Some (seq, token) \<Rightarrow>
          (case (parse_u64 seq, lib_uuid_parse lib token) of
             (Some n, Some i) \<Rightarrow> Some (n, i) | _ \<Rightarrow> None))"

definition solve_time_ms :: "time option \<Rightarrow> time option \<Rightarrow> int option" where
  "solve_time_ms started_at completed_at =
     (case (started_at, completed_at) of
        (Some started, Some completed) \<Rightarrow> Some (max (num_milliseconds (completed - started)) 0)
      | _ \<Rightarrow> None)"

end
