(* ===== verification/Submission.thy ===== *)
theory Submission
  imports Api_Base Image_Headers Job_Repository
begin

text \<open>
  The handlers of \<open>src/api.rs\<close> that accept images: submitting one, finalizing a resumable upload,
  solving again with new options, contributing an image to the validation set, and the sweep of
  expired uploads.  The server's state is the job database, the object store, the buckets of the
  rate limiter and the identity database; a handler returns its result and the new state.  The
  clock is read once per request, and fresh identifiers are arguments.  Handlers return the job in
  place of its JSON rendering.
\<close>

section \<open>State and environment\<close>

record 's Server =
  sv_jobs :: JobDb
  sv_store :: 's
  sv_buckets :: buckets
  sv_identity :: IdentityDb

text \<open>
  The object store, the JSON of a saved upload, the libraries of the image headers, the limiter, and
  the notification transport: whether there is an external queue, and whether it takes a message.
\<close>

record 's ServerEnv =
  se_api :: ApiEnv
  se_ops :: "'s ObjectStore"
  se_to_json :: "ResumableUpload \<Rightarrow> bytes"
  se_from_json :: "bytes \<Rightarrow> ResumableUpload option"
  se_headers :: header_libs
  se_limiter :: RateLimiter
  se_external_queue :: bool
  se_publish :: "JobRecord \<Rightarrow> bool"

abbreviation se_libs :: "'s ServerEnv \<Rightarrow> api_libs" where
  "se_libs en \<equiv> en_libs (se_api en)"

abbreviation se_config :: "'s ServerEnv \<Rightarrow> Config" where
  "se_config en \<equiv> en_config (se_api en)"

definition is_uuid :: "'s ServerEnv \<Rightarrow> string \<Rightarrow> bool" where
  "is_uuid en i = (lib_uuid_parse (se_libs en) i \<noteq> None)"

definition request_client ::
  "'s ServerEnv \<Rightarrow> 's Server \<Rightarrow> Headers \<Rightarrow> time \<Rightarrow> bool \<Rightarrow> PublicSolveSurface option
    \<Rightarrow> (ApiError + Client) \<times> 's Server" where
  "request_client en s h now mutation surface =
     (case client_from_headers (se_api en) (sv_identity s) h now None mutation surface of
        (r, db) \<Rightarrow> (r, s\<lparr>sv_identity := db\<rparr>))"

section \<open>Queueing a stored image\<close>

definition stored_job ::
  "JobId \<Rightarrow> time \<Rightarrow> Client \<Rightarrow> string \<Rightarrow> string \<Rightarrow> string option \<Rightarrow> SolveOptions \<Rightarrow> JobRecord" where
  "stored_job job_id now client object_key filename content_type options = \<lparr>
     j_id = job_id, j_astrometry_id = 0, j_owner = cl_id client,
     j_queue_weight = cl_queue_weight client, j_object_key = object_key,
     j_original_filename = filename, j_content_type = content_type, j_options = options,
     j_status = Queued, j_created_at = now, j_started_at = None, j_completed_at = None,
     j_solution = None, j_error = None, j_validation_donation = None\<rparr>"

text \<open>A failed publish leaves the notification in the outbox; waking idle workers changes no state.\<close>

definition enqueue_stored ::
  "'s ServerEnv \<Rightarrow> JobDb \<Rightarrow> time \<Rightarrow> Client \<Rightarrow> string \<Rightarrow> string \<Rightarrow> string option \<Rightarrow> SolveOptions
    \<Rightarrow> (ApiError + JobRecord) \<times> JobDb" where
  "enqueue_stored en db now client object_key filename content_type options =
     (case find_by_object_key db object_key of
        Inl _ \<Rightarrow> (Inl internal_error, db)
      | Inr (Some job) \<Rightarrow> (Inr job, db)
      | Inr None \<Rightarrow>
      case job_id_from_object_key (se_libs en) object_key of
        None \<Rightarrow> (Inl internal_error, db)
      | Some job_id \<Rightarrow>
      case enqueue db (stored_job job_id now client object_key filename content_type options) of
        (Inl _, db1) \<Rightarrow> (Inl internal_error, db1)
      | (Inr job, db1) \<Rightarrow>
          (Inr job, if se_external_queue en \<and> se_publish en job
                    then mark_notification_delivered db1 now (j_id job) else db1))"

section \<open>Submitting an image\<close>

record UploadedFile =
  uf_filename :: string
  uf_content_type :: "string option"
  uf_data :: bytes

definition submit_job ::
  "'s ServerEnv \<Rightarrow> 's Server \<Rightarrow> time \<Rightarrow> time \<Rightarrow> uuid \<Rightarrow> uuid \<Rightarrow> Client \<Rightarrow> UploadedFile \<Rightarrow> SolveOptions
    \<Rightarrow> (ApiError + JobRecord) \<times> 's Server" where
  "submit_job en s instant now job_id storage_token client upload options0 =
     (let options = prepare_solve_options (se_headers en) options0 (uf_data upload) (uf_filename upload) in
      case validate_options options of
        Inl message \<Rightarrow> (Inl (bad_request message), s)
      | Inr _ \<Rightarrow>
      case check (se_limiter en) (sv_buckets s) (cl_id client) instant of
        (Inl retry, bs) \<Rightarrow> (Inl (rate_limited retry), s\<lparr>sv_buckets := bs\<rparr>)
      | (Inr _, bs) \<Rightarrow>
      let s1 = s\<lparr>sv_buckets := bs\<rparr>;
          object_key = new_object_key (se_libs en) (se_config en) job_id storage_token (uf_filename upload) in
      case os_put (se_ops en) (sv_store s1) now object_key (uf_data upload) (uf_content_type upload) of
        (Inl _, st) \<Rightarrow> (Inl internal_error, s1\<lparr>sv_store := st\<rparr>)
      | (Inr _, st) \<Rightarrow>
      case enqueue_stored en (sv_jobs s1) now client object_key (uf_filename upload)
             (uf_content_type upload) options of
        (r, db) \<Rightarrow> (r, s1\<lparr>sv_store := st, sv_jobs := db\<rparr>))"

section \<open>Finalizing a resumable upload\<close>

definition resumable_api_error :: "upload_error \<Rightarrow> ApiError" where
  "resumable_api_error e =
     (case e of
        UploadNotFound \<Rightarrow> not_found_message ''upload session not found''
      | OffsetMismatch expected actual \<Rightarrow>
          upload_conflict (''upload offset mismatch: expected '' @ decimal (unat expected)
                           @ '', received '' @ decimal (unat actual))
      | ExceedsLength \<Rightarrow> bad_request ''upload chunk exceeds declared file length''
      | Incomplete offset declared \<Rightarrow>
          artifact_not_ready (''upload has received '' @ decimal (unat offset) @ '' of ''
                              @ decimal (unat declared) @ '' bytes'')
      | Completed \<Rightarrow> upload_conflict ''upload has already completed''
      | UploadInternal _ \<Rightarrow> internal_error)"

definition persisted_job :: "JobDb \<Rightarrow> PersistedJobId \<Rightarrow> ApiError + JobRecord" where
  "persisted_job db p =
     (case (case p of PersistedUuid i \<Rightarrow> get_job db i | PersistedLegacy i \<Rightarrow> get_by_legacy_id db i) of
        Inl _ \<Rightarrow> Inl internal_error
      | Inr None \<Rightarrow> Inl internal_error
      | Inr (Some job) \<Rightarrow> Inr job)"

text \<open>The bytes that hold the image's header: a second, longer read when the first announces one.\<close>

definition header_prefix :: "'s ServerEnv \<Rightarrow> 's \<Rightarrow> ResumableUpload \<Rightarrow> upload_error + bytes" where
  "header_prefix en st u =
     and_then (read_prefix (se_ops en) st u fits_header_probe_bytes) (\<lambda>first.
       let probe = image_header_probe_bytes first (up_original_filename u) in
       if length first < probe then read_prefix (se_ops en) st u probe else Inr first)"

definition finalize_resumable ::
  "'s ServerEnv \<Rightarrow> 's Server \<Rightarrow> time \<Rightarrow> ResumableUpload
    \<Rightarrow> (ApiError + JobRecord) \<times> ResumableUpload \<times> 's Server" where
  "finalize_resumable en s now u =
     (case up_job_id u of
        Some p \<Rightarrow> (persisted_job (sv_jobs s) p, u, s)
      | None \<Rightarrow>
      case header_prefix en (sv_store s) u of
        Inl e \<Rightarrow> (Inl (resumable_api_error e), u, s)
      | Inr prfx \<Rightarrow>
      let u1 = u\<lparr>up_options := prepare_from_prefix (se_headers en) (up_options u) prfx
                   (up_original_filename u) (unat (up_total_size u))\<rparr> in
      case validate_options (up_options u1) of
        Inl message \<Rightarrow> (Inl (bad_request message), u1, s)
      | Inr _ \<Rightarrow>
      case compose_upload (se_ops en) (sv_store s) now u1 of
        (Inl e, st1) \<Rightarrow> (Inl (resumable_api_error e), u1, s\<lparr>sv_store := st1\<rparr>)
      | (Inr _, st1) \<Rightarrow>
      case enqueue_stored en (sv_jobs s) now \<lparr>cl_id = up_owner u1, cl_queue_weight = up_queue_weight u1\<rparr>
             (up_object_key u1) (up_original_filename u1) (up_content_type u1) (up_options u1) of
        (Inl e, db1) \<Rightarrow> (Inl e, u1, s\<lparr>sv_store := st1, sv_jobs := db1\<rparr>)
      | (Inr job, db1) \<Rightarrow>
      let u2 = u1\<lparr>up_job_id := Some (PersistedUuid (j_id job))\<rparr>; storage = cf_s3_prefix (se_config en) in
      case save (se_ops en) (se_to_json en) st1 now storage u2 of
        (Inl e, st2) \<Rightarrow> (Inl (resumable_api_error e), u2, s\<lparr>sv_store := st2, sv_jobs := db1\<rparr>)
      | (Inr _, st2) \<Rightarrow>
      case cleanup_chunks (se_ops en) st2 u2 of
        (u3, st3) \<Rightarrow>
          (Inr job, u3, s\<lparr>sv_store := snd (save (se_ops en) (se_to_json en) st3 now storage u3),
                         sv_jobs := db1\<rparr>))"

section \<open>Finding a job and its image\<close>

definition public_job :: "'s ServerEnv \<Rightarrow> JobDb \<Rightarrow> string \<Rightarrow> ApiError + JobRecord option" where
  "public_job en db public_id =
     (case lib_uuid_parse (se_libs en) public_id of
        Some job_id \<Rightarrow> map_sum (\<lambda>_. internal_error) id (get_job db job_id)
      | None \<Rightarrow>
      case legacy_public_job_id (se_libs en) public_id of
        None \<Rightarrow> Inr None
      | Some (legacy_id, job_id) \<Rightarrow>
          map_sum (\<lambda>_. internal_error) (filter_option (\<lambda>job. j_id job = job_id)) (get_by_legacy_id db legacy_id))"

definition the_public_job :: "'s ServerEnv \<Rightarrow> JobDb \<Rightarrow> string \<Rightarrow> ApiError + JobRecord" where
  "the_public_job en db public_id = and_then (public_job en db public_id) (ok_or not_found)"

text \<open>\<open>None\<close>: \<open>chrono\<close> panics on a retention beyond its range.\<close>

definition input_expires_at :: "Config \<Rightarrow> JobRecord \<Rightarrow> time option" where
  "input_expires_at cf job = add_seconds (j_created_at job) (sint (cf_upload_retention_seconds cf))"

definition input_available :: "Config \<Rightarrow> time \<Rightarrow> JobRecord \<Rightarrow> bool" where
  "input_available cf now job =
     (j_validation_donation job \<noteq> None \<or> is_some_and (\<lambda>e. now < e) (input_expires_at cf job))"

definition ensure_input_available :: "Config \<Rightarrow> time \<Rightarrow> JobRecord \<Rightarrow> ApiError + unit" where
  "ensure_input_available cf now job = ensure (input_available cf now job)
     (input_gone ''the uploaded image and generated preview expired; WCS metadata remains available'')"

definition finished :: "JobRecord \<Rightarrow> bool" where
  "finished job = (j_status job = Succeeded \<or> j_status job = Failed)"

text \<open>\<open>exists\<close>, with a missing object reported as gone.\<close>

definition ensure_stored :: "'s ServerEnv \<Rightarrow> 's \<Rightarrow> string \<Rightarrow> string \<Rightarrow> ApiError + unit" where
  "ensure_stored en st key message =
     (case os_exists (se_ops en) st key of
        Inl _ \<Rightarrow> Inl internal_error
      | Inr present \<Rightarrow> ensure present (input_gone message))"

section \<open>Solving again\<close>

text \<open>The flag says whether the new options differ from the old in what satellites need.\<close>

definition merge_resolve_satellite_metadata :: "SolveOptions \<Rightarrow> SolveOptions \<Rightarrow> SolveOptions \<times> bool" where
  "merge_resolve_satellite_metadata options previous =
     (let o1 = options\<lparr>so_capture_time := first_some (so_capture_time options) (so_capture_time previous),
                       so_exposure_seconds :=
                         first_some (so_exposure_seconds options) (so_exposure_seconds previous)\<rparr>;
          overrides_observer = (so_observer_latitude_deg o1 \<noteq> None \<or> so_observer_longitude_deg o1 \<noteq> None
                                \<or> so_observer_altitude_m o1 \<noteq> None \<or> so_observer_itrf_m o1 \<noteq> None);
          o2 = (if overrides_observer then o1
                else o1\<lparr>so_observer_latitude_deg := so_observer_latitude_deg previous,
                        so_observer_longitude_deg := so_observer_longitude_deg previous,
                        so_observer_altitude_m := so_observer_altitude_m previous,
                        so_observer_itrf_m := so_observer_itrf_m previous\<rparr>) in
      (o2, so_capture_time o2 \<noteq> so_capture_time previous
           \<or> so_exposure_seconds o2 \<noteq> so_exposure_seconds previous
           \<or> so_observer_latitude_deg o2 \<noteq> so_observer_latitude_deg previous
           \<or> so_observer_longitude_deg o2 \<noteq> so_observer_longitude_deg previous
           \<or> so_observer_altitude_m o2 \<noteq> so_observer_altitude_m previous
           \<or> so_observer_itrf_m o2 \<noteq> so_observer_itrf_m previous))"

definition resolve_options :: "'s ServerEnv \<Rightarrow> SolveOptions \<Rightarrow> JobRecord \<Rightarrow> SolveOptions" where
  "resolve_options en options job =
     (case merge_resolve_satellite_metadata options (j_options job) of
        (o1, overrides) \<Rightarrow>
          let o2 = prepare_solve_options (se_headers en) o1 [] (j_original_filename job) in
          if overrides then o2
          else o2\<lparr>so_satellite_metadata_source := so_satellite_metadata_source (j_options job),
                  so_satellite_metadata_keywords := so_satellite_metadata_keywords (j_options job)\<rparr>)"

text \<open>
  After a failed enqueue the copy is removed, but only when the database says that no job owns it.
\<close>

definition drop_unowned_copy :: "'s ServerEnv \<Rightarrow> JobDb \<Rightarrow> 's \<Rightarrow> string \<Rightarrow> 's" where
  "drop_unowned_copy en db st object_key =
     (case find_by_object_key db object_key of
        Inr None \<Rightarrow> snd (os_delete (se_ops en) st object_key)
      | _ \<Rightarrow> st)"

definition resolve_job ::
  "'s ServerEnv \<Rightarrow> 's Server \<Rightarrow> time \<Rightarrow> time \<Rightarrow> uuid \<Rightarrow> uuid \<Rightarrow> Client \<Rightarrow> JobRecord \<Rightarrow> SolveOptions
    \<Rightarrow> (ApiError + JobRecord) \<times> 's Server" where
  "resolve_job en s instant now job_id storage_token client job options0 =
     (let options = resolve_options en options0 job in
      case validate_options options of
        Inl message \<Rightarrow> (Inl (bad_request message), s)
      | Inr _ \<Rightarrow>
      case check (se_limiter en) (sv_buckets s) (cl_id client) instant of
        (Inl retry, bs) \<Rightarrow> (Inl (rate_limited retry), s\<lparr>sv_buckets := bs\<rparr>)
      | (Inr _, bs) \<Rightarrow>
      let s1 = s\<lparr>sv_buckets := bs\<rparr>;
          object_key = new_object_key (se_libs en) (se_config en) job_id storage_token
                         (j_original_filename job) in
      case os_copy (se_ops en) (sv_store s1) now (input_object_key job) object_key (j_content_type job) of
        (Inl _, st) \<Rightarrow> (Inl internal_error, s1\<lparr>sv_store := st\<rparr>)
      | (Inr _, st) \<Rightarrow>
      case enqueue_stored en (sv_jobs s1) now client object_key (j_original_filename job)
             (j_content_type job) options of
        (Inr resolved, db) \<Rightarrow> (Inr resolved, s1\<lparr>sv_store := st, sv_jobs := db\<rparr>)
      | (Inl e, db) \<Rightarrow>
          (Inl e, s1\<lparr>sv_store := drop_unowned_copy en db st object_key, sv_jobs := db\<rparr>))"

definition resolve_solve ::
  "'s ServerEnv \<Rightarrow> 's Server \<Rightarrow> Headers \<Rightarrow> time \<Rightarrow> time \<Rightarrow> uuid \<Rightarrow> uuid \<Rightarrow> string \<Rightarrow> SolveOptions
    \<Rightarrow> (ApiError + JobRecord) \<times> 's Server" where
  "resolve_solve en s0 h instant now job_id storage_token public_id options =
     (case request_client en s0 h now True (Some (public_solve_surface h)) of
        (Inl e, s) \<Rightarrow> (Inl e, s)
      | (Inr client, s) \<Rightarrow>
      case and_then (the_public_job en (sv_jobs s) public_id) (\<lambda>job.
             and_then (ensure (finished job) (retry_conflict ''only a completed solve can be re-solved'')) (\<lambda>_.
             and_then (ensure_input_available (se_config en) now job) (\<lambda>_.
             and_then (ensure_stored en (sv_store s) (input_object_key job)
                ''the retained upload is no longer available; upload the image again'') (\<lambda>_. Inr job)))) of
        Inl e \<Rightarrow> (Inl e, s)
      | Inr job \<Rightarrow> resolve_job en s instant now job_id storage_token client job options)"

section \<open>Contributing an image\<close>

record ValidationDonationRequest =
  vr_comment :: "string option"
  vr_solve_is_invalid :: bool
  vr_license_agreed :: bool

definition validation_license_version :: string where
  "validation_license_version = ''seiza-validation-image-grant-v2''"

definition max_validation_comment_bytes :: nat where
  "max_validation_comment_bytes = 2000"

definition donation_comment :: "ValidationDonationRequest \<Rightarrow> ApiError + string option" where
  "donation_comment request =
     and_then (ensure (vr_license_agreed request)
        (bad_request ''license_agreed must be true to contribute an image'')) (\<lambda>_.
      let comment = filter_option (\<lambda>c. c \<noteq> []) (map_option trim (vr_comment request)) in
      and_then (ensure (is_none_or (\<lambda>c. length c \<le> max_validation_comment_bytes) comment)
        (bad_request ''validation comment must not exceed 2000 bytes'')) (\<lambda>_. Inr comment))"

text \<open>The copy of the image under the protected prefix, made for a first contribution only.\<close>

definition copy_for_validation ::
  "'s ServerEnv \<Rightarrow> 's \<Rightarrow> time \<Rightarrow> JobRecord \<Rightarrow> string \<Rightarrow> (ApiError + unit) \<times> 's" where
  "copy_for_validation en st now job key =
     (case and_then (ensure_input_available (se_config en) now job) (\<lambda>_.
             ensure_stored en st (input_object_key job)
               ''the temporary upload is no longer available to contribute'') of
        Inl e \<Rightarrow> (Inl e, st)
      | Inr _ \<Rightarrow>
          apfst (map_sum (\<lambda>_. internal_error) id)
            (os_copy (se_ops en) st now (input_object_key job) key (j_content_type job)))"

definition donate_validation_image ::
  "'s ServerEnv \<Rightarrow> 's Server \<Rightarrow> Headers \<Rightarrow> time \<Rightarrow> string \<Rightarrow> ValidationDonationRequest
    \<Rightarrow> (ApiError + JobRecord) \<times> 's Server" where
  "donate_validation_image en s0 h now public_id request =
     (case request_client en s0 h now True None of
        (Inl e, s) \<Rightarrow> (Inl e, s)
      | (Inr _, s) \<Rightarrow>
      case and_then (donation_comment request) (\<lambda>comment.
             and_then (the_public_job en (sv_jobs s) public_id) (\<lambda>job.
             and_then (ensure (finished job)
                (validation_conflict ''only a completed solve can be contributed to the validation set''))
               (\<lambda>_. Inr (comment, job)))) of
        Inl e \<Rightarrow> (Inl e, s)
      | Inr (comment, job) \<Rightarrow>
      let key = (case j_validation_donation job of Some d \<Rightarrow> vd_object_key d
                 | None \<Rightarrow> validation_object_key (se_libs en) (se_config en) job);
          donated_at = (case j_validation_donation job of Some d \<Rightarrow> vd_donated_at d | None \<Rightarrow> now) in
      case (if j_validation_donation job = None then copy_for_validation en (sv_store s) now job key
            else (Inr (), sv_store s)) of
        (Inl e, st) \<Rightarrow> (Inl e, s\<lparr>sv_store := st\<rparr>)
      | (Inr _, st) \<Rightarrow>
      let s1 = s\<lparr>sv_store := st\<rparr> in
      case donate_validation (sv_jobs s1) (j_id job)
             \<lparr>vd_object_key = key, vd_comment = comment, vd_solve_is_invalid = vr_solve_is_invalid request,
              vd_license_version = validation_license_version, vd_donated_at = donated_at\<rparr> of
        (Inl _, db) \<Rightarrow> (Inl internal_error, s1\<lparr>sv_jobs := db\<rparr>)
      | (Inr False, db) \<Rightarrow>
          (Inl (validation_conflict ''the solve is no longer in a completed state''), s1\<lparr>sv_jobs := db\<rparr>)
      | (Inr True, db) \<Rightarrow> (persisted_job db (PersistedUuid (j_id job)), s1\<lparr>sv_jobs := db\<rparr>))"

section \<open>The sweep of expired uploads\<close>

definition cleanup_expired_uploads :: "'s ServerEnv \<Rightarrow> 's Server \<Rightarrow> time \<Rightarrow> 's Server" where
  "cleanup_expired_uploads en s now =
     s\<lparr>sv_store := snd (os_delete_older_than (se_ops en) (sv_store s)
          (now - uint (cf_upload_retention_seconds (se_config en)) * nanos_per_second)
          [cf_validation_prefix (se_config en)])\<rparr>"

end
