(* ===== verification/Tus.thy ===== *)
theory Tus
  imports Submission
begin

text \<open>
  The resumable-upload endpoints of the tus protocol (\<open>src/api/tus.rs\<close>).  Base64, UTF-8 validation,
  URIs and the JSON of solve options are the record \<open>tus_libs\<close>.  A handler takes the request headers
  and, where the code reads one, the body; the response is the list of its headers.  The lock that
  the handlers take on an upload makes each handler one step of the server.
\<close>

record tus_libs =
  tl_base64 :: "string \<Rightarrow> bytes option"
  tl_utf8 :: "bytes \<Rightarrow> string option"
  tl_uri_path :: "string \<Rightarrow> string option"
  tl_options :: "string \<Rightarrow> string + SolveOptions"

definition tus_version :: string where
  "tus_version = ''1.0.0''"

definition tus_extensions :: string where
  "tus_extensions = ''creation,termination,concatenation''"

type_synonym reply = "nat \<times> (string \<times> string) list"

definition tus_headers :: "Config \<Rightarrow> (string \<times> string) list" where
  "tus_headers cf = [(''tus-resumable'', tus_version), (''tus-version'', tus_version),
     (''tus-extension'', tus_extensions), (''tus-max-size'', decimal (unat (cf_max_upload_bytes cf)))]"

definition verify_tus_version :: "Headers \<Rightarrow> ApiError + unit" where
  "verify_tus_version h = ensure (header_text h ''tus-resumable'' = Some tus_version)
     (bad_request (''Tus-Resumable must be '' @ tus_version))"

text \<open>The text of a field that is not visible ASCII has a message of the \<open>http\<close> crate.\<close>

definition required_u64_header :: "Headers \<Rightarrow> string \<Rightarrow> ApiError + u64" where
  "required_u64_header h name =
     (case map_of h name of
        None \<Rightarrow> Inl (bad_request (''missing '' @ name @ '' header''))
      | Some None \<Rightarrow> Inl (bad_request ''failed to convert header to a str'')
      | Some (Some v) \<Rightarrow> ok_or (bad_request (''invalid '' @ name @ '' header'')) (parse_u64 v))"

definition checked_upload_length :: "Config \<Rightarrow> Headers \<Rightarrow> ApiError + u64" where
  "checked_upload_length cf h =
     and_then (required_u64_header h ''upload-length'') (\<lambda>n.
     and_then (ensure (n \<noteq> 0) (bad_request ''uploaded image must not be empty'')) (\<lambda>_.
     and_then (ensure (n \<le> cf_max_upload_bytes cf) payload_too_large) (\<lambda>_. Inr n)))"

section \<open>Upload-Metadata\<close>

definition metadata_pair :: "tus_libs \<Rightarrow> string \<Rightarrow> ApiError + string \<times> string" where
  "metadata_pair tu pair =
     (let (key, encoded) = (case split_once (CHR '' '') pair of Some p \<Rightarrow> p | None \<Rightarrow> (pair, [])) in
      and_then (ok_or (bad_request ''invalid base64 Upload-Metadata value'') (tl_base64 tu encoded)) (\<lambda>raw.
      and_then (ok_or (bad_request ''Upload-Metadata value is not UTF-8'') (tl_utf8 tu raw)) (\<lambda>v.
        Inr (key, v))))"

text \<open>The first error, or the map in which a later pair replaces an earlier one of the same key.\<close>

fun metadata_pairs :: "tus_libs \<Rightarrow> string list \<Rightarrow> ApiError + (string \<times> string) list" where
  "metadata_pairs tu [] = Inr []"
| "metadata_pairs tu (p # ps) =
     and_then (metadata_pair tu p) (\<lambda>kv. and_then (metadata_pairs tu ps) (\<lambda>kvs. Inr (kv # kvs)))"

definition parse_upload_metadata :: "tus_libs \<Rightarrow> Headers \<Rightarrow> ApiError + (string \<Rightarrow> string option)" where
  "parse_upload_metadata tu h =
     (case header_text h ''upload-metadata'' of
        None \<Rightarrow> Inr Map.empty
      | Some raw \<Rightarrow>
          map_sum id (\<lambda>kvs. map_of (rev kvs))
            (metadata_pairs tu (filter (\<lambda>p. p \<noteq> []) (map trim (split_on (CHR '','') raw)))))"

definition upload_metadata :: "tus_libs \<Rightarrow> Headers \<Rightarrow> ApiError + string \<times> string option \<times> SolveOptions" where
  "upload_metadata tu h =
     and_then (parse_upload_metadata tu h) (\<lambda>metadata.
     and_then (ok_or (bad_request ''Upload-Metadata must include filename'')
        (filter_option (\<lambda>n. n \<noteq> []) (map_option safe_filename (metadata ''filename'')))) (\<lambda>filename.
     let content_type = filter_option (\<lambda>v. v \<noteq> [] \<and> length v \<le> 255) (metadata ''filetype'') in
     and_then (case metadata ''options'' of
                 None \<Rightarrow> Inr default_options
               | Some raw \<Rightarrow> map_sum (\<lambda>e. bad_request (''invalid options JSON: '' @ e)) id (tl_options tu raw))
       (\<lambda>options.
     and_then (map_sum bad_request id (validate_options options)) (\<lambda>_. Inr (filename, content_type, options)))))"

section \<open>Upload-Concat\<close>

definition ascii_white :: "char \<Rightarrow> bool" where
  "ascii_white c = (c \<in> {CHR 0x09, CHR 0x0A, CHR 0x0C, CHR 0x0D, CHR '' ''})"

definition split_ascii_whitespace :: "string \<Rightarrow> string list" where
  "split_ascii_whitespace s =
     filter (\<lambda>p. p \<noteq> []) (split_on (CHR '' '') (map (\<lambda>c. if ascii_white c then CHR '' '' else c) s))"

definition uploads_path :: string where
  "uploads_path = ''/api/v1/uploads/''"

definition concat_part_id :: "'s ServerEnv \<Rightarrow> tus_libs \<Rightarrow> string list \<Rightarrow> string \<Rightarrow> ApiError + string" where
  "concat_part_id en tu ids raw =
     and_then (ok_or (bad_request ''Upload-Concat contains an invalid upload URL'') (tl_uri_path tu raw)) (\<lambda>path.
     and_then (ok_or (bad_request ''Upload-Concat may only reference this server's uploads'')
        (filter_option (\<lambda>i. i \<noteq> [] \<and> CHR ''/'' \<notin> set i) (strip_prefix uploads_path path))) (\<lambda>i.
     and_then (ensure (is_uuid en i \<and> i \<notin> set ids)
        (bad_request ''Upload-Concat contains an invalid or duplicate upload URL'')) (\<lambda>_. Inr i)))"

fun concat_part_ids :: "'s ServerEnv \<Rightarrow> tus_libs \<Rightarrow> string list \<Rightarrow> string list \<Rightarrow> ApiError + string list" where
  "concat_part_ids en tu ids [] = Inr ids"
| "concat_part_ids en tu ids (raw # raws) =
     and_then (concat_part_id en tu ids raw) (\<lambda>i. concat_part_ids en tu (ids @ [i]) raws)"

definition parse_concat_part_ids :: "'s ServerEnv \<Rightarrow> tus_libs \<Rightarrow> string \<Rightarrow> ApiError + string list" where
  "parse_concat_part_ids en tu v =
     and_then (ok_or (bad_request ''invalid Upload-Concat header'') (strip_prefix ''final;'' v)) (\<lambda>raw.
     and_then (concat_part_ids en tu [] (split_ascii_whitespace raw)) (\<lambda>ids.
     and_then (ensure (ids \<noteq> []) (bad_request ''Upload-Concat must reference at least one partial upload''))
       (\<lambda>_. Inr ids)))"

section \<open>Creating an upload\<close>

definition load_upload :: "'s ServerEnv \<Rightarrow> 's Server \<Rightarrow> string \<Rightarrow> ApiError + ResumableUpload" where
  "load_upload en s upload_id =
     map_sum resumable_api_error id
       (load (se_ops en) (is_uuid en) (se_from_json en) (sv_store s) (cf_s3_prefix (se_config en)) upload_id)"

definition save_upload ::
  "'s ServerEnv \<Rightarrow> 's Server \<Rightarrow> time \<Rightarrow> ResumableUpload \<Rightarrow> (ApiError + unit) \<times> 's Server" where
  "save_upload en s now u =
     (case save (se_ops en) (se_to_json en) (sv_store s) now (cf_s3_prefix (se_config en)) u of
        (r, st) \<Rightarrow> (map_sum resumable_api_error id r, s\<lparr>sv_store := st\<rparr>))"

definition ensure_upload_owner :: "ResumableUpload \<Rightarrow> Client \<Rightarrow> ApiError + unit" where
  "ensure_upload_owner u client =
     ensure (up_owner u = cl_id client) (not_found_message ''upload session not found'')"

definition load_part :: "'s ServerEnv \<Rightarrow> 's Server \<Rightarrow> Client \<Rightarrow> string \<Rightarrow> ApiError + ResumableUpload" where
  "load_part en s client part_id =
     and_then (load_upload en s part_id) (\<lambda>part.
     and_then (ensure_upload_owner part client) (\<lambda>_.
     and_then (ensure (up_partial part \<and> up_offset part = up_total_size part \<and> up_job_id part = None)
        (upload_conflict ''Upload-Concat references an incomplete or non-partial upload'')) (\<lambda>_. Inr part)))"

fun load_parts :: "'s ServerEnv \<Rightarrow> 's Server \<Rightarrow> Client \<Rightarrow> string list \<Rightarrow> ApiError + ResumableUpload list" where
  "load_parts en s client [] = Inr []"
| "load_parts en s client (i # ids) =
     and_then (load_part en s client i) (\<lambda>part.
     and_then (load_parts en s client ids) (\<lambda>parts. Inr (part # parts)))"

text \<open>The token of the limiter is taken before the request is looked at further.\<close>

definition take_token ::
  "'s ServerEnv \<Rightarrow> 's Server \<Rightarrow> Client \<Rightarrow> time \<Rightarrow> (ApiError + unit) \<times> 's Server" where
  "take_token en s client instant =
     (case check (se_limiter en) (sv_buckets s) (cl_id client) instant of
        (r, bs) \<Rightarrow> (map_sum rate_limited id r, s\<lparr>sv_buckets := bs\<rparr>))"

text \<open>The upload that the request describes; the fresh identifiers are those of the upload and its image.\<close>

definition final_upload ::
  "'s ServerEnv \<Rightarrow> tus_libs \<Rightarrow> 's Server \<Rightarrow> Headers \<Rightarrow> time \<Rightarrow> uuid \<Rightarrow> uuid \<Rightarrow> uuid \<Rightarrow> Client \<Rightarrow> string
    \<Rightarrow> ApiError + ResumableUpload" where
  "final_upload en tu s h now upload_id job_id storage_token client v =
     and_then (parse_concat_part_ids en tu v) (\<lambda>ids.
     and_then (load_parts en s client ids) (\<lambda>parts.
     and_then (ok_or payload_too_large (total_of_parts 0 parts)) (\<lambda>n.
     and_then (ensure (n \<noteq> 0) (bad_request ''uploaded image must not be empty'')) (\<lambda>_.
     and_then (ensure (n \<le> cf_max_upload_bytes (se_config en)) payload_too_large) (\<lambda>_.
     and_then (upload_metadata tu h) (\<lambda>(filename, content_type, options).
       map_sum resumable_api_error id
         (concatenate (lib_uuid_str (se_libs en) upload_id) now filename content_type
            (new_object_key (se_libs en) (se_config en) job_id storage_token filename) options
            (cl_id client) (cl_queue_weight client) parts)))))))"

definition whole_upload ::
  "'s ServerEnv \<Rightarrow> tus_libs \<Rightarrow> Headers \<Rightarrow> time \<Rightarrow> uuid \<Rightarrow> uuid \<Rightarrow> uuid \<Rightarrow> Client \<Rightarrow> ApiError + ResumableUpload" where
  "whole_upload en tu h now upload_id job_id storage_token client =
     and_then (checked_upload_length (se_config en) h) (\<lambda>n.
     and_then (upload_metadata tu h) (\<lambda>(filename, content_type, options).
       Inr (new_upload (lib_uuid_str (se_libs en) upload_id) now filename content_type n
              (new_object_key (se_libs en) (se_config en) job_id storage_token filename) options
              (cl_id client) (cl_queue_weight client))))"

definition partial_upload ::
  "'s ServerEnv \<Rightarrow> Headers \<Rightarrow> time \<Rightarrow> uuid \<Rightarrow> Client \<Rightarrow> ApiError + ResumableUpload" where
  "partial_upload en h now upload_id client =
     and_then (checked_upload_length (se_config en) h) (\<lambda>n.
       Inr (new_partial (lib_uuid_str (se_libs en) upload_id) now n (cl_id client) (cl_queue_weight client)))"

definition requested_upload ::
  "'s ServerEnv \<Rightarrow> tus_libs \<Rightarrow> 's Server \<Rightarrow> Headers \<Rightarrow> time \<Rightarrow> time \<Rightarrow> uuid \<Rightarrow> uuid \<Rightarrow> uuid \<Rightarrow> Client
    \<Rightarrow> (ApiError + ResumableUpload) \<times> 's Server" where
  "requested_upload en tu s h instant now upload_id job_id storage_token client =
     (case header_text h ''upload-concat'' of
        Some v \<Rightarrow>
          if v = ''partial'' then (partial_upload en h now upload_id client, s)
          else if starts_with v ''final;'' then
            (case take_token en s client instant of
               (r, s1) \<Rightarrow>
                 (and_then r (\<lambda>_. final_upload en tu s1 h now upload_id job_id storage_token client v), s1))
          else (Inl (bad_request ''Upload-Concat must be `partial` or `final;<upload URLs>`''), s)
      | None \<Rightarrow>
          (case take_token en s client instant of
             (r, s1) \<Rightarrow>
               (and_then r (\<lambda>_. whole_upload en tu h now upload_id job_id storage_token client), s1)))"

text \<open>A part's state that is missing is an error; a failed delete is only logged.\<close>

fun delete_parts :: "'s ServerEnv \<Rightarrow> 's Server \<Rightarrow> string list \<Rightarrow> (ApiError + unit) \<times> 's Server" where
  "delete_parts en s [] = (Inr (), s)"
| "delete_parts en s (i # ids) =
     (case load_upload en s i of
        Inl e \<Rightarrow> (Inl e, s)
      | Inr part \<Rightarrow>
          delete_parts en
            (s\<lparr>sv_store := snd (delete_state (se_ops en) (sv_store s) (cf_s3_prefix (se_config en)) part)\<rparr>) ids)"

definition finish_concatenation ::
  "'s ServerEnv \<Rightarrow> 's Server \<Rightarrow> time \<Rightarrow> ResumableUpload \<Rightarrow> (ApiError + unit) \<times> 's Server" where
  "finish_concatenation en s now u =
     (if up_partial u \<or> up_concat_parts u = [] then (Inr (), s)
      else case finalize_resumable en s now u of
        (Inl e, _, s1) \<Rightarrow> (Inl e, s1)
      | (Inr _, u1, s1) \<Rightarrow> delete_parts en s1 (up_concat_parts u1))"

definition create_resumable_upload ::
  "'s ServerEnv \<Rightarrow> tus_libs \<Rightarrow> 's Server \<Rightarrow> Headers \<Rightarrow> time \<Rightarrow> time \<Rightarrow> uuid \<Rightarrow> uuid \<Rightarrow> uuid
    \<Rightarrow> (ApiError + reply) \<times> 's Server" where
  "create_resumable_upload en tu s0 h instant now upload_id job_id storage_token =
     (case verify_tus_version h of
        Inl e \<Rightarrow> (Inl e, s0)
      | Inr _ \<Rightarrow>
      case request_client en s0 h now True (Some (public_solve_surface h)) of
        (Inl e, s1) \<Rightarrow> (Inl e, s1)
      | (Inr client, s1) \<Rightarrow>
      case requested_upload en tu s1 h instant now upload_id job_id storage_token client of
        (Inl e, s2) \<Rightarrow> (Inl e, s2)
      | (Inr u, s2) \<Rightarrow>
      case save_upload en s2 now u of
        (Inl e, s3) \<Rightarrow> (Inl e, s3)
      | (Inr _, s3) \<Rightarrow>
      case finish_concatenation en s3 now u of
        (Inl e, s4) \<Rightarrow> (Inl e, s4)
      | (Inr _, s4) \<Rightarrow>
          (Inr (201, tus_headers (se_config en)
                  @ [(''location'', uploads_path @ up_id u), (''upload-offset'', decimal (unat (up_offset u)))]),
           s4))"

section \<open>Handlers of an existing upload\<close>

definition owned_upload ::
  "'s ServerEnv \<Rightarrow> 's Server \<Rightarrow> Client \<Rightarrow> string \<Rightarrow> ApiError + ResumableUpload" where
  "owned_upload en s client upload_id =
     and_then (load_upload en s upload_id) (\<lambda>u. and_then (ensure_upload_owner u client) (\<lambda>_. Inr u))"

text \<open>\<open>join\<close>.\<close>

fun joined :: "string \<Rightarrow> string list \<Rightarrow> string" where
  "joined sep [] = []"
| "joined sep [x] = x"
| "joined sep (x # y # ys) = x @ sep @ joined sep (y # ys)"

definition upload_head :: "Config \<Rightarrow> ResumableUpload \<Rightarrow> (string \<times> string) list" where
  "upload_head cf u =
     tus_headers cf
     @ [(''upload-offset'', decimal (unat (up_offset u))), (''upload-length'', decimal (unat (up_total_size u)))]
     @ (if up_partial u then [(''upload-concat'', ''partial'')]
        else if up_concat_parts u \<noteq> []
        then [(''upload-concat'', ''final;'' @ joined '' '' (map (\<lambda>i. uploads_path @ i) (up_concat_parts u)))]
        else [])
     @ [(''cache-control'', ''no-store'')]"

definition head_resumable_upload ::
  "'s ServerEnv \<Rightarrow> 's Server \<Rightarrow> Headers \<Rightarrow> time \<Rightarrow> string \<Rightarrow> (ApiError + reply) \<times> 's Server" where
  "head_resumable_upload en s0 h now upload_id =
     (case verify_tus_version h of
        Inl e \<Rightarrow> (Inl e, s0)
      | Inr _ \<Rightarrow>
      case request_client en s0 h now False (Some (public_solve_surface h)) of
        (Inl e, s) \<Rightarrow> (Inl e, s)
      | (Inr client, s) \<Rightarrow>
          (and_then (owned_upload en s client upload_id) (\<lambda>u. Inr (200, upload_head (se_config en) u)), s))"

text \<open>Taking a chunk, and finalizing the upload when it was the last one.\<close>

definition take_chunk ::
  "'s ServerEnv \<Rightarrow> 's Server \<Rightarrow> time \<Rightarrow> ResumableUpload \<Rightarrow> u64 \<Rightarrow> bytes \<Rightarrow> (ApiError + u64) \<times> 's Server" where
  "take_chunk en s now u offset data =
     (case append_upload (se_ops en) (se_to_json en) (sv_store s) now (cf_s3_prefix (se_config en)) u offset data of
        (Inl e, _, st) \<Rightarrow> (Inl (resumable_api_error e), s\<lparr>sv_store := st\<rparr>)
      | (Inr new_offset, u1, st) \<Rightarrow>
          let s1 = s\<lparr>sv_store := st\<rparr> in
          if new_offset = up_total_size u1 \<and> \<not> up_partial u1
          then (case finalize_resumable en s1 now u1 of
                  (Inl e, _, s2) \<Rightarrow> (Inl e, s2)
                | (Inr _, _, s2) \<Rightarrow> (Inr new_offset, s2))
          else (Inr new_offset, s1))"

definition patch_resumable_upload ::
  "'s ServerEnv \<Rightarrow> 's Server \<Rightarrow> Headers \<Rightarrow> time \<Rightarrow> string \<Rightarrow> bytes \<Rightarrow> (ApiError + reply) \<times> 's Server" where
  "patch_resumable_upload en s0 h now upload_id body =
     (case and_then (verify_tus_version h) (\<lambda>_.
             ensure (header_text h ''content-type'' = Some ''application/offset+octet-stream'')
               (bad_request ''chunk Content-Type must be application/offset+octet-stream'')) of
        Inl e \<Rightarrow> (Inl e, s0)
      | Inr _ \<Rightarrow>
      case request_client en s0 h now True (Some (public_solve_surface h)) of
        (Inl e, s) \<Rightarrow> (Inl e, s)
      | (Inr client, s) \<Rightarrow>
      case and_then (required_u64_header h ''upload-offset'') (\<lambda>offset.
             and_then (owned_upload en s client upload_id) (\<lambda>u. Inr (offset, u))) of
        Inl e \<Rightarrow> (Inl e, s)
      | Inr (offset, u) \<Rightarrow>
      case take_chunk en s now u offset body of
        (Inl e, s1) \<Rightarrow> (Inl e, s1)
      | (Inr new_offset, s1) \<Rightarrow>
          (Inr (204, tus_headers (se_config en) @ [(''upload-offset'', decimal (unat new_offset))]), s1))"

definition delete_resumable_upload ::
  "'s ServerEnv \<Rightarrow> 's Server \<Rightarrow> Headers \<Rightarrow> time \<Rightarrow> string \<Rightarrow> (ApiError + reply) \<times> 's Server" where
  "delete_resumable_upload en s0 h now upload_id =
     (case verify_tus_version h of
        Inl e \<Rightarrow> (Inl e, s0)
      | Inr _ \<Rightarrow>
      case request_client en s0 h now True (Some (public_solve_surface h)) of
        (Inl e, s) \<Rightarrow> (Inl e, s)
      | (Inr client, s) \<Rightarrow>
      case owned_upload en s client upload_id of
        Inl e \<Rightarrow> (Inl e, s)
      | Inr u \<Rightarrow>
      case terminate (se_ops en) (sv_store s) (cf_s3_prefix (se_config en)) u of
        (r, st) \<Rightarrow>
          (and_then (map_sum resumable_api_error id r) (\<lambda>_. Inr (204, tus_headers (se_config en))),
           s\<lparr>sv_store := st\<rparr>))"

text \<open>
  The job of a complete upload.  Finalizing an uncommitted one enqueues a solve, so a request with
  an API key is authenticated a second time, for submission.
\<close>

definition get_resumable_upload_result ::
  "'s ServerEnv \<Rightarrow> 's Server \<Rightarrow> Headers \<Rightarrow> time \<Rightarrow> string \<Rightarrow> (ApiError + JobRecord) \<times> 's Server" where
  "get_resumable_upload_result en s0 h now upload_id =
     (case request_client en s0 h now False (Some (public_solve_surface h)) of
        (Inl e, s) \<Rightarrow> (Inl e, s)
      | (Inr client, s) \<Rightarrow>
      case and_then (owned_upload en s client upload_id) (\<lambda>u.
             and_then (ensure (up_offset u = up_total_size u)
               (artifact_not_ready (''upload has received '' @ decimal (unat (up_offset u)) @ '' of ''
                                    @ decimal (unat (up_total_size u)) @ '' bytes''))) (\<lambda>_. Inr u)) of
        Inl e \<Rightarrow> (Inl e, s)
      | Inr u \<Rightarrow>
      case (if up_job_id u = None \<and> request_api_key h \<noteq> None
            then request_client en s h now True (Some (public_solve_surface h))
            else (Inr client, s)) of
        (Inl e, s1) \<Rightarrow> (Inl e, s1)
      | (Inr _, s1) \<Rightarrow>
      case finalize_resumable en s1 now u of
        (r, _, s2) \<Rightarrow> (r, s2))"

end
