(* ===== verification/Workers.thy ===== *)
theory Workers
  imports Submission
begin

text \<open>
  The workers that solve queued jobs: the endpoints they call and the embedded worker
  (\<open>src/api.rs\<close>), and the remote worker over HTTP or SQS (\<open>src/worker.rs\<close>).  The solver, the
  SQS client and the network are parameters; \<open>http_client\<close> is the client whose requests all arrive.
\<close>

section \<open>The endpoints of the workers\<close>

record WorkerCompletion =
  wk_lease_token :: string
  wk_solution :: "SolutionResponse option"
  wk_error :: "string option"

text \<open>\<open>None\<close> is the reply 204, No Content.  The lease token is the fresh identifier of a claim.\<close>

definition claim_response ::
  "'s ServerEnv \<Rightarrow> 's Server \<Rightarrow> time \<Rightarrow> string \<Rightarrow> JobId option \<Rightarrow> (ApiError + JobLease option) \<times> 's Server" where
  "claim_response en s now lease_token requested_job_id =
     (case claim (sv_jobs s) now lease_token requested_job_id (cf_lease_seconds (se_config en)) of
        (r, db) \<Rightarrow> (map_sum (\<lambda>_. internal_error) id r, s\<lparr>sv_jobs := db\<rparr>))"

definition worker_claim ::
  "'s ServerEnv \<Rightarrow> 's Server \<Rightarrow> Headers \<Rightarrow> time \<Rightarrow> string \<Rightarrow> JobId option
    \<Rightarrow> (ApiError + JobLease option) \<times> 's Server" where
  "worker_claim en s h now lease_token requested_job_id =
     (case authenticate_worker (se_config en) h of
        Inl e \<Rightarrow> (Inl e, s)
      | Inr _ \<Rightarrow> claim_response en s now lease_token requested_job_id)"

definition worker_input ::
  "'s ServerEnv \<Rightarrow> 's Server \<Rightarrow> Headers \<Rightarrow> time \<Rightarrow> JobId \<Rightarrow> ApiError + bytes" where
  "worker_input en s h now job_id =
     and_then (authenticate_worker (se_config en) h) (\<lambda>_.
     and_then (ok_or (unauthorized ''X-Seiza-Lease-Token is required'')
        (filter_option (\<lambda>t. t \<noteq> []) (header_text h ''x-seiza-lease-token''))) (\<lambda>lease_token.
     and_then (ok_or (lease_conflict ''job lease is no longer active'')
        (input_key (sv_jobs s) now job_id lease_token)) (\<lambda>object_key.
     map_sum (\<lambda>_. internal_error) id (os_get (se_ops en) (sv_store s) object_key))))"

definition worker_heartbeat ::
  "'s ServerEnv \<Rightarrow> 's Server \<Rightarrow> Headers \<Rightarrow> time \<Rightarrow> JobId \<Rightarrow> string \<Rightarrow> (ApiError + bool) \<times> 's Server" where
  "worker_heartbeat en s h now job_id lease_token =
     (case authenticate_worker (se_config en) h of
        Inl e \<Rightarrow> (Inl e, s)
      | Inr _ \<Rightarrow>
          (case heartbeat (sv_jobs s) now job_id lease_token (cf_lease_seconds (se_config en)) of
             (r, db) \<Rightarrow> (map_sum (\<lambda>_. internal_error) id r, s\<lparr>sv_jobs := db\<rparr>)))"

text \<open>The SIP tables of the solver crate are the parameters \<open>fwd\<close> and \<open>bwd\<close>; \<open>show_error\<close> renders errors.\<close>

record worker_libs =
  wl_fwd :: sip_terms
  wl_bwd :: sip_terms
  wl_show_wcs :: "wcs_error \<Rightarrow> string"
  wl_show_repo :: "repo_error \<Rightarrow> string"

definition worker_complete ::
  "'s ServerEnv \<Rightarrow> worker_libs \<Rightarrow> 's Server \<Rightarrow> Headers \<Rightarrow> time \<Rightarrow> JobId \<Rightarrow> WorkerCompletion
    \<Rightarrow> (ApiError + bool) \<times> 's Server" where
  "worker_complete en wl s h now job_id c =
     (case and_then (authenticate_worker (se_config en) h) (\<lambda>_.
             case wk_solution c of
               None \<Rightarrow> Inr ()
             | Some solution \<Rightarrow>
                 map_sum (\<lambda>e. bad_request (wl_show_wcs wl e)) id
                   (solution_validate (wl_fwd wl) (wl_bwd wl) solution)) of
        Inl e \<Rightarrow> (Inl e, s)
      | Inr _ \<Rightarrow>
          (case complete (sv_jobs s) now job_id (wk_lease_token c) (wk_solution c) (wk_error c) of
             (r, db) \<Rightarrow>
               (map_sum (\<lambda>e. bad_request (wl_show_repo wl e)) id r, s\<lparr>sv_jobs := db\<rparr>)))"

section \<open>The embedded worker\<close>

type_synonym solver = "bytes \<Rightarrow> string \<Rightarrow> SolveOptions \<Rightarrow> string + SolutionResponse"

definition completion_of :: "JobLease \<Rightarrow> string + SolutionResponse \<Rightarrow> WorkerCompletion" where
  "completion_of lease outcome =
     (case outcome of
        Inr solution \<Rightarrow>
          \<lparr>wk_lease_token = jl_lease_token lease, wk_solution = Some solution, wk_error = None\<rparr>
      | Inl e \<Rightarrow>
          \<lparr>wk_lease_token = jl_lease_token lease, wk_solution = None, wk_error = Some e\<rparr>)"

text \<open>
  The job's input is looked up and read at the time \<open>t0\<close> and the outcome is stored at the time \<open>t1\<close>.
  An object that cannot be read is a failed solve.
\<close>

definition run_embedded_job ::
  "'s ServerEnv \<Rightarrow> (store_error \<Rightarrow> string) \<Rightarrow> solver \<Rightarrow> 's Server \<Rightarrow> time \<Rightarrow> time \<Rightarrow> JobLease \<Rightarrow> 's Server" where
  "run_embedded_job en show_store engine s t0 t1 lease =
     (case input_key (sv_jobs s) t0 (jl_job_id lease) (jl_lease_token lease) of
        None \<Rightarrow> s
      | Some object_key \<Rightarrow>
          let outcome = and_then (map_sum show_store id (os_get (se_ops en) (sv_store s) object_key))
                          (\<lambda>data. engine data (jl_original_filename lease) (jl_options lease));
              c = completion_of lease outcome in
          s\<lparr>sv_jobs := snd (complete (sv_jobs s) t1 (jl_job_id lease) (wk_lease_token c)
                              (wk_solution c) (wk_error c))\<rparr>)"

text \<open>One pass of the embedded worker's loop; a claim that fails or finds nothing changes no job.\<close>

definition embedded_pass ::
  "'s ServerEnv \<Rightarrow> (store_error \<Rightarrow> string) \<Rightarrow> solver \<Rightarrow> 's Server \<Rightarrow> time \<Rightarrow> time \<Rightarrow> time \<Rightarrow> string \<Rightarrow> 's Server" where
  "embedded_pass en show_store engine s t t0 t1 lease_token =
     (case claim (sv_jobs s) t lease_token None (cf_lease_seconds (se_config en)) of
        (Inr (Some lease), db) \<Rightarrow> run_embedded_job en show_store engine (s\<lparr>sv_jobs := db\<rparr>) t0 t1 lease
      | (_, db) \<Rightarrow> s\<lparr>sv_jobs := db\<rparr>)"

section \<open>The remote worker's client\<close>

datatype worker_error =
    Unreachable
  | Refused ApiError
  | LeaseLost
  | DeliveryNotExtended
  | ReceiveFailed
  | NotAcknowledged

record 'w WorkerClient =
  wc_claim :: "'w \<Rightarrow> time \<Rightarrow> JobId option \<Rightarrow> (worker_error + JobLease option) \<times> 'w"
  wc_input :: "'w \<Rightarrow> time \<Rightarrow> JobLease \<Rightarrow> (worker_error + bytes) \<times> 'w"
  wc_heartbeat :: "'w \<Rightarrow> time \<Rightarrow> JobLease \<Rightarrow> (worker_error + bool) \<times> 'w"
  wc_complete :: "'w \<Rightarrow> time \<Rightarrow> JobLease \<Rightarrow> WorkerCompletion \<Rightarrow> (worker_error + bool) \<times> 'w"
  wc_job_is_terminal :: "'w \<Rightarrow> time \<Rightarrow> JobId \<Rightarrow> (worker_error + bool) \<times> 'w"

definition worker_headers :: "string \<Rightarrow> Headers" where
  "worker_headers token = [(''authorization'', Some (''Bearer '' @ token))]"

definition http_claim ::
  "'s ServerEnv \<Rightarrow> string \<Rightarrow> (time \<Rightarrow> string) \<Rightarrow> 's Server \<Rightarrow> time \<Rightarrow> JobId option
    \<Rightarrow> (worker_error + JobLease option) \<times> 's Server" where
  "http_claim en token fresh s now requested =
     apfst (map_sum Refused id) (worker_claim en s (worker_headers token) now (fresh now) requested)"

definition http_input ::
  "'s ServerEnv \<Rightarrow> string \<Rightarrow> 's Server \<Rightarrow> time \<Rightarrow> JobLease \<Rightarrow> (worker_error + bytes) \<times> 's Server" where
  "http_input en token s now lease =
     (map_sum Refused id
        (worker_input en s (worker_headers token @ [(''x-seiza-lease-token'', Some (jl_lease_token lease))])
           now (jl_job_id lease)), s)"

definition http_heartbeat ::
  "'s ServerEnv \<Rightarrow> string \<Rightarrow> 's Server \<Rightarrow> time \<Rightarrow> JobLease \<Rightarrow> (worker_error + bool) \<times> 's Server" where
  "http_heartbeat en token s now lease =
     apfst (map_sum Refused id)
       (worker_heartbeat en s (worker_headers token) now (jl_job_id lease) (jl_lease_token lease))"

definition http_complete ::
  "'s ServerEnv \<Rightarrow> worker_libs \<Rightarrow> string \<Rightarrow> 's Server \<Rightarrow> time \<Rightarrow> JobLease \<Rightarrow> WorkerCompletion
    \<Rightarrow> (worker_error + bool) \<times> 's Server" where
  "http_complete en wl token s now lease c =
     apfst (map_sum Refused id) (worker_complete en wl s (worker_headers token) now (jl_job_id lease) c)"

text \<open>The public view of the job; a job that is gone counts as terminal.\<close>

definition job_is_terminal ::
  "'s ServerEnv \<Rightarrow> 's Server \<Rightarrow> time \<Rightarrow> JobId \<Rightarrow> (worker_error + bool) \<times> 's Server" where
  "job_is_terminal en s now job_id =
     (case the_public_job en (sv_jobs s) (lib_uuid_str (se_libs en) job_id) of
        Inl e \<Rightarrow> if ae_status e = 404 then (Inr True, s) else (Inl (Refused e), s)
      | Inr job \<Rightarrow> (Inr (finished job), s))"

definition http_client ::
  "'s ServerEnv \<Rightarrow> worker_libs \<Rightarrow> string \<Rightarrow> (time \<Rightarrow> string) \<Rightarrow> 's Server WorkerClient" where
  "http_client en wl token fresh = \<lparr>
     wc_claim = http_claim en token fresh, wc_input = http_input en token,
     wc_heartbeat = http_heartbeat en token, wc_complete = http_complete en wl token,
     wc_job_is_terminal = job_is_terminal en\<rparr>"

section \<open>Processing a lease\<close>

text \<open>
  The solve runs while a timer ticks; \<open>ticks\<close> are the times of the ticks before the solve ends.
  A tick renews the lease and then the delivery, and its failure abandons the solve.
\<close>

fun heartbeats ::
  "'w WorkerClient \<Rightarrow> (time \<Rightarrow> 'w \<Rightarrow> (worker_error + unit) \<times> 'w) \<Rightarrow> JobLease \<Rightarrow> time list \<Rightarrow> 'w
    \<Rightarrow> (worker_error + unit) \<times> 'w" where
  "heartbeats cl renew lease [] w = (Inr (), w)"
| "heartbeats cl renew lease (t # ts) w =
     (case wc_heartbeat cl w t lease of
        (Inl e, w1) \<Rightarrow> (Inl e, w1)
      | (Inr False, w1) \<Rightarrow> (Inl LeaseLost, w1)
      | (Inr True, w1) \<Rightarrow>
          (case renew t w1 of
             (Inl e, w2) \<Rightarrow> (Inl e, w2)
           | (Inr _, w2) \<Rightarrow> heartbeats cl renew lease ts w2))"

definition process_lease ::
  "'w WorkerClient \<Rightarrow> solver \<Rightarrow> (time \<Rightarrow> 'w \<Rightarrow> (worker_error + unit) \<times> 'w) \<Rightarrow> 'w \<Rightarrow> time \<Rightarrow> time list
    \<Rightarrow> time \<Rightarrow> JobLease \<Rightarrow> (worker_error + bool) \<times> 'w" where
  "process_lease cl engine renew w t0 ticks t1 lease =
     (case wc_input cl w t0 lease of
        (Inl e, w1) \<Rightarrow> (Inl e, w1)
      | (Inr input, w1) \<Rightarrow>
      case heartbeats cl renew lease ticks w1 of
        (Inl e, w2) \<Rightarrow> (Inl e, w2)
      | (Inr _, w2) \<Rightarrow>
          wc_complete cl w2 t1 lease
            (completion_of lease (engine input (jl_original_filename lease) (jl_options lease))))"

definition noop_extend :: "time \<Rightarrow> 'w \<Rightarrow> (worker_error + unit) \<times> 'w" where
  "noop_extend t w = (Inr (), w)"

text \<open>One pass of the HTTP worker's loop; errors are logged and the next pass follows.\<close>

definition http_worker_pass ::
  "'w WorkerClient \<Rightarrow> solver \<Rightarrow> 'w \<Rightarrow> time \<Rightarrow> time \<Rightarrow> time list \<Rightarrow> time \<Rightarrow> 'w" where
  "http_worker_pass cl engine w t t0 ticks t1 =
     (case wc_claim cl w t None of
        (Inr (Some lease), w1) \<Rightarrow> snd (process_lease cl engine noop_extend w1 t0 ticks t1 lease)
      | (_, w1) \<Rightarrow> w1)"

section \<open>The schedule of two SQS queues\<close>

definition worker_heartbeat_seconds :: u64 where
  "worker_heartbeat_seconds = 60"

definition sqs_max_visibility_seconds :: u64 where
  "sqs_max_visibility_seconds = 43200"

definition sqs_long_poll_seconds :: int where
  "sqs_long_poll_seconds = 20"

definition sqs_priority_poll_seconds :: int where
  "sqs_priority_poll_seconds = 2"

definition saturating_add_u64 :: "u64 \<Rightarrow> u64 \<Rightarrow> u64" where
  "saturating_add_u64 a b = (if uint a + uint b < 2 ^ 64 then a + b else - 1)"

definition sqs_visibility_timeout :: "u64 \<Rightarrow> int" where
  "sqs_visibility_timeout lease_seconds =
     uint (min (max (saturating_add_u64 lease_seconds worker_heartbeat_seconds) 1) sqs_max_visibility_seconds)"

datatype SqsQueueClass = Priority | Normal

record SqsQueueSchedule =
  sq_priority_weight :: u64
  sq_cursor :: u64

definition new_schedule :: "u64 \<Rightarrow> SqsQueueSchedule" where
  "new_schedule priority_weight = \<lparr>sq_priority_weight = max priority_weight 1, sq_cursor = 0\<rparr>"

text \<open>
  The sum \<open>priority_weight + 1\<close> overflows for the largest weight only, which the configuration
  excludes; the remainder by zero would panic.
\<close>

definition next_class :: "SqsQueueSchedule \<Rightarrow> SqsQueueClass \<times> SqsQueueSchedule" where
  "next_class sq =
     (if sq_cursor sq < sq_priority_weight sq then Priority else Normal,
      sq\<lparr>sq_cursor := (sq_cursor sq + 1) mod (sq_priority_weight sq + 1)\<rparr>)"

record QueueMessage =
  qm_body :: "string option"
  qm_receipt_handle :: "string option"

text \<open>The SQS client: receiving one message, extending its visibility, and deleting it.\<close>

record 'q Sqs =
  sqs_receive :: "'q \<Rightarrow> string \<Rightarrow> int \<Rightarrow> int \<Rightarrow> (worker_error + QueueMessage option) \<times> 'q"
  sqs_extend :: "'q \<Rightarrow> string \<Rightarrow> string \<Rightarrow> int \<Rightarrow> (worker_error + unit) \<times> 'q"
  sqs_delete :: "'q \<Rightarrow> string \<Rightarrow> string \<Rightarrow> (worker_error + unit) \<times> 'q"

definition queue_of :: "string \<Rightarrow> string \<Rightarrow> SqsQueueClass \<Rightarrow> string" where
  "queue_of normal_url priority_url c = (case c of Priority \<Rightarrow> priority_url | Normal \<Rightarrow> normal_url)"

definition other_class :: "SqsQueueClass \<Rightarrow> SqsQueueClass" where
  "other_class c = (case c of Priority \<Rightarrow> Normal | Normal \<Rightarrow> Priority)"

definition receive_weighted_sqs_message ::
  "'q Sqs \<Rightarrow> string \<Rightarrow> string \<Rightarrow> int \<Rightarrow> SqsQueueSchedule \<Rightarrow> 'q
    \<Rightarrow> (worker_error + (SqsQueueClass \<times> QueueMessage) option) \<times> SqsQueueSchedule \<times> 'q" where
  "receive_weighted_sqs_message sqs normal_url priority_url visibility sq q =
     (let (preferred, sq1) = next_class sq; fallback = other_class preferred;
          receive = (\<lambda>q c. sqs_receive sqs q (queue_of normal_url priority_url c) visibility
                             sqs_priority_poll_seconds) in
      case receive q preferred of
        (Inr (Some m), q1) \<Rightarrow> (Inr (Some (preferred, m)), sq1, q1)
      | (first, q1) \<Rightarrow>
          (case receive q1 fallback of
             (Inr m, q2) \<Rightarrow> (Inr (map_option (\<lambda>m. (fallback, m)) m), sq1, q2)
           | (Inl e, q2) \<Rightarrow> (if isl first then Inl e else Inr None, sq1, q2)))"

section \<open>One pass of the SQS worker\<close>

text \<open>
  The state of the queue service and of the server the worker talks to; the timeline of a pass is
  the time of its claim, of the input, of the ticks and of the completion.
\<close>

definition receive_next ::
  "'q Sqs \<Rightarrow> string \<Rightarrow> string option \<Rightarrow> int \<Rightarrow> SqsQueueSchedule \<Rightarrow> 'q
    \<Rightarrow> (worker_error + (SqsQueueClass \<times> QueueMessage) option) \<times> SqsQueueSchedule \<times> 'q" where
  "receive_next sqs url priority_url visibility sq q =
     (case priority_url of
        Some p \<Rightarrow> receive_weighted_sqs_message sqs url p visibility sq q
      | None \<Rightarrow>
          (case sqs_receive sqs q url visibility sqs_long_poll_seconds of
             (r, q1) \<Rightarrow> (map_sum id (map_option (\<lambda>m. (Normal, m))) r, sq, q1)))"

definition over_queue :: "('w \<Rightarrow> (worker_error + 'a) \<times> 'w) \<Rightarrow> 'q \<times> 'w \<Rightarrow> (worker_error + 'a) \<times> 'q \<times> 'w" where
  "over_queue f qw = (case f (snd qw) of (r, w) \<Rightarrow> (r, fst qw, w))"

text \<open>The worker's client beside a queue that its requests leave alone.\<close>

definition beside_queue :: "'w WorkerClient \<Rightarrow> ('q \<times> 'w) WorkerClient" where
  "beside_queue cl = \<lparr>
     wc_claim = (\<lambda>qw t i. over_queue (\<lambda>w. wc_claim cl w t i) qw),
     wc_input = (\<lambda>qw t l. over_queue (\<lambda>w. wc_input cl w t l) qw),
     wc_heartbeat = (\<lambda>qw t l. over_queue (\<lambda>w. wc_heartbeat cl w t l) qw),
     wc_complete = (\<lambda>qw t l c. over_queue (\<lambda>w. wc_complete cl w t l c) qw),
     wc_job_is_terminal = (\<lambda>qw t i. over_queue (\<lambda>w. wc_job_is_terminal cl w t i) qw)\<rparr>"

definition sqs_heartbeat ::
  "'q Sqs \<Rightarrow> string \<Rightarrow> string \<Rightarrow> int \<Rightarrow> time \<Rightarrow> 'q \<times> 'w \<Rightarrow> (worker_error + unit) \<times> 'q \<times> 'w" where
  "sqs_heartbeat sqs url receipt visibility t qw =
     (case sqs_extend sqs (fst qw) url receipt visibility of (r, q) \<Rightarrow> (r, q, snd qw))"

definition delete_message ::
  "'q Sqs \<Rightarrow> string \<Rightarrow> string \<Rightarrow> 'q \<times> 'w \<Rightarrow> (worker_error + unit) \<times> 'q \<times> 'w" where
  "delete_message sqs url receipt qw =
     (case sqs_delete sqs (fst qw) url receipt of (r, q) \<Rightarrow> (r, q, snd qw))"

text \<open>Whether the delivery of a job is done with: completed by this worker, or terminal already.\<close>

definition handle_delivery ::
  "'w WorkerClient \<Rightarrow> solver \<Rightarrow> (time \<Rightarrow> 'w \<Rightarrow> (worker_error + unit) \<times> 'w) \<Rightarrow> 'w \<Rightarrow> time \<Rightarrow> time
    \<Rightarrow> time list \<Rightarrow> time \<Rightarrow> JobId \<Rightarrow> (worker_error + bool) \<times> 'w" where
  "handle_delivery cl engine renew w t t0 ticks t1 job_id =
     (case wc_claim cl w t (Some job_id) of
        (Inl e, w1) \<Rightarrow> (Inl e, w1)
      | (Inr (Some lease), w1) \<Rightarrow> process_lease cl engine renew w1 t0 ticks t1 lease
      | (Inr None, w1) \<Rightarrow> wc_job_is_terminal cl w1 t job_id)"

text \<open>\<open>Inl\<close> ends the worker; a pass that receives nothing, or an unusable message, goes on.\<close>

definition sqs_worker_pass ::
  "'q Sqs \<Rightarrow> api_libs \<Rightarrow> 'w WorkerClient \<Rightarrow> solver \<Rightarrow> string \<Rightarrow> string option \<Rightarrow> int \<Rightarrow> SqsQueueSchedule
    \<Rightarrow> 'q \<times> 'w \<Rightarrow> time \<Rightarrow> time \<Rightarrow> time list \<Rightarrow> time
    \<Rightarrow> (worker_error + unit) \<times> SqsQueueSchedule \<times> 'q \<times> 'w" where
  "sqs_worker_pass sqs lib cl engine url priority_url visibility sq qw t t0 ticks t1 =
     (case receive_next sqs url priority_url visibility sq (fst qw) of
        (Inl e, sq1, q1) \<Rightarrow> (Inl e, sq1, q1, snd qw)
      | (Inr None, sq1, q1) \<Rightarrow> (Inr (), sq1, q1, snd qw)
      | (Inr (Some (c, m)), sq1, q1) \<Rightarrow>
          let active = queue_of url (case priority_url of Some p \<Rightarrow> p | None \<Rightarrow> url) c; qw1 = (q1, snd qw) in
          (case (qm_body m, qm_receipt_handle m) of
             (Some body, Some receipt) \<Rightarrow>
               (case lib_uuid_parse lib body of
                  None \<Rightarrow> apsnd (Pair sq1) (delete_message sqs active receipt qw1)
                | Some job_id \<Rightarrow>
                    (case handle_delivery (beside_queue cl) engine (sqs_heartbeat sqs active receipt visibility)
                            qw1 t t0 ticks t1 job_id of
                       (Inl e, qw2) \<Rightarrow> (Inl e, sq1, qw2)
                     | (Inr True, qw2) \<Rightarrow> apsnd (Pair sq1) (delete_message sqs active receipt qw2)
                     | (Inr False, qw2) \<Rightarrow> (Inr (), sq1, qw2)))
           | _ \<Rightarrow> (Inr (), sq1, qw1)))"

section \<open>The arguments of a worker\<close>

datatype WorkerMode = Http | Sqs

record WorkerArgs =
  wa_server :: string
  wa_token :: string
  wa_mode :: WorkerMode

definition worker_usage :: string where
  "worker_usage = ''usage: seiza-server worker [--server http://api:8080] [--token TOKEN] [--mode http|sqs]''"

definition worker_mode_parse :: "string \<Rightarrow> string + WorkerMode" where
  "worker_mode_parse v =
     (if v = ''http'' then Inr Http else if v = ''sqs'' then Inr Sqs
      else Inl (''unknown worker mode `'' @ v @ ''`; use `http` or `sqs`''))"

fun worker_flags :: "WorkerArgs \<Rightarrow> string list \<Rightarrow> string + WorkerArgs" where
  "worker_flags wa [] = Inr wa"
| "worker_flags wa [flag] =
     (if flag = ''--server'' then Inl ''--server requires a URL''
      else if flag = ''--token'' then Inl ''--token requires a value''
      else if flag = ''--mode'' then Inl ''--mode requires `http` or `sqs`''
      else if flag = ''--help'' \<or> flag = ''-h'' then Inl worker_usage
      else Inl (''unknown worker option `'' @ flag @ ''`'' @ [CHR 0x0A] @ worker_usage))"
| "worker_flags wa (flag # v # rest) =
     (if flag = ''--server'' then worker_flags (wa\<lparr>wa_server := v\<rparr>) rest
      else if flag = ''--token'' then worker_flags (wa\<lparr>wa_token := v\<rparr>) rest
      else if flag = ''--mode''
      then and_then (worker_mode_parse v) (\<lambda>m. worker_flags (wa\<lparr>wa_mode := m\<rparr>) rest)
      else if flag = ''--help'' \<or> flag = ''-h'' then Inl worker_usage
      else Inl (''unknown worker option `'' @ flag @ ''`'' @ [CHR 0x0A] @ worker_usage))"

definition worker_args :: "environment \<Rightarrow> string list \<Rightarrow> string + WorkerArgs" where
  "worker_args env args =
     and_then (worker_flags
       \<lparr>wa_server = env_or env ''SEIZA_SERVER_URL'' ''http://127.0.0.1:8080'',
        wa_token = env_or env ''SEIZA_WORKER_TOKEN'' [],
        wa_mode = Http\<rparr> args) (\<lambda>wa.
     and_then (ensure (trim (wa_token wa) \<noteq> [])
       (''SEIZA_WORKER_TOKEN or --token is required'' @ [CHR 0x0A] @ worker_usage)) (\<lambda>_.
     Inr (wa\<lparr>wa_server := rev (dropWhile (\<lambda>c. c = CHR ''/'') (rev (wa_server wa)))\<rparr>)))"

end
