(* ===== verification/Astrometry.thy ===== *)
theory Astrometry
  imports Submission
begin

text \<open>
  The API compatible with Astrometry.net, and the multipart submissions it shares with the native
  API (\<open>src/api.rs\<close>).  JSON requests arrive parsed, or with the error of \<open>serde_json\<close>; the reader of
  image dimensions belongs to the \<open>image\<close> crate.  Replies are JSON values.
\<close>

section \<open>Multipart submissions\<close>

record MultipartField =
  mf_name :: "string option"
  mf_file_name :: "string option"
  mf_content_type :: "string option"
  mf_bytes :: "string + bytes"
  mf_text :: "string + string"

record MultipartForm =
  mp_file :: "UploadedFile option"
  mp_options :: "string option"
  mp_request_json :: "string option"

definition uploaded_file :: "u64 \<Rightarrow> MultipartField \<Rightarrow> ApiError + UploadedFile" where
  "uploaded_file max_upload_bytes field =
     and_then (map_sum bad_request id (mf_bytes field)) (\<lambda>data.
     and_then (ensure (length data \<le> unat max_upload_bytes) payload_too_large) (\<lambda>_.
     Inr \<lparr>uf_filename = safe_filename (case mf_file_name field of Some n \<Rightarrow> n | None \<Rightarrow> ''upload''),
          uf_content_type = mf_content_type field, uf_data = data\<rparr>))"

definition read_field :: "u64 \<Rightarrow> MultipartForm \<Rightarrow> MultipartField \<Rightarrow> ApiError + MultipartForm" where
  "read_field max_upload_bytes form field =
     (let name = (case mf_name field of Some n \<Rightarrow> n | None \<Rightarrow> []) in
      if name = ''file'' then
        and_then (ensure (mp_file form = None) (bad_request ''submit exactly one file'')) (\<lambda>_.
        and_then (uploaded_file max_upload_bytes field) (\<lambda>f. Inr (form\<lparr>mp_file := Some f\<rparr>)))
      else if name = ''options'' then
        and_then (map_sum bad_request id (mf_text field)) (\<lambda>t. Inr (form\<lparr>mp_options := Some t\<rparr>))
      else if name = ''request-json'' then
        and_then (map_sum bad_request id (mf_text field)) (\<lambda>t. Inr (form\<lparr>mp_request_json := Some t\<rparr>))
      else Inr form)"

text \<open>The fields arrive one by one; \<open>Inl\<close> is a malformed body.\<close>

fun read_fields :: "u64 \<Rightarrow> MultipartForm \<Rightarrow> (string + MultipartField) list \<Rightarrow> ApiError + MultipartForm" where
  "read_fields max_upload_bytes form [] = Inr form"
| "read_fields max_upload_bytes form (Inl e # parts) = Inl (bad_request e)"
| "read_fields max_upload_bytes form (Inr field # parts) =
     and_then (read_field max_upload_bytes form field) (\<lambda>form'. read_fields max_upload_bytes form' parts)"

definition read_multipart ::
  "(string + MultipartField) list \<Rightarrow> u64 \<Rightarrow> ApiError + UploadedFile \<times> string option \<times> string option" where
  "read_multipart parts max_upload_bytes =
     and_then (read_fields max_upload_bytes
        \<lparr>mp_file = None, mp_options = None, mp_request_json = None\<rparr> parts) (\<lambda>form.
     and_then (ok_or (bad_request ''missing file field'') (mp_file form)) (\<lambda>f.
     Inr (f, mp_options form, mp_request_json form)))"

text \<open>The native submission; its reply renders the job.\<close>

definition post_solve ::
  "'s ServerEnv \<Rightarrow> (string \<Rightarrow> string + SolveOptions) \<Rightarrow> 's Server \<Rightarrow> Headers \<Rightarrow> time \<Rightarrow> time \<Rightarrow> uuid \<Rightarrow> uuid
    \<Rightarrow> (string + MultipartField) list \<Rightarrow> (ApiError + JobRecord) \<times> 's Server" where
  "post_solve en parse_options s0 h instant now job_id storage_token parts =
     (case request_client en s0 h now True (Some (public_solve_surface h)) of
        (Inl e, s) \<Rightarrow> (Inl e, s)
      | (Inr client, s) \<Rightarrow>
      case and_then (read_multipart parts (cf_max_upload_bytes (se_config en))) (\<lambda>(upload, raw, _).
             and_then (case raw of
                         None \<Rightarrow> Inr default_options
                       | Some t \<Rightarrow> map_sum (\<lambda>e. bad_request (''invalid options JSON: '' @ e)) id (parse_options t))
               (\<lambda>options. Inr (upload, options))) of
        Inl e \<Rightarrow> (Inl e, s)
      | Inr (upload, options) \<Rightarrow> submit_job en s instant now job_id storage_token client upload options)"

section \<open>Options of an Astrometry request\<close>

record AstroUploadRequest =
  ar_session :: "string option"
  ar_center_ra :: "f64 option"
  ar_center_dec :: "f64 option"
  ar_radius :: "f64 option"
  ar_scale_units :: "string option"
  ar_scale_type :: "string option"
  ar_scale_lower :: "f64 option"
  ar_scale_upper :: "f64 option"
  ar_scale_est :: "f64 option"
  ar_scale_err :: "f64 option"
  ar_downsample_factor :: "f64 option"

definition f64_clamp :: "f64 \<Rightarrow> f64 \<Rightarrow> f64 \<Rightarrow> f64" where
  "f64_clamp lo hi v = (if f64_lt v lo then lo else if f64_lt hi v then hi else v)"

definition f64_sub :: "f64 \<Rightarrow> f64 \<Rightarrow> f64" where
  "f64_sub a b = f64_add a (f64_neg b)"

definition unwrap_or :: "'a \<Rightarrow> 'a option \<Rightarrow> 'a" where
  "unwrap_or d o1 = (case o1 of Some x \<Rightarrow> x | None \<Rightarrow> d)"

definition scale_range :: "AstroUploadRequest \<Rightarrow> ApiError + (f64 \<times> f64) option" where
  "scale_range r =
     (let kind = unwrap_or ''ul'' (ar_scale_type r) in
      if kind = ''ul'' then
        Inr (case (ar_scale_lower r, ar_scale_upper r) of (Some l, Some u) \<Rightarrow> Some (l, u) | _ \<Rightarrow> None)
      else if kind = ''ev'' then
        Inr (map_option (\<lambda>estimate.
               let margin = f64_div (f64_clamp (Fin 0) (Fin 99) (unwrap_or (Fin 20) (ar_scale_err r))) (Fin 100) in
               (f64_mul estimate (f64_sub (Fin 1) margin), f64_mul estimate (f64_add (Fin 1) margin)))
             (ar_scale_est r))
      else Inl (bad_request (''unsupported scale_type `'' @ kind @ ''`'')))"

text \<open>A scale in arc seconds per pixel, from a width in degrees or arc minutes where that is the unit.\<close>

definition convert_scale :: "AstroUploadRequest \<Rightarrow> u32 \<Rightarrow> f64 \<Rightarrow> ApiError + f64" where
  "convert_scale r width v =
     (let unit = unwrap_or ''degwidth'' (ar_scale_units r) in
      if unit = ''arcsecperpix'' then Inr v
      else if unit = ''degwidth'' then Inr (f64_div (f64_mul v (Fin 3600)) (Fin (of_nat (unat width))))
      else if unit = ''arcminwidth'' then Inr (f64_div (f64_mul v (Fin 60)) (Fin (of_nat (unat width))))
      else Inl (bad_request (''unsupported scale_units `'' @ unit @ ''`'')))"

definition with_center :: "AstroUploadRequest \<Rightarrow> f64 \<Rightarrow> f64 \<Rightarrow> SolveOptions \<Rightarrow> SolveOptions" where
  "with_center r lower upper o1 =
     (case (ar_center_ra r, ar_center_dec r) of
        (Some ra, Some dec) \<Rightarrow>
          if f64_lt (unwrap_or (Fin 180) (ar_radius r)) (Fin 180)
          then o1\<lparr>so_center_ra_deg := Some ra, so_center_dec_deg := Some dec,
                  so_radius_deg := ar_radius r,
                  so_scale_arcsec_per_pixel := Some (f64_div (f64_add lower upper) (Fin 2)),
                  so_scale_tolerance := f64_clamp (Fin (1 / 100)) (Fin 1)
                    (f64_div (f64_sub upper lower) (f64_add upper lower))\<rparr>
          else o1
      | _ \<Rightarrow> o1)"

definition into_options :: "AstroUploadRequest \<Rightarrow> u32 \<times> u32 \<Rightarrow> ApiError + SolveOptions" where
  "into_options r dimensions =
     and_then (ensure (\<not> is_some_and (\<lambda>d. f64_lt (Fin 1) d) (ar_downsample_factor r))
        (bad_request ''downsample_factor is not supported yet; resize before upload'')) (\<lambda>_.
     and_then (scale_range r) (\<lambda>range.
     and_then (case range of
                 None \<Rightarrow> Inr default_options
               | Some (l, u) \<Rightarrow>
                   and_then (convert_scale r (fst dimensions) l) (\<lambda>lower.
                   and_then (convert_scale r (fst dimensions) u) (\<lambda>upper.
                   and_then (ensure (\<not> (f64_le lower (Fin 0) \<or> f64_lt upper lower))
                      (bad_request ''invalid Astrometry scale range'')) (\<lambda>_.
                   Inr (with_center r lower upper
                          (default_options\<lparr>so_min_scale_arcsec_per_pixel := Some lower,
                                           so_max_scale_arcsec_per_pixel := Some upper\<rparr>))))))
       (\<lambda>options.
     and_then (map_sum bad_request id (validate_options options)) (\<lambda>_. Inr options))))"

section \<open>JSON replies\<close>

datatype json =
    JNull
  | JBool bool
  | JInt int
  | JFloat f64
  | JText string
  | JTime time
  | JList "json list"
  | JObject "(string \<times> json) list"

definition j_time :: "time option \<Rightarrow> json" where
  "j_time o1 = (case o1 of Some v \<Rightarrow> JTime v | None \<Rightarrow> JNull)"

definition astro_status :: "JobStatus \<Rightarrow> string" where
  "astro_status status =
     (case status of Queued \<Rightarrow> ''solving'' | Solving \<Rightarrow> ''solving'' | Succeeded \<Rightarrow> ''success'' | Failed \<Rightarrow> ''failure'')"

text \<open>\<open>atan2\<close>, the conversion to degrees and \<open>hypot\<close> of the standard library are irrational.\<close>

record math_libs =
  ml_atan2_degrees :: "f64 \<Rightarrow> f64 \<Rightarrow> f64"
  ml_hypot :: "f64 \<Rightarrow> f64 \<Rightarrow> f64"

definition calibration_json :: "math_libs \<Rightarrow> SolutionResponse \<Rightarrow> json" where
  "calibration_json ml solution =
     (case wr_cd (sol_wcs solution) of ((cd11, cd12), (cd21, cd22)) \<Rightarrow>
      let determinant = f64_sub (f64_mul cd11 cd22) (f64_mul cd12 cd21);
          radius = f64_div (f64_mul (f64_div (ml_hypot ml (Fin (of_nat (unat (sol_image_width solution))))
                                                      (Fin (of_nat (unat (sol_image_height solution)))))
                                       (Fin 2))
                              (sol_pixel_scale_arcsec_per_pixel solution))
                     (Fin 3600) in
      JObject [(''status'', JText ''success''),
               (''parity'', JFloat (if f64_lt determinant (Fin 0) then Fin 1 else Fin 0)),
               (''orientation'', JFloat (ml_atan2_degrees ml (f64_neg cd12) cd22)),
               (''pixscale'', JFloat (sol_pixel_scale_arcsec_per_pixel solution)),
               (''radius'', JFloat radius),
               (''ra'', JFloat (sol_center_ra_deg solution)),
               (''dec'', JFloat (sol_center_dec_deg solution))])"

definition astrometry_job :: "JobDb \<Rightarrow> AstrometryId \<Rightarrow> ApiError + JobRecord" where
  "astrometry_job db astrometry_id =
     and_then (map_sum (\<lambda>_. internal_error) id (get_by_astrometry_id db astrometry_id)) (ok_or not_found)"

definition submission_json :: "JobRecord \<Rightarrow> json" where
  "submission_json job =
     (let i = JInt (uint (j_astrometry_id job)) in
      JObject [(''processing_started'', j_time (j_started_at job)),
               (''processing_finished'', j_time (j_completed_at job)),
               (''jobs'', JList [i]),
               (''job_calibrations'', JList (if j_status job = Succeeded then [JList [i, i]] else [])),
               (''user_images'', JList [i])])"

definition astrometry_submission :: "'s Server \<Rightarrow> AstrometryId \<Rightarrow> ApiError + json" where
  "astrometry_submission s i = map_sum id submission_json (astrometry_job (sv_jobs s) i)"

definition status_json :: "JobRecord \<Rightarrow> json" where
  "status_json job = JObject [(''status'', JText (astro_status (j_status job)))]"

definition astrometry_job_status :: "'s Server \<Rightarrow> AstrometryId \<Rightarrow> ApiError + json" where
  "astrometry_job_status s i = map_sum id status_json (astrometry_job (sv_jobs s) i)"

definition astrometry_calibration :: "math_libs \<Rightarrow> 's Server \<Rightarrow> AstrometryId \<Rightarrow> ApiError + json" where
  "astrometry_calibration ml s i =
     map_sum id (\<lambda>job. case j_solution job of Some solution \<Rightarrow> calibration_json ml solution | None \<Rightarrow> status_json job)
       (astrometry_job (sv_jobs s) i)"

text \<open>The annotation engine is a parameter: the objects it finds in a solved field.\<close>

definition object_label :: "OverlayObject \<Rightarrow> string" where
  "object_label ob = (if trim (oo_common_name ob) = [] then oo_name ob
                      else oo_common_name ob @ '' ('' @ oo_name ob @ '')'')"

definition info_json :: "(JobRecord \<Rightarrow> SolutionResponse \<Rightarrow> OverlayObject list) \<Rightarrow> math_libs \<Rightarrow> JobRecord \<Rightarrow> json" where
  "info_json annotate ml job =
     (let objects = (case j_solution job of
                       Some solution \<Rightarrow>
                         map (\<lambda>ob. JText (object_label ob))
                           (filter (\<lambda>ob. oo_kind ob \<noteq> ''field-star'') (annotate job solution))
                     | None \<Rightarrow> []) in
      JObject ([(''status'', JText (astro_status (j_status job))),
                (''original_filename'', JText (j_original_filename job)),
                (''machine_tags'', JList []), (''tags'', JList []),
                (''objects_in_field'', JList objects)]
               @ (case j_solution job of
                    Some solution \<Rightarrow> [(''calibration'', calibration_json ml solution)]
                  | None \<Rightarrow> [])))"

definition astrometry_info ::
  "(JobRecord \<Rightarrow> SolutionResponse \<Rightarrow> OverlayObject list) \<Rightarrow> math_libs \<Rightarrow> 's Server \<Rightarrow> AstrometryId \<Rightarrow> ApiError + json" where
  "astrometry_info annotate ml s i = map_sum id (info_json annotate ml) (astrometry_job (sv_jobs s) i)"

section \<open>Signing in and submitting\<close>

definition session_reply :: "string \<Rightarrow> string \<Rightarrow> json" where
  "session_reply message token =
     JObject [(''status'', JText ''success''), (''message'', JText message), (''session'', JText token)]"

text \<open>\<open>apikey\<close> is the field of the parsed request; the secret and the identifiers are fresh.\<close>

definition astrometry_login ::
  "'s ServerEnv \<Rightarrow> 's Server \<Rightarrow> string + string option \<Rightarrow> time \<Rightarrow> time \<Rightarrow> bytes option \<Rightarrow> SessionId
    \<Rightarrow> uuid \<Rightarrow> (ApiError + json) \<times> 's Server" where
  "astrometry_login en s request now0 now secret session_id public_id =
     (let cf = se_config en; lib = se_libs en in
      case request of
        Inl e \<Rightarrow> (Inl (bad_request (''invalid request-json: '' @ e)), s)
      | Inr apikey \<Rightarrow>
      if cf_auth_mode cf = Accounts then
        (case filter_option (\<lambda>k. k \<noteq> []) apikey of
           Some key \<Rightarrow>
             (case auth_service (se_api en) of
                Inl e \<Rightarrow> (Inl e, s)
              | Inr (cfg, _) \<Rightarrow>
                  (case create_astrometry_session cfg (sv_identity s) key now0 now secret session_id of
                     (Inl e, db) \<Rightarrow> (Inl (auth_api_error e), s\<lparr>sv_identity := db\<rparr>)
                   | (Inr issued, db) \<Rightarrow>
                       (Inr (session_reply ''authenticated by Seiza account API key'' (ca_token issued)),
                        s\<lparr>sv_identity := db\<rparr>)))
         | None \<Rightarrow>
             (and_then (ensure_public_solve_allowed cf Api) (\<lambda>_.
                Inr (session_reply ''public Seiza session'' (new_public_astrometry_session lib public_id))), s))
      else
        (and_then (ensure (\<not> (cf_auth_mode cf = StubApiKey \<and> is_none_or (\<lambda>k. k = []) apikey))
            (unauthorized ''an API key is required while SEIZA_AUTH_MODE=stub-api-key'')) (\<lambda>_.
         and_then (if cf_auth_mode cf = Public then ensure_public_solve_allowed cf Api else Inr ()) (\<lambda>_.
         Inr (session_reply ''authenticated by Seiza server (public/stub mode)''
                (''seiza-'' @ lib_uuid_str lib public_id)))), s))"

definition upload_reply :: "JobRecord \<Rightarrow> json" where
  "upload_reply job =
     JObject [(''status'', JText ''success''), (''subid'', JInt (uint (j_astrometry_id job))),
              (''hash'', JText (''seiza-job-'' @ decimal (unat (j_astrometry_id job))))]"

definition astrometry_upload ::
  "'s ServerEnv \<Rightarrow> (string \<Rightarrow> string + AstroUploadRequest) \<Rightarrow> (bytes \<Rightarrow> string \<Rightarrow> string + u32 \<times> u32)
    \<Rightarrow> 's Server \<Rightarrow> Headers \<Rightarrow> time \<Rightarrow> time \<Rightarrow> uuid \<Rightarrow> uuid \<Rightarrow> (string + MultipartField) list
    \<Rightarrow> (ApiError + json) \<times> 's Server" where
  "astrometry_upload en parse_request dimensions_of s0 h instant now job_id storage_token parts =
     (case and_then (read_multipart parts (cf_max_upload_bytes (se_config en))) (\<lambda>(upload, _, raw).
             and_then (ok_or (bad_request ''missing request-json field'') raw) (\<lambda>t.
             and_then (map_sum (\<lambda>e. bad_request (''invalid request-json: '' @ e)) id (parse_request t)) (\<lambda>request.
             Inr (upload, request)))) of
        Inl e \<Rightarrow> (Inl e, s0)
      | Inr (upload, request) \<Rightarrow>
      case client_from_headers (se_api en) (sv_identity s0) h now (ar_session request) True (Some Api) of
        (Inl e, db) \<Rightarrow> (Inl e, s0\<lparr>sv_identity := db\<rparr>)
      | (Inr client, db) \<Rightarrow>
      let s = s0\<lparr>sv_identity := db\<rparr> in
      case and_then (map_sum bad_request id (dimensions_of (uf_data upload) (uf_filename upload)))
             (into_options request) of
        Inl e \<Rightarrow> (Inl e, s)
      | Inr options \<Rightarrow>
          apfst (map_sum id upload_reply)
            (submit_job en s instant now job_id storage_token client upload options))"

end
