(* ===== verification/Service_Names.thy ===== *)
theory Service_Names
  imports Api_Base
begin

text \<open>
  What the names built by the HTTP layer guarantee: an object key names its job, also when the
  image has been copied for validation, and a stored file name is a single safe component.
\<close>

section \<open>UUID text\<close>

text \<open>What the code relies on of the text of a UUID: it parses back, and has no slash.\<close>

definition uuid_text :: "api_libs \<Rightarrow> bool" where
  "uuid_text lib = (\<forall>i. lib_uuid_parse lib (lib_uuid_str lib i) = Some i \<and> CHR ''/'' \<notin> set (lib_uuid_str lib i))"

lemma uuid_textD:
  "uuid_text lib \<Longrightarrow> lib_uuid_parse lib (lib_uuid_str lib i) = Some i"
  "uuid_text lib \<Longrightarrow> CHR ''/'' \<notin> set (lib_uuid_str lib i)"
  by (simp_all add: uuid_text_def)

section \<open>Object keys\<close>

lemma split_on_last: "CHR ''/'' \<notin> set b \<Longrightarrow> split_on (CHR ''/'') (a @ ''/'' @ b) = split_on (CHR ''/'') a @ [b]"
  using split_on_append [of "CHR ''/''" a b] by (simp add: split_on_none)

lemma split_on_tagged:
  assumes "CHR ''/'' \<notin> set tag" "CHR ''/'' \<notin> set b"
    "key = tag @ ''/'' @ b \<or> key = pre @ ''/'' @ tag @ ''/'' @ b"
  shows "\<exists>ps. split_on (CHR ''/'') key = (ps @ [tag]) @ [b]"
  using assms(3)
proof
  assume "key = tag @ ''/'' @ b"
  then have "split_on (CHR ''/'') key = ([] @ [tag]) @ [b]"
    using split_on_last [OF assms(2), of tag] split_on_none [OF assms(1)] by simp
  then show ?thesis by blast
next
  assume "key = pre @ ''/'' @ tag @ ''/'' @ b"
  then have "key = (pre @ ''/'' @ tag) @ ''/'' @ b" by simp
  then have "split_on (CHR ''/'') key = (split_on (CHR ''/'') pre @ [tag]) @ [b]"
    using split_on_last [OF assms(2), of "pre @ ''/'' @ tag"] split_on_last [OF assms(1), of pre] by simp
  then show ?thesis by blast
qed

text \<open>The directory of a job, below any prefix, decides which job a key names.\<close>

lemma tagged_key_names_job:
  assumes "uuid_text lib" "CHR ''/'' \<notin> set b"
    "key = (''public-'' @ lib_uuid_str lib i) @ ''/'' @ b
     \<or> key = pre @ ''/'' @ (''public-'' @ lib_uuid_str lib i) @ ''/'' @ b"
  shows "job_id_from_object_key lib key = Some i"
proof -
  have slash: "CHR ''/'' \<notin> set (''public-'' @ lib_uuid_str lib i)"
    using assms(1) by (auto dest: uuid_textD(2))
  from split_on_tagged [OF slash assms(2,3)] obtain ps where
    ps: "split_on (CHR ''/'') key = (ps @ [''public-'' @ lib_uuid_str lib i]) @ [b]" by blast
  from uuid_textD(1) [OF assms(1), of i] strip_prefix_append [of "''public-''" "lib_uuid_str lib i"]
  show ?thesis by (simp add: job_id_from_object_key_def ps)
qed

lemma safe_extension_plain: "CHR ''/'' \<notin> set (safe_extension f)"
  by (simp add: safe_extension_def Let_def)

lemma last_part_plain: "CHR ''/'' \<notin> set (last_part (CHR ''/'') s)"
  using split_on_parts [of "last (split_on (CHR ''/'') s)" "CHR ''/''" s] by (simp add: last_part_def)

lemma new_object_key_shape:
  "new_object_key lib cf i token filename = (''public-'' @ lib_uuid_str lib i) @ ''/'' @ lib_uuid_str lib token @ ''.'' @ safe_extension filename
   \<or> new_object_key lib cf i token filename = trim_matches (CHR ''/'') (cf_s3_prefix cf) @ ''/'' @ (''public-'' @ lib_uuid_str lib i)
        @ ''/'' @ lib_uuid_str lib token @ ''.'' @ safe_extension filename"
  by (simp add: new_object_key_def Let_def)

lemma new_object_key_names_job:
  assumes "uuid_text lib"
  shows "job_id_from_object_key lib (new_object_key lib cf i token filename) = Some i"
proof -
  have "CHR ''/'' \<notin> set (lib_uuid_str lib token @ ''.'' @ safe_extension filename)"
    using uuid_textD(2) [OF assms] safe_extension_plain by simp
  from tagged_key_names_job [OF assms this new_object_key_shape] show ?thesis .
qed

text \<open>
  An object key names its job.  The key of a new image and the key of its copy for validation
  carry the job's identifier, under any configured prefix and for any file name, so a repeated
  submission finds the job of its image without a record beside it.
\<close>

theorem object_key_names_job:
  assumes "uuid_text lib"
  shows "job_id_from_object_key lib (new_object_key lib cf job_id storage_token filename) = Some job_id
         \<and> job_id_from_object_key lib (validation_object_key lib cf job) = Some (j_id job)"
proof
  show "job_id_from_object_key lib (new_object_key lib cf job_id storage_token filename) = Some job_id"
    using assms by (rule new_object_key_names_job)
  show "job_id_from_object_key lib (validation_object_key lib cf job) = Some (j_id job)"
    by (rule tagged_key_names_job [OF assms last_part_plain [of "j_object_key job"],
          where pre = "cf_validation_prefix cf"])
      (simp add: validation_object_key_def)
qed

text \<open>A concrete text: the decimal digits of the identifier.\<close>

definition sample_libs :: api_libs where
  "sample_libs = \<lparr>lib_uuid_str = \<lambda>i. decimal (unat i),
     lib_uuid_parse = \<lambda>s. if s \<noteq> [] \<and> list_all is_digit s then Some (of_nat (decimal_value s)) else None,
     lib_ip_parse = \<lambda>_. None, lib_ip_str = \<lambda>_. ''ip'', lib_hash = \<lambda>_. 0, lib_cookies = \<lambda>_. []\<rparr>"

lemma is_digit_decimal: "c \<in> set (decimal n) \<Longrightarrow> is_digit c"
  by (drule decimal_digits) (auto simp: is_digit_def digit_def)

lemma sample_libs_uuid_text: "uuid_text sample_libs"
proof -
  have "CHR ''/'' \<notin> set (decimal n)" for n
    using is_digit_decimal [of "CHR ''/''" n] by (auto simp: is_digit_def)
  then show ?thesis
    by (auto simp: uuid_text_def sample_libs_def list_all_iff is_digit_decimal)
qed

theorem object_key_names_job_witness:
  "job_id_from_object_key sample_libs (new_object_key sample_libs default_config 7 9 ''m31.FITS'') = Some 7"
  using object_key_names_job [OF sample_libs_uuid_text] by blast

section \<open>File names\<close>

definition plain_char :: "char \<Rightarrow> bool" where
  "plain_char c = (is_ascii_alphanumeric c \<or> c = CHR ''.'' \<or> c = CHR ''_'' \<or> c = CHR ''-'')"

lemma trim_matches_set: "set (trim_matches c s) \<subseteq> set s"
  unfolding trim_matches_def by (metis set_dropWhileD set_rev subsetI)

lemma trim_matches_length: "length (trim_matches c s) \<le> length s"
  using length_dropWhile_le [of "(=) c" "rev (dropWhile ((=) c) s)"] length_dropWhile_le [of "(=) c" s]
  by (simp add: trim_matches_def)

lemma hd_trim: "dropWhile ((=) c) s \<noteq> [] \<Longrightarrow> hd (dropWhile ((=) c) s) \<noteq> c"
  by (induction s) auto

lemma trim_matches_ends:
  assumes "trim_matches c s \<noteq> []"
  shows "hd (trim_matches c s) \<noteq> c" "last (trim_matches c s) \<noteq> c"
proof -
  let ?t = "dropWhile ((=) c) s" and ?u = "dropWhile ((=) c) (rev (dropWhile ((=) c) s))"
  have u: "?u \<noteq> []" using assms by (simp add: trim_matches_def)
  show "last (trim_matches c s) \<noteq> c" using hd_trim [OF u] u by (simp add: trim_matches_def last_rev)
  have t: "?t \<noteq> []"
  proof
    assume "?t = []"
    then have "?u = []" by (simp only: rev.simps dropWhile.simps)
    with u show False by contradiction
  qed
  have "last ?u = last (rev ?t)"
    using u by (metis last_append takeWhile_dropWhile_id)
  with u t show "hd (trim_matches c s) \<noteq> c" using hd_trim [OF t]
    by (simp add: trim_matches_def hd_rev last_rev)
qed

lemma trim_matches_id: "s = [] \<or> (hd s \<noteq> c \<and> last s \<noteq> c) \<Longrightarrow> trim_matches c s = s"
proof (cases s rule: rev_cases)
  case (snoc ys y)
  assume "s = [] \<or> (hd s \<noteq> c \<and> last s \<noteq> c)"
  with snoc have "hd s \<noteq> c" "y \<noteq> c" "s \<noteq> []" by auto
  then have "dropWhile ((=) c) s = s" by (cases s) auto
  with snoc \<open>y \<noteq> c\<close> show ?thesis by (simp add: trim_matches_def)
qed (simp add: trim_matches_def)

definition safe_name :: "string \<Rightarrow> bool" where
  "safe_name s = (s \<noteq> [] \<and> length s \<le> 160 \<and> list_all plain_char s \<and> hd s \<noteq> CHR ''.'' \<and> last s \<noteq> CHR ''.'')"

lemma plain_char_no_slash: "plain_char c \<Longrightarrow> c \<noteq> CHR ''/'' \<and> c \<noteq> CHR 0x5C"
  by (auto simp: plain_char_def is_ascii_alphanumeric_def)

definition kept_name :: "string \<Rightarrow> string" where
  "kept_name f = trim_matches (CHR ''.'') (take 160 (filter plain_char
     (rev (takeWhile (\<lambda>c. c \<noteq> CHR ''/'' \<and> c \<noteq> CHR 0x5C) (rev f)))))"

lemma safe_filename_kept: "safe_filename f = (if kept_name f = [] then ''upload'' else kept_name f)"
proof -
  have "plain_char = (\<lambda>c. is_ascii_alphanumeric c \<or> c = CHR ''.'' \<or> c = CHR ''_'' \<or> c = CHR ''-'')"
    by (simp add: fun_eq_iff plain_char_def)
  then show ?thesis by (simp add: safe_filename_def kept_name_def Let_def)
qed

lemma safe_filename_safe: "safe_name (safe_filename f)"
proof -
  let ?t = "take 160 (filter plain_char (rev (takeWhile (\<lambda>c. c \<noteq> CHR ''/'' \<and> c \<noteq> CHR 0x5C) (rev f))))"
  have "list_all plain_char (kept_name f)"
    using trim_matches_set [of "CHR ''.''" ?t] by (auto simp: kept_name_def list_all_iff dest!: in_set_takeD)
  moreover have "length (kept_name f) \<le> 160"
    using trim_matches_length [of "CHR ''.''" ?t] by (simp add: kept_name_def)
  moreover have "safe_name ''upload''" by (simp add: safe_name_def plain_char_def is_ascii_alphanumeric_def)
  ultimately show ?thesis
    using trim_matches_ends [of "CHR ''.''" ?t] by (auto simp: safe_filename_kept safe_name_def kept_name_def [symmetric])
qed

lemma safe_filename_id:
  assumes "safe_name s"
  shows "safe_filename s = s"
proof -
  have chars: "plain_char c" if "c \<in> set s" for c using assms that by (auto simp: safe_name_def list_all_iff)
  have tw: "takeWhile (\<lambda>c. c \<noteq> CHR ''/'' \<and> c \<noteq> CHR 0x5C) (rev s) = rev s"
    using chars plain_char_no_slash by (simp add: takeWhile_eq_all_conv)
  have "filter plain_char s = s" using chars by (simp add: filter_id_conv)
  moreover have "trim_matches (CHR ''.'') s = s"
    using assms by (intro trim_matches_id) (simp add: safe_name_def)
  ultimately have "kept_name s = s" using assms by (simp add: kept_name_def tw safe_name_def)
  then show ?thesis using assms by (simp add: safe_filename_kept safe_name_def)
qed

text \<open>
  A stored file name is safe and settled: whatever the client sends, it is one to 160 letters,
  digits, dots, dashes and underscores, neither starts nor ends with a dot, and cleaning it again
  changes nothing; exactly such names are kept as they are.
\<close>

theorem safe_filename_is_safe:
  "safe_name (safe_filename f) \<and> safe_filename (safe_filename f) = safe_filename f
   \<and> (safe_filename f = f \<longleftrightarrow> safe_name f)"
  using safe_filename_safe safe_filename_id by metis

end
