(* ===== verification/Client_Properties.thy ===== *)
theory Client_Properties
  imports Service_Names Auth_Properties
begin

text \<open>
  Who a request acts for.  In account mode the identity of a client is backed by a live credential
  of an active account, a browser's request that changes state is backed by its origin and its
  CSRF token as well, and everything else is anonymous.
\<close>

section \<open>Credentials\<close>

text \<open>The token is one of a live session of the kind, of the active account \<open>i\<close>.\<close>

definition session_of :: "AuthConfig \<Rightarrow> IdentityDb \<Rightarrow> time \<Rightarrow> SessionKind \<Rightarrow> string \<Rightarrow> AccountId \<Rightarrow> AuthSession \<Rightarrow> bool" where
  "session_of cfg db now kind token i s =
     (\<exists>sid secret. parse_session_token (cfg_crypto cfg) token = Some (i, sid, secret)
        \<and> session db i sid = Inr (Some s) \<and> session_accepts cfg kind secret now s
        \<and> (\<exists>account. active_account db i = Inr account))"

text \<open>The token is one of a live key, of the active account \<open>i\<close>, whose scopes include the one given.\<close>

definition key_of :: "AuthConfig \<Rightarrow> IdentityDb \<Rightarrow> time \<Rightarrow> string \<Rightarrow> string \<Rightarrow> AccountId \<Rightarrow> ApiKey \<Rightarrow> bool" where
  "key_of cfg db now scope token i key =
     (\<exists>k secret. parse_api_key_token (cfg_crypto cfg) token = Some (i, k, secret)
        \<and> api_key db i k = Some key \<and> key_accepts cfg secret scope now key
        \<and> (\<exists>account. active_account db i = Inr account))"

lemma active_account_id: "active_account db i = Inr a \<Longrightarrow> acc_id a = i"
  by (auto simp: active_account_def account_by_id_def account_query_def fetch_optional_Some
      account_from_row_Inr(1) dest!: select_one_SomeD)

lemma browser_session_of:
  assumes "authenticate_browser_session cfg db token csrf now = (Inr r, db')"
  obtains s where "session_of cfg db now Browser token (acc_id (ab_account r)) s"
    "ab_csrf_token r = filter_option (\<lambda>t. is_some_and
       (\<lambda>d. constant_time_eq d (secret_digest (cfg_crypto cfg) t)) (ses_csrf_digest s)) csrf"
proof -
  obtain a i secret s where t: "parse_session_token (cfg_crypto cfg) token = Some (a, i, secret)"
    "session db a i = Inr (Some s)" "session_accepts cfg Browser secret now s"
    "active_account db a = Inr (ab_account r)" "ab_session r = fst (refresh_session db a i now s)"
    by (rule authenticate_browser_session_InrD [OF assms])
  have "session_of cfg db now Browser token (acc_id (ab_account r)) s"
    using t active_account_id [OF t(4)] by (auto simp: session_of_def)
  moreover have "ab_csrf_token r = filter_option (\<lambda>t. is_some_and
       (\<lambda>d. constant_time_eq d (secret_digest (cfg_crypto cfg) t)) (ses_csrf_digest s)) csrf"
    using assms t refresh_session_keeps(4) [of db a i now s]
    by (auto simp: authenticate_browser_session_def split: prod.splits sum.splits dest!: arg_cong [where f = ab_csrf_token])
  ultimately show ?thesis by (rule that)
qed

lemma key_of_authenticated:
  assumes "authenticate_api_key cfg db token scope now = (Inr r, db')"
  shows "\<exists>key. key_of cfg db now scope token (acc_id (ak_account r)) key"
proof -
  from assms have "fst (authenticate_api_key cfg db token scope now) = Inr r" by simp
  then obtain a k secret key where "parse_api_key_token (cfg_crypto cfg) token = Some (a, k, secret)"
    "api_key db a k = Some key" "key_accepts cfg secret scope now key" "active_account db a = Inr (ak_account r)"
    by (rule authenticate_api_key_InrD)
  then show ?thesis using active_account_id by (auto simp: key_of_def)
qed

lemma session_of_astrometry:
  assumes "authenticate_astrometry_session cfg db token now = (Inr r, db')"
  shows "\<exists>s. session_of cfg db now Astrometry token (acc_id (as_account r)) s"
proof -
  from assms have "fst (authenticate_astrometry_session cfg db token now) = Inr r" by simp
  then obtain a i secret s where "parse_session_token (cfg_crypto cfg) token = Some (a, i, secret)"
    "session db a i = Inr (Some s)" "session_accepts cfg Astrometry secret now s"
    "active_account db a = Inr (as_account r)"
    by (rule authenticate_astrometry_session_InrD)
  then show ?thesis using active_account_id by (auto simp: session_of_def)
qed

section \<open>Browsers\<close>

text \<open>What a state-changing request of a browser shows beside its cookie.\<close>

definition shows_intent :: "AuthConfig \<Rightarrow> string \<Rightarrow> Headers \<Rightarrow> AuthSession \<Rightarrow> bool" where
  "shows_intent cfg public_origin h s =
     (header_text h ''origin'' = Some public_origin
      \<and> (\<exists>t. header_text h ''x-csrf-token'' = Some t
           \<and> ses_csrf_digest s = Some (secret_digest (cfg_crypto cfg) t)))"

lemma authenticated_browser_InrD:
  assumes "authenticated_browser en db h now = (Inr r, db')"
  obtains cfg origin token where "en_auth en = Some (cfg, origin)"
    "request_cookie (en_libs en) h (session_cookie_name (en_config en)) = Some token"
    "authenticate_browser_session cfg db token
       (request_cookie (en_libs en) h (csrf_cookie_name (en_config en))) now = (Inr r, db')"
  using assms
  by (auto simp: authenticated_browser_def auth_service_def ok_or_def apfst_pair map_sum_Inr
      split: option.splits prod.splits sum.splits)

lemma mutation_InrD:
  assumes "authenticated_browser_for_mutation en db h now = (Inr r, db')"
  obtains cfg origin where "en_auth en = Some (cfg, origin)" "header_text h ''origin'' = Some origin"
    "authenticated_browser en db h now = (Inr r, db')" "require_csrf r (header_text h ''x-csrf-token'') = Inr ()"
  using assms
  by (auto simp: authenticated_browser_for_mutation_def auth_service_def ok_or_def
      split: option.splits prod.splits sum.splits if_splits)

lemma mutation_shows_intent:
  assumes "authenticated_browser_for_mutation en db h now = (Inr r, db')" "en_auth en = Some (cfg, origin)"
  shows "\<exists>token s. request_cookie (en_libs en) h (session_cookie_name (en_config en)) = Some token
           \<and> session_of cfg db now Browser token (acc_id (ab_account r)) s \<and> shows_intent cfg origin h s"
proof -
  from assms(1) have o1: "header_text h ''origin'' = Some origin"
    and browser: "authenticated_browser en db h now = (Inr r, db')"
    and csrf: "require_csrf r (header_text h ''x-csrf-token'') = Inr ()"
    using assms(2) by (auto elim: mutation_InrD)
  from browser obtain token where token:
    "request_cookie (en_libs en) h (session_cookie_name (en_config en)) = Some token"
    "authenticate_browser_session cfg db token
       (request_cookie (en_libs en) h (csrf_cookie_name (en_config en))) now = (Inr r, db')"
    using assms(2) by (auto elim: authenticated_browser_InrD)
  from browser_session_of [OF token(2)] obtain s where
    s: "session_of cfg db now Browser token (acc_id (ab_account r)) s"
    "ab_csrf_token r = filter_option (\<lambda>t. is_some_and
       (\<lambda>d. constant_time_eq d (secret_digest (cfg_crypto cfg) t)) (ses_csrf_digest s))
         (request_cookie (en_libs en) h (csrf_cookie_name (en_config en)))" by blast
  from csrf obtain t where t: "ab_csrf_token r = Some t" "header_text h ''x-csrf-token'' = Some t"
    by (auto simp: require_csrf_def constant_time_eq_def split: option.splits if_splits)
  from t(1) [unfolded s(2)] have "ses_csrf_digest s = Some (secret_digest (cfg_crypto cfg) t)"
    by (cases "ses_csrf_digest s") (simp_all add: constant_time_eq_def)
  with t(2) o1 token(1) s(1) show ?thesis by (auto simp: shows_intent_def)
qed

section \<open>Clients\<close>

datatype authority =
    ByKey string
  | BySession string
  | ByCookie string
  | Anonymous

text \<open>The authority a request presents; a session that the server gave to the public is no credential.\<close>

definition authority_of :: "ApiEnv \<Rightarrow> Headers \<Rightarrow> string option \<Rightarrow> authority" where
  "authority_of en h session_arg =
     (case (session_arg, request_api_key h) of
        (Some s, _) \<Rightarrow> if is_public_astrometry_session (en_libs en) s then Anonymous else BySession s
      | (None, Some key) \<Rightarrow> ByKey key
      | (None, None) \<Rightarrow>
          (case request_cookie (en_libs en) h (session_cookie_name (en_config en)) of
             Some token \<Rightarrow> ByCookie token | None \<Rightarrow> Anonymous))"

definition backed_by :: "AuthConfig \<Rightarrow> string \<Rightarrow> IdentityDb \<Rightarrow> Headers \<Rightarrow> time \<Rightarrow> bool \<Rightarrow> authority \<Rightarrow> AccountId \<Rightarrow> bool" where
  "backed_by cfg origin db h now mutation a i =
     (case a of
        ByKey key \<Rightarrow> \<exists>k. key_of cfg db now (if mutation then scope_solve_submit else scope_solve_read) key i k
      | BySession token \<Rightarrow> \<exists>s. session_of cfg db now Astrometry token i s
      | ByCookie token \<Rightarrow> \<exists>s. session_of cfg db now Browser token i s \<and> (mutation \<longrightarrow> shows_intent cfg origin h s)
      | Anonymous \<Rightarrow> False)"

lemma public_client_anonymous:
  "public_client_for_request lib cf h surface = Inr client
   \<Longrightarrow> client = public_client lib h \<and> (\<forall>s. surface = Some s \<longrightarrow> ensure_public_solve_allowed cf s = Inr ())"
  by (auto simp: public_client_for_request_def and_then_Inr split: option.splits)

lemma client_from_accountD:
  assumes "client_from_account en db h now session_arg mutation surface = (Inr client, db')"
  shows "(authority_of en h session_arg = Anonymous
            \<and> public_client_for_request (en_libs en) (en_config en) h surface = Inr client)
         \<or> (\<exists>cfg origin i w. en_auth en = Some (cfg, origin) \<and> client = account_client (en_libs en) i w
              \<and> backed_by cfg origin db h now mutation (authority_of en h session_arg) i)"
proof (cases "session_arg")
  case (Some s)
  show ?thesis
  proof (cases "is_public_astrometry_session (en_libs en) s")
    case True
    with assms Some show ?thesis
      by (auto simp: client_from_account_def authority_of_def Let_def split: option.splits)
  next
    case False
    with assms Some obtain cfg origin r where auth: "en_auth en = Some (cfg, origin)"
      and r: "authenticate_astrometry_session cfg db s now = (Inr r, db')"
      and client: "client = account_client (en_libs en) (acc_id (as_account r)) (as_queue_weight r)"
      by (auto simp: client_from_account_def auth_service_def ok_or_def Let_def apfst_pair map_sum_Inr
          split: option.splits prod.splits)
    from session_of_astrometry [OF r] auth client False Some show ?thesis
      by (auto simp: authority_of_def backed_by_def split: option.splits)
  qed
next
  case None
  show ?thesis
  proof (cases "request_api_key h")
    case (Some key)
    with assms None obtain cfg origin r where auth: "en_auth en = Some (cfg, origin)"
      and r: "authenticate_api_key cfg db key (if mutation then scope_solve_submit else scope_solve_read) now = (Inr r, db')"
      and client: "client = account_client (en_libs en) (acc_id (ak_account r)) (key_queue_weight (ak_api_key r))"
      by (auto simp: client_from_account_def auth_service_def ok_or_def Let_def apfst_pair map_sum_Inr
          split: option.splits prod.splits)
    have "backed_by cfg origin db h now mutation (ByKey key) (acc_id (ak_account r))"
      using key_of_authenticated [OF r] by (simp add: backed_by_def)
    with auth client None Some show ?thesis by (auto simp: authority_of_def)
  next
    case no_key: None
    show ?thesis
    proof (cases "request_cookie (en_libs en) h (session_cookie_name (en_config en))")
      case no_cookie: None
      with assms None no_key show ?thesis by (simp add: client_from_account_def authority_of_def Let_def)
    next
      case (Some token)
      with assms None no_key obtain r where
        r: "(if mutation then authenticated_browser_for_mutation en db h now
             else authenticated_browser en db h now) = (Inr r, db')"
        and client: "client = account_client (en_libs en) (acc_id (ab_account r)) (Fin 1)"
        by (auto simp: client_from_account_def Let_def apfst_pair map_sum_Inr
            split: prod.splits)
      have "authenticated_browser en db h now = (Inr r, db')"
        using r by (auto split: if_splits elim: mutation_InrD)
      then obtain cfg origin where auth: "en_auth en = Some (cfg, origin)"
        and b: "authenticate_browser_session cfg db token
          (request_cookie (en_libs en) h (csrf_cookie_name (en_config en))) now = (Inr r, db')"
        using Some by (auto elim: authenticated_browser_InrD)
      have "\<exists>s. session_of cfg db now Browser token (acc_id (ab_account r)) s
              \<and> (mutation \<longrightarrow> shows_intent cfg origin h s)"
        using r mutation_shows_intent [OF _ auth, of db h now r db'] browser_session_of [OF b] Some
        by (cases mutation) auto
      with auth client None no_key Some show ?thesis by (auto simp: authority_of_def backed_by_def)
    qed
  qed
qed

text \<open>
  C4: A request acts for an account only with a credential of that account.  In account mode an
  accepted request is either anonymous - it presents no credential and the operator allows public
  solves on its surface - or it acts for one active account whose unexpired, unrevoked key (with
  the scope the request needs), Astrometry session or browser session it presents; a browser's
  request that changes state also comes from the site's own origin with the CSRF token of that
  session.
\<close>

theorem clients_are_authenticated:
  assumes "cf_auth_mode (en_config en) = Accounts"
    "client_from_headers en db h now session_arg mutation surface = (Inr client, db')"
  shows "(authority_of en h session_arg = Anonymous \<and> client = public_client (en_libs en) h
            \<and> (\<forall>s. surface = Some s \<longrightarrow> ensure_public_solve_allowed (en_config en) s = Inr ()))
         \<or> (\<exists>cfg origin i w. en_auth en = Some (cfg, origin) \<and> client = account_client (en_libs en) i w
              \<and> backed_by cfg origin db h now mutation (authority_of en h session_arg) i)"
proof -
  from assms have "client_from_account en db h now session_arg mutation surface = (Inr client, db')"
    by (simp add: client_from_headers_def)
  from client_from_accountD [OF this] public_client_anonymous [of "en_libs en" "en_config en" h surface client]
  show ?thesis by blast
qed

lemma account_client_inj:
  assumes "uuid_text lib" "account_client lib i w = account_client lib j v"
  shows "i = j"
proof -
  have "lib_uuid_str lib i = lib_uuid_str lib j" using assms(2) by (simp add: account_client_def)
  then have "Some i = Some j" using uuid_textD(1) [OF assms(1)] by metis
  then show ?thesis by simp
qed

definition accounts_env :: ApiEnv where
  "accounts_env = \<lparr>en_config = default_config\<lparr>cf_auth_mode := Accounts\<rparr>,
     en_auth = Some (sample_cfg, ''https://seiza.example''), en_libs = sample_libs\<rparr>"

definition key_headers :: Headers where
  "key_headers = [(''x-api-key'', Some ''seiza_key_1_3_d'')]"

lemma sample_key_request:
  "fst (authenticate_api_key sample_cfg sample_key_db ''seiza_key_1_3_d'' ''solve:submit'' 6)
   = Inr \<lparr>ak_account = sample_account, ak_api_key = sample_key\<lparr>key_last_used_at := Some 6\<rparr>\<rparr>"
  by code_simp

theorem clients_are_authenticated_witness:
  "\<exists>k. key_of sample_cfg sample_key_db 6 ''solve:submit'' ''seiza_key_1_3_d'' 1 k"
proof -
  have key: "request_api_key key_headers = Some ''seiza_key_1_3_d''" by code_simp
  have auth: "authority_of accounts_env key_headers None = ByKey ''seiza_key_1_3_d''"
    by (simp add: authority_of_def key)
  have mode: "cf_auth_mode (en_config accounts_env) = Accounts" and lib: "en_libs accounts_env = sample_libs"
    and cfg: "en_auth accounts_env = Some (sample_cfg, ''https://seiza.example'')"
    and acc: "acc_id sample_account = 1" and weight: "key_queue_weight sample_key = Fin 1"
    by (simp_all add: accounts_env_def sample_account_def sample_key_def)
  let ?auth = "authenticate_api_key sample_cfg sample_key_db ''seiza_key_1_3_d'' ''solve:submit'' 6"
  have r: "client_from_headers accounts_env sample_key_db key_headers 6 None True None
      = (Inr (account_client sample_libs (acc_id sample_account) (Fin 1)), snd ?auth)"
    by (rule prod_eqI)
      (simp_all add: client_from_headers_def client_from_account_def mode lib cfg key auth_service_def
        ok_or_def scope_solve_submit_def sample_key_request weight)
  from clients_are_authenticated [OF mode r, unfolded lib cfg auth acc] obtain i w where
    i: "account_client sample_libs 1 (Fin 1) = account_client sample_libs i w"
    and k: "\<exists>k. key_of sample_cfg sample_key_db 6 ''solve:submit'' ''seiza_key_1_3_d'' i k"
    by (auto simp: backed_by_def scope_solve_submit_def)
  from account_client_inj [OF sample_libs_uuid_text i] k show ?thesis by simp
qed

text \<open>
  Without credentials of an account there is no account: in account mode an anonymous client is
  named after its network only, a prefix that no account's client has.
\<close>

theorem anonymous_is_never_an_account:
  "cl_id (public_client lib h) \<noteq> cl_id (account_client lib i w)
   \<and> (cl_id (account_client lib i w) = cl_id (account_client lib' i' w') \<longleftrightarrow> lib_uuid_str lib i = lib_uuid_str lib' i')"
  by (simp add: public_client_def public_client_id_def account_client_def Let_def split: option.split)

end
