(* ===== verification/Service.thy ===== *)
theory Service
  imports Tus Workers Transport Upload_Assembly Service_Names
begin

text \<open>
  The server as a whole: one datatype of the requests and background tasks that act on it, and the
  simulation of every one of them by calls of the job repository.  What is proved of the queue in
  \<open>Queue_Properties\<close> for runs of repository calls therefore holds for runs of the server.
\<close>

section \<open>Requests\<close>

text \<open>
  Times, fresh identifiers and fresh lease tokens come with the request that reads or draws them.
\<close>

datatype service_request =
    SubmitImage time time uuid uuid Client UploadedFile SolveOptions
  | SolveAgain Headers time time uuid uuid string SolveOptions
  | ContributeImage Headers time string ValidationDonationRequest
  | CreateUpload Headers time time uuid uuid uuid
  | PatchUpload Headers time string bytes
  | DeleteUpload Headers time string
  | UploadResult Headers time string
  | WorkerClaim Headers time string "JobId option"
  | WorkerHeartbeat Headers time JobId string
  | WorkerComplete Headers time JobId WorkerCompletion
  | EmbeddedPass time time time string
  | DispatchOutbox time
  | ExpireUploads time

text \<open>The environment of the server: that of its handlers, and what the other components use.\<close>

record 's ServiceEnv =
  sn_server :: "'s ServerEnv"
  sn_tus :: tus_libs
  sn_worker :: worker_libs
  sn_show_store :: "store_error \<Rightarrow> string"
  sn_solver :: solver

fun serve :: "'s ServiceEnv \<Rightarrow> service_request \<Rightarrow> 's Server \<Rightarrow> 's Server" where
  "serve sn (SubmitImage instant now job_id storage_token client upload options) s =
     snd (submit_job (sn_server sn) s instant now job_id storage_token client upload options)"
| "serve sn (SolveAgain h instant now job_id storage_token public_id options) s =
     snd (resolve_solve (sn_server sn) s h instant now job_id storage_token public_id options)"
| "serve sn (ContributeImage h now public_id request) s =
     snd (donate_validation_image (sn_server sn) s h now public_id request)"
| "serve sn (CreateUpload h instant now upload_id job_id storage_token) s =
     snd (create_resumable_upload (sn_server sn) (sn_tus sn) s h instant now upload_id job_id storage_token)"
| "serve sn (PatchUpload h now upload_id body) s =
     snd (patch_resumable_upload (sn_server sn) s h now upload_id body)"
| "serve sn (DeleteUpload h now upload_id) s = snd (delete_resumable_upload (sn_server sn) s h now upload_id)"
| "serve sn (UploadResult h now upload_id) s = snd (get_resumable_upload_result (sn_server sn) s h now upload_id)"
| "serve sn (WorkerClaim h now tok req) s = snd (worker_claim (sn_server sn) s h now tok req)"
| "serve sn (WorkerHeartbeat h now i tok) s = snd (worker_heartbeat (sn_server sn) s h now i tok)"
| "serve sn (WorkerComplete h now i c) s = snd (worker_complete (sn_server sn) (sn_worker sn) s h now i c)"
| "serve sn (EmbeddedPass t t0 t1 tok) s =
     embedded_pass (sn_server sn) (sn_show_store sn) (sn_solver sn) s t t0 t1 tok"
| "serve sn (DispatchOutbox now) s =
     s\<lparr>sv_jobs := snd (dispatch_round (se_publish (sn_server sn)) now (sv_jobs s))\<rparr>"
| "serve sn (ExpireUploads now) s = cleanup_expired_uploads (sn_server sn) s now"

text \<open>The lease tokens a request draws.\<close>

fun request_tokens :: "service_request \<Rightarrow> string set" where
  "request_tokens (WorkerClaim _ _ tok _) = {tok}"
| "request_tokens (EmbeddedPass _ _ _ tok) = {tok}"
| "request_tokens _ = {}"

section \<open>Simulation by calls of the repository\<close>

text \<open>The calls that a request may make.\<close>

fun client_call :: "queue_event \<Rightarrow> bool" where
  "client_call (EvEnqueue _) = True"
| "client_call (EvDonate _ _) = True"
| "client_call (EvDelivered _ _) = True"
| "client_call _ = False"

fun request_call :: "service_request \<Rightarrow> queue_event \<Rightarrow> bool" where
  "request_call (WorkerClaim _ now tok req) ev = (\<exists>secs. ev = EvClaim now tok req secs)"
| "request_call (WorkerHeartbeat _ now i tok) ev = (\<exists>secs. ev = EvHeartbeat now i tok secs)"
| "request_call (WorkerComplete _ now i c) ev =
     (ev = EvComplete now i (wk_lease_token c) (wk_solution c) (wk_error c))"
| "request_call (EmbeddedPass t _ t1 tok) ev =
     ((\<exists>req secs. ev = EvClaim t tok req secs) \<or> (\<exists>i sol err. ev = EvComplete t1 i tok sol err))"
| "request_call (DispatchOutbox now) ev = (ev = EvPending now 100 \<or> (\<exists>i. ev = EvDelivered now i))"
| "request_call _ ev = client_call ev"

text \<open>
  \<open>jobs_run P ts db db'\<close>: calls that satisfy \<open>P\<close>, and draw no tokens but those of \<open>ts\<close> and each of
  these at most once, lead from \<open>db\<close> to \<open>db'\<close>.
\<close>

definition jobs_run :: "(queue_event \<Rightarrow> bool) \<Rightarrow> string set \<Rightarrow> JobDb \<Rightarrow> JobDb \<Rightarrow> bool" where
  "jobs_run P ts db db' = (\<exists>evs. db' = run_all run_event evs db \<and> list_all P evs
     \<and> (\<forall>used. ts \<inter> used = {} \<longrightarrow> fresh_run event_tokens used evs
                 \<and> run_tokens event_tokens used evs \<subseteq> ts \<union> used))"

abbreviation files :: "JobDb \<Rightarrow> JobDb \<Rightarrow> bool" where
  "files \<equiv> jobs_run client_call {}"

lemma jobs_run_refl [intro, simp]: "jobs_run P ts db db"
  unfolding jobs_run_def by (rule exI [of _ "[]"]) simp

lemma jobs_run_event: "P ev \<Longrightarrow> event_tokens ev \<subseteq> ts \<Longrightarrow> jobs_run P ts db (run_event ev db)"
  unfolding jobs_run_def by (rule exI [of _ "[ev]"]) auto

lemma jobs_run_calls [intro]:
  "P (EvEnqueue job) \<Longrightarrow> jobs_run P ts db (snd (enqueue db job))"
  "P (EvHeartbeat now i tok secs) \<Longrightarrow> jobs_run P ts db (snd (heartbeat db now i tok secs))"
  "P (EvComplete now i tok sol err) \<Longrightarrow> jobs_run P ts db (snd (complete db now i tok sol err))"
  "P (EvDonate i donation) \<Longrightarrow> jobs_run P ts db (snd (donate_validation db i donation))"
  "P (EvPending now limit) \<Longrightarrow> jobs_run P ts db (snd (pending_notifications db now limit))"
  "P (EvDelivered now i) \<Longrightarrow> jobs_run P ts db (mark_notification_delivered db now i)"
  "P (EvClaim now tok req secs) \<Longrightarrow> tok \<in> ts \<Longrightarrow> jobs_run P ts db (snd (claim db now tok req secs))"
  using jobs_run_event [of P "EvEnqueue job" ts db] jobs_run_event [of P "EvHeartbeat now i tok secs" ts db]
    jobs_run_event [of P "EvComplete now i tok sol err" ts db] jobs_run_event [of P "EvDonate i donation" ts db]
    jobs_run_event [of P "EvPending now limit" ts db] jobs_run_event [of P "EvDelivered now i" ts db]
    jobs_run_event [of P "EvClaim now tok req secs" ts db]
  by simp_all

text \<open>A continuation that draws nothing can follow any run.\<close>

lemma jobs_run_trans:
  assumes "jobs_run P ts db db1" "jobs_run P {} db1 db2"
  shows "jobs_run P ts db db2"
proof -
  from assms(1) obtain es where es: "db1 = run_all run_event es db" "list_all P es"
    "\<And>used. ts \<inter> used = {} \<Longrightarrow> fresh_run event_tokens used es \<and> run_tokens event_tokens used es \<subseteq> ts \<union> used"
    by (auto simp: jobs_run_def)
  from assms(2) obtain es' where es': "db2 = run_all run_event es' db1" "list_all P es'"
    "\<And>used. fresh_run event_tokens used es' \<and> run_tokens event_tokens used es' \<subseteq> used"
    by (auto simp: jobs_run_def)
  show ?thesis
    unfolding jobs_run_def es(1) es'(1)
    using es(2,3) es'(2,3) by (intro exI [of _ "es @ es'"]) (auto simp: run_all_append fresh_run_append; blast)
qed

section \<open>Every handler is a run of calls\<close>

lemma enqueue_stored_run [simp]: "files db (snd (enqueue_stored en db now client key name ct options))"
proof -
  have "files db (snd (enqueue db job))" "files db' (mark_notification_delivered db' now i)"
    for job db' i by auto
  then show ?thesis
    by (auto simp: enqueue_stored_def split: sum.split option.split prod.split intro: jobs_run_trans)
      (metis jobs_run_trans snd_conv)+
qed

lemma enqueue_stored_runs: "enqueue_stored en db now client key name ct options = (r, db') \<Longrightarrow> files db db'"
  using enqueue_stored_run [of db en now client key name ct options] by simp

lemma request_client_jobs [simp]: "request_client en s h now m sf = (r, s') \<Longrightarrow> sv_jobs s' = sv_jobs s"
  by (auto simp: request_client_def split: prod.splits)

lemma submit_job_run [simp]:
  "files (sv_jobs s) (sv_jobs (snd (submit_job en s instant now i tk client upload options)))"
  by (simp add: submit_job_def Let_def enqueue_stored_runs split: sum.split prod.split)

lemma resolve_job_run [simp]:
  "files (sv_jobs s) (sv_jobs (snd (resolve_job en s instant now i tk client job options)))"
  by (simp add: resolve_job_def Let_def enqueue_stored_runs split: sum.split prod.split)

lemma resolve_solve_run [simp]:
  "files (sv_jobs s) (sv_jobs (snd (resolve_solve en s h instant now i tk public_id options)))"
proof -
  obtain r s1 where rc: "request_client en s h now True (Some (public_solve_surface h)) = (r, s1)" by force
  have "files (sv_jobs s) (sv_jobs (snd (resolve_job en s1 instant now i tk client job options)))" for client job
    using resolve_job_run [of s1 en instant now i tk client job options] rc by simp
  with rc show ?thesis by (simp add: resolve_solve_def split: sum.split)
qed

lemma donate_validation_runs: "donate_validation db i donation = (r, db') \<Longrightarrow> files db db'"
  using jobs_run_calls(4) [of client_call i donation "{}" db] by simp

lemma donate_validation_image_run [simp]:
  "files (sv_jobs s) (sv_jobs (snd (donate_validation_image en s h now public_id request)))"
proof -
  obtain r s1 where rc: "request_client en s h now True None = (r, s1)" by force
  then have "sv_jobs s1 = sv_jobs s" by simp
  then show ?thesis
    by (simp add: donate_validation_image_def rc Let_def donate_validation_runs
        split: sum.split prod.split bool.split)
qed

lemma finalize_resumable_run [simp]:
  "files (sv_jobs s) (sv_jobs (snd (snd (finalize_resumable en s now u))))"
  by (simp add: finalize_resumable_def Let_def enqueue_stored_runs split: sum.split prod.split option.split)

lemma finalize_resumable_runs: "finalize_resumable en s now u = (r, u', s') \<Longrightarrow> files (sv_jobs s) (sv_jobs s')"
  using finalize_resumable_run [of s en now u] by simp

lemma take_chunk_runs: "take_chunk en s now u offset data = (r, s') \<Longrightarrow> files (sv_jobs s) (sv_jobs s')"
  by (auto simp: take_chunk_def Let_def split: sum.splits prod.splits if_splits
      dest!: finalize_resumable_runs)

lemma delete_parts_jobs [simp]: "sv_jobs (snd (delete_parts en s ids)) = sv_jobs s"
  by (induction ids arbitrary: s) (simp_all split: sum.split)

lemma take_token_jobs [simp]: "take_token en s client instant = (r, s') \<Longrightarrow> sv_jobs s' = sv_jobs s"
  by (auto simp: take_token_def split: prod.splits)

lemma requested_upload_jobs [simp]:
  "requested_upload en tu s h instant now i j tk client = (r, s') \<Longrightarrow> sv_jobs s' = sv_jobs s"
  by (auto simp: requested_upload_def split: option.splits prod.splits if_splits)

lemma save_upload_jobs [simp]: "save_upload en s now u = (r, s') \<Longrightarrow> sv_jobs s' = sv_jobs s"
  by (auto simp: save_upload_def split: prod.splits)

lemma finish_concatenation_run [simp]:
  "files (sv_jobs s) (sv_jobs (snd (finish_concatenation en s now u)))"
  using finalize_resumable_runs [of en s now u]
  by (simp add: finish_concatenation_def split: sum.split prod.split)

lemma create_resumable_upload_run [simp]:
  "files (sv_jobs s) (sv_jobs (snd (create_resumable_upload en tu s h instant now i j tk)))"
proof -
  obtain r1 s1 where rc: "request_client en s h now True (Some (public_solve_surface h)) = (r1, s1)" by force
  have step: "files (sv_jobs s) (sv_jobs s4)"
    if "requested_upload en tu s1 h instant now i j tk client = (r2, s2)" "save_upload en s2 now u = (r3, s3)"
      "finish_concatenation en s3 now u = (r4, s4)" for client r2 s2 u r3 s3 r4 s4
    using finish_concatenation_run [of s3 en now u] that rc by simp
  show ?thesis
    using rc step
    by (auto simp: create_resumable_upload_def split: sum.split prod.split)
qed

lemma patch_resumable_upload_run [simp]:
  "files (sv_jobs s) (sv_jobs (snd (patch_resumable_upload en s h now upload_id body)))"
proof -
  obtain r1 s1 where rc: "request_client en s h now True (Some (public_solve_surface h)) = (r1, s1)" by force
  have "files (sv_jobs s) (sv_jobs s2)" if "take_chunk en s1 now u offset body = (r2, s2)" for u offset r2 s2
    using take_chunk_runs [OF that] rc by simp
  with rc show ?thesis by (auto simp: patch_resumable_upload_def split: sum.split prod.split)
qed

lemma delete_resumable_upload_jobs [simp]: "sv_jobs (snd (delete_resumable_upload en s h now upload_id)) = sv_jobs s"
  by (auto simp: delete_resumable_upload_def split: sum.split prod.split)

lemma get_resumable_upload_result_run [simp]:
  "files (sv_jobs s) (sv_jobs (snd (get_resumable_upload_result en s h now upload_id)))"
proof -
  obtain r1 s1 where rc: "request_client en s h now False (Some (public_solve_surface h)) = (r1, s1)" by force
  obtain r2 s2 where rc2: "request_client en s1 h now True (Some (public_solve_surface h)) = (r2, s2)" by force
  have same: "sv_jobs s1 = sv_jobs s" "sv_jobs s2 = sv_jobs s" using rc rc2 by simp_all
  have "files (sv_jobs s) (sv_jobs s4)"
    if "finalize_resumable en s1 now u = (r, u', s4) \<or> finalize_resumable en s2 now u = (r, u', s4)" for u r u' s4
    using that same finalize_resumable_runs [of en _ now u r u' s4] by metis
  with same show ?thesis
    by (simp add: get_resumable_upload_result_def rc rc2 split: sum.split prod.split) blast
qed

lemma worker_runs [simp]:
  "jobs_run (request_call (WorkerClaim h now tok req)) {tok} (sv_jobs s) (sv_jobs (snd (worker_claim en s h now tok req)))"
  "jobs_run (request_call (WorkerHeartbeat h now i tok)) ts (sv_jobs s) (sv_jobs (snd (worker_heartbeat en s h now i tok)))"
  "jobs_run (request_call (WorkerComplete h now i c)) ts (sv_jobs s) (sv_jobs (snd (worker_complete en wl s h now i c)))"
  using jobs_run_calls(7) [of "request_call (WorkerClaim h now tok req)" now tok req "cf_lease_seconds (se_config en)"
      "{tok}" "sv_jobs s"]
    jobs_run_calls(2) [of "request_call (WorkerHeartbeat h now i tok)" now i tok "cf_lease_seconds (se_config en)"
      ts "sv_jobs s"]
    jobs_run_calls(3) [of "request_call (WorkerComplete h now i c)" now i "wk_lease_token c" "wk_solution c" "wk_error c"
      ts "sv_jobs s"]
  by (auto simp: worker_claim_def claim_response_def worker_heartbeat_def worker_complete_def
      split: sum.split prod.splits)

lemma claim_token: "claim db now tok req secs = (Inr (Some l), db') \<Longrightarrow> jl_lease_token l = tok"
  by (auto simp: claim_def Let_def split: sum.splits option.splits if_splits)

lemma embedded_pass_run [simp]:
  "jobs_run (request_call (EmbeddedPass t t0 t1 tok)) {tok} (sv_jobs s)
     (sv_jobs (embedded_pass en sh engine s t t0 t1 tok))"
proof -
  let ?P = "request_call (EmbeddedPass t t0 t1 tok)"
  obtain r db where cl: "claim (sv_jobs s) t tok None (cf_lease_seconds (se_config en)) = (r, db)" by force
  have run: "jobs_run ?P {tok} (sv_jobs s) db"
    using jobs_run_calls(7) [of ?P t tok None "cf_lease_seconds (se_config en)" "{tok}" "sv_jobs s"] cl by simp
  have "jobs_run ?P {} db (sv_jobs (run_embedded_job en sh engine (s\<lparr>sv_jobs := db\<rparr>) t0 t1 lease))"
    if "jl_lease_token lease = tok" for lease
    using that by (auto simp: run_embedded_job_def Let_def completion_of_def split: option.split sum.split
        intro!: jobs_run_calls(3))
  with run claim_token [of "sv_jobs s" t tok None "cf_lease_seconds (se_config en)"] cl show ?thesis
    by (auto simp: embedded_pass_def split: sum.split option.split intro: jobs_run_trans)
qed

lemma dispatch_jobs_run:
  "jobs_run (request_call (DispatchOutbox now)) {} db (snd (dispatch_jobs publish now is db))"
proof (induction "is" arbitrary: db)
  case (Cons i "is")
  have "jobs_run (request_call (DispatchOutbox now)) {} db (mark_notification_delivered db now i)" by auto
  from jobs_run_trans [OF this Cons.IH] Cons.IH [of db]
  show ?case by (auto split: sum.split option.split prod.split)
qed simp

lemma dispatch_round_run:
  "jobs_run (request_call (DispatchOutbox now)) {} db (snd (dispatch_round publish now db))"
proof -
  let ?P = "request_call (DispatchOutbox now)"
  obtain js db1 where p: "pending_notifications db now 100 = (js, db1)" by force
  have "jobs_run ?P {} db (snd (pending_notifications db now 100))" by auto
  with p have "jobs_run ?P {} db db1" by simp
  from jobs_run_trans [OF this dispatch_jobs_run] p show ?thesis by (simp add: dispatch_round_def)
qed

text \<open>One request is a run of its own calls that draws its tokens only.\<close>

lemma serve_run: "jobs_run (request_call rq) (request_tokens rq) (sv_jobs s) (sv_jobs (serve sn rq s))"
proof -
  show ?thesis
  proof (cases rq)
    case (WorkerClaim h now tok req)
    then show ?thesis using worker_runs(1) [of h now tok req s] by simp
  next
    case (WorkerHeartbeat h now i tok)
    then show ?thesis using worker_runs(2) [of h now i tok "{}" s] by simp
  next
    case (WorkerComplete h now i c)
    then show ?thesis using worker_runs(3) [of h now i c "{}" s] by simp
  next
    case (EmbeddedPass t t0 t1 tok)
    then show ?thesis using embedded_pass_run [of t t0 t1 tok s] by simp
  next
    case (DispatchOutbox now)
    then show ?thesis using dispatch_round_run [of now "sv_jobs s"] by simp
  qed (simp_all add: request_call.simps [abs_def] cleanup_expired_uploads_def)
qed

declare request_client_jobs [simp del] take_token_jobs [simp del] requested_upload_jobs [simp del] save_upload_jobs [simp del]

section \<open>A server of concrete components\<close>

definition sample_server_env :: "LocalStore ServerEnv" where
  "sample_server_env = \<lparr>
     se_api = \<lparr>en_config = default_config\<lparr>cf_worker_token := Some ''w'', cf_s3_prefix := '''',
                                           cf_lease_seconds := 60\<rparr>,
               en_auth = None, en_libs = sample_libs\<rparr>,
     se_ops = local_store, se_to_json = sample_to_json, se_from_json = sample_from_json,
     se_headers = sample_header_libs [], se_limiter = new_limiter 60 5,
     se_external_queue = False, se_publish = (\<lambda>_. False)\<rparr>"

definition sample_worker_libs :: worker_libs where
  "sample_worker_libs = \<lparr>wl_fwd = (\<lambda>_. []), wl_bwd = (\<lambda>_. []),
     wl_show_wcs = \<lambda>_. [], wl_show_repo = \<lambda>_. []\<rparr>"

definition sample_service_env :: "LocalStore ServiceEnv" where
  "sample_service_env = \<lparr>sn_server = sample_server_env,
     sn_tus = \<lparr>tl_base64 = \<lambda>_. None, tl_utf8 = \<lambda>_. None, tl_uri_path = \<lambda>_. None, tl_options = \<lambda>_. Inl []\<rparr>,
     sn_worker = sample_worker_libs, sn_show_store = (\<lambda>_. []), sn_solver = (\<lambda>_ _ _. Inl ''no match'')\<rparr>"

text \<open>The sample upload with its one chunk in the store and the job already queued, as after a crash.\<close>

definition sample_queued_db :: JobDb where
  "sample_queued_db = run_event (EvEnqueue (sample_job 1 ''a'' ''public-1/token.fits'' 0)) empty_db"

definition sample_server :: "LocalStore Server" where
  "sample_server = \<lparr>sv_jobs = sample_queued_db, sv_store = sample_received, sv_buckets = [],
     sv_identity = empty_identity_db\<rparr>"

lemma sample_server_env_simps [simp]:
  "se_ops sample_server_env = local_store" "se_to_json sample_server_env = sample_to_json"
  "se_headers sample_server_env = sample_header_libs []" "se_libs sample_server_env = sample_libs"
  "se_external_queue sample_server_env = False" "cf_s3_prefix (se_config sample_server_env) = ''''"
  "cf_lease_seconds (se_config sample_server_env) = 60" "cf_worker_token (se_config sample_server_env) = Some ''w''"
  "se_limiter sample_server_env = new_limiter 60 5"
  by (simp_all add: sample_server_env_def)

lemma reachable_sample_queued: "reachable {} sample_queued_db"
  using reachable.step [OF reachable.start, of "EvEnqueue (sample_job 1 ''a'' ''public-1/token.fits'' 0)"]
  by (simp add: sample_queued_db_def)

definition sample_claims :: "service_request list" where
  "sample_claims = [WorkerClaim (worker_headers ''w'') 10 ''t1'' (Some 1)]"

section \<open>Runs of the server\<close>

definition serve_all :: "'s ServiceEnv \<Rightarrow> service_request list \<Rightarrow> 's Server \<Rightarrow> 's Server" where
  "serve_all sn rqs s = run_all (serve sn) rqs s"

lemma fresh_run_less:
  assumes "fresh_run tk used' es" "used \<subseteq> used'"
  shows "fresh_run tk used es \<and> run_tokens tk used es \<subseteq> run_tokens tk used' es"
  using assms
proof (induction es arbitrary: used used')
  case (Cons e es)
  have "tk e \<union> used \<subseteq> tk e \<union> used'" using Cons.prems(2) by blast
  from Cons.IH [OF _ this] Cons.prems show ?case by auto
qed simp

lemma serve_all_run:
  assumes "fresh_run request_tokens used rqs"
  shows "\<exists>evs. sv_jobs (serve_all sn rqs s) = run_all run_event evs (sv_jobs s)
               \<and> list_all (\<lambda>ev. list_ex (\<lambda>rq. request_call rq ev) rqs) evs
               \<and> fresh_run event_tokens used evs
               \<and> run_tokens event_tokens used evs \<subseteq> run_tokens request_tokens used rqs"
  unfolding serve_all_def using assms
proof (induction rqs arbitrary: used s)
  case Nil
  then show ?case by (intro exI [of _ "[]"]) simp
next
  case (Cons rq rqs)
  then have fresh: "request_tokens rq \<inter> used = {}"
    and rest: "fresh_run request_tokens (request_tokens rq \<union> used) rqs" by auto
  from serve_run [of rq s sn] fresh obtain es where
    es: "sv_jobs (serve sn rq s) = run_all run_event es (sv_jobs s)" "list_all (request_call rq) es"
      "fresh_run event_tokens used es" "run_tokens event_tokens used es \<subseteq> request_tokens rq \<union> used"
    by (auto simp: jobs_run_def)
  from Cons.IH [OF rest, of "serve sn rq s"] obtain es' where
    es': "sv_jobs (run_all (serve sn) rqs (serve sn rq s)) = run_all run_event es' (sv_jobs (serve sn rq s))"
      "list_all (\<lambda>ev. list_ex (\<lambda>rq. request_call rq ev) rqs) es'"
      "fresh_run event_tokens (request_tokens rq \<union> used) es'"
      "run_tokens event_tokens (request_tokens rq \<union> used) es'
        \<subseteq> run_tokens request_tokens (request_tokens rq \<union> used) rqs" by blast
  show ?case
  proof (intro exI [of _ "es @ es'"] conjI)
    show "list_all (\<lambda>ev. list_ex (\<lambda>rq. request_call rq ev) (rq # rqs)) (es @ es')"
      using es(2) es'(2) by (auto simp: list_all_iff)
    show "run_tokens event_tokens used (es @ es') \<subseteq> run_tokens request_tokens used (rq # rqs)"
      using fresh_run_less [OF es'(3) es(4)] es'(4) by (auto simp: fresh_run_append)
  qed (use fresh_run_less [OF es'(3) es(4)] es es' in \<open>auto simp: fresh_run_append run_all_append\<close>)
qed

text \<open>
  C3: The server is a queue.  Whatever mix of submissions, resumable uploads, re-solves,
  contributions, worker calls, embedded solves, dispatcher rounds and clean-ups runs, what happens to
  the job database is a run of repository calls, each one a call that some of the requests makes,
  and it draws each lease token once; so every property proved of such runs holds for the server.
\<close>

theorem service_is_a_queue_run:
  assumes "fresh_run request_tokens used rqs"
  shows "\<exists>evs. sv_jobs (serve_all sn rqs s) = run_all run_event evs (sv_jobs s)
               \<and> list_all (\<lambda>ev. list_ex (\<lambda>rq. request_call rq ev) rqs) evs
               \<and> fresh_run event_tokens used evs
               \<and> run_tokens event_tokens used evs \<subseteq> run_tokens request_tokens used rqs"
  using assms by (rule serve_all_run)

theorem service_is_a_queue_run_witness:
  "\<exists>evs. sv_jobs (serve_all sample_service_env sample_claims sample_server) = run_all run_event evs sample_queued_db
         \<and> fresh_run event_tokens {} evs"
  using service_is_a_queue_run [of "{}" sample_claims sample_service_env sample_server]
  by (auto simp: sample_claims_def sample_server_def)

section \<open>What clients and workers can do to a job\<close>

lemma client_call_rows:
  assumes "list_all client_call evs" "row_of db i = Some r"
  shows "row_of (run_all run_event evs db) i = Some r"
  using assms
proof (induction evs arbitrary: db)
  case (Cons ev evs)
  have "row_of (run_event ev db) i = Some r"
    using Cons.prems row_of_enqueue [of db _ i] by (cases ev) auto
  with Cons show ?case by simp
qed simp

lemma client_call_new_rows:
  assumes "list_all client_call evs" "row_of db i = None"
  shows "row_of (run_all run_event evs db) i = None
         \<or> (\<exists>job. row_of (run_all run_event evs db) i = Some (new_row (queued_job job)) \<and> j_id job = i)"
  using assms
proof (induction evs arbitrary: db)
  case (Cons ev evs)
  have "row_of (run_event ev db) i = None
        \<or> (\<exists>job. row_of (run_event ev db) i = Some (new_row (queued_job job)) \<and> j_id job = i)"
    using Cons.prems row_of_enqueue [of db _ i] by (cases ev) auto
  with Cons client_call_rows [of evs "run_event ev db" i] show ?case by fastforce
qed simp

fun of_worker :: "service_request \<Rightarrow> bool" where
  "of_worker (WorkerClaim _ _ _ _) = True"
| "of_worker (WorkerHeartbeat _ _ _ _) = True"
| "of_worker (WorkerComplete _ _ _ _) = True"
| "of_worker (EmbeddedPass _ _ _ _) = True"
| "of_worker (DispatchOutbox _) = True"
| "of_worker _ = False"

lemma client_calls: "\<not> of_worker rq \<Longrightarrow> list_all (request_call rq) evs \<Longrightarrow> list_all client_call evs"
  by (cases rq) (simp_all add: request_call.simps [abs_def])

text \<open>
  No client can touch a job that exists.  Submissions, re-solves, contributions, resumable
  uploads and clean-ups leave every row of the queue as it is (its state, lease, times, solution
  and error), whoever sends them; all they add is a new waiting job.
\<close>

theorem clients_leave_jobs_alone:
  assumes "\<not> of_worker rq"
  shows "(case row_of (sv_jobs s) i of
            Some r \<Rightarrow> row_of (sv_jobs (serve sn rq s)) i = Some r
          | None \<Rightarrow> phase_of (sv_jobs (serve sn rq s)) i \<in> {Absent, Waiting})"
proof -
  from serve_run [of rq s sn] client_calls [OF assms] obtain evs where
    "sv_jobs (serve sn rq s) = run_all run_event evs (sv_jobs s)" "list_all client_call evs"
    by (auto simp: jobs_run_def)
  with client_call_rows [of evs "sv_jobs s" i] client_call_new_rows [of evs "sv_jobs s" i]
  show ?thesis
    by (cases "row_of (sv_jobs s) i") (auto simp: phase_of_def row_phase_def)
qed

theorem clients_leave_jobs_alone_witness:
  "row_of (sv_jobs (serve sample_service_env (ExpireUploads 5) sample_server)) 1
   = Some (new_row (queued_job (sample_job 1 ''a'' ''public-1/token.fits'' 0)))"
proof -
  have "row_of (sv_jobs sample_server) 1 = Some (new_row (queued_job (sample_job 1 ''a'' ''public-1/token.fits'' 0)))"
    by (simp add: sample_server_def sample_queued_db_def empty_db_def enqueue_def row_of_def Let_def queued_job_def
        sample_job_def new_row_def)
  with clients_leave_jobs_alone [of "ExpireUploads 5" sample_service_env sample_server 1] show ?thesis by simp
qed

lemma done_needs_complete:
  assumes inv: "queue_inv used db" and after: "phase_of (run_event ev db) i = Done b" and before: "phase_of db i \<noteq> Done b"
  shows "\<exists>now tok sol err e. ev = EvComplete now i tok sol err \<and> phase_of db i = Leased tok e \<and> now < e"
proof -
  have reclaim: "phase_of (reclaim_expired db now) i \<noteq> Done b" for now
    using before by (auto simp: phase_of_def row_of_reclaim [OF inv] row_phase_def split: option.splits if_splits)
  show ?thesis
  proof (cases ev)
    case (EvComplete now j tok sol err)
    show ?thesis
    proof (cases "row_of db i")
      case (Some r)
      then have ok: "row_ok r" using inv by (auto simp: row_of_Some [OF inv] queue_invD)
      have held: "holds_lease j tok now r"
        using after before by (auto simp: EvComplete phase_of_def row_of_complete Some split: if_splits)
      then have "j = r_id r" by (simp add: holds_lease_def)
      also have "r_id r = i" using Some by (simp add: row_of_Some [OF inv])
      finally show ?thesis
        using held_phase [OF ok, of j tok now] held Some by (auto simp: EvComplete phase_of_def)
    qed (use after before in \<open>simp add: EvComplete phase_of_def row_of_complete split: if_splits\<close>)
  next
    case (EvEnqueue job)
    with after before row_of_enqueue [of db job i] show ?thesis
      by (auto simp: phase_of_def row_phase_def)
  next
    case (EvClaim now tok req secs)
    with after before reclaim [of now] row_of_claim [OF inv, of now tok req secs i] show ?thesis
      by (auto simp: phase_of_def row_phase_def start_lease_def)
  next
    case (EvHeartbeat now j tok secs)
    with after before show ?thesis
      by (auto simp: phase_of_def row_of_heartbeat row_phase_def holds_lease_def split: option.splits if_splits)
  next
    case (EvPending now limit)
    with after reclaim [of now] show ?thesis by (simp add: pending_notifications_def Let_def)
  qed (use after before in \<open>simp_all add: phase_of_def\<close>)
qed

lemma done_needs_complete_run:
  assumes "queue_inv used db" "fresh_run event_tokens used evs"
    "phase_of (run_all run_event evs db) i = Done b" "phase_of db i \<noteq> Done b"
  shows "\<exists>now tok sol err. EvComplete now i tok sol err \<in> set evs"
  using assms
proof (induction evs arbitrary: used db)
  case (Cons ev evs)
  then have fresh: "event_tokens ev \<inter> used = {}" "fresh_run event_tokens (event_tokens ev \<union> used) evs"
    by auto
  show ?case
  proof (cases "phase_of (run_event ev db) i = Done b")
    case True
    from done_needs_complete [OF Cons.prems(1) this Cons.prems(4)] show ?thesis by auto
  next
    case False
    from Cons.IH [OF queue_inv_run_event [OF Cons.prems(1) fresh(1)] fresh(2) _ False] Cons.prems(3)
    show ?thesis by auto
  qed
qed simp

text \<open>
  C2: Only the holder of its lease settles a job.  When a request turns an unfinished job into a
  succeeded or failed one, it is the completion of an authenticated worker that presents the job's
  current lease token before the lease expires, or the server's own embedded worker.
\<close>

theorem only_lease_holder_settles:
  assumes "reachable used (sv_jobs s)" "request_tokens rq \<inter> used = {}"
    and "phase_of (sv_jobs s) i \<noteq> Done b" "phase_of (sv_jobs (serve sn rq s)) i = Done b"
  shows "(\<exists>h now c e. rq = WorkerComplete h now i c
            \<and> authenticate_worker (se_config (sn_server sn)) h = Inr ()
            \<and> phase_of (sv_jobs s) i = Leased (wk_lease_token c) e \<and> now < e)
         \<or> (\<exists>t t0 t1 tok. rq = EmbeddedPass t t0 t1 tok)"
proof -
  have inv: "queue_inv used (sv_jobs s)" using assms(1) by (rule reachable_inv)
  from serve_run [of rq s sn] assms(2) obtain evs where evs:
    "sv_jobs (serve sn rq s) = run_all run_event evs (sv_jobs s)" "list_all (request_call rq) evs"
    "fresh_run event_tokens used evs" by (auto simp: jobs_run_def)
  have "phase_of (run_all run_event evs (sv_jobs s)) i = Done b" using assms(4) evs(1) by simp
  from done_needs_complete_run [OF inv evs(3) this assms(3)] evs(2) obtain now tok sol err where
    call: "request_call rq (EvComplete now i tok sol err)" by (auto simp: list_all_iff)
  show ?thesis
  proof (cases rq)
    case (WorkerComplete h now' j c)
    with call have j: "j = i" by simp
    let ?db' = "snd (complete (sv_jobs s) now' i (wk_lease_token c) (wk_solution c) (wk_error c))"
    have "sv_jobs (serve sn rq s) \<noteq> sv_jobs s" using assms(3,4) by auto
    then have "authenticate_worker (se_config (sn_server sn)) h = Inr ()"
      "sv_jobs (serve sn rq s) = ?db'"
      by (auto simp: WorkerComplete j worker_complete_def and_then_def split: sum.splits prod.splits)
    moreover from this(2) assms(4)
    have "phase_of (run_event (EvComplete now' i (wk_lease_token c) (wk_solution c) (wk_error c)) (sv_jobs s)) i = Done b"
      by simp
    from done_needs_complete [OF inv this assms(3)]
    have "\<exists>e. phase_of (sv_jobs s) i = Leased (wk_lease_token c) e \<and> now' < e" by auto
    ultimately show ?thesis using WorkerComplete j by auto
  qed (use call in simp_all)
qed

definition sample_completion :: WorkerCompletion where
  "sample_completion = \<lparr>wk_lease_token = ''t1'', wk_solution = None, wk_error = Some ''no match''\<rparr>"

lemma sample_worker_auth: "authenticate_worker (se_config sample_server_env) (worker_headers ''w'') = Inr ()"
proof -
  have bearer: "strip_prefix ''Bearer '' ''Bearer w'' = Some ''w''" by code_simp
  show ?thesis
    by (simp add: authenticate_worker_def bearer_token_def worker_headers_def header_text_def ok_or_def
        bearer [simplified] and_then_def ensure_def)
qed

theorem only_lease_holder_settles_witness:
  "phase_of (sv_jobs (serve sample_service_env (WorkerComplete (worker_headers ''w'') 20 1 sample_completion)
      (sample_server\<lparr>sv_jobs := leased_db\<rparr>))) 1 = Done False
   \<and> authenticate_worker (se_config sample_server_env) (worker_headers ''w'') = Inr ()
   \<and> (\<exists>e. phase_of leased_db 1 = Leased ''t1'' e \<and> 20 < e)"
proof -
  let ?rq = "WorkerComplete (worker_headers ''w'') 20 1 sample_completion" and ?s = "sample_server\<lparr>sv_jobs := leased_db\<rparr>"
  have env: "sn_server sample_service_env = sample_server_env" by (simp add: sample_service_env_def)
  have "sv_jobs (serve sample_service_env ?rq ?s) = failed_db"
    by (simp add: env worker_complete_def sample_worker_auth sample_completion_def failed_db_def and_then_def split: prod.split)
  then have settled: "phase_of (sv_jobs (serve sample_service_env ?rq ?s)) 1 = Done False"
    using terminal_failed_row(2)
    by (simp add: phase_of_def row_of_def failed_db_jobs row_phase_def)
      (simp add: failed_row_def finish_row_def)
  have before: "phase_of (sv_jobs ?s) 1 \<noteq> Done False"
    by (simp add: phase_of_def row_of_def leased_db_jobs row_phase_def start_lease_def new_row_def queued_job_def
        sample_job_def)
  have "reachable {''t1''} (sv_jobs ?s)" using reachable_leased by simp
  from only_lease_holder_settles [OF this _ before settled] settled sample_worker_auth env show ?thesis
    by (auto simp: sample_completion_def)
qed

end
