(* ===== verification/Service_Properties.thy ===== *)
theory Service_Properties
  imports Service
begin

text \<open>
  What the components of the server achieve together: an image is queued once however often its
  upload is finalized, a submitted image is what the worker reads, a resumable upload belongs to its
  owner alone, and a contributed image outlives the clean-up.
\<close>

section \<open>Queueing a stored image\<close>

lemma enqueue_stored_existing:
  assumes inv: "queue_inv used db" and r: "r \<in> set (db_jobs db)" "r_object_key r = key"
  shows "\<exists>job. enqueue_stored en db now client key name ct options = (Inr job, db) \<and> j_id job = r_id r \<and> j_object_key job = key"
proof -
  from find_by_object_key_row [OF inv r(1)] r(2) obtain job where
    job: "find_by_object_key db key = Inr (Some job)" "j_id job = r_id r" by auto
  then have "j_object_key job = key"
    by (auto simp: find_by_object_key_def fetch_job_def record_from_row_def dest!: select_one_SomeD
        split: option.splits sum.splits if_splits)
  with job show ?thesis by (simp add: enqueue_stored_def)
qed

lemma find_by_object_key_NoneD:
  "find_by_object_key db key = Inr None \<Longrightarrow> r \<in> set (db_jobs db) \<Longrightarrow> r_object_key r \<noteq> key"
  by (auto simp: find_by_object_key_def fetch_job_def select_one_None split: option.splits sum.splits)

lemma find_by_object_key_SomeD:
  assumes "find_by_object_key db key = Inr (Some job)"
  shows "\<exists>r \<in> set (db_jobs db). r_object_key r = key \<and> r_id r = j_id job"
  using assms
  by (auto simp: find_by_object_key_def fetch_job_def dest!: select_one_SomeD record_from_row_id
      split: option.splits sum.splits)

lemma enqueue_stored_added:
  assumes "enqueue_stored en db now client key name ct options = (Inr job, db')"
    and "find_by_object_key db key = Inr None"
  obtains i where "job_id_from_object_key (se_libs en) key = Some i" "j_id job = i"
    "i \<notin> r_id ` set (db_jobs db)" "db_donations db' = db_donations db"
    "db_jobs db' = db_jobs db @ [new_row (queued_job (stored_job i now client key name ct options))]"
proof -
  from assms obtain i where i: "job_id_from_object_key (se_libs en) key = Some i"
    by (auto simp: enqueue_stored_def split: option.splits)
  let ?job = "stored_job i now client key name ct options"
  obtain r db1 where q: "enqueue db ?job = (r, db1)" by force
  with assms i obtain job1 where r: "r = Inr job1" "job1 = job"
    by (auto simp: enqueue_stored_def split: sum.splits)
  have new: "j_object_key ?job = key" "j_id ?job = i" by (simp_all add: stored_job_def)
  have frame: "db_jobs db' = db_jobs db1" "db_donations db' = db_donations db1"
    using assms i q r by (auto simp: enqueue_stored_def mark_notification_delivered_def split: if_splits)
  show ?thesis
  proof (cases rule: enqueue_cases [of db ?job])
    case same
    with q r new find_by_object_key_NoneD [OF assms(2)] show ?thesis by auto
  next
    case added
    with q r new have "j_id job = i" by (auto simp: queued_job_def)
    with added q new frame show ?thesis by (intro that [OF i]) auto
  qed
qed

section \<open>One job per upload\<close>

lemma serve_all_queue:
  assumes "reachable used (sv_jobs s)" "fresh_run request_tokens used rqs"
  obtains evs where "sv_jobs (serve_all sn rqs s) = run_all run_event evs (sv_jobs s)"
    "fresh_run event_tokens used evs" "run_tokens event_tokens used evs \<subseteq> run_tokens request_tokens used rqs"
    "reachable (run_tokens event_tokens used evs) (sv_jobs (serve_all sn rqs s))"
proof -
  from serve_all_run [OF assms(2), of sn s] obtain evs where evs:
    "sv_jobs (serve_all sn rqs s) = run_all run_event evs (sv_jobs s)" "fresh_run event_tokens used evs"
    "run_tokens event_tokens used evs \<subseteq> run_tokens request_tokens used rqs" by blast
  with reachable_run [OF evs(2) assms(1)] show ?thesis by (intro that) auto
qed

lemma stored_job_stays:
  assumes "reachable used (sv_jobs s)" "find_by_object_key (sv_jobs s) key = Inr (Some job)"
    and "fresh_run request_tokens used rqs"
  obtains used' r where "queue_inv used' (sv_jobs (serve_all sn rqs s))"
    "r \<in> set (db_jobs (sv_jobs (serve_all sn rqs s)))" "r_object_key r = key" "r_id r = j_id job"
proof -
  have inv: "queue_inv used (sv_jobs s)" using assms(1) by (rule reachable_inv)
  from serve_all_queue [OF assms(1,3)] obtain evs where
    evs: "sv_jobs (serve_all sn rqs s) = run_all run_event evs (sv_jobs s)" "fresh_run event_tokens used evs"
    and inv': "queue_inv (run_tokens event_tokens used evs) (sv_jobs (serve_all sn rqs s))"
    by (metis reachable_inv)
  from find_by_object_key_SomeD [OF assms(2)] obtain r where
    r: "row_of (sv_jobs s) (j_id job) = Some r" "r_object_key r = key"
    by (auto simp: row_of_Some [OF inv])
  from object_key_kept_run [OF inv r(1) evs(2)] r(2) obtain r' where
    "row_of (sv_jobs (serve_all sn rqs s)) (j_id job) = Some r'" "r_object_key r' = key"
    unfolding evs(1) by metis
  then show ?thesis by (intro that [OF inv', of r']) (simp_all add: row_of_Some [OF inv'])
qed

lemma persisted_job_id:
  assumes inv: "queue_inv used db" and "persisted_job db (PersistedUuid i) = Inr job"
  shows "j_id job = i"
proof -
  from assms(2) have "get_job db i = Inr (Some job)"
    by (simp add: persisted_job_def split: sum.splits option.splits)
  then show ?thesis
    by (auto simp: get_job_def fetch_job_def dest!: select_one_SomeD record_from_row_id
        split: option.splits sum.splits)
qed

lemma persisted_job_key:
  assumes inv: "queue_inv used db" and r: "row_of db i = Some r" and "persisted_job db (PersistedUuid i) = Inr job"
  shows "j_object_key job = r_object_key r"
proof -
  from assms(3) have "get_job db i = Inr (Some job)"
    by (simp add: persisted_job_def split: sum.splits option.splits)
  with r show ?thesis
    by (auto simp: get_job_def fetch_job_def row_of_def record_from_row_def split: option.splits sum.splits if_splits)
qed

text \<open>What finalizing leaves under the key of the image.\<close>

lemma finalized_image:
  assumes store: "se_ops en = local_store" and key: "up_object_key u = d @ ''/'' @ b" "plain b" "CHR ''.'' \<in> set b" "b \<noteq> ''state.json''"
    and held: "upload_ok local_store to_json prfx (up_id u) (sv_store s) u content"
    and new: "up_job_id u = None" and fin: "finalize_resumable en s now u = (Inr job, u', s')"
  shows "local_get (sv_store s') (up_object_key u) = Inr content"
proof -
  let ?st = "cf_s3_prefix (se_config en)"
  from fin new obtain options' st1 u2 st2 where
    comp: "compose_upload local_store (sv_store s) now (u\<lparr>up_options := options'\<rparr>) = (Inr (), st1)"
    and u2: "u2 = u\<lparr>up_options := options', up_job_id := Some (PersistedUuid (j_id job))\<rparr>"
    and saved: "save local_store (se_to_json en) st1 now ?st u2 = (Inr (), st2)"
    and store': "sv_store s' = snd (save local_store (se_to_json en) (snd (cleanup_chunks local_store st2 u2)) now ?st
      (fst (cleanup_chunks local_store st2 u2)))"
    by (auto simp: finalize_resumable_def Let_def store split: sum.splits prod.splits)
  let ?u1 = "u\<lparr>up_options := options'\<rparr>"
  from held have chunks: "holds_chunks local_store (sv_store s) (up_chunks ?u1) content" "laid_out prfx (up_id u) 0 (up_chunks ?u1)"
    by (simp_all add: upload_ok_def)
  have key1: "up_object_key ?u1 = d @ ''/'' @ b" by (simp add: key(1))
  note kept = local_disk.save_keeps_object [OF _ key(2,4), of _ _ _ _ _ _ _ d, unfolded local_store_simps]
  have st1: "local_get st1 (d @ ''/'' @ b) = Inr content"
    using local_disk.composed_chunks(1) [OF chunks key1 key(2,3) comp] key1 by simp
  have st2: "local_get st2 (d @ ''/'' @ b) = Inr content" using kept [OF saved] st1 by simp
  have "\<forall>p \<in> set (up_chunks u). \<not> same_path (sp_key p) (d @ ''/'' @ b)"
    using laid_out_keys [OF chunks(2)] local_disk.object_not_chunk(3) [OF key(2,3)] by simp metis
  from local_disk.fold_delete_frame [OF this, of st2] st2
  have "local_get (snd (cleanup_chunks local_store st2 u2)) (d @ ''/'' @ b) = Inr content"
    by (simp add: cleanup_chunks_def u2)
  with kept [OF surjective_pairing] show ?thesis unfolding store' key(1) by simp
qed

text \<open>
  C5: An upload is queued once.  Once finalizing an upload has queued a job for its image - also when
  the server then failed to record it or to answer - every later finalization, whatever the server
  has done in between, returns that job, with the key of the image, and leaves the queue as it is; and
  under that key lie exactly the uploaded bytes.  These are what the chunks of the upload hold when
  it is still to be recorded, and what the image holds when it has been: a repeated
  finalization composes the image again, records it and removes the chunks without changing what is
  read.  The store is the local one.
\<close>

theorem finalized_upload_has_one_job:
  assumes "reachable used (sv_jobs s)" "find_by_object_key (sv_jobs s) (up_object_key u) = Inr (Some job)"
    and "fresh_run request_tokens used rqs"
    and "up_job_id u = None \<or> up_job_id u = Some (PersistedUuid (j_id job))"
    and "se_ops en = local_store"
    and "up_object_key u = d @ ''/'' @ b" "plain b" "CHR ''.'' \<in> set b" "b \<noteq> ''state.json''"
    and "if up_job_id u = None
         then upload_ok local_store (se_to_json en) prfx (up_id u) (sv_store (serve_all sn rqs s)) u content
         else local_get (sv_store (serve_all sn rqs s)) (up_object_key u) = Inr content"
    and "finalize_resumable en (serve_all sn rqs s) now u = (Inr again, u', s')"
  shows "j_id again = j_id job \<and> j_object_key again = up_object_key u
    \<and> sv_jobs s' = sv_jobs (serve_all sn rqs s)
    \<and> local_get (sv_store s') (up_object_key u) = Inr content"
proof -
  let ?s = "serve_all sn rqs s"
  from stored_job_stays [OF assms(1,2,3)] obtain used' r where inv: "queue_inv used' (sv_jobs ?s)"
    and r: "r \<in> set (db_jobs (sv_jobs ?s))" "r_object_key r = up_object_key u" "r_id r = j_id job" by metis
  then have row: "row_of (sv_jobs ?s) (j_id job) = Some r" by (simp add: row_of_Some [OF inv])
  show ?thesis
  proof (cases "up_job_id u")
    case (Some p)
    with assms(4,11) have "persisted_job (sv_jobs ?s) (PersistedUuid (j_id job)) = Inr again" "s' = ?s"
      by (auto simp: finalize_resumable_def)
    with persisted_job_id [OF inv] persisted_job_key [OF inv row] r(2) assms(10) Some show ?thesis by auto
  next
    case None
    have existing: "j_id j = j_id job \<and> j_object_key j = up_object_key u \<and> db' = sv_jobs ?s"
      if "enqueue_stored en (sv_jobs ?s) now client (up_object_key u) name ct options = (Inr j, db')"
      for client name ct options j db'
      using enqueue_stored_existing [OF inv r(1,2), of en now client name ct options] r(3) that by auto
    have "j_id again = j_id job \<and> j_object_key again = up_object_key u \<and> sv_jobs s' = sv_jobs ?s"
      using assms(11) None
      by (auto simp: finalize_resumable_def Let_def split: sum.splits prod.splits dest!: existing)
    moreover have "local_get (sv_store s') (up_object_key u) = Inr content"
      using assms(10) None by (intro finalized_image [OF assms(5-9) _ None assms(11)]) simp
    ultimately show ?thesis by simp
  qed
qed

lemma sample_job_key: "job_id_from_object_key sample_libs ''public-1/token.fits'' = Some 1"
  by code_simp

lemma sample_kind:
  "looks_like_fits [10, 11, 12] ''m31.fits'' = True" "looks_like_xisf [10, 11, 12] ''m31.fits'' = False"
  "begins_with [10, 11, 12] ''SIMPLE  '' = False"
  by code_simp+

lemma sample_full_simps [simp]:
  "up_id sample_full = ''id''" "up_job_id sample_full = None" "up_object_key sample_full = ''public-1/token.fits''"
  "up_original_filename sample_full = ''m31.fits''" "up_options sample_full = default_options"
  "up_offset sample_full = 3" "up_total_size sample_full = 3"
  "up_chunks sample_full = [\<lparr>sp_key = chunk_key '''' ''id'' 0, sp_size = 3\<rparr>]"
  by (simp_all add: sample_full_def) (simp_all add: sample_upload_def new_upload_def)

lemma sample_range: "local_get_range sample_received (chunk_key '''' ''id'' 0) 0 3 = Inr [10, 11, 12]"
  by (simp add: local_get_range_def sample_received_def sample_paths disk_eval)

lemma sample_prefix: "3 \<le> limit \<Longrightarrow> read_prefix local_store sample_received sample_full limit = Inr [10, 11, 12]"
  by (simp add: read_prefix_def sample_range Let_def min_absorb1)

lemma sample_header_prefix: "header_prefix sample_server_env sample_received sample_full = Inr [10, 11, 12]"
  by (simp add: header_prefix_def fits_header_probe_bytes_def image_header_probe_bytes_def sample_kind sample_prefix)

lemma sample_prepare: "prepare_from_prefix (sample_header_libs []) default_options [10, 11, 12] ''m31.fits'' n = default_options"
  by (simp add: sample_eval image_headers_def sample_kind)

lemma sample_composed:
  "compose_upload local_store sample_received now sample_full = (Inr (), snd (compose_upload local_store sample_received now sample_full))"
  "\<exists>st. save local_store sample_to_json (snd (compose_upload local_store sample_received now sample_full)) now [] u = (Inr (), st)"
  if "up_id u = ''id''"
  using that
  by (simp_all add: compose_upload_def save_def sample_received_def sample_paths disk_eval Let_def)

lemma sample_finalize:
  assumes "sv_store s = sample_received"
    and "\<And>client. enqueue_stored sample_server_env (sv_jobs s) now client ''public-1/token.fits'' ''m31.fits''
           (up_content_type sample_full) default_options = (Inr job, db)"
  shows "\<exists>u' s'. finalize_resumable sample_server_env s now sample_full = (Inr job, u', s')"
proof -
  obtain st where st: "compose_upload local_store sample_received now sample_full = (Inr (), st)"
    using sample_composed(1) [of sample_full] by auto
  let ?u = "sample_full\<lparr>up_job_id := Some (PersistedUuid (j_id job))\<rparr>"
  obtain st' where st': "save local_store sample_to_json st now [] ?u = (Inr (), st')"
    using sample_composed(2) [of ?u now] st by auto
  have same: "sample_full\<lparr>up_options := default_options\<rparr> = sample_full"
    by (simp add: sample_full_def sample_upload_def new_upload_def)
  show ?thesis
    using assms sample_header_prefix st st'
    by (simp add: finalize_resumable_def sample_prepare same Let_def default_options_valid split: prod.split)
qed

lemma sample_queued_found: "find_by_object_key sample_queued_db ''public-1/token.fits''
   = Inr (Some (queued_job (sample_job 1 ''a'' ''public-1/token.fits'' 0)))"
  by (simp add: sample_queued_db_def empty_db_def enqueue_def queue_eval find_by_object_key_def fetch_job_def
      validation_donation_def)

lemma worker_claim_store [simp]: "sv_store (snd (worker_claim en s h now tok req)) = sv_store s"
  by (simp add: worker_claim_def claim_response_def split: sum.split prod.split)

lemma sample_received_ok: "upload_ok local_store sample_to_json '''' ''id'' sample_received sample_full [10, 11, 12]"
  by (simp add: upload_ok_def chunk_held_def sample_received_def sample_paths disk_eval local_get_def)

theorem finalized_upload_has_one_job_witness:
  "\<exists>again u' s'. finalize_resumable sample_server_env (serve_all sample_service_env sample_claims sample_server) 20 sample_full
       = (Inr again, u', s') \<and> j_id again = 1 \<and> local_get (sv_store s') ''public-1/token.fits'' = Inr [10, 11, 12]"
proof -
  let ?s = "serve_all sample_service_env sample_claims sample_server"
  have reach: "reachable {} (sv_jobs sample_server)" and fresh: "fresh_run request_tokens {} sample_claims"
    and found: "find_by_object_key (sv_jobs sample_server) (up_object_key sample_full)
      = Inr (Some (queued_job (sample_job 1 ''a'' ''public-1/token.fits'' 0)))"
    by (simp_all add: sample_server_def sample_claims_def reachable_sample_queued sample_queued_found)
  have store: "sv_store ?s = sample_received"
    by (simp add: serve_all_def sample_claims_def sample_server_def)
  from stored_job_stays [OF reach found fresh, of sample_service_env] obtain used' r where
    inv: "queue_inv used' (sv_jobs ?s)"
    and r: "r \<in> set (db_jobs (sv_jobs ?s))" "r_object_key r = ''public-1/token.fits''"
    unfolding sample_full_simps by metis
  obtain job where "enqueue_stored sample_server_env (sv_jobs ?s) 20 client ''public-1/token.fits'' ''m31.fits''
      (up_content_type sample_full) default_options = (Inr job, sv_jobs ?s)" for client
    using find_by_object_key_row [OF inv r(1)] r(2) by (auto simp: enqueue_stored_def)
  from sample_finalize [OF store this] obtain u' s' where
    f: "finalize_resumable sample_server_env ?s 20 sample_full = (Inr job, u', s')" by blast
  have ok: "upload_ok local_store (se_to_json sample_server_env) '''' (up_id sample_full) (sv_store ?s) sample_full [10, 11, 12]"
    using sample_received_ok by (simp add: store sample_server_env_def)
  have key: "up_object_key sample_full = ''public-1'' @ ''/'' @ ''token.fits''" by simp
  have "j_id job = 1 \<and> j_object_key job = up_object_key sample_full \<and> sv_jobs s' = sv_jobs ?s
    \<and> local_get (sv_store s') (up_object_key sample_full) = Inr [10, 11, 12]"
    using finalized_upload_has_one_job [OF reach found fresh _ _ key, of sample_server_env "''''" sample_service_env "[10, 11, 12]" 20 job u' s']
      ok f by (simp add: plain_def queued_job_def sample_job_def)
  with f show ?thesis by auto
qed

section \<open>The worker reads what was submitted\<close>

text \<open>Requests of workers, and submissions of other images: their storage token is another fresh one.\<close>

fun submits_elsewhere :: "uuid \<Rightarrow> service_request \<Rightarrow> bool" where
  "submits_elsewhere token (SubmitImage _ _ _ token' _ _ _) = (token' \<noteq> token)"
| "submits_elsewhere token rq = of_worker rq"

lemma dotted_inj:
  assumes "a @ ''.'' @ e = a' @ ''.'' @ e'" "CHR ''.'' \<notin> set e" "CHR ''.'' \<notin> set e'"
  shows "a = a'"
proof -
  have drop: "dropWhile (\<lambda>c. c \<noteq> CHR ''.'') (rev (b @ ''.'' @ f)) = CHR ''.'' # rev b"
    if "CHR ''.'' \<notin> set f" for b f
  proof -
    have "dropWhile (\<lambda>c. c \<noteq> CHR ''.'') (rev f @ CHR ''.'' # rev b) = CHR ''.'' # rev b"
      using that by (subst dropWhile_append2) auto
    then show ?thesis by simp
  qed
  from drop [OF assms(2), of a] drop [OF assms(3), of a'] have "CHR ''.'' # rev a = CHR ''.'' # rev a'"
    unfolding assms(1) by (rule box_equals [OF refl])
  then show ?thesis by simp
qed

lemma safe_extension_chars: "CHR ''.'' \<notin> set (safe_extension f)" "safe_extension f \<noteq> []" "length (safe_extension f) \<ge> 3"
  by (simp_all add: safe_extension_def Let_def)

lemma stored_name_plain: "uuid_text lib \<Longrightarrow> plain (lib_uuid_str lib token @ ''.'' @ safe_extension f)"
  using uuid_textD(2) [of lib token] safe_extension_plain [of f] safe_extension_chars(3) [of f]
  by (auto simp: plain_def dest: arg_cong [where f = length])

lemma other_token_other_path:
  assumes "uuid_text lib" "token' \<noteq> token"
  shows "\<not> same_path (new_object_key lib cf i' token' f') (new_object_key lib cf i token f)"
proof
  let ?b = "\<lambda>t f. lib_uuid_str lib t @ ''.'' @ safe_extension f"
  assume "same_path (new_object_key lib cf i' token' f') (new_object_key lib cf i token f)"
  moreover obtain d where "new_object_key lib cf i token f = d @ ''/'' @ ?b token f"
    using new_object_key_shape [of lib cf i token f] by (metis append.assoc)
  moreover obtain d' where "new_object_key lib cf i' token' f' = d' @ ''/'' @ ?b token' f'"
    using new_object_key_shape [of lib cf i' token' f'] by (metis append.assoc)
  ultimately have "?b token' f' = ?b token f"
    using local_disk.same_names [OF stored_name_plain [OF assms(1)] stored_name_plain [OF assms(1)]] by metis
  from dotted_inj [OF this] safe_extension_chars(1) have "lib_uuid_str lib token' = lib_uuid_str lib token" by metis
  then have "Some token' = Some token" using uuid_textD(1) [OF assms(1)] by metis
  with assms(2) show False by simp
qed

lemma submit_job_InrD:
  assumes "submit_job en s instant now i token client upload options0 = (Inr job, s1)"
  obtains options where
    "os_put (se_ops en) (sv_store s) now (new_object_key (se_libs en) (se_config en) i token (uf_filename upload))
       (uf_data upload) (uf_content_type upload) = (Inr (), sv_store s1)"
    "enqueue_stored en (sv_jobs s) now client (new_object_key (se_libs en) (se_config en) i token (uf_filename upload))
       (uf_filename upload) (uf_content_type upload) options = (Inr job, sv_jobs s1)"
  using assms by (auto simp: submit_job_def Let_def split: sum.splits prod.splits)

lemma submit_job_store:
  "submit_job en s instant now i token client upload options0 = (r, s1) \<Longrightarrow>
   sv_store s1 = sv_store s
   \<or> sv_store s1 = snd (os_put (se_ops en) (sv_store s) now
        (new_object_key (se_libs en) (se_config en) i token (uf_filename upload))
        (uf_data upload) (uf_content_type upload))"
  by (auto simp: submit_job_def Let_def split: sum.splits prod.splits)

lemma worker_store:
  assumes "of_worker rq"
  shows "sv_store (serve sn rq s) = sv_store s"
  using assms
  by (cases rq) (auto simp: worker_heartbeat_def worker_complete_def embedded_pass_def run_embedded_job_def
      Let_def split: sum.split prod.split option.split)

lemma object_survives:
  assumes "se_ops (sn_server sn) = local_store" "uuid_text (se_libs (sn_server sn))"
    and "list_all (submits_elsewhere token) rqs"
    and key: "key = new_object_key (se_libs (sn_server sn)) (se_config (sn_server sn)) i token f"
    and "local_get (sv_store s) key = Inr data"
  shows "local_get (sv_store (serve_all sn rqs s)) key = Inr data"
  using assms(3,5)
proof (induction rqs arbitrary: s)
  case Nil
  then show ?case by (simp add: serve_all_def)
next
  case (Cons rq rqs)
  have "local_get (sv_store (serve sn rq s)) key = Inr data"
  proof (cases "of_worker rq")
    case True
    from worker_store [OF this, of sn s] Cons.prems show ?thesis by simp
  next
    case False
    with Cons.prems obtain instant now i' token' client upload options where
      rq: "rq = SubmitImage instant now i' token' client upload options" "token' \<noteq> token"
      by (cases rq) auto
    obtain r s1 where sub: "submit_job (sn_server sn) s instant now i' token' client upload options = (r, s1)" by force
    let ?k = "new_object_key (se_libs (sn_server sn)) (se_config (sn_server sn)) i' token' (uf_filename upload)"
    obtain res st where put: "local_put (sv_store s) now ?k (uf_data upload) (uf_content_type upload) = (res, st)" by force
    have "local_get st key = local_get (sv_store s) key"
      using local_disk.put_frame [of "sv_store s" now ?k "uf_data upload" "uf_content_type upload" res st key] put
        other_token_other_path [OF assms(2) rq(2)] by (simp add: key)
    with submit_job_store [OF sub] Cons.prems put sub rq(1) assms(1) show ?thesis by auto
  qed
  with Cons show ?case by (simp add: serve_all_def)
qed

lemma queued_has_no_donation:
  assumes inv: "queue_inv used db" and "row_of db i = Some r" "\<not> terminal r"
  shows "select_one (\<lambda>d. d_job_id d = i) (db_donations db) = None"
proof -
  have "d_job_id d \<noteq> i" if "d \<in> set (db_donations db)" for d
  proof
    assume "d_job_id d = i"
    with queue_invD(7) [OF inv] that obtain r' where "r' \<in> set (db_jobs db)" "r_id r' = i" "terminal r'"
      by (auto simp: donations_ok_def)
    with assms(2,3) row_of_Some [OF inv, of i r'] show False by auto
  qed
  then show ?thesis by (simp add: select_one_None)
qed

lemma held_input_key:
  assumes inv: "queue_inv used db" and row: "row_of db i = Some r" and held: "holds_lease i tok now r"
    and none: "select_one (\<lambda>d. d_job_id d = i) (db_donations db) = None"
  shows "input_key db now i tok = Some (r_object_key r)"
proof -
  have r: "r \<in> set (db_jobs db)" "r_id r = i" using row by (simp_all add: row_of_Some [OF inv])
  have "select_one (holds_lease i tok now) (db_jobs db) = Some r"
  proof (cases "select_one (holds_lease i tok now) (db_jobs db)")
    case None
    with r(1) held show ?thesis by (auto simp: select_one_None)
  next
    case (Some q)
    from select_one_SomeD [OF Some] have "q \<in> set (db_jobs db)" "r_id q = i" by (simp_all add: holds_lease_def)
    with row_unique [OF inv this(1) r(1)] r(2) Some show ?thesis by simp
  qed
  with none r(2) show ?thesis by (simp add: input_key_def)
qed

lemma claimed_input_key:
  assumes "reachable used db" "tok \<notin> used" "fst (claim db t tok req secs) = Inr (Some l)"
    and "row_of db (jl_job_id l) = Some r" "t' < jl_lease_expires_at l"
  shows "input_key (snd (claim db t tok req secs)) t' (jl_job_id l) tok = Some (r_object_key r)"
proof -
  let ?db = "snd (claim db t tok req secs)"
  have inv: "queue_inv used db" using assms(1) by (rule reachable_inv)
  have cinv: "queue_inv (insert tok used) ?db" using inv assms(2) by (rule queue_inv_claim)
  from claim_LeasedD [OF inv assms(3)] obtain q e where
    q: "row_of ?db (jl_job_id l) = Some (start_lease t tok e q)" "r_id q = jl_job_id l" "jl_lease_expires_at l = e"
    by metis
  have held: "holds_lease (jl_job_id l) tok t' (start_lease t tok e q)"
    using q(2,3) assms(5) by (simp add: holds_lease_def start_lease_def)
  from object_key_kept [OF inv assms(4), of "EvClaim t tok req secs"] q(1)
  have "r_object_key (start_lease t tok e q) = r_object_key r" by simp
  moreover have "\<not> terminal (start_lease t tok e q)" by (simp add: terminal_def start_lease_def)
  ultimately show ?thesis
    using held_input_key [OF cinv q(1) held queued_has_no_donation [OF cinv q(1)]] by simp
qed

text \<open>
  C1: The worker solves the image that was submitted.  When a submission is accepted under a fresh
  key, then whatever workers do and whatever other images are submitted in between, the worker that
  claims its job reads exactly the bytes that were submitted, as long as its lease lasts.
\<close>

theorem submitted_image_reaches_worker:
  assumes "reachable used (sv_jobs s)" "se_ops (sn_server sn) = local_store" "uuid_text (se_libs (sn_server sn))"
    and "submit_job (sn_server sn) s instant now i token client upload options = (Inr job, s1)"
    and "find_by_object_key (sv_jobs s) (new_object_key (se_libs (sn_server sn)) (se_config (sn_server sn)) i token
           (uf_filename upload)) = Inr None"
    and "list_all (submits_elsewhere token) rqs" "fresh_run request_tokens used rqs"
    and "worker_claim (sn_server sn) (serve_all sn rqs s1) h t tok req = (Inr (Some l), s2)"
    and "tok \<noteq> []" "tok \<notin> run_tokens request_tokens used rqs" "jl_job_id l = j_id job"
    and "authenticate_worker (se_config (sn_server sn)) h' = Inr ()"
    and "header_text h' ''x-seiza-lease-token'' = Some tok" "t' < jl_lease_expires_at l"
  shows "worker_input (sn_server sn) s2 h' t' i = Inr (uf_data upload) \<and> j_id job = i"
proof -
  let ?en = "sn_server sn" and ?sub = "SubmitImage instant now i token client upload options"
  let ?key = "new_object_key (se_libs ?en) (se_config ?en) i token (uf_filename upload)"
  let ?s = "serve_all sn rqs s1"
  from submit_job_InrD [OF assms(4)] obtain options' where
    put: "local_put (sv_store s) now ?key (uf_data upload) (uf_content_type upload) = (Inr (), sv_store s1)"
    and enq: "enqueue_stored ?en (sv_jobs s) now client ?key (uf_filename upload) (uf_content_type upload) options'
      = (Inr job, sv_jobs s1)" unfolding assms(2) local_store_simps by blast
  have id: "j_id job = i" and rows1: "db_jobs (sv_jobs s1) = db_jobs (sv_jobs s) @ [new_row (queued_job
      (stored_job i now client ?key (uf_filename upload) (uf_content_type upload) options'))]"
    using enqueue_stored_added [OF enq assms(5)] new_object_key_names_job [OF assms(3)]
    by (metis option.inject)+
  have data: "local_get (sv_store ?s) ?key = Inr (uf_data upload)"
    using local_disk.put_ok [unfolded local_store_simps, OF put]
    by (intro object_survives [OF assms(2,3,6) refl]) simp
  have sub: "fresh_run request_tokens used [?sub]" "serve_all sn [?sub] s = s1"
    "run_tokens request_tokens used [?sub] = used" using assms(4) by (simp_all add: serve_all_def)
  obtain used1 where reach1: "reachable used1 (sv_jobs s1)" and used1: "used1 \<subseteq> used"
    using serve_all_queue [OF assms(1) sub(1), of sn] unfolding sub(2,3) by blast
  note fresh = fresh_run_less [OF assms(7) used1]
  have inv1: "queue_inv used1 (sv_jobs s1)" using reach1 by (rule reachable_inv)
  have row1: "\<exists>r. row_of (sv_jobs s1) i = Some r \<and> r_object_key r = ?key"
    by (auto simp: row_of_Some [OF inv1] rows1 stored_job_def)
  from serve_all_queue [OF reach1 conjunct1 [OF fresh], of sn] obtain evs where
    evs: "sv_jobs ?s = run_all run_event evs (sv_jobs s1)" "fresh_run event_tokens used1 evs"
    "run_tokens event_tokens used1 evs \<subseteq> run_tokens request_tokens used1 rqs"
    and reach: "reachable (run_tokens event_tokens used1 evs) (sv_jobs ?s)" by blast
  from row1 object_key_kept_run [OF inv1 _ evs(2)] evs(1) obtain r where
    row: "row_of (sv_jobs ?s) i = Some r" "r_object_key r = ?key" by metis
  have unused: "tok \<notin> run_tokens event_tokens used1 evs" using evs(3) fresh assms(10) by blast
  have claim: "fst (claim (sv_jobs ?s) t tok req (cf_lease_seconds (se_config ?en))) = Inr (Some l)"
    "sv_jobs s2 = snd (claim (sv_jobs ?s) t tok req (cf_lease_seconds (se_config ?en)))" "sv_store s2 = sv_store ?s"
    using assms(8) by (auto simp: worker_claim_def claim_response_def map_sum_Inr split: sum.splits prod.splits)
  have "input_key (sv_jobs s2) t' i tok = Some ?key"
    using claimed_input_key [OF reach unused claim(1) _ assms(14)] row assms(11) id claim(2) by simp
  then show ?thesis
    using data assms(2,9,12,13) id claim(3) by (simp add: worker_input_def)
qed

definition fresh_server :: "LocalStore Server" where
  "fresh_server = \<lparr>sv_jobs = empty_db, sv_store = new_local_store, sv_buckets = [], sv_identity = empty_identity_db\<rparr>"

definition sample_file :: UploadedFile where
  "sample_file = \<lparr>uf_filename = ''m31.fits'', uf_content_type = None, uf_data = [10, 11, 12]\<rparr>"

definition sample_client :: Client where
  "sample_client = \<lparr>cl_id = ''a'', cl_queue_weight = Fin 1\<rparr>"

definition submitted_server :: "LocalStore Server" where
  "submitted_server = snd (submit_job sample_server_env fresh_server 0 0 7 9 sample_client sample_file default_options)"

lemma sample_key: "new_object_key sample_libs (se_config sample_server_env) 7 9 ''m31.fits'' = ''public-7/9.fits''"
proof -
  have "trim_matches (CHR ''/'') '''' = ''''" "lib_uuid_str sample_libs 7 = ''7''" "lib_uuid_str sample_libs 9 = ''9''"
    "safe_extension ''m31.fits'' = ''fits''" by code_simp+
  then show ?thesis by (simp add: new_object_key_def Let_def)
qed

lemma sample_put: "\<exists>st. local_put new_local_store 0 ''public-7/9.fits'' data ct = (Inr (), st)"
proof -
  have "path_for ''public-7/9.fits'' = Inr [''public-7'', ''9.fits'']" by code_simp
  then show ?thesis by (simp add: new_local_store_def disk_eval)
qed

definition sample_image_job :: JobRecord where
  "sample_image_job = sample_job 7 ''a'' ''public-7/9.fits'' 0"

lemma sample_enqueue:
  "\<exists>db. enqueue_stored sample_server_env empty_db 0 sample_client ''public-7/9.fits'' ''m31.fits'' None default_options
   = (Inr (queued_job sample_image_job), db) \<and> db_jobs db = [new_row (queued_job sample_image_job)]"
proof -
  have key: "job_id_from_object_key sample_libs ''public-7/9.fits'' = Some 7" by code_simp
  have job: "stored_job 7 0 sample_client ''public-7/9.fits'' ''m31.fits'' None default_options = sample_image_job"
    by (simp add: stored_job_def sample_job_def sample_client_def sample_image_job_def)
  have id: "j_id sample_image_job = 7" by (simp add: sample_image_job_def sample_job_def)
  have "astrometry_id_for_job 7 = 7" by code_simp
  with id have "fst (enqueue empty_db sample_image_job) = Inr (queued_job sample_image_job)"
    "db_jobs (snd (enqueue empty_db sample_image_job)) = [new_row (queued_job sample_image_job)]"
    by (simp_all add: enqueue_def empty_db_def Let_def queued_job_def)
  then obtain db where "enqueue empty_db sample_image_job = (Inr (queued_job sample_image_job), db)"
    "db_jobs db = [new_row (queued_job sample_image_job)]"
    by (metis prod.collapse)
  moreover have "find_by_object_key empty_db k = Inr None" for k
    by (simp add: find_by_object_key_def fetch_job_def empty_db_def)
  ultimately show ?thesis by (simp add: enqueue_stored_def key job)
qed

lemma sample_submit:
  "submit_job sample_server_env fresh_server 0 0 7 9 sample_client sample_file default_options
   = (Inr (queued_job sample_image_job), submitted_server)"
  "db_jobs (sv_jobs submitted_server) = [new_row (queued_job sample_image_job)]"
proof -
  have limit: "check (new_limiter 60 5) [] ''a'' 0 = (Inr (), [(''a'', \<lparr>tokens = 4, updated_at = 0\<rparr>)])"
    by code_simp
  have client: "cl_id sample_client = ''a''" by (simp add: sample_client_def)
  obtain st where put: "local_put new_local_store 0 ''public-7/9.fits'' [10, 11, 12] None = (Inr (), st)"
    using sample_put by blast
  obtain db where enq: "enqueue_stored sample_server_env empty_db 0 sample_client ''public-7/9.fits'' ''m31.fits'' None
      default_options = (Inr (queued_job sample_image_job), db)"
    "db_jobs db = [new_row (queued_job sample_image_job)]" using sample_enqueue by blast
  have f: "fst (submit_job sample_server_env fresh_server 0 0 7 9 sample_client sample_file default_options)
      = Inr (queued_job sample_image_job)
    \<and> sv_jobs (snd (submit_job sample_server_env fresh_server 0 0 7 9 sample_client sample_file default_options)) = db"
    by (simp add: submit_job_def sample_file_def prepare_solve_options_def sample_prepare default_options_valid
        Let_def client fresh_server_def limit sample_key put enq(1))
  from conjunct1 [OF f] show "submit_job sample_server_env fresh_server 0 0 7 9 sample_client sample_file default_options
      = (Inr (queued_job sample_image_job), submitted_server)"
    unfolding submitted_server_def by (metis prod.collapse)
  from conjunct2 [OF f] enq(2) show "db_jobs (sv_jobs submitted_server) = [new_row (queued_job sample_image_job)]"
    unfolding submitted_server_def by simp
qed

definition sample_image_lease :: JobLease where
  "sample_image_lease = \<lparr>jl_job_id = 7, jl_lease_token = ''t1'', jl_lease_expires_at = 60000000010,
     jl_original_filename = ''m31.fits'', jl_options = default_options\<rparr>"

lemma sample_image_claim:
  assumes "db_jobs db = [new_row (queued_job sample_image_job)]"
  shows "fst (claim db 10 ''t1'' (Some 7) 60) = Inr (Some sample_image_lease)"
proof -
  have "astrometry_id_for_job 7 = 7" by code_simp
  with assms show ?thesis by (simp add: queue_eval sample_image_job_def sample_image_lease_def)
qed

theorem submitted_image_reaches_worker_witness:
  "\<exists>s2. worker_claim sample_server_env (serve_all sample_service_env [WorkerClaim [] 5 ''t0'' None] submitted_server)
          (worker_headers ''w'') 10 ''t1'' (Some 7) = (Inr (Some sample_image_lease), s2)
     \<and> worker_input sample_server_env s2
         (worker_headers ''w'' @ [(''x-seiza-lease-token'', Some ''t1'')]) 20 7 = Inr [10, 11, 12]"
proof -
  let ?s = "serve_all sample_service_env [WorkerClaim [] 5 ''t0'' None] submitted_server"
  have same: "?s = submitted_server"
    by (simp add: serve_all_def sample_service_env_def worker_claim_def authenticate_worker_def bearer_token_def
        header_text_def ok_or_def and_then_def ensure_def)
  have bearer: "strip_prefix ''Bearer '' ''Bearer w'' = Some ''w''" by code_simp
  have auth: "authenticate_worker (se_config sample_server_env) (worker_headers ''w'') = Inr ()"
    "authenticate_worker (se_config sample_server_env)
       (worker_headers ''w'' @ [(''x-seiza-lease-token'', Some ''t1'')]) = Inr ()"
    "header_text (worker_headers ''w'' @ [(''x-seiza-lease-token'', Some ''t1'')]) ''x-seiza-lease-token'' = Some ''t1''"
    by (simp_all add: authenticate_worker_def bearer_token_def worker_headers_def header_text_def ok_or_def
        bearer [simplified] and_then_def ensure_def)
  obtain s2 where claim: "worker_claim sample_server_env ?s (worker_headers ''w'') 10 ''t1'' (Some 7)
      = (Inr (Some sample_image_lease), s2)"
    using sample_image_claim [OF sample_submit(2)]
    by (cases "claim (sv_jobs submitted_server) 10 ''t1'' (Some 7) 60")
      (simp add: same worker_claim_def auth claim_response_def)
  have env: "sn_server sample_service_env = sample_server_env" by (simp add: sample_service_env_def)
  have none: "find_by_object_key (sv_jobs fresh_server) k = Inr None" for k
    by (simp add: fresh_server_def find_by_object_key_def fetch_job_def empty_db_def)
  have start: "reachable {} (sv_jobs fresh_server)" using reachable.start by (simp add: fresh_server_def)
  have run: "list_all (submits_elsewhere 9) [WorkerClaim [] 5 ''t0'' None]"
    "fresh_run request_tokens {} [WorkerClaim [] 5 ''t0'' None]" "''t1'' \<noteq> []"
    "''t1'' \<notin> run_tokens request_tokens {} [WorkerClaim [] 5 ''t0'' None]" by simp_all
  have lease: "jl_job_id sample_image_lease = j_id (queued_job sample_image_job)" "20 < jl_lease_expires_at sample_image_lease"
    by (simp_all add: sample_image_lease_def queued_job_def sample_image_job_def sample_job_def)
  note hyps = submitted_image_reaches_worker [where sn = sample_service_env, unfolded env, OF start _ _ sample_submit(1) none
      run(1,2) claim run(3,4) lease(1) auth(2,3) lease(2)]
  from hyps sample_libs_uuid_text have "worker_input sample_server_env s2
         (worker_headers ''w'' @ [(''x-seiza-lease-token'', Some ''t1'')]) 20 7 = Inr (uf_data sample_file)"
    by (simp only: sample_server_env_simps)
  with claim show ?thesis by (simp add: sample_file_def)
qed

section \<open>An upload belongs to its owner\<close>

lemma request_client_frame:
  "request_client en s h now m sf = (r, s') \<Longrightarrow> sv_store s' = sv_store s \<and> sv_jobs s' = sv_jobs s"
  by (auto simp: request_client_def split: prod.splits)

lemma load_upload_frame: "sv_store s' = sv_store s \<Longrightarrow> load_upload en s' i = load_upload en s i"
  by (simp add: load_upload_def)

definition upload_missing :: "'s ServerEnv \<Rightarrow> 's Server \<Rightarrow> string \<Rightarrow> bool" where
  "upload_missing en s i = (load_upload en s i = Inl (not_found_message ''upload session not found''))"

definition upload_foreign :: "'s ServerEnv \<Rightarrow> 's Server \<Rightarrow> Headers \<Rightarrow> time \<Rightarrow> string \<Rightarrow> bool" where
  "upload_foreign en s h now i = (\<exists>u. load_upload en s i = Inr u
     \<and> (\<forall>m client s'. request_client en s h now m (Some (public_solve_surface h)) = (Inr client, s')
                       \<longrightarrow> up_owner u \<noteq> cl_id client))"

lemma not_owned:
  assumes "upload_missing en s i \<or> upload_foreign en s h now i"
    and "request_client en s h now m (Some (public_solve_surface h)) = (Inr client, s')"
  shows "owned_upload en s' client i = Inl (not_found_message ''upload session not found'')"
proof -
  from request_client_frame [OF assms(2)] have same: "load_upload en s' i = load_upload en s i"
    by (intro load_upload_frame) simp
  have "cl_id client \<noteq> up_owner u" if "upload_foreign en s h now i" "load_upload en s i = Inr u" for u
    using that assms(2) unfolding upload_foreign_def by (metis sum.inject(2))
  with assms(1) show ?thesis
    unfolding owned_upload_def same upload_missing_def ensure_upload_owner_def
    by (cases "load_upload en s i") (auto simp: ensure_def and_then_def upload_foreign_def)
qed

text \<open>The answer to a client that owns no such upload.\<close>

lemma not_owned_answers:
  assumes "\<forall>m client s'. request_client en s h now m (Some (public_solve_surface h)) = (Inr client, s')
             \<longrightarrow> owned_upload en s' client i = Inl e"
  shows "head_resumable_upload en s h now i = (case verify_tus_version h of Inl e' \<Rightarrow> (Inl e', s) | Inr _ \<Rightarrow>
           (case request_client en s h now False (Some (public_solve_surface h)) of
              (Inl e', s') \<Rightarrow> (Inl e', s') | (Inr _, s') \<Rightarrow> (Inl e, s')))"
    "delete_resumable_upload en s h now i = (case verify_tus_version h of Inl e' \<Rightarrow> (Inl e', s) | Inr _ \<Rightarrow>
           (case request_client en s h now True (Some (public_solve_surface h)) of
              (Inl e', s') \<Rightarrow> (Inl e', s') | (Inr _, s') \<Rightarrow> (Inl e, s')))"
    "get_resumable_upload_result en s h now i =
           (case request_client en s h now False (Some (public_solve_surface h)) of
              (Inl e', s') \<Rightarrow> (Inl e', s') | (Inr _, s') \<Rightarrow> (Inl e, s'))"
    "patch_resumable_upload en s h now i body =
           (case and_then (verify_tus_version h) (\<lambda>_.
                   ensure (header_text h ''content-type'' = Some ''application/offset+octet-stream'')
                     (bad_request ''chunk Content-Type must be application/offset+octet-stream'')) of
              Inl e' \<Rightarrow> (Inl e', s) | Inr _ \<Rightarrow>
           (case request_client en s h now True (Some (public_solve_surface h)) of
              (Inl e', s') \<Rightarrow> (Inl e', s')
            | (Inr _, s') \<Rightarrow>
                (Inl (case required_u64_header h ''upload-offset'' of Inl e' \<Rightarrow> e' | Inr _ \<Rightarrow> e), s')))"
  using assms
  by (auto simp: head_resumable_upload_def delete_resumable_upload_def get_resumable_upload_result_def
      patch_resumable_upload_def and_then_def split: sum.split prod.split)

text \<open>
  C6: A stranger's upload looks like no upload.  A request about a resumable upload of another
  client - reading its offset, sending a chunk, deleting it or asking for its job - gets the answer
  that a request about an upload that does not exist gets, and changes neither the stored uploads
  nor the jobs.
\<close>

theorem foreign_upload_is_missing:
  assumes "upload_foreign en s h now i" "upload_missing en s j"
  shows "head_resumable_upload en s h now i = head_resumable_upload en s h now j
         \<and> patch_resumable_upload en s h now i body = patch_resumable_upload en s h now j body
         \<and> delete_resumable_upload en s h now i = delete_resumable_upload en s h now j
         \<and> get_resumable_upload_result en s h now i = get_resumable_upload_result en s h now j
         \<and> (\<forall>s' \<in> {snd (patch_resumable_upload en s h now i body), snd (delete_resumable_upload en s h now i),
                    snd (get_resumable_upload_result en s h now i)}.
              sv_store s' = sv_store s \<and> sv_jobs s' = sv_jobs s)"
proof -
  have none: "\<forall>m client s'. request_client en s h now m (Some (public_solve_surface h)) = (Inr client, s')
      \<longrightarrow> owned_upload en s' client k = Inl (not_found_message ''upload session not found'')" if "k = i \<or> k = j" for k
    using that not_owned [of en s k h now] assms by blast
  note i = not_owned_answers [OF none [OF disjI1 [OF refl]]] and j = not_owned_answers [OF none [OF disjI2 [OF refl]]]
  show ?thesis
    unfolding i j by (auto split: sum.split prod.split dest: request_client_frame)
qed

text \<open>A server that takes any text as a UUID and that everybody may use.\<close>

definition open_server_env :: "LocalStore ServerEnv" where
  "open_server_env = sample_server_env\<lparr>se_api := \<lparr>
     en_config = default_config\<lparr>cf_auth_mode := AuthMode.Public, cf_public_ui_solves := True, cf_public_api_solves := True,
                                 cf_s3_prefix := ''''\<rparr>,
     en_auth = None, en_libs = sample_libs\<lparr>lib_uuid_parse := \<lambda>_. Some 0\<rparr>\<rparr>, se_from_json := sample_from_json\<rparr>"

lemma open_server_client:
  "\<exists>c s'. request_client open_server_env s [] now m (Some (public_solve_surface [])) = (Inr c, s')
          \<and> cl_id c \<noteq> ''a''"
  by (simp add: request_client_def open_server_env_def client_from_headers_def request_api_key_def header_text_def
      bearer_token_def public_client_for_request_def ensure_public_solve_allowed_def public_client_def
      public_client_id_def filter_option_def sample_libs_def and_then_def ensure_def Let_def
      split: PublicSolveSurface.split option.split)

lemma open_server_uploads:
  "load_upload open_server_env sample_server ''id'' = Inr sample_full" "up_owner sample_full = ''a''"
  "upload_missing open_server_env sample_server ''other''"
proof -
  have "path_for (state_key '''' ''other'') = Inr [''.resumable'', ''other'', ''state.json'']" by code_simp
  then show "upload_missing open_server_env sample_server ''other''"
    by (simp add: upload_missing_def load_upload_def load_def open_server_env_def sample_server_env_def is_uuid_def
        sample_server_def sample_received_def disk_eval resumable_api_error_def)
  show "load_upload open_server_env sample_server ''id'' = Inr sample_full"
    by (simp add: load_upload_def load_def open_server_env_def sample_server_env_def is_uuid_def sample_paths
        sample_server_def sample_received_def disk_eval sample_json)
  show "up_owner sample_full = ''a''" by (simp add: sample_full_def sample_upload_def new_upload_def)
qed

theorem foreign_upload_is_missing_witness:
  "patch_resumable_upload open_server_env sample_server [] 5 ''id'' [1]
     = patch_resumable_upload open_server_env sample_server [] 5 ''other'' [1]"
proof -
  have "upload_foreign open_server_env sample_server [] 5 ''id''"
    unfolding upload_foreign_def using open_server_uploads(1,2) open_server_client [of sample_server 5]
    by (metis prod.inject sum.inject(2))
  from foreign_upload_is_missing [OF this open_server_uploads(3), of "[1]"] show ?thesis by blast
qed

section \<open>A contributed image is kept\<close>

lemma join_path_Nil_Cons: "ps \<noteq> [] \<Longrightarrow> join_path ([] # ps) = CHR ''/'' # join_path ps"
  by (cases ps) simp_all

lemma join_path_components_prefix:
  assumes "list_all (\<lambda>c. c \<noteq> [] \<and> c \<noteq> ''.'') (split_on (CHR ''/'') pre)"
  shows "join_path (components pre) = pre"
proof -
  have "components pre = split_on (CHR ''/'') pre"
    using assms by (auto simp: components_def list_all_iff filter_id_conv)
  moreover have "join_path (split_on c pre) = pre" if "c = CHR ''/''" for c pre
    using that
  proof (induction c pre rule: split_on.induct)
    case (2 c x xs)
    have "join_path ((x # a) # ps) = x # join_path (a # ps)" for a ps by (cases ps) simp_all
    with 2 show ?case by (cases "split_on c xs") (auto simp: join_path_Nil_Cons)
  qed simp
  ultimately show ?thesis by simp
qed

lemma components_below: "plain t \<Longrightarrow> components (t @ ''/'' @ b) \<noteq> []"
  by (simp add: components_append components_plain)

lemma below_prefix_protected:
  assumes safe: "safe_prefix pre" "CHR 0x5C \<notin> set pre" "trim_matches (CHR ''/'') pre = pre"
    and path: "path_for (pre @ ''/'' @ rest) = Inr p" "components rest \<noteq> []"
  shows "path_is_protected p [pre]"
proof -
  have "list_all (\<lambda>c. c \<noteq> [] \<and> c \<noteq> ''.'') (split_on (CHR ''/'') pre)"
    using safe(1) by (auto simp: safe_prefix_def list_all_iff list_ex_iff)
  from join_path_components_prefix [OF this] have pre: "join_path (components pre) = pre" .
  then have ne: "components pre \<noteq> []" using safe(1) by (auto simp: safe_prefix_def)
  have "p = components pre @ components rest"
    using path(1) by (simp add: path_for_Inr components_append)
  then have "join_path p = pre @ ''/'' @ join_path (components rest)"
    using join_path_append [OF ne path(2)] pre by simp
  moreover have "map (\<lambda>c. if c = CHR 0x5C then CHR ''/'' else c) pre = pre"
    using safe(2) by (intro map_idI) auto
  ultimately have "replace_backslash (join_path p) = (pre @ ''/'') @ replace_backslash (join_path (components rest))"
    by (simp add: replace_backslash_def)
  moreover have "pre \<noteq> []" using safe(1) by (simp add: safe_prefix_def)
  ultimately show ?thesis
    using safe(3) by (auto simp: path_is_protected_def key_is_protected_def starts_with_iff Let_def)
qed

lemma sweep_keeps_protected:
  assumes "fs_ok st" "path_for k = Inr p" "path_is_protected p prot"
  shows "local_get (snd (local_delete_older_than st cutoff prot)) k = local_get st k"
proof -
  from sweep_directory_result [OF assms(1), of cutoff prot] obtain st' where st':
    "local_delete_older_than st cutoff prot = (Inr (length (filter (expired_file cutoff prot) (ls_files st))), st')"
    "ls_files st' = filter (\<lambda>f. \<not> expired_file cutoff prot f) (ls_files st)"
    by (auto simp: local_delete_older_than_def)
  have "map_of (filter (\<lambda>f. \<not> expired_file cutoff prot f) fs) p = map_of fs p" for fs
    using assms(3) by (induction fs) (auto simp: expired_file_def)
  with st' assms(2) show ?thesis by (simp add: local_get_eq)
qed

lemma get_job_donation: "get_job db i = Inr (Some job) \<Longrightarrow> j_validation_donation job = validation_donation db i"
  by (auto simp: get_job_def fetch_job_def dest!: select_one_SomeD record_from_row_id split: option.splits sum.splits)

lemma first_contribution:
  assumes "donate_validation_image en s h now public_id request = (Inr job, s1)"
    and "the_public_job en (sv_jobs s) public_id = Inr job0" "j_validation_donation job0 = None"
  shows "os_copy (se_ops en) (sv_store s) now (input_object_key job0) (validation_object_key (se_libs en) (se_config en) job0)
           (j_content_type job0) = (Inr (), sv_store s1)
         \<and> input_object_key job = validation_object_key (se_libs en) (se_config en) job0"
proof -
  let ?key = "validation_object_key (se_libs en) (se_config en) job0"
  obtain r s' where rc: "request_client en s h now True None = (r, s')" by force
  from request_client_frame [OF rc] have same: "sv_store s' = sv_store s" "sv_jobs s' = sv_jobs s" by auto
  let ?d = "\<lambda>comment. \<lparr>vd_object_key = ?key, vd_comment = comment, vd_solve_is_invalid = vr_solve_is_invalid request,
    vd_license_version = validation_license_version, vd_donated_at = now\<rparr>"
  from assms rc same obtain comment st db where
    copy: "copy_for_validation en (sv_store s) now job0 ?key = (Inr (), st)"
    and donate: "donate_validation (sv_jobs s) (j_id job0) (?d comment) = (Inr True, db)"
    and job: "persisted_job db (PersistedUuid (j_id job0)) = Inr job" and s1: "sv_store s1 = st"
    by (auto simp: donate_validation_image_def Let_def and_then_Inr ensure_def
        split: sum.splits prod.splits bool.splits if_splits)
  from copy have "os_copy (se_ops en) (sv_store s) now (input_object_key job0) ?key (j_content_type job0) = (Inr (), st)"
    by (auto simp: copy_for_validation_def apfst_pair map_sum_Inr split: sum.splits)
  moreover from job have "get_job db (j_id job0) = Inr (Some job)"
    by (simp add: persisted_job_def split: sum.splits option.splits)
  then have "j_validation_donation job = validation_donation db (j_id job0)" by (rule get_job_donation)
  with validation_donation_after [of "sv_jobs s" "j_id job0" "?d comment"] donate
  have "input_object_key job = ?key" by (auto simp: input_object_key_def)
  ultimately show ?thesis using s1 by simp
qed

text \<open>
  C7: A contributed image is kept.  When the first contribution of an image is accepted, the job's
  input is from then on a copy of the image under the protected prefix, and no later clean-up of
  expired uploads removes it, however old it gets.
\<close>

theorem contributed_image_is_kept:
  assumes "se_ops en = local_store" "fs_ok (sv_store s)" "uuid_text (se_libs en)"
    and "safe_prefix (cf_validation_prefix (se_config en))" "CHR 0x5C \<notin> set (cf_validation_prefix (se_config en))"
    and "trim_matches (CHR ''/'') (cf_validation_prefix (se_config en)) = cf_validation_prefix (se_config en)"
    and "the_public_job en (sv_jobs s) public_id = Inr job0" "j_validation_donation job0 = None"
    and "local_get (sv_store s) (input_object_key job0) = Inr content"
    and "donate_validation_image en s h now public_id request = (Inr job, s1)"
  shows "input_object_key job = validation_object_key (se_libs en) (se_config en) job0
         \<and> local_get (sv_store (cleanup_expired_uploads en s1 later)) (input_object_key job) = Inr content"
proof -
  let ?pre = "cf_validation_prefix (se_config en)"
  let ?rest = "(''public-'' @ lib_uuid_str (se_libs en) (j_id job0)) @ ''/'' @ last_part (CHR ''/'') (j_object_key job0)"
  have key: "validation_object_key (se_libs en) (se_config en) job0 = ?pre @ ''/'' @ ?rest"
    by (simp add: validation_object_key_def)
  from first_contribution [OF assms(10,7,8)] assms(1,9) have
    put: "local_put (sv_store s) now (?pre @ ''/'' @ ?rest) content (j_content_type job0) = (Inr (), sv_store s1)"
    and input: "input_object_key job = ?pre @ ''/'' @ ?rest"
    unfolding key by (auto simp: local_copy_def)
  have stored: "local_get (sv_store s1) (?pre @ ''/'' @ ?rest) = Inr content"
    using local_disk.put_ok [unfolded local_store_simps, OF put] .
  then obtain p where p: "path_for (?pre @ ''/'' @ ?rest) = Inr p" by (auto simp: local_get_eq split: sum.splits)
  have "plain (''public-'' @ lib_uuid_str (se_libs en) (j_id job0))"
    using uuid_textD(2) [OF assms(3)] by (simp add: plain_def)
  from components_below [OF this] have "components ?rest \<noteq> []" .
  from below_prefix_protected [OF assms(4,5,6) p this] have "path_is_protected p [?pre]" .
  moreover have "fs_ok (sv_store s1)" using fs_ok_local_put [OF assms(2)] put by (metis snd_conv)
  ultimately have "local_get (sv_store (cleanup_expired_uploads en s1 later)) (?pre @ ''/'' @ ?rest) = Inr content"
    using sweep_keeps_protected [OF _ p] stored assms(1) by (simp add: cleanup_expired_uploads_def)
  with input show ?thesis unfolding key by simp
qed

text \<open>A failed job whose image is in the store.\<close>

definition contribution_env :: "LocalStore ServerEnv" where
  "contribution_env = sample_server_env\<lparr>se_api := \<lparr>
     en_config = default_config\<lparr>cf_auth_mode := AuthMode.Public, cf_validation_prefix := ''validation'',
                                 cf_upload_retention_seconds := 86400\<rparr>,
     en_auth = None, en_libs = sample_libs\<rparr>\<rparr>"

definition contribution_server :: "LocalStore Server" where
  "contribution_server = \<lparr>sv_jobs = failed_db, sv_store = snd (local_put new_local_store 0 ''k1'' [10, 11, 12] None),
     sv_buckets = [], sv_identity = empty_identity_db\<rparr>"

definition contribution :: ValidationDonationRequest where
  "contribution = \<lparr>vr_comment = None, vr_solve_is_invalid = True, vr_license_agreed = True\<rparr>"

definition failed_job :: JobRecord where
  "failed_job = (queued_job (sample_job 1 ''a'' ''k1'' 0))\<lparr>j_status := Failed, j_started_at := Some 10,
     j_completed_at := Some 20, j_error := Some ''no match''\<rparr>"

lemma failed_job_found: "get_job failed_db 1 = Inr (Some failed_job)"
proof -
  have "db_donations failed_db = []"
    by (simp add: failed_db_def complete_def leased_db_def one_job_db_eq queue_eval)
  then show ?thesis
    by (simp add: get_job_def fetch_job_def failed_db_jobs failed_row_def finish_row_def start_lease_def new_row_def
        queued_job_def sample_job_def record_from_row_def status_parse_def failed_job_def validation_donation_def)
qed

definition contribution_disk :: LocalStore where
  "contribution_disk = \<lparr>ls_files = [([''k1''], [10, 11, 12], 0)], ls_dirs = [[]]\<rparr>"

lemma contribution_stored: "local_put new_local_store 0 ''k1'' [10, 11, 12] None = (Inr (), contribution_disk)"
proof -
  have "path_for ''k1'' = Inr [''k1'']" by code_simp
  then show ?thesis by (simp add: new_local_store_def disk_eval contribution_disk_def)
qed

lemma contribution_copied:
  "\<exists>st. local_copy contribution_disk 30 ''k1'' ''validation/public-1/k1'' None = (Inr (), st)"
proof -
  have "path_for ''k1'' = Inr [''k1'']"
    "path_for ''validation/public-1/k1'' = Inr [''validation'', ''public-1'', ''k1'']" by code_simp+
  then show ?thesis by (simp add: local_copy_def disk_eval contribution_disk_def)
qed

lemma contribution_config:
  "cf_validation_prefix (se_config contribution_env) = ''validation''" "se_ops contribution_env = local_store"
  "cf_upload_retention_seconds (se_config contribution_env) = 86400" "se_libs contribution_env = sample_libs"
  "sv_jobs contribution_server = failed_db" "sv_store contribution_server = contribution_disk"
  by (simp_all add: contribution_env_def sample_server_env_def contribution_server_def contribution_stored)

lemma contribution_key: "validation_object_key sample_libs (se_config contribution_env) failed_job = ''validation/public-1/k1''"
proof -
  have "lib_uuid_str sample_libs 1 = ''1''" "last_part (CHR ''/'') ''k1'' = ''k1''" by code_simp+
  then show ?thesis
    by (simp add: validation_object_key_def contribution_config failed_job_def queued_job_def sample_job_def)
qed

lemma contribution_client: "\<exists>c s. request_client contribution_env contribution_server [] 30 True None = (Inr c, s)
    \<and> sv_jobs s = failed_db \<and> sv_store s = contribution_disk"
  by (simp add: request_client_def contribution_env_def client_from_headers_def request_api_key_def header_text_def
      bearer_token_def public_client_for_request_def filter_option_def and_then_def Let_def
      contribution_server_def contribution_stored)

lemma contribution_public_job: "the_public_job contribution_env failed_db ''1'' = Inr failed_job"
proof -
  have "lib_uuid_parse sample_libs ''1'' = Some 1" by code_simp
  then show ?thesis
    by (simp add: the_public_job_def public_job_def contribution_config failed_job_found and_then_def ok_or_def)
qed

lemma failed_job_simps:
  "j_id failed_job = 1" "j_validation_donation failed_job = None" "j_status failed_job = Failed"
  "j_object_key failed_job = ''k1''" "j_content_type failed_job = None" "j_created_at failed_job = 0"
  "input_object_key failed_job = ''k1''"
  by (simp_all add: failed_job_def queued_job_def sample_job_def input_object_key_def)

lemma contribution_done:
  assumes "vd_object_key d = ''validation/public-1/k1''"
  shows "\<exists>db job. donate_validation failed_db 1 d = (Inr True, db) \<and> persisted_job db (PersistedUuid 1) = Inr job"
proof -
  have "db_donations failed_db = []"
    by (simp add: failed_db_def complete_def leased_db_def one_job_db_eq queue_eval)
  then have "fst (donate_validation failed_db 1 d) = Inr True"
    using terminal_failed_row by (simp add: donate_validation_def failed_db_jobs terminal_def)
  then obtain db where db: "donate_validation failed_db 1 d = (Inr True, db)" by (metis prod.collapse)
  have inv: "queue_inv {''t1''} db"
    using queue_inv_run_event [OF reachable_inv [OF reachable_failed], of "EvDonate 1 d"] db by simp
  have "row_of failed_db 1 = Some failed_row" using terminal_failed_row(2) by (simp add: row_of_def failed_db_jobs)
  then have "row_of db 1 = Some failed_row" using row_of_other(1) [of failed_db 1 d 1] db by simp
  from get_job_row [OF inv this] db show ?thesis by (auto simp: persisted_job_def)
qed

theorem contributed_image_is_kept_witness:
  "\<exists>job s1. donate_validation_image contribution_env contribution_server [] 30 ''1'' contribution = (Inr job, s1)
     \<and> local_get (sv_store (cleanup_expired_uploads contribution_env s1 (10 ^ 18))) ''validation/public-1/k1'' = Inr [10, 11, 12]"
proof -
  obtain c s' where rc: "request_client contribution_env contribution_server [] 30 True None = (Inr c, s')"
    "sv_jobs s' = failed_db" "sv_store s' = contribution_disk" using contribution_client by blast
  obtain st where copy: "local_copy contribution_disk 30 ''k1'' ''validation/public-1/k1'' None = (Inr (), st)"
    using contribution_copied by blast
  have path: "path_for ''k1'' = Inr [''k1'']" by code_simp
  have content: "local_get contribution_disk ''k1'' = Inr [10, 11, 12]"
    by (simp add: local_get_eq path contribution_disk_def)
  have exists: "local_exists contribution_disk ''k1'' = Inr True"
    using local_disk.get_exists content by simp
  have available: "input_available (se_config contribution_env) 30 failed_job"
    by (simp add: input_available_def input_expires_at_def contribution_config failed_job_simps add_seconds_def)
  let ?d = "\<lparr>vd_object_key = ''validation/public-1/k1'', vd_comment = None, vd_solve_is_invalid = True,
    vd_license_version = validation_license_version, vd_donated_at = 30\<rparr>"
  obtain db job where donate: "donate_validation failed_db 1 ?d = (Inr True, db)"
    and job: "persisted_job db (PersistedUuid 1) = Inr job"
    using contribution_done [of ?d] by auto
  have "donation_comment contribution = Inr None"
    by (simp add: donation_comment_def contribution_def and_then_def ensure_def Let_def filter_option_def)
  then obtain s1 where s1: "donate_validation_image contribution_env contribution_server [] 30 ''1'' contribution = (Inr job, s1)"
    by (simp add: donate_validation_image_def rc contribution_public_job finished_def failed_job_simps and_then_def
        ensure_def copy_for_validation_def ensure_input_available_def available ensure_stored_def contribution_config
        contribution_key exists copy donate job Let_def contribution_def)
  have pre: "safe_prefix ''validation''" "CHR 0x5C \<notin> set ''validation''"
    "trim_matches (CHR ''/'') ''validation'' = ''validation''" by code_simp+
  have ok: "fs_ok contribution_disk" using fs_ok_local_put [OF fs_ok_new, of 0 "''k1''" "[10, 11, 12]" None]
    by (simp add: contribution_stored)
  note kept = contributed_image_is_kept [where en = contribution_env and s = contribution_server, unfolded contribution_config,
      OF refl ok sample_libs_uuid_text pre contribution_public_job failed_job_simps(2) content [folded failed_job_simps(7)] s1]
  from kept [of "10 ^ 18"] have "local_get (sv_store (cleanup_expired_uploads contribution_env s1 (10 ^ 18))) ''validation/public-1/k1'' = Inr [10, 11, 12]"
    by (auto simp: failed_job_simps contribution_key)
  with s1 show ?thesis by blast
qed

text \<open>
  The sweep compares the prefix with the path in which backslashes have become slashes, so an
  accepted prefix with a backslash protects nothing.
\<close>

lemma backslash_prefix_is_unprotected:
  "safe_prefix [CHR ''a'', CHR 0x5C, CHR ''b'']
   \<and> path_for ([CHR ''a'', CHR 0x5C, CHR ''b''] @ ''/public-1/k1'') = Inr [[CHR ''a'', CHR 0x5C, CHR ''b''], ''public-1'', ''k1'']
   \<and> \<not> path_is_protected [[CHR ''a'', CHR 0x5C, CHR ''b''], ''public-1'', ''k1''] [[CHR ''a'', CHR 0x5C, CHR ''b'']]"
  by code_simp

end
