(* ===== verification/Worker_Properties.thy ===== *)
theory Worker_Properties
  imports Service
begin

text \<open>
  The workers: how two SQS queues share a worker, how long a message stays hidden, and when a
  delivery is acknowledged.
\<close>

section \<open>Two queues\<close>

text \<open>The schedule after \<open>n\<close> turns.\<close>

fun after_turns :: "nat \<Rightarrow> SqsQueueSchedule \<Rightarrow> SqsQueueSchedule" where
  "after_turns 0 sq = sq"
| "after_turns (Suc n) sq = snd (next_class (after_turns n sq))"

lemma after_turns_state:
  assumes "1 \<le> unat w" "unat w < 2 ^ 64 - 1"
  shows "sq_priority_weight (after_turns n (new_schedule w)) = w
         \<and> unat (sq_cursor (after_turns n (new_schedule w))) = n mod (unat w + 1)"
proof (induction n)
  case 0
  have "1 \<le> w" using assms(1) by (simp add: word_le_nat_alt)
  then have "max w 1 = w" by (rule max.absorb1)
  then show ?case by (simp add: new_schedule_def)
next
  case (Suc n)
  let ?sq = "after_turns n (new_schedule w)"
  have w1: "unat (w + 1) = unat w + 1" using assms(2) by (subst unat_word_ariths) simp
  have "n mod (unat w + 1) < unat w + 1" by simp
  then have "n mod (unat w + 1) + 1 < 2 ^ 64" using assms(2) by linarith
  then have "unat (sq_cursor ?sq + 1) = n mod (unat w + 1) + 1"
    using Suc by (subst unat_word_ariths) simp
  then have "unat ((sq_cursor ?sq + 1) mod (w + 1)) = (n mod (unat w + 1) + 1) mod (unat w + 1)"
    using w1 by (simp add: unat_mod)
  also have "\<dots> = Suc n mod (unat w + 1)" by (simp add: mod_simps)
  finally show ?case using Suc by (simp add: next_class_def)
qed

text \<open>
  Neither queue starves.  With an accepted priority weight \<open>w\<close>, the worker prefers the priority
  queue in exactly \<open>w\<close> of every \<open>w + 1\<close> turns and the normal queue in the one that remains, for ever.
\<close>

theorem queues_are_interleaved:
  assumes "valid_priority_weight w"
  shows "fst (next_class (after_turns n (new_schedule w)))
         = (if n mod (unat w + 1) < unat w then Priority else Normal)"
proof -
  have w: "1 \<le> unat w" "unat w < 2 ^ 64 - 1"
    using assms by (simp_all add: valid_priority_weight_def word_le_nat_alt)
  from after_turns_state [OF w, of n] show ?thesis
    by (simp add: next_class_def word_less_nat_alt)
qed

theorem queues_are_interleaved_witness:
  "map (\<lambda>n. fst (next_class (after_turns n (new_schedule 2)))) [0, 1, 2, 3] = [Priority, Priority, Normal, Priority]"
proof -
  have "valid_priority_weight 2" by code_simp
  from queues_are_interleaved [OF this] show ?thesis by simp
qed

text \<open>A message stays hidden for its lease and one heartbeat more, within the bounds of the service.\<close>

lemma visibility_covers_lease:
  "1 \<le> sqs_visibility_timeout secs \<and> sqs_visibility_timeout secs \<le> 43200
   \<and> (uint secs \<le> 43140 \<longrightarrow> sqs_visibility_timeout secs = uint secs + 60)"
proof -
  have u: "uint (max a b) = max (uint a) (uint b)" "uint (min a b) = min (uint a) (uint b)" for a b :: u64
    by (simp_all add: max_def min_def word_le_def)
  have "uint (saturating_add_u64 secs 60) = (if uint secs + 60 < 2 ^ 64 then uint secs + 60 else 2 ^ 64 - 1)"
    using uint_word_ariths(1) [of secs 60] uint_ge_0 [of secs]
    by (simp add: saturating_add_u64_def unsigned_minus_1_eq_mask mask_eq_exp_minus_1)
  then show ?thesis
    using uint_ge_0 [of secs]
    by (simp add: sqs_visibility_timeout_def worker_heartbeat_seconds_def sqs_max_visibility_seconds_def u)
qed

section \<open>Acknowledging a delivery\<close>

text \<open>Over HTTP the worker's calls are requests of the server.\<close>

lemma http_calls:
  "snd (http_claim en token fr s now req) = snd (worker_claim en s (worker_headers token) now (fr now) req)"
  "snd (http_heartbeat en token s now l) = snd (worker_heartbeat en s (worker_headers token) now (jl_job_id l) (jl_lease_token l))"
  "snd (http_complete en wl token s now l c) = snd (worker_complete en wl s (worker_headers token) now (jl_job_id l) c)"
  "snd (http_input en token s now l) = s" "snd (job_is_terminal en s now i) = s"
  by (simp_all add: http_claim_def http_heartbeat_def http_complete_def http_input_def job_is_terminal_def
      split: sum.split)

lemma http_client_simps [simp]:
  "wc_claim (http_client en wl token fr) = http_claim en token fr" "wc_input (http_client en wl token fr) = http_input en token"
  "wc_heartbeat (http_client en wl token fr) = http_heartbeat en token"
  "wc_complete (http_client en wl token fr) = http_complete en wl token"
  "wc_job_is_terminal (http_client en wl token fr) = job_is_terminal en"
  by (simp_all add: http_client_def)

lemma jobs_run_inv:
  assumes "queue_inv used db" "jobs_run P ts db db'" "ts \<inter> used = {}"
  shows "\<exists>used'. queue_inv used' db'"
  using assms sqlx.inv_run [OF assms(1)] by (auto simp: jobs_run_def)

text \<open>
  The same over the queue: the worker's client beside a queue whose messages it renews.  The
  server's part of a pair of states runs the calls, and the queue's part only extends messages.
\<close>

lemma beside_queue_simps [simp]:
  "wc_claim (beside_queue cl) (q, s) t req = (case wc_claim cl s t req of (r, s') \<Rightarrow> (r, q, s'))"
  "wc_input (beside_queue cl) (q, s) t l = (case wc_input cl s t l of (r, s') \<Rightarrow> (r, q, s'))"
  "wc_heartbeat (beside_queue cl) (q, s) t l = (case wc_heartbeat cl s t l of (r, s') \<Rightarrow> (r, q, s'))"
  "wc_complete (beside_queue cl) (q, s) t l c = (case wc_complete cl s t l c of (r, s') \<Rightarrow> (r, q, s'))"
  "wc_job_is_terminal (beside_queue cl) (q, s) t i = (case wc_job_is_terminal cl s t i of (r, s') \<Rightarrow> (r, q, s'))"
  by (simp_all add: beside_queue_def over_queue_def)

lemma sqs_heartbeat_simps [simp]:
  "sqs_heartbeat sqs url receipt v t (q, s) = (case sqs_extend sqs q url receipt v of (r, q') \<Rightarrow> (r, q', s))"
  by (simp add: sqs_heartbeat_def)

text \<open>
  What the queue service promises of its messages, named by queue and receipt handle: receiving
  hides a message and extending keeps it hidden, both without removing any, and a deletion removes
  no message but the one it names.
\<close>

definition sqs_keeps :: "'q Sqs \<Rightarrow> ('q \<Rightarrow> (string \<times> string) set) \<Rightarrow> bool" where
  "sqs_keeps sqs msgs =
     ((\<forall>q url v w. msgs q \<subseteq> msgs (snd (sqs_receive sqs q url v w)))
      \<and> (\<forall>q url receipt v. msgs q \<subseteq> msgs (snd (sqs_extend sqs q url receipt v)))
      \<and> (\<forall>q url receipt. msgs q - {(url, receipt)} \<subseteq> msgs (snd (sqs_delete sqs q url receipt))))"

lemma sqs_keepsD:
  assumes "sqs_keeps sqs msgs"
  shows "sqs_receive sqs q url v w = (r, q') \<Longrightarrow> msgs q \<subseteq> msgs q'"
    "sqs_extend sqs q url receipt v = (r', q') \<Longrightarrow> msgs q \<subseteq> msgs q'"
    "sqs_delete sqs q url receipt = (r', q') \<Longrightarrow> msgs q - {(url, receipt)} \<subseteq> msgs q'"
  using assms unfolding sqs_keeps_def by (metis snd_conv)+

lemma heartbeats_inv:
  assumes "queue_inv used (sv_jobs s)" and keeps: "sqs_keeps sqs msgs"
    and "heartbeats (beside_queue (http_client en wl token fr)) (sqs_heartbeat sqs url receipt v) l ts (q, s) = (r, q', s')"
  shows "(\<exists>used'. queue_inv used' (sv_jobs s')) \<and> msgs q \<subseteq> msgs q'"
  using assms(1,3)
proof (induction ts arbitrary: used s q)
  case Nil
  then show ?case by auto
next
  case (Cons t ts)
  obtain r1 s1 where h: "http_heartbeat en token s t l = (r1, s1)" by force
  have "jobs_run (request_call (WorkerHeartbeat (worker_headers token) t (jl_job_id l) (jl_lease_token l))) {} (sv_jobs s) (sv_jobs s1)"
    using worker_runs(2) [of "worker_headers token" t "jl_job_id l" "jl_lease_token l" "{}" s en]
      http_calls(2) [of en token s t l] h by simp
  from jobs_run_inv [OF Cons.prems(1) this] obtain used1 where inv1: "queue_inv used1 (sv_jobs s1)" by auto
  obtain r2 q2 where rn: "sqs_extend sqs q url receipt v = (r2, q2)" by force
  note q2 = sqs_keepsD(2) [OF keeps rn]
  from Cons.prems(2) h rn show ?case
    using inv1 q2 Cons.IH [OF inv1, of q2] by (auto split: sum.splits bool.splits)
qed

lemma completed_job_done:
  assumes inv: "queue_inv used db" and c: "complete db now i tok sol err = (Inr True, db')"
  shows "\<exists>b. phase_of db' i = Done b"
proof -
  from c have some: "sol \<noteq> None \<or> err \<noteq> None" and one: "rows_where (holds_lease i tok now) (db_jobs db) = 1"
    by (auto simp: complete_def split: if_splits)
  from one obtain r where r: "r \<in> set (db_jobs db)" "holds_lease i tok now r"
    using rows_where_0 [of "holds_lease i tok now" "db_jobs db"] by fastforce
  then have "row_of db i = Some r" by (simp add: row_of_Some [OF inv] holds_lease_def)
  with r(2) some c row_of_complete [of db now i tok sol err i]
  show ?thesis using row_phase_finish [of sol err now r] by (auto simp: phase_of_def)
qed

text \<open>What the public view of a job says of its phase.\<close>

lemma public_job_phase:
  assumes inv: "queue_inv used (sv_jobs s)" and ids: "uuid_text (se_libs en)"
    and view: "(\<exists>e. the_public_job en (sv_jobs s) (lib_uuid_str (se_libs en) i) = Inl e \<and> ae_status e = 404)
       \<or> (\<exists>job. the_public_job en (sv_jobs s) (lib_uuid_str (se_libs en) i) = Inr job \<and> finished job)"
  shows "phase_of (sv_jobs s) i = Absent \<or> (\<exists>b. phase_of (sv_jobs s) i = Done b)"
proof (cases "row_of (sv_jobs s) i")
  case None
  then show ?thesis by (simp add: phase_of_def)
next
  case (Some r)
  then have r: "r \<in> set (db_jobs (sv_jobs s))" "r_id r = i" by (simp_all add: row_of_Some [OF inv])
  from row_ok_decodes [OF queue_invD(4) [OF inv r(1)]] obtain job where
    job: "record_from_row r = Inr job" "r_status r = status_as_str (j_status job)" by blast
  with Some have "get_job (sv_jobs s) i = Inr (Some (job\<lparr>j_validation_donation := validation_donation (sv_jobs s) (j_id job)\<rparr>))"
    by (simp add: get_job_def fetch_job_def row_of_def)
  then have "the_public_job en (sv_jobs s) (lib_uuid_str (se_libs en) i)
      = Inr (job\<lparr>j_validation_donation := validation_donation (sv_jobs s) (j_id job)\<rparr>)"
    using uuid_textD(1) [OF ids, of i] by (simp add: the_public_job_def public_job_def and_then_def ok_or_def)
  with view have "finished job" by (auto simp: finished_def)
  with job(2) Some show ?thesis by (auto simp: finished_def phase_of_def row_phase_def)
qed

definition settled :: "JobDb \<Rightarrow> JobId \<Rightarrow> bool" where
  "settled db i = (phase_of db i = Absent \<or> (\<exists>b. phase_of db i = Done b))"

lemma delivery_settled:
  assumes "reachable used (sv_jobs s)" "fr t \<notin> used" "uuid_text (se_libs en)" and keeps: "sqs_keeps sqs msgs"
    and "handle_delivery (beside_queue (http_client en wl token fr)) engine (sqs_heartbeat sqs url receipt v) (q, s) t t0 ticks t1 i
         = (r, q', s')"
  shows "msgs q \<subseteq> msgs q' \<and> (r = Inr True \<longrightarrow> settled (sv_jobs s') i)"
proof -
  have inv: "queue_inv used (sv_jobs s)" using assms(1) by (rule reachable_inv)
  obtain rc s1 where cl: "http_claim en token fr s t (Some i) = (rc, s1)" by force
  have run: "jobs_run (request_call (WorkerClaim (worker_headers token) t (fr t) (Some i))) {fr t} (sv_jobs s) (sv_jobs s1)"
    using worker_runs(1) [of "worker_headers token" t "fr t" "Some i" s en] http_calls(1) [of en token fr s t "Some i"] cl
    by simp
  from jobs_run_inv [OF inv run] assms(2) obtain used1 where inv1: "queue_inv used1 (sv_jobs s1)" by auto
  show ?thesis
  proof (cases "\<exists>l. rc = Inr (Some l)")
    case True
    then obtain l where rc: "rc = Inr (Some l)" by blast
    with cl have "fst (claim (sv_jobs s) t (fr t) (Some i) (cf_lease_seconds (se_config en))) = Inr (Some l)"
      by (auto simp: http_claim_def worker_claim_def claim_response_def apfst_pair map_sum_Inr
          split: sum.splits prod.splits)
    from claim_LeasedD [OF inv this] have id: "jl_job_id l = i" by metis
    have lease: "process_lease (beside_queue (http_client en wl token fr)) engine (sqs_heartbeat sqs url receipt v) (q, s1) t0 ticks t1 l
        = (r, q', s')" using assms(5) cl rc by (simp add: handle_delivery_def)
    obtain ri where input: "http_input en token s1 t0 l = (ri, s1)" by (simp add: http_input_def)
    show ?thesis
    proof (cases ri)
      case (Inl e)
      with lease input show ?thesis by (auto simp: process_lease_def)
    next
      case (Inr data)
      obtain rh q2 s2 where hb: "heartbeats (beside_queue (http_client en wl token fr)) (sqs_heartbeat sqs url receipt v) l ticks (q, s1)
        = (rh, q2, s2)" by (metis prod_cases3)
      note beats = heartbeats_inv [OF inv1 keeps hb]
      show ?thesis
      proof (cases rh)
        case (Inl e)
        with lease input Inr hb beats show ?thesis by (auto simp: process_lease_def)
      next
        case rh: (Inr u)
        let ?c = "completion_of l (engine data (jl_original_filename l) (jl_options l))"
        have last: "http_complete en wl token s2 t1 l ?c = (r, s')" "q' = q2"
          using lease input \<open>ri = Inr data\<close> hb rh by (auto simp: process_lease_def split: prod.splits)
        from beats obtain used2 where inv2: "queue_inv used2 (sv_jobs s2)" by blast
        have "settled (sv_jobs s') i" if "r = Inr True"
        proof -
          from last(1) that have "complete (sv_jobs s2) t1 i (wk_lease_token ?c) (wk_solution ?c) (wk_error ?c) = (Inr True, sv_jobs s')"
            by (auto simp: http_complete_def worker_complete_def apfst_pair map_sum_Inr id split: sum.splits prod.splits)
          from completed_job_done [OF inv2 this] show ?thesis by (auto simp: settled_def)
        qed
        with beats last(2) show ?thesis by blast
      qed
    qed
  next
    case False
    then have kept: "q' = q"
      using assms(5) cl by (auto simp: handle_delivery_def job_is_terminal_def split: sum.splits option.splits if_splits)
    have "settled (sv_jobs s') i" if "r = Inr True"
    proof -
      from that assms(5) cl False have s1: "job_is_terminal en s1 t i = (Inr True, s')"
        by (auto simp: handle_delivery_def split: sum.splits option.splits prod.splits)
      then have s': "s' = s1" and gone: "(\<exists>e. the_public_job en (sv_jobs s1) (lib_uuid_str (se_libs en) i) = Inl e \<and> ae_status e = 404)
          \<or> (\<exists>job. the_public_job en (sv_jobs s1) (lib_uuid_str (se_libs en) i) = Inr job \<and> finished job)"
        by (auto simp: job_is_terminal_def split: sum.splits if_splits)
      from gone public_job_phase [OF inv1 assms(3)] show ?thesis unfolding s' by (simp add: settled_def)
    qed
    with kept show ?thesis by blast
  qed
qed

lemma received_keeps:
  assumes keeps: "sqs_keeps sqs msgs" and "receive_next sqs url priority_url v sq q = (r, sq1, q1)"
  shows "msgs q \<subseteq> msgs q1"
proof (cases priority_url)
  case None
  then show ?thesis
    using assms(2) sqs_keepsD(1) [OF keeps, of q url v sqs_long_poll_seconds]
    by (auto simp: receive_next_def split: prod.splits)
next
  case (Some p)
  let ?first = "queue_of url p (fst (next_class sq))" and ?second = "queue_of url p (other_class (fst (next_class sq)))"
  obtain a q2 where a: "sqs_receive sqs q ?first v sqs_priority_poll_seconds = (a, q2)" by force
  obtain b q3 where b: "sqs_receive sqs q2 ?second v sqs_priority_poll_seconds = (b, q3)" by force
  have "q1 = q2 \<or> q1 = q3"
    using assms(2) Some a b
    by (cases "next_class sq") (auto simp: receive_next_def receive_weighted_sqs_message_def Let_def split: sum.splits option.splits)
  with sqs_keepsD(1) [OF keeps a] sqs_keepsD(1) [OF keeps b] show ?thesis by blast
qed

text \<open>
  C8: A worker deletes a message only when its job is settled.  A message that one pass of the SQS
  worker removes from its queue is the one the pass received; and it names no job, or its job has then
  succeeded or failed, by this worker or before, or does not exist.  A lost lease, a failed
  renewal, a crash or an unfinished job of another worker leaves the message to be delivered
  again.  The queue service is any that removes no message but by deleting it; the server behind
  the worker's requests is the one with the SQLx job repository.
\<close>

theorem acknowledged_delivery_is_settled:
  assumes "reachable used (sv_jobs s)" "fr t \<notin> used" "uuid_text (se_libs en)" "sqs_keeps sqs msgs"
    and "sqs_worker_pass sqs lib (http_client en wl token fr) engine url priority_url v sq (q, s) t t0 ticks t1 = (r, sq', q', s')"
    and "x \<in> msgs q" "x \<notin> msgs q'"
  shows "\<exists>c m body receipt sq1 q1.
    receive_next sqs url priority_url v sq q = (Inr (Some (c, m)), sq1, q1)
    \<and> qm_body m = Some body \<and> qm_receipt_handle m = Some receipt
    \<and> x = (queue_of url (case priority_url of Some p \<Rightarrow> p | None \<Rightarrow> url) c, receipt)
    \<and> (case lib_uuid_parse lib body of None \<Rightarrow> True | Some i \<Rightarrow> settled (sv_jobs s') i)"
proof -
  obtain rn sq1 q1 where recv: "receive_next sqs url priority_url v sq q = (rn, sq1, q1)" by (metis prod_cases3)
  have x1: "x \<in> msgs q1" using received_keeps [OF assms(4) recv] assms(6) by blast
  have "\<exists>c m body receipt. rn = Inr (Some (c, m)) \<and> qm_body m = Some body \<and> qm_receipt_handle m = Some receipt"
  proof (rule ccontr)
    assume "\<not> ?thesis"
    then have "q' = q1"
      using assms(5) recv by (auto simp: sqs_worker_pass_def Let_def split: sum.splits option.splits)
    with x1 assms(7) show False by blast
  qed
  then obtain c m body receipt where m: "rn = Inr (Some (c, m))" "qm_body m = Some body" "qm_receipt_handle m = Some receipt"
    by blast
  let ?active = "queue_of url (case priority_url of Some p \<Rightarrow> p | None \<Rightarrow> url) c"
  have removed: "x = (?active, receipt)" if "delete_message sqs ?active receipt (q2, s2) = (r2, q', s3)" "x \<in> msgs q2" for r2 q2 s2 s3
    using that sqs_keepsD(3) [OF assms(4), of q2 ?active receipt] assms(7)
    by (auto simp: delete_message_def split: prod.splits)
  show ?thesis
  proof (cases "lib_uuid_parse lib body")
    case None
    with assms(5) recv m obtain r2 where "delete_message sqs ?active receipt (q1, s) = (r2, q', s')"
      by (auto simp: sqs_worker_pass_def Let_def apsnd_def map_prod_def split: prod.splits)
    from removed [OF this x1] recv m None show ?thesis by auto
  next
    case (Some i)
    obtain rd q2 s2 where d: "handle_delivery (beside_queue (http_client en wl token fr)) engine (sqs_heartbeat sqs ?active receipt v)
      (q1, s) t t0 ticks t1 i = (rd, q2, s2)" by (metis prod_cases3)
    note delivered = delivery_settled [OF assms(1,2,3,4) d]
    then have x2: "x \<in> msgs q2" using x1 by blast
    have rd: "rd = Inr True"
    proof (rule ccontr)
      assume "rd \<noteq> Inr True"
      then have "q' = q2"
        using assms(5) recv m Some d by (auto simp: sqs_worker_pass_def Let_def split: sum.splits bool.splits)
      with x2 assms(7) show False by blast
    qed
    with assms(5) recv m Some d obtain r2 where del: "delete_message sqs ?active receipt (q2, s2) = (r2, q', s')"
      by (auto simp: sqs_worker_pass_def Let_def apsnd_def map_prod_def split: prod.splits)
    then have "s' = s2" by (auto simp: delete_message_def split: prod.splits)
    with delivered rd removed [OF del x2] recv m Some show ?thesis by auto
  qed
qed

text \<open>A queue of messages, each with its queue, its receipt handle and its body.\<close>

definition list_sqs :: "(string \<times> string \<times> string) list Sqs" where
  "list_sqs = \<lparr>
     sqs_receive = (\<lambda>q url v w. (Inr (case find (\<lambda>(u, _, _). u = url) q of
        Some (_, receipt, body) \<Rightarrow> Some \<lparr>qm_body = Some body, qm_receipt_handle = Some receipt\<rparr> | None \<Rightarrow> None), q)),
     sqs_extend = (\<lambda>q url receipt v. (Inr (), q)),
     sqs_delete = (\<lambda>q url receipt. (Inr (), filter (\<lambda>(u, r, _). (u, r) \<noteq> (url, receipt)) q))\<rparr>"

definition list_messages :: "(string \<times> string \<times> string) list \<Rightarrow> (string \<times> string) set" where
  "list_messages q = set (map (\<lambda>(u, r, _). (u, r)) q)"

lemma list_sqs_keeps: "sqs_keeps list_sqs list_messages"
  by (simp add: sqs_keeps_def list_sqs_def list_messages_def) force

lemma failed_claim: "claim failed_db 90 ''t2'' (Some 1) 60 = (Inr None, failed_db)"
proof -
  have row: "r_status failed_row = ''failed''" "r_id failed_row = 1" by (simp_all add: failed_row_def finish_row_def start_lease_def
      new_row_def queued_job_def sample_job_def)
  then have "reclaim_expired failed_db 90 = failed_db"
    by (simp add: reclaim_expired_def expired_ids_def failed_db_jobs)
  with row show ?thesis by (simp add: claim_def Let_def select_candidate_def failed_db_jobs)
qed

definition failed_server :: "LocalStore Server" where
  "failed_server = sample_server\<lparr>sv_jobs := failed_db\<rparr>"

definition failed_pass where
  "failed_pass = sqs_worker_pass list_sqs sample_libs (http_client sample_server_env sample_worker_libs ''w'' (\<lambda>_. ''t2''))
     (\<lambda>_ _ _. Inl ''no match'') ''jobs'' None 60 (new_schedule 1)
     ([(''jobs'', ''r1'', lib_uuid_str sample_libs 1)], failed_server) 90 91 [] 92"

lemma failed_job_terminal: "job_is_terminal sample_server_env failed_server 90 1 = (Inr True, failed_server)"
proof -
  have inv: "queue_inv {''t1''} failed_db" by (rule reachable_inv [OF reachable_failed])
  have row: "row_of failed_db 1 = Some failed_row" by (simp add: row_of_def failed_db_jobs terminal_failed_row)
  have "r_status failed_row = ''failed''" by (simp add: failed_row_def finish_row_def)
  moreover obtain job where "record_from_row failed_row = Inr job" "r_status failed_row = status_as_str (j_status job)"
    using row_ok_decodes [OF queue_invD(4) [OF inv, of failed_row]] by (auto simp: failed_db_jobs)
  ultimately have "get_job failed_db 1 = Inr (Some (job\<lparr>j_validation_donation := validation_donation failed_db (j_id job)\<rparr>))"
    "j_status job = Failed"
    using row by (simp_all add: get_job_def fetch_job_def row_of_def, cases "j_status job", auto)
  then show ?thesis
    using uuid_textD(1) [OF sample_libs_uuid_text, of 1]
    by (simp add: job_is_terminal_def the_public_job_def public_job_def and_then_def ok_or_def finished_def failed_server_def)
qed

text \<open>The message of a job that has failed already is removed.\<close>

lemma failed_pass_eq: "failed_pass = (Inr (), new_schedule 1, [], failed_server)"
proof -
  have claimed: "http_claim sample_server_env ''w'' (\<lambda>_. ''t2'') failed_server 90 (Some 1) = (Inr None, failed_server)"
    by (simp add: http_claim_def worker_claim_def claim_response_def sample_worker_auth failed_claim failed_server_def)
  have "lib_uuid_parse sample_libs (lib_uuid_str sample_libs 1) = Some 1"
    by (rule uuid_textD(1) [OF sample_libs_uuid_text])
  then show ?thesis
    by (simp add: failed_pass_def sqs_worker_pass_def receive_next_def list_sqs_def queue_of_def handle_delivery_def
        claimed failed_job_terminal delete_message_def)
qed

theorem acknowledged_delivery_is_settled_witness:
  "failed_pass = (Inr (), new_schedule 1, [], failed_server) \<and> settled (sv_jobs failed_server) 1"
proof -
  have "reachable {''t1''} (sv_jobs failed_server)" "uuid_text (se_libs sample_server_env)"
    using reachable_failed sample_libs_uuid_text by (simp_all add: failed_server_def)
  from acknowledged_delivery_is_settled [OF this(1) _ this(2) list_sqs_keeps failed_pass_eq [unfolded failed_pass_def], of "(''jobs'', ''r1'')"]
  have "settled (sv_jobs failed_server) 1"
    using uuid_textD(1) [OF sample_libs_uuid_text, of 1]
    by (auto simp: list_messages_def receive_next_def list_sqs_def)
  with failed_pass_eq show ?thesis by simp
qed

end
