(* ===== verification/Dynamo_Repository.thy ===== *)
theory Dynamo_Repository
  imports Job_Repository Server_Config
begin

text \<open>
  The DynamoDB job repository of \<open>src/dynamodb_repository.rs\<close> and the attribute helpers of
  \<open>src/dynamodb_common.rs\<close>.  A table maps partition keys to items, an item maps attribute names to
  typed values; an update or a transaction of conditional writes is one step.  Eventually
  consistent reads see any past state of the table, so each operation takes what such reads saw as
  an argument: the view \<open>v\<close> for single items, and the items of all pages for index queries and
  scans.  The text of UUIDs, times and floating-point numbers and the JSON of options and solutions
  belong to other crates and are the record \<open>dyn_libs\<close>.  A failure of the service itself ends an
  operation and is not modelled.
\<close>

section \<open>Attributes\<close>

datatype AttributeValue = AttrS string | AttrN string | AttrBool bool | AttrNull

type_synonym Item = "string \<rightharpoonup> AttributeValue"
type_synonym DynDb = "string \<rightharpoonup> Item"

datatype dyn_error =
    MissingAttribute string
  | NotUuid string
  | NotNumber string
  | BadTime
  | BadJson
  | UnknownDynStatus string
  | NoJobKey
  | IdempotentLost
  | DynCompletionEmpty
  | DynTimePanic

record dyn_libs =
  dl_uuid_str :: "uuid \<Rightarrow> string"
  dl_uuid_parse :: "string \<Rightarrow> uuid option"
  dl_time_str :: "time \<Rightarrow> string"
  dl_time_parse :: "string \<Rightarrow> time option"
  dl_f64_str :: "f64 \<Rightarrow> string"
  dl_f64_parse :: "string \<Rightarrow> f64 option"
  dl_options_str :: "SolveOptions \<Rightarrow> string"
  dl_options_parse :: "string \<Rightarrow> SolveOptions option"
  dl_solution_str :: "SolutionResponse \<Rightarrow> string"
  dl_solution_parse :: "string \<Rightarrow> SolutionResponse option"

definition encode_time :: "dyn_libs \<Rightarrow> time \<Rightarrow> AttributeValue" where
  "encode_time L t = AttrS (dl_time_str L t)"

definition decode_time :: "dyn_libs \<Rightarrow> string \<Rightarrow> dyn_error + time" where
  "decode_time L s = ok_or BadTime (dl_time_parse L s)"

definition optional_string :: "Item \<Rightarrow> string \<Rightarrow> string option" where
  "optional_string it name = (case it name of Some (AttrS v) \<Rightarrow> Some v | Some (AttrN v) \<Rightarrow> Some v | _ \<Rightarrow> None)"

definition required_string :: "Item \<Rightarrow> string \<Rightarrow> dyn_error + string" where
  "required_string it name = ok_or (MissingAttribute name) (optional_string it name)"

definition required_number :: "Item \<Rightarrow> string \<Rightarrow> dyn_error + string" where
  "required_number it name = ok_or (MissingAttribute name) (case it name of Some (AttrN v) \<Rightarrow> Some v | _ \<Rightarrow> None)"

definition optional_bool :: "Item \<Rightarrow> string \<Rightarrow> bool option" where
  "optional_bool it name = (case it name of Some (AttrBool b) \<Rightarrow> Some b | _ \<Rightarrow> None)"

definition required_uuid :: "dyn_libs \<Rightarrow> Item \<Rightarrow> string \<Rightarrow> dyn_error + uuid" where
  "required_uuid L it name =
     and_then (required_string it name) (\<lambda>v. ok_or (NotUuid name) (dl_uuid_parse L v))"

section \<open>Keys\<close>

definition job_key :: "dyn_libs \<Rightarrow> JobId \<Rightarrow> string" where
  "job_key L i = ''JOB#'' @ dl_uuid_str L i"

definition job_id_from_key :: "dyn_libs \<Rightarrow> string \<Rightarrow> dyn_error + JobId" where
  "job_id_from_key L key =
     and_then (ok_or NoJobKey (strip_prefix ''JOB#'' key)) (\<lambda>t. ok_or NoJobKey (dl_uuid_parse L t))"

definition legacy_index_key :: "LegacyJobId \<Rightarrow> string" where
  "legacy_index_key i = ''LEGACY#'' @ decimal (unat i)"

definition astrometry_index_key :: "AstrometryId \<Rightarrow> string" where
  "astrometry_index_key i = ''ASTROMETRY#'' @ decimal (unat i)"

definition client_key :: "string \<Rightarrow> string" where
  "client_key owner = ''CLIENT#'' @ owner"

definition object_index_key :: "string \<Rightarrow> string" where
  "object_index_key object_key = ''OBJECT#'' @ object_key"

section \<open>Items\<close>

definition job_item :: "dyn_libs \<Rightarrow> JobRecord \<Rightarrow> Item" where
  "job_item L job =
     (let it = [''pk'' \<mapsto> AttrS (job_key L (j_id job)), ''entity'' \<mapsto> AttrS ''job'',
                ''id'' \<mapsto> AttrS (dl_uuid_str L (j_id job)),
                ''astrometry_id'' \<mapsto> AttrN (decimal (unat (j_astrometry_id job))),
                ''owner'' \<mapsto> AttrS (j_owner job), ''queue_weight'' \<mapsto> AttrN (dl_f64_str L (j_queue_weight job)),
                ''object_key'' \<mapsto> AttrS (j_object_key job),
                ''original_filename'' \<mapsto> AttrS (j_original_filename job),
                ''options_json'' \<mapsto> AttrS (dl_options_str L (j_options job)),
                ''status'' \<mapsto> AttrS (status_as_str (j_status job)),
                ''created_at'' \<mapsto> encode_time L (j_created_at job), ''attempts'' \<mapsto> AttrN ''0''] in
      case j_content_type job of Some ct \<Rightarrow> it(''content_type'' \<mapsto> AttrS ct) | None \<Rightarrow> it)"

definition donation_from_item :: "dyn_libs \<Rightarrow> Item \<Rightarrow> string \<Rightarrow> dyn_error + ValidationDonation" where
  "donation_from_item L it object_key =
     and_then (required_string it ''validation_license_version'') (\<lambda>license_version.
     and_then (and_then (required_string it ''validation_donated_at'') (decode_time L)) (\<lambda>donated_at.
     Inr \<lparr>vd_object_key = object_key, vd_comment = optional_string it ''validation_comment'',
          vd_solve_is_invalid =
            (case optional_bool it ''validation_solve_is_invalid'' of Some b \<Rightarrow> b | None \<Rightarrow> False),
          vd_license_version = license_version, vd_donated_at = donated_at\<rparr>))"

definition item_status :: "Item \<Rightarrow> dyn_error + JobStatus" where
  "item_status it =
     and_then (required_string it ''status'') (\<lambda>v. map_sum UnknownDynStatus id (status_parse v))"

definition record_from_item :: "dyn_libs \<Rightarrow> Item \<Rightarrow> dyn_error + JobRecord" where
  "record_from_item L it =
     and_then (required_uuid L it ''id'') (\<lambda>i.
     and_then (and_then (required_number it ''astrometry_id'')
       (\<lambda>v. ok_or (NotNumber ''astrometry_id'') (parse_u64 v))) (\<lambda>astrometry_id.
     and_then (required_string it ''owner'') (\<lambda>owner.
     and_then (and_then (required_number it ''queue_weight'')
       (\<lambda>v. ok_or (NotNumber ''queue_weight'') (dl_f64_parse L v))) (\<lambda>queue_weight.
     and_then (required_string it ''object_key'') (\<lambda>object_key.
     and_then (required_string it ''original_filename'') (\<lambda>original_filename.
     and_then (and_then (required_string it ''options_json'')
       (\<lambda>v. ok_or BadJson (dl_options_parse L v))) (\<lambda>options.
     and_then (item_status it) (\<lambda>status.
     and_then (and_then (required_string it ''created_at'') (decode_time L)) (\<lambda>created_at.
     and_then (traverse (decode_time L) (optional_string it ''started_at'')) (\<lambda>started_at.
     and_then (traverse (decode_time L) (optional_string it ''completed_at'')) (\<lambda>completed_at.
     and_then (traverse (\<lambda>v. ok_or BadJson (dl_solution_parse L v)) (optional_string it ''solution_json'')) (\<lambda>solution.
     and_then (traverse (donation_from_item L it) (optional_string it ''validation_object_key'')) (\<lambda>donation.
     Inr \<lparr>j_id = i, j_astrometry_id = astrometry_id, j_owner = owner, j_queue_weight = queue_weight,
          j_object_key = object_key, j_original_filename = original_filename,
          j_content_type = optional_string it ''content_type'', j_options = options, j_status = status,
          j_created_at = created_at, j_started_at = started_at, j_completed_at = completed_at,
          j_solution = solution, j_error = optional_string it ''error'',
          j_validation_donation = donation\<rparr>)))))))))))))"

definition history_record_from_item :: "dyn_libs \<Rightarrow> Item \<Rightarrow> dyn_error + JobHistoryRecord" where
  "history_record_from_item L it =
     and_then (required_uuid L it ''id'') (\<lambda>i.
     and_then (item_status it) (\<lambda>status.
     and_then (required_string it ''original_filename'') (\<lambda>original_filename.
     and_then (and_then (required_string it ''created_at'') (decode_time L)) (\<lambda>created_at.
     and_then (traverse (decode_time L) (optional_string it ''started_at'')) (\<lambda>started_at.
     and_then (traverse (decode_time L) (optional_string it ''completed_at'')) (\<lambda>completed_at.
     Inr \<lparr>jh_id = i, jh_status = status, jh_original_filename = original_filename,
          jh_created_at = created_at, jh_started_at = started_at, jh_completed_at = completed_at\<rparr>))))))"

definition nullable_json :: "dyn_libs \<Rightarrow> SolutionResponse option \<Rightarrow> AttributeValue" where
  "nullable_json L solution =
     (case solution of Some s \<Rightarrow> AttrS (dl_solution_str L s) | None \<Rightarrow> AttrNull)"

section \<open>Conditional writes\<close>

text \<open>The service compares strings by their bytes; a missing or differently typed attribute fails.\<close>

fun text_le :: "string \<Rightarrow> string \<Rightarrow> bool" where
  "text_le [] t = True"
| "text_le (c # s) [] = False"
| "text_le (c # s) (d # t) = ((of_char c :: nat) < of_char d \<or> (c = d \<and> text_le s t))"

definition attr_le :: "Item \<Rightarrow> string \<Rightarrow> AttributeValue \<Rightarrow> bool" where
  "attr_le it name v =
     (case (it name, v) of (Some (AttrS a), AttrS b) \<Rightarrow> text_le a b | _ \<Rightarrow> False)"

definition attr_gt :: "Item \<Rightarrow> string \<Rightarrow> AttributeValue \<Rightarrow> bool" where
  "attr_gt it name v =
     (case (it name, v) of (Some (AttrS a), AttrS b) \<Rightarrow> \<not> text_le a b | _ \<Rightarrow> False)"

text \<open>\<open>UpdateItem\<close> creates the item when there is none; its condition is evaluated on the empty item then.\<close>

definition item_at :: "DynDb \<Rightarrow> string \<Rightarrow> Item" where
  "item_at db key = (case db key of Some it \<Rightarrow> it | None \<Rightarrow> Map.empty)"

definition write_item :: "DynDb \<Rightarrow> string \<Rightarrow> (Item \<Rightarrow> Item) \<Rightarrow> DynDb" where
  "write_item db key upd = db(key \<mapsto> (upd (item_at db key))(''pk'' \<mapsto> AttrS key))"

definition update_item :: "DynDb \<Rightarrow> string \<Rightarrow> (Item \<Rightarrow> bool) \<Rightarrow> (Item \<Rightarrow> Item) \<Rightarrow> bool \<times> DynDb" where
  "update_item db key cond upd = (if cond (item_at db key) then (True, write_item db key upd) else (False, db))"

text \<open>\<open>REMOVE\<close>.\<close>

definition without :: "string list \<Rightarrow> Item \<Rightarrow> Item" where
  "without names it = (\<lambda>n. if n \<in> set names then None else it n)"

text \<open>\<open>ADD attempts :one\<close>.\<close>

definition add_attempt :: "Item \<Rightarrow> Item" where
  "add_attempt it = it(''attempts'' \<mapsto> AttrN (decimal
     ((case it ''attempts'' of Some (AttrN n) \<Rightarrow> decimal_value n | _ \<Rightarrow> 0) + 1)))"

section \<open>Queries\<close>

text \<open>
  The items of the pages of a query in their order; the loop stops at the limit.  A record without a
  key of a job ends it with an error.
\<close>

fun take_job_ids :: "dyn_libs \<Rightarrow> nat option \<Rightarrow> JobId list \<Rightarrow> Item list \<Rightarrow> dyn_error + JobId list" where
  "take_job_ids L limit ids [] = Inr ids"
| "take_job_ids L limit ids (it # items) =
     and_then (and_then (required_string it ''pk'') (job_id_from_key L)) (\<lambda>i.
       let ids1 = ids @ [i] in
       if is_some_and (\<lambda>n. n \<le> length ids1) limit then Inr ids1 else take_job_ids L limit ids1 items)"

definition job_ids_by_status :: "dyn_libs \<Rightarrow> nat option \<Rightarrow> Item list \<Rightarrow> dyn_error + JobId list" where
  "job_ids_by_status L limit items = (if limit = Some 0 then Inr [] else take_job_ids L limit [] items)"

definition client_last_served :: "dyn_libs \<Rightarrow> DynDb \<Rightarrow> string \<Rightarrow> dyn_error + time option" where
  "client_last_served L v owner =
     (case v (client_key owner) of
        None \<Rightarrow> Inr None
      | Some it \<Rightarrow> traverse (decode_time L) (optional_string it ''last_served_at''))"

definition dyn_get :: "dyn_libs \<Rightarrow> DynDb \<Rightarrow> JobId \<Rightarrow> dyn_error + JobRecord option" where
  "dyn_get L v i = traverse (record_from_item L) (v (job_key L i))"

definition dyn_indexed_job :: "dyn_libs \<Rightarrow> DynDb \<Rightarrow> DynDb \<Rightarrow> string \<Rightarrow> dyn_error + JobRecord option" where
  "dyn_indexed_job L db v key =
     and_then (traverse (\<lambda>it. required_uuid L it ''job_id'') (db key)) (\<lambda>found.
       case found of None \<Rightarrow> Inr None | Some i \<Rightarrow> dyn_get L v i)"

definition dyn_get_by_legacy_id :: "dyn_libs \<Rightarrow> DynDb \<Rightarrow> DynDb \<Rightarrow> LegacyJobId \<Rightarrow> dyn_error + JobRecord option" where
  "dyn_get_by_legacy_id L db v i = dyn_indexed_job L db v (legacy_index_key i)"

definition dyn_get_by_astrometry_id ::
  "dyn_libs \<Rightarrow> DynDb \<Rightarrow> DynDb \<Rightarrow> AstrometryId \<Rightarrow> dyn_error + JobRecord option" where
  "dyn_get_by_astrometry_id L db v i = dyn_indexed_job L db v (astrometry_index_key i)"

text \<open>A scan's pages hold the items that pass its filter; with a limit the rest is cut off.\<close>

definition scan :: "nat option \<Rightarrow> Item list \<Rightarrow> Item list" where
  "scan limit items = (case limit of Some n \<Rightarrow> take n items | None \<Rightarrow> items)"

text \<open>The scan finds jobs written before the object index existed.\<close>

definition dyn_find_by_object_key ::
  "dyn_libs \<Rightarrow> DynDb \<Rightarrow> Item list \<Rightarrow> string \<Rightarrow> dyn_error + JobRecord option" where
  "dyn_find_by_object_key L db scanned object_key =
     and_then (traverse (\<lambda>it. required_uuid L it ''job_id'') (db (object_index_key object_key))) (\<lambda>found.
       case found of
         Some i \<Rightarrow> traverse (record_from_item L) (db (job_key L i))
       | None \<Rightarrow>
           traverse (record_from_item L)
             (case scan (Some 1) scanned of it # _ \<Rightarrow> Some it | [] \<Rightarrow> None))"

definition dyn_list_by_owner :: "dyn_libs \<Rightarrow> Item list \<Rightarrow> nat \<Rightarrow> dyn_error + JobHistoryRecord list" where
  "dyn_list_by_owner L items limit =
     (if limit = 0 then Inr [] else collect_results (map (history_record_from_item L) items))"

definition dyn_queue_depth :: "dyn_libs \<Rightarrow> Item list \<Rightarrow> dyn_error + nat" where
  "dyn_queue_depth L items = map_sum id length (job_ids_by_status L None items)"

section \<open>Submitting\<close>

definition index_item :: "dyn_libs \<Rightarrow> string \<Rightarrow> string \<Rightarrow> JobId \<Rightarrow> Item" where
  "index_item L key entity i =
     [''pk'' \<mapsto> AttrS key, ''entity'' \<mapsto> AttrS entity, ''job_id'' \<mapsto> AttrS (dl_uuid_str L i)]"

text \<open>The three puts of the transaction happen together, and only on unused keys.\<close>

definition dyn_enqueue :: "dyn_libs \<Rightarrow> DynDb \<Rightarrow> Item list \<Rightarrow> JobRecord \<Rightarrow> (dyn_error + JobRecord) \<times> DynDb" where
  "dyn_enqueue L db scanned job0 =
     (let job = job0\<lparr>j_astrometry_id := astrometry_id_for_job (j_id job0), j_status := Queued\<rparr>;
          object_key = object_index_key (j_object_key job);
          astrometry_key = astrometry_index_key (j_astrometry_id job) in
      if db (job_key L (j_id job)) = None \<and> db object_key = None \<and> db astrometry_key = None
      then (Inr job, db(job_key L (j_id job) \<mapsto> job_item L job,
                        object_key \<mapsto> index_item L object_key ''object_index'' (j_id job),
                        astrometry_key \<mapsto> index_item L astrometry_key ''astrometry_index'' (j_id job)))
      else (and_then (dyn_find_by_object_key L db scanned (j_object_key job)) (ok_or IdempotentLost), db))"

section \<open>Claiming\<close>

definition solving_until :: "dyn_libs \<Rightarrow> time \<Rightarrow> Item \<Rightarrow> bool" where
  "solving_until L now it =
     (it ''status'' = Some (AttrS ''solving'') \<and> attr_le it ''lease_expires_at'' (encode_time L now))"

definition requeue_item :: "Item \<Rightarrow> Item" where
  "requeue_item it =
     without [''lease_token'', ''lease_expires_at'', ''notification_delivered_at'']
       (it(''status'' \<mapsto> AttrS ''queued''))"

text \<open>A job that is no longer an expired one fails its condition and is passed over.\<close>

fun reclaim_items :: "dyn_libs \<Rightarrow> time \<Rightarrow> JobId list \<Rightarrow> DynDb \<Rightarrow> DynDb" where
  "reclaim_items L now [] db = db"
| "reclaim_items L now (i # ids) db =
     reclaim_items L now ids (snd (update_item db (job_key L i) (solving_until L now) requeue_item))"

definition dyn_reclaim_expired :: "dyn_libs \<Rightarrow> DynDb \<Rightarrow> Item list \<Rightarrow> time \<Rightarrow> (dyn_error + unit) \<times> DynDb" where
  "dyn_reclaim_expired L db items now =
     (case job_ids_by_status L None items of
        Inl e \<Rightarrow> (Inl e, db)
      | Inr ids \<Rightarrow> (Inr (), reclaim_items L now ids db))"

fun queued_jobs :: "dyn_libs \<Rightarrow> DynDb \<Rightarrow> JobId list \<Rightarrow> dyn_error + JobRecord list" where
  "queued_jobs L v [] = Inr []"
| "queued_jobs L v (i # ids) =
     and_then (dyn_get L v i) (\<lambda>found.
     and_then (queued_jobs L v ids) (\<lambda>jobs.
       Inr (case found of Some job \<Rightarrow> if j_status job = Queued then job # jobs else jobs | None \<Rightarrow> jobs)))"

definition dyn_score :: "dyn_libs \<Rightarrow> DynDb \<Rightarrow> time \<Rightarrow> JobRecord \<Rightarrow> dyn_error + f64" where
  "dyn_score L v now job =
     map_sum id (\<lambda>served. case served of
         Some served_at \<Rightarrow> f64_scale (of_int (num_milliseconds (now - served_at)) / 1000)
                        (f64_max (j_queue_weight job) (Fin (1 / 100)))
       | None \<Rightarrow> Fin unseen_score)
       (client_last_served L v (j_owner job))"

fun best_job :: "dyn_libs \<Rightarrow> DynDb \<Rightarrow> time \<Rightarrow> (f64 \<times> JobRecord) option \<Rightarrow> JobRecord list
    \<Rightarrow> dyn_error + (f64 \<times> JobRecord) option" where
  "best_job L v now best [] = Inr best"
| "best_job L v now best (job # jobs) =
     and_then (dyn_score L v now job) (\<lambda>score.
       best_job L v now (if better score job best then Some (score, job) else best) jobs)"

definition queued_candidate :: "dyn_libs \<Rightarrow> DynDb \<Rightarrow> Item list \<Rightarrow> time \<Rightarrow> dyn_error + JobRecord option" where
  "queued_candidate L v items now =
     and_then (job_ids_by_status L None items) (\<lambda>ids.
     and_then (queued_jobs L v ids) (\<lambda>jobs. map_sum id (map_option snd) (best_job L v now None jobs)))"

datatype ClaimEligibility = EligibleQueued | EligibleExpiredLease

definition requested_candidate ::
  "dyn_libs \<Rightarrow> DynDb \<Rightarrow> JobId \<Rightarrow> time \<Rightarrow> dyn_error + (JobRecord \<times> ClaimEligibility) option" where
  "requested_candidate L db i now =
     (case db (job_key L i) of
        None \<Rightarrow> Inr None
      | Some it \<Rightarrow>
          and_then (record_from_item L it) (\<lambda>job.
            case j_status job of
              Queued \<Rightarrow> Inr (Some (job, EligibleQueued))
            | Solving \<Rightarrow>
                and_then (traverse (decode_time L) (optional_string it ''lease_expires_at'')) (\<lambda>expires.
                  Inr (if is_some_and (\<lambda>e. e \<le> now) expires then Some (job, EligibleExpiredLease) else None))
            | _ \<Rightarrow> Inr None))"

definition eligible :: "dyn_libs \<Rightarrow> time \<Rightarrow> ClaimEligibility \<Rightarrow> Item \<Rightarrow> bool" where
  "eligible L now e it =
     (case e of
        EligibleQueued \<Rightarrow> it ''status'' = Some (AttrS ''queued'')
      | EligibleExpiredLease \<Rightarrow> solving_until L now it)"

definition lease_item :: "dyn_libs \<Rightarrow> time \<Rightarrow> string \<Rightarrow> time \<Rightarrow> Item \<Rightarrow> Item" where
  "lease_item L now token expires it =
     add_attempt (it(''status'' \<mapsto> AttrS ''solving'', ''started_at'' \<mapsto> encode_time L now,
                     ''lease_token'' \<mapsto> AttrS token, ''lease_expires_at'' \<mapsto> encode_time L expires))"

definition serve_item :: "dyn_libs \<Rightarrow> time \<Rightarrow> Item \<Rightarrow> Item" where
  "serve_item L now it = it(''entity'' \<mapsto> AttrS ''client'', ''last_served_at'' \<mapsto> encode_time L now)"

text \<open>
  \<open>expired\<close> and \<open>queued\<close> are what the index queries for solving and for queued jobs return.
\<close>

definition claim_candidate ::
  "dyn_libs \<Rightarrow> DynDb \<Rightarrow> DynDb \<Rightarrow> Item list \<Rightarrow> Item list \<Rightarrow> time \<Rightarrow> JobId option
    \<Rightarrow> (dyn_error + (JobRecord \<times> ClaimEligibility) option) \<times> DynDb" where
  "claim_candidate L db0 v expired queued now requested_job_id =
     (case requested_job_id of
        Some i \<Rightarrow> (requested_candidate L db0 i now, db0)
      | None \<Rightarrow>
          (case dyn_reclaim_expired L db0 expired now of
             (Inl e, db) \<Rightarrow> (Inl e, db)
           | (Inr _, db) \<Rightarrow>
               (map_sum id (map_option (\<lambda>job. (job, EligibleQueued))) (queued_candidate L v queued now), db)))"

text \<open>The transaction updates the job and its client together, under the condition on the job.\<close>

definition dyn_claim ::
  "dyn_libs \<Rightarrow> DynDb \<Rightarrow> DynDb \<Rightarrow> Item list \<Rightarrow> Item list \<Rightarrow> time \<Rightarrow> string \<Rightarrow> JobId option \<Rightarrow> u64
    \<Rightarrow> (dyn_error + JobLease option) \<times> DynDb" where
  "dyn_claim L db0 v expired queued now lease_token requested_job_id lease_seconds =
     (case claim_candidate L db0 v expired queued now requested_job_id of
        (Inl e, db) \<Rightarrow> (Inl e, db)
      | (Inr None, db) \<Rightarrow> (Inr None, db)
      | (Inr (Some (job, eligibility)), db) \<Rightarrow>
          (case lease_expiry now lease_seconds of
             None \<Rightarrow> (Inl DynTimePanic, db)
           | Some expires \<Rightarrow>
               if \<not> eligible L now eligibility (item_at db (job_key L (j_id job))) then (Inr None, db)
               else (Inr (Some \<lparr>jl_job_id = j_id job, jl_lease_token = lease_token, jl_lease_expires_at = expires,
                                jl_original_filename = j_original_filename job, jl_options = j_options job\<rparr>),
                     write_item (write_item db (job_key L (j_id job)) (lease_item L now lease_token expires))
                       (client_key (j_owner job)) (serve_item L now))))"

section \<open>Operations of a worker that holds a lease\<close>

definition lease_held :: "dyn_libs \<Rightarrow> time \<Rightarrow> string \<Rightarrow> Item \<Rightarrow> bool" where
  "lease_held L now token it =
     (it ''status'' = Some (AttrS ''solving'') \<and> it ''lease_token'' = Some (AttrS token)
      \<and> attr_gt it ''lease_expires_at'' (encode_time L now))"

definition dyn_heartbeat ::
  "dyn_libs \<Rightarrow> DynDb \<Rightarrow> time \<Rightarrow> JobId \<Rightarrow> string \<Rightarrow> u64 \<Rightarrow> (dyn_error + bool) \<times> DynDb" where
  "dyn_heartbeat L db now i lease_token lease_seconds =
     (case lease_expiry now lease_seconds of
        None \<Rightarrow> (Inl DynTimePanic, db)
      | Some expires \<Rightarrow>
          apfst Inr (update_item db (job_key L i) (lease_held L now lease_token)
            (\<lambda>it. it(''lease_expires_at'' \<mapsto> encode_time L expires))))"

text \<open>Both reads are eventually consistent.\<close>

definition dyn_input_key ::
  "dyn_libs \<Rightarrow> DynDb \<Rightarrow> DynDb \<Rightarrow> time \<Rightarrow> JobId \<Rightarrow> string \<Rightarrow> dyn_error + string option" where
  "dyn_input_key L v v' now i lease_token =
     and_then (dyn_get L v i) (\<lambda>found.
       case found of
         None \<Rightarrow> Inr None
       | Some job \<Rightarrow>
           let active = is_some_and (\<lambda>it. optional_string it ''lease_token'' = Some lease_token
                          \<and> is_some_and (\<lambda>e. now < e)
                              (Option.bind (optional_string it ''lease_expires_at'') (dl_time_parse L)))
                          (v' (job_key L i)) in
           Inr (if j_status job = Solving \<and> active then Some (input_object_key job) else None))"

definition finish_item :: "dyn_libs \<Rightarrow> time \<Rightarrow> SolutionResponse option \<Rightarrow> string option \<Rightarrow> Item \<Rightarrow> Item" where
  "finish_item L now solution err it =
     without [''lease_token'', ''lease_expires_at'']
       (it(''status'' \<mapsto> AttrS (if solution \<noteq> None then ''succeeded'' else ''failed''),
           ''completed_at'' \<mapsto> encode_time L now, ''solution_json'' \<mapsto> nullable_json L solution,
           ''error'' \<mapsto> (case err of Some e \<Rightarrow> AttrS e | None \<Rightarrow> AttrNull)))"

definition dyn_complete ::
  "dyn_libs \<Rightarrow> DynDb \<Rightarrow> time \<Rightarrow> JobId \<Rightarrow> string \<Rightarrow> SolutionResponse option \<Rightarrow> string option
    \<Rightarrow> (dyn_error + bool) \<times> DynDb" where
  "dyn_complete L db now i lease_token solution err =
     (if solution = None \<and> err = None then (Inl DynCompletionEmpty, db)
      else apfst Inr (update_item db (job_key L i) (lease_held L now lease_token) (finish_item L now solution err)))"

section \<open>Donations and notifications\<close>

definition donate_item :: "dyn_libs \<Rightarrow> ValidationDonation \<Rightarrow> Item \<Rightarrow> Item" where
  "donate_item L d it =
     it(''validation_object_key'' \<mapsto> AttrS (vd_object_key d),
        ''validation_donated_at'' \<mapsto>
          (case it ''validation_donated_at'' of Some t \<Rightarrow> t | None \<Rightarrow> encode_time L (vd_donated_at d)),
        ''validation_comment'' \<mapsto> (case vd_comment d of Some c \<Rightarrow> AttrS c | None \<Rightarrow> AttrNull),
        ''validation_solve_is_invalid'' \<mapsto> AttrBool (vd_solve_is_invalid d),
        ''validation_license_version'' \<mapsto> AttrS (vd_license_version d))"

definition dyn_donate_validation ::
  "dyn_libs \<Rightarrow> DynDb \<Rightarrow> JobId \<Rightarrow> ValidationDonation \<Rightarrow> bool \<times> DynDb" where
  "dyn_donate_validation L db i d =
     update_item db (job_key L i)
       (\<lambda>it. it ''status'' = Some (AttrS ''succeeded'') \<or> it ''status'' = Some (AttrS ''failed''))
       (donate_item L d)"

definition dyn_pending_notifications :: "dyn_libs \<Rightarrow> Item list \<Rightarrow> nat \<Rightarrow> dyn_error + JobId list" where
  "dyn_pending_notifications L items limit = job_ids_by_status L (Some limit) items"

text \<open>Without a condition: a missing job gets an item that holds nothing else.\<close>

definition dyn_mark_notification_delivered :: "dyn_libs \<Rightarrow> DynDb \<Rightarrow> time \<Rightarrow> JobId \<Rightarrow> DynDb" where
  "dyn_mark_notification_delivered L db now i =
     write_item db (job_key L i) (\<lambda>it. it(''notification_delivered_at'' \<mapsto> encode_time L now))"

end
