(* ===== verification/Dynamo_Queue.thy ===== *)
theory Dynamo_Queue
  imports Dynamo_Repository Queue_Properties Service_Names
begin

text \<open>
  The DynamoDB repository as a queue.  Whatever its eventually consistent reads return, every attribute
  of a job's item goes back to a call that wrote it, every call moves a job as \<open>next_phases\<close> of
  \<open>Job_Queue\<close> allows, and the table is a second instance of the lease contract \<open>lease_queue\<close>.
\<close>

section \<open>What the code relies on\<close>

text \<open>
  The text of a UUID parses back.  RFC 3339 writes the years 0000 to 9999 with four digits: the text of
  a time of these years parses back, and the order of the texts is the order of the times, as the
  fields have fixed positions and the sign that follows the seconds sorts before a digit of their fraction.
\<close>

definition calendar_time :: "time \<Rightarrow> bool" where
  "calendar_time t = (- 62167219200 * nanos_per_second \<le> t \<and> t < 253402300800 * nanos_per_second)"

definition dyn_libs_ok :: "dyn_libs \<Rightarrow> bool" where
  "dyn_libs_ok L =
     ((\<forall>i. dl_uuid_parse L (dl_uuid_str L i) = Some i)
      \<and> (\<forall>t. calendar_time t \<longrightarrow> dl_time_parse L (dl_time_str L t) = Some t)
      \<and> (\<forall>a b. calendar_time a \<and> calendar_time b \<longrightarrow> (text_le (dl_time_str L a) (dl_time_str L b) \<longleftrightarrow> a \<le> b)))"

lemma dyn_libs_okD:
  assumes "dyn_libs_ok L"
  shows "dl_uuid_parse L (dl_uuid_str L i) = Some i"
    "calendar_time t \<Longrightarrow> dl_time_parse L (dl_time_str L t) = Some t"
    "calendar_time a \<Longrightarrow> calendar_time b \<Longrightarrow> text_le (dl_time_str L a) (dl_time_str L b) \<longleftrightarrow> a \<le> b"
  using assms by (auto simp: dyn_libs_ok_def)

lemma job_key_eq: "dyn_libs_ok L \<Longrightarrow> job_key L i = job_key L j \<longleftrightarrow> i = j"
  unfolding job_key_def by (metis append_same_eq dyn_libs_okD(1) option.inject same_append_eq)

lemma job_key_distinct [simp]:
  "job_key L i \<noteq> object_index_key k" "job_key L i \<noteq> astrometry_index_key a" "job_key L i \<noteq> client_key w"
  "object_index_key k \<noteq> job_key L i" "astrometry_index_key a \<noteq> job_key L i" "client_key w \<noteq> job_key L i"
  by (simp_all add: job_key_def object_index_key_def astrometry_index_key_def client_key_def)

lemma parse_unsigned_decimal: "n < 2 ^ w \<Longrightarrow> parse_unsigned w (decimal n) = Some n"
proof -
  assume n: "n < 2 ^ w"
  have digits: "is_digit c" if "c \<in> set (decimal n)" for c using that by (rule is_digit_decimal)
  moreover have "\<not> is_digit (CHR ''+'')" by (simp add: is_digit_def)
  ultimately have "hd (decimal n) \<noteq> CHR ''+''" by (metis decimal_nonempty hd_in_set)
  with n digits show ?thesis
    using decimal_value_decimal [of n]
    by (cases "decimal n") (auto simp: parse_unsigned_def list_all_iff Let_def)
qed

lemma parse_u64_decimal [simp]: "parse_u64 (decimal (unat x)) = Some x"
  using parse_unsigned_decimal [of "unat x" 64] unsigned_less [of x, where 'a = nat] by (simp add: parse_u64_def)

section \<open>Operations as events\<close>

text \<open>The arguments of an event carry what the eventually consistent reads of the call return.\<close>

datatype dyn_event =
    DynEnqueue "Item list" JobRecord
  | DynClaim DynDb "Item list" "Item list" time string "JobId option" u64
  | DynHeartbeat time JobId string u64
  | DynComplete time JobId string "SolutionResponse option" "string option"
  | DynDonate JobId ValidationDonation
  | DynDelivered time JobId

fun run_dyn :: "dyn_libs \<Rightarrow> dyn_event \<Rightarrow> DynDb \<Rightarrow> DynDb" where
  "run_dyn L (DynEnqueue scanned job) db = snd (dyn_enqueue L db scanned job)"
| "run_dyn L (DynClaim v exps queued now tok req secs) db = snd (dyn_claim L db v exps queued now tok req secs)"
| "run_dyn L (DynHeartbeat now i tok secs) db = snd (dyn_heartbeat L db now i tok secs)"
| "run_dyn L (DynComplete now i tok sol err) db = snd (dyn_complete L db now i tok sol err)"
| "run_dyn L (DynDonate i donation) db = snd (dyn_donate_validation L db i donation)"
| "run_dyn L (DynDelivered now i) db = dyn_mark_notification_delivered L db now i"

fun dyn_tokens :: "dyn_event \<Rightarrow> string set" where
  "dyn_tokens (DynClaim _ _ _ _ tok _ _) = {tok}"
| "dyn_tokens _ = {}"

fun dyn_time :: "dyn_event \<Rightarrow> time" where
  "dyn_time (DynEnqueue _ job) = j_created_at job"
| "dyn_time (DynClaim _ _ _ now _ _ _) = now"
| "dyn_time (DynHeartbeat now _ _ _) = now"
| "dyn_time (DynComplete now _ _ _ _) = now"
| "dyn_time (DynDonate _ donation) = vd_donated_at donation"
| "dyn_time (DynDelivered now _) = now"

text \<open>The times that an event writes or compares with.\<close>

fun dyn_times :: "dyn_event \<Rightarrow> time list" where
  "dyn_times (DynEnqueue _ job) = [j_created_at job]"
| "dyn_times (DynClaim _ _ _ now _ _ secs) = now # (case lease_expiry now secs of Some e \<Rightarrow> [e] | None \<Rightarrow> [])"
| "dyn_times (DynHeartbeat now _ _ secs) = now # (case lease_expiry now secs of Some e \<Rightarrow> [e] | None \<Rightarrow> [])"
| "dyn_times (DynComplete now _ _ _ _) = [now]"
| "dyn_times (DynDonate _ donation) = [vd_donated_at donation]"
| "dyn_times (DynDelivered now _) = [now]"

definition timely :: "dyn_event \<Rightarrow> bool" where
  "timely ev = list_all calendar_time (dyn_times ev)"

fun dyn_call_of :: "dyn_event \<Rightarrow> job_call" where
  "dyn_call_of (DynEnqueue _ job) = Submits (j_id job)"
| "dyn_call_of (DynClaim _ _ _ now tok req secs) = Claims now tok req (lease_expiry now secs)"
| "dyn_call_of (DynHeartbeat now i tok secs) = Renews now i tok (lease_expiry now secs)"
| "dyn_call_of (DynComplete now i tok sol err) = Finishes now i tok (reported sol err)"
| "dyn_call_of (DynDonate _ _) = Keeps"
| "dyn_call_of (DynDelivered _ _) = Keeps"

section \<open>Where the attributes come from\<close>

definition input_names :: "string list" where
  "input_names = [''id'', ''astrometry_id'', ''owner'', ''queue_weight'', ''object_key'', ''original_filename'',
     ''content_type'', ''options_json'', ''created_at'']"

fun submitted_item_by :: "dyn_libs \<Rightarrow> JobId \<Rightarrow> Item \<Rightarrow> dyn_event \<Rightarrow> bool" where
  "submitted_item_by L i it (DynEnqueue _ job) =
     (j_id job = i \<and> list_all (\<lambda>n. it n = job_item L (queued_job job) n) input_names)"
| "submitted_item_by L i it _ = False"

fun started_item_by :: "dyn_libs \<Rightarrow> JobId \<Rightarrow> Item \<Rightarrow> dyn_event \<Rightarrow> bool" where
  "started_item_by L i it (DynClaim _ _ _ now tok req secs) =
     (req \<in> {None, Some i} \<and> it ''started_at'' = Some (encode_time L now))"
| "started_item_by L i it _ = False"

fun completed_item_by :: "dyn_libs \<Rightarrow> JobId \<Rightarrow> Item \<Rightarrow> dyn_event \<Rightarrow> bool" where
  "completed_item_by L i it (DynComplete now j tok sol err) =
     (j = i \<and> it ''status'' = Some (AttrS (if sol \<noteq> None then ''succeeded'' else ''failed''))
      \<and> it ''completed_at'' = Some (encode_time L now) \<and> it ''solution_json'' = Some (nullable_json L sol)
      \<and> it ''error'' = Some (case err of Some e \<Rightarrow> AttrS e | None \<Rightarrow> AttrNull))"
| "completed_item_by L i it _ = False"

text \<open>A second donation replaces everything but the time of the first.\<close>

fun donated_item_by :: "JobId \<Rightarrow> Item \<Rightarrow> dyn_event \<Rightarrow> bool" where
  "donated_item_by i it (DynDonate j d) =
     (j = i \<and> it ''validation_object_key'' = Some (AttrS (vd_object_key d))
      \<and> it ''validation_comment'' = Some (case vd_comment d of Some c \<Rightarrow> AttrS c | None \<Rightarrow> AttrNull)
      \<and> it ''validation_solve_is_invalid'' = Some (AttrBool (vd_solve_is_invalid d))
      \<and> it ''validation_license_version'' = Some (AttrS (vd_license_version d)))"
| "donated_item_by i it _ = False"

fun dated_item_by :: "dyn_libs \<Rightarrow> JobId \<Rightarrow> Item \<Rightarrow> dyn_event \<Rightarrow> bool" where
  "dated_item_by L i it (DynDonate j d) = (j = i \<and> it ''validation_donated_at'' = Some (encode_time L (vd_donated_at d)))"
| "dated_item_by L i it _ = False"

definition has_status :: "Item \<Rightarrow> string \<Rightarrow> bool" where
  "has_status it s = (it ''status'' = Some (AttrS s))"

definition item_done :: "Item \<Rightarrow> bool" where
  "item_done it = (has_status it ''succeeded'' \<or> has_status it ''failed'')"

definition start_ok :: "dyn_libs \<Rightarrow> dyn_event set \<Rightarrow> JobId \<Rightarrow> Item \<Rightarrow> bool" where
  "start_ok L E i it =
     ((it ''started_at'' = None \<and> has_status it ''queued'') \<or> (\<exists>ev\<in>E. started_item_by L i it ev))"

text \<open>A solving job, and no other, has a lease, and its token has been drawn.\<close>

definition drawn_by :: "dyn_event set \<Rightarrow> string set" where
  "drawn_by E = (\<Union>ev\<in>E. dyn_tokens ev)"

definition lease_ok :: "dyn_libs \<Rightarrow> dyn_event set \<Rightarrow> Item \<Rightarrow> bool" where
  "lease_ok L E it =
     (if has_status it ''solving''
      then \<exists>t e. it ''lease_token'' = Some (AttrS t) \<and> t \<in> drawn_by E
             \<and> it ''lease_expires_at'' = Some (encode_time L e) \<and> (\<exists>ev\<in>E. e \<in> set (dyn_times ev))
      else it ''lease_token'' = None)"

definition result_ok :: "dyn_libs \<Rightarrow> dyn_event set \<Rightarrow> JobId \<Rightarrow> Item \<Rightarrow> bool" where
  "result_ok L E i it =
     (if item_done it then \<exists>ev\<in>E. completed_item_by L i it ev
      else (has_status it ''queued'' \<or> has_status it ''solving'')
        \<and> it ''completed_at'' = None \<and> it ''solution_json'' = None \<and> it ''error'' = None)"

definition donation_ok :: "dyn_libs \<Rightarrow> dyn_event set \<Rightarrow> JobId \<Rightarrow> Item \<Rightarrow> bool" where
  "donation_ok L E i it =
     (if it ''validation_object_key'' = None then it ''validation_donated_at'' = None
      else (\<exists>ev\<in>E. donated_item_by i it ev) \<and> (\<exists>ev\<in>E. dated_item_by L i it ev))"

definition job_written :: "dyn_libs \<Rightarrow> dyn_event set \<Rightarrow> JobId \<Rightarrow> Item \<Rightarrow> bool" where
  "job_written L E i it =
     ((\<exists>ev\<in>E. submitted_item_by L i it ev) \<and> start_ok L E i it \<and> lease_ok L E it
      \<and> result_ok L E i it \<and> donation_ok L E i it)"

text \<open>A notification that is marked for a job that is gone leaves an item that is no job.\<close>

definition no_job :: "Item \<Rightarrow> bool" where
  "no_job it = (\<forall>name. name \<noteq> ''pk'' \<and> name \<noteq> ''notification_delivered_at'' \<longrightarrow> it name = None)"

definition item_ok :: "dyn_libs \<Rightarrow> dyn_event set \<Rightarrow> JobId \<Rightarrow> Item \<Rightarrow> bool" where
  "item_ok L E i it = (no_job it \<or> job_written L E i it)"

lemma no_jobD: "no_job it \<Longrightarrow> name \<noteq> ''pk'' \<Longrightarrow> name \<noteq> ''notification_delivered_at'' \<Longrightarrow> it name = None"
  by (simp add: no_job_def)

lemma job_writtenD:
  assumes "job_written L E i it"
  shows "\<exists>ev\<in>E. submitted_item_by L i it ev" "start_ok L E i it" "lease_ok L E it" "result_ok L E i it" "donation_ok L E i it"
  using assms by (simp_all add: job_written_def)

lemma drawn_by_insert [simp]: "drawn_by (insert ev E) = dyn_tokens ev \<union> drawn_by E" "drawn_by {} = {}"
  by (simp_all add: drawn_by_def)

lemma job_written_more: "job_written L E i it \<Longrightarrow> job_written L (insert ev E) i it"
  unfolding job_written_def start_ok_def lease_ok_def result_ok_def donation_ok_def
  by (auto split: if_splits)

lemma item_ok_more: "item_ok L E i it \<Longrightarrow> item_ok L (insert ev E) i it"
  unfolding item_ok_def using job_written_more by blast

lemma item_ok_status: "item_ok L E i it \<Longrightarrow> has_status it s \<Longrightarrow> job_written L E i it"
  using no_jobD [of it "''status''"] by (auto simp: item_ok_def has_status_def)

lemma item_ok_lease:
  assumes "item_ok L E i it" "it ''lease_token'' = Some (AttrS t)"
  shows "t \<in> drawn_by E \<and> has_status it ''solving''"
proof -
  have "\<not> no_job it" using assms(2) no_jobD [of it "''lease_token''"] by auto
  with assms show ?thesis by (auto simp: item_ok_def job_written_def lease_ok_def split: if_splits)
qed

section \<open>What a call does to one job\<close>

text \<open>A heartbeat or a completion whose conditions hold does not leave the item of its job as it is.\<close>

fun quiet :: "dyn_libs \<Rightarrow> dyn_event \<Rightarrow> JobId \<Rightarrow> Item \<Rightarrow> bool" where
  "quiet L (DynHeartbeat now j tok secs) i it = (lease_expiry now secs = None \<or> \<not> (j = i \<and> lease_held L now tok it))"
| "quiet L (DynComplete now j tok sol err) i it = ((sol = None \<and> err = None) \<or> \<not> (j = i \<and> lease_held L now tok it))"
| "quiet L _ i it = True"

text \<open>The argument \<open>k\<close> is the one job that the call may lease.\<close>

inductive item_call :: "dyn_libs \<Rightarrow> JobId \<Rightarrow> JobId \<Rightarrow> dyn_event \<Rightarrow> Item \<Rightarrow> Item \<Rightarrow> bool" for L k i where
  ic_same: "quiet L ev i it \<Longrightarrow> item_call L k i ev it it"
| ic_put: "j_id job = i \<Longrightarrow> item_call L k i (DynEnqueue scanned job) Map.empty (job_item L (queued_job job))"
| ic_expire: "solving_until L now it
    \<Longrightarrow> item_call L k i (DynClaim v exps queued now tok None secs) it ((requeue_item it)(''pk'' \<mapsto> pk))"
| ic_lease: "has_status it ''queued'' \<or> solving_until L now it \<Longrightarrow> req \<in> {None, Some i} \<Longrightarrow> lease_expiry now secs = Some e \<Longrightarrow> k = i
    \<Longrightarrow> item_call L k i (DynClaim v exps queued now tok req secs) it ((lease_item L now tok e it)(''pk'' \<mapsto> pk))"
| ic_expire_lease: "solving_until L now it \<Longrightarrow> lease_expiry now secs = Some e \<Longrightarrow> k = i
    \<Longrightarrow> item_call L k i (DynClaim v exps queued now tok None secs) it
          ((lease_item L now tok e ((requeue_item it)(''pk'' \<mapsto> pk')))(''pk'' \<mapsto> pk))"
| ic_renew: "lease_held L now tok it \<Longrightarrow> lease_expiry now secs = Some e
    \<Longrightarrow> item_call L k i (DynHeartbeat now i tok secs) it (it(''lease_expires_at'' \<mapsto> encode_time L e, ''pk'' \<mapsto> pk))"
| ic_finish: "lease_held L now tok it \<Longrightarrow> sol \<noteq> None \<or> err \<noteq> None
    \<Longrightarrow> item_call L k i (DynComplete now i tok sol err) it ((finish_item L now sol err it)(''pk'' \<mapsto> pk))"
| ic_donate: "item_done it \<Longrightarrow> item_call L k i (DynDonate i d) it ((donate_item L d it)(''pk'' \<mapsto> pk))"
| ic_mark: "item_call L k i (DynDelivered now i) it (it(''notification_delivered_at'' \<mapsto> encode_time L now, ''pk'' \<mapsto> pk))"

lemma without_apply [simp]: "without names it n = (if n \<in> set names then None else it n)"
  by (simp add: without_def)

lemma add_attempt_apply [simp]: "n \<noteq> ''attempts'' \<Longrightarrow> add_attempt it n = it n"
  by (simp add: add_attempt_def)

text \<open>The attributes of an item that is written to go back to the earlier calls and this one.\<close>

lemmas written_defs = start_ok_def lease_ok_def result_ok_def donation_ok_def item_done_def has_status_def

lemma submitted_by_frame:
  "list_all (\<lambda>n. it' n = it n) input_names \<Longrightarrow> submitted_item_by L i it' ev = submitted_item_by L i it ev"
  by (cases ev) (auto simp: list_all_iff)

lemma written_frame:
  assumes "\<exists>ev\<in>E. submitted_item_by L i it ev" "list_all (\<lambda>n. it' n = it n) input_names"
    "start_ok L E i it'" "lease_ok L E it'" "result_ok L E i it'" "donation_ok L E i it'"
  shows "job_written L E i it'"
  using assms submitted_by_frame [OF assms(2)] by (simp add: job_written_def)

lemma donation_frame:
  assumes "donation_ok L E i it"
    "list_all (\<lambda>n. it' n = it n) [''validation_object_key'', ''validation_comment'', ''validation_solve_is_invalid'',
       ''validation_license_version'', ''validation_donated_at'']"
  shows "donation_ok L E i it'"
proof -
  have "donated_item_by i it' ev = donated_item_by i it ev" "dated_item_by L i it' ev = dated_item_by L i it ev" for ev
    using assms(2) by (cases ev; simp)+
  with assms show ?thesis by (simp add: donation_ok_def)
qed

lemma start_frame: "start_ok L E i it \<Longrightarrow> it' ''started_at'' = it ''started_at'' \<Longrightarrow> has_status it ''queued'' \<longrightarrow> has_status it' ''queued''
    \<Longrightarrow> start_ok L E i it'"
proof -
  assume "start_ok L E i it" and same: "it' ''started_at'' = it ''started_at''" and "has_status it ''queued'' \<longrightarrow> has_status it' ''queued''"
  moreover have "started_item_by L i it' ev = started_item_by L i it ev" for ev by (cases ev) (simp_all add: same)
  ultimately show ?thesis by (auto simp: start_ok_def)
qed

lemma held_status: "lease_held L now t it \<Longrightarrow> has_status it ''solving''" "solving_until L now it \<Longrightarrow> has_status it ''solving''"
  by (simp_all add: lease_held_def solving_until_def has_status_def)

lemma status_distinct:
  "has_status it s \<Longrightarrow> has_status it s' \<longleftrightarrow> s' = s"
  by (auto simp: has_status_def)

lemma solving_open:
  assumes "has_status it ''solving''"
  shows "\<not> item_done it" "\<not> has_status it ''queued''"
  using assms by (simp_all add: item_done_def has_status_def)

lemma expire_written:
  assumes w: "job_written L E i it" and "solving_until L now it"
  shows "job_written L E i ((requeue_item it)(''pk'' \<mapsto> pk))"
proof -
  let ?it = "(requeue_item it)(''pk'' \<mapsto> pk)"
  note solving = held_status(2) [OF assms(2)]
  have "list_all (\<lambda>n. ?it n = it n) input_names" by (simp add: input_names_def requeue_item_def)
  moreover have "start_ok L E i ?it"
    by (rule start_frame [OF job_writtenD(2) [OF w]]) (simp_all add: requeue_item_def has_status_def)
  moreover have "lease_ok L E ?it" by (simp add: lease_ok_def has_status_def requeue_item_def)
  moreover have "result_ok L E i ?it"
    using job_writtenD(4) [OF w] solving_open [OF solving]
    by (simp add: result_ok_def) (simp add: requeue_item_def has_status_def item_done_def)
  moreover have "donation_ok L E i ?it"
    by (rule donation_frame [OF job_writtenD(5) [OF w]]) (simp add: requeue_item_def)
  ultimately show ?thesis by (rule written_frame [OF job_writtenD(1) [OF w]])
qed

lemma lease_written:
  assumes w: "job_written L E i it" and status: "has_status it ''queued'' \<or> has_status it ''solving''"
    and ev: "DynClaim v exps queued now tok req secs \<in> E" "req \<in> {None, Some i}" "lease_expiry now secs = Some e"
  shows "job_written L E i ((lease_item L now tok e it)(''pk'' \<mapsto> pk))"
proof -
  let ?it = "(lease_item L now tok e it)(''pk'' \<mapsto> pk)"
  have solving: "has_status ?it ''solving''" by (simp add: has_status_def lease_item_def)
  have "list_all (\<lambda>n. ?it n = it n) input_names" by (simp add: input_names_def lease_item_def)
  moreover have "start_ok L E i ?it"
    unfolding start_ok_def by (rule disjI2, rule bexI [OF _ ev(1)]) (use ev(2) in \<open>simp add: lease_item_def\<close>)
  moreover have "lease_ok L E ?it"
  proof -
    have "tok \<in> drawn_by E" unfolding drawn_by_def using ev(1) by (rule UN_I) simp
    moreover have "\<exists>x\<in>E. e \<in> set (dyn_times x)" by (rule bexI [OF _ ev(1)]) (simp add: ev(3))
    ultimately show ?thesis by (auto simp: lease_ok_def solving) (auto simp: lease_item_def)
  qed
  moreover have "result_ok L E i ?it"
    using job_writtenD(4) [OF w] status solving solving_open [OF solving]
    by (auto simp: result_ok_def item_done_def status_distinct) (simp_all add: lease_item_def)
  moreover have "donation_ok L E i ?it"
    by (rule donation_frame [OF job_writtenD(5) [OF w]]) (simp add: lease_item_def)
  ultimately show ?thesis by (rule written_frame [OF job_writtenD(1) [OF w]])
qed

lemma result_frame:
  assumes "result_ok L E i it" "list_all (\<lambda>n. it' n = it n) [''status'', ''completed_at'', ''solution_json'', ''error'']"
  shows "result_ok L E i it'"
proof -
  have "completed_item_by L i it' ev = completed_item_by L i it ev" for ev using assms(2) by (cases ev) simp_all
  with assms show ?thesis by (auto simp: result_ok_def item_done_def has_status_def)
qed

lemma lease_frame:
  "lease_ok L E it \<Longrightarrow> list_all (\<lambda>n. it' n = it n) [''status'', ''lease_token'', ''lease_expires_at''] \<Longrightarrow> lease_ok L E it'"
  by (auto simp: lease_ok_def has_status_def)

lemma renew_written:
  assumes w: "job_written L E i it" and held: "lease_held L now tok it"
    and ev: "DynHeartbeat now i tok secs \<in> E" "lease_expiry now secs = Some e"
  shows "job_written L E i (it(''lease_expires_at'' \<mapsto> encode_time L e, ''pk'' \<mapsto> pk))"
proof -
  let ?it = "it(''lease_expires_at'' \<mapsto> encode_time L e, ''pk'' \<mapsto> pk)"
  note solving = held_status(1) [OF held]
  then have same: "has_status ?it ''solving''" by (simp add: has_status_def)
  have "list_all (\<lambda>n. ?it n = it n) input_names" by (simp add: input_names_def)
  moreover have "start_ok L E i ?it"
    by (rule start_frame [OF job_writtenD(2) [OF w]]) (simp_all add: has_status_def)
  moreover have "lease_ok L E ?it"
  proof -
    have "\<exists>x\<in>E. e \<in> set (dyn_times x)" by (rule bexI [OF _ ev(1)]) (simp add: ev(2))
    with job_writtenD(3) [OF w] solving show ?thesis by (auto simp: lease_ok_def same)
  qed
  moreover have "result_ok L E i ?it"
    by (rule result_frame [OF job_writtenD(4) [OF w]]) simp
  moreover have "donation_ok L E i ?it"
    by (rule donation_frame [OF job_writtenD(5) [OF w]]) simp
  ultimately show ?thesis by (rule written_frame [OF job_writtenD(1) [OF w]])
qed

lemma finish_written:
  assumes w: "job_written L E i it" and held: "lease_held L now tok it"
    and ev: "DynComplete now i tok sol err \<in> E"
  shows "job_written L E i ((finish_item L now sol err it)(''pk'' \<mapsto> pk))"
proof -
  let ?it = "(finish_item L now sol err it)(''pk'' \<mapsto> pk)"
  have fin: "item_done ?it" "\<not> has_status ?it ''solving''"
    by (simp_all add: item_done_def has_status_def finish_item_def)
  have "list_all (\<lambda>n. ?it n = it n) input_names" by (simp add: input_names_def finish_item_def)
  moreover have "start_ok L E i ?it"
    using held_status(1) [OF held] by (intro start_frame [OF job_writtenD(2) [OF w]])
      (simp_all add: finish_item_def has_status_def)
  moreover have "lease_ok L E ?it" using fin(2) by (simp add: lease_ok_def) (simp add: finish_item_def)
  moreover have "result_ok L E i ?it"
  proof -
    have "completed_item_by L i ?it (DynComplete now i tok sol err)"
      by (simp add: finish_item_def)
    with ev fin(1) show ?thesis unfolding result_ok_def by (simp del: completed_item_by.simps) (rule bexI)
  qed
  moreover have "donation_ok L E i ?it"
    by (rule donation_frame [OF job_writtenD(5) [OF w]]) (simp add: finish_item_def)
  ultimately show ?thesis by (rule written_frame [OF job_writtenD(1) [OF w]])
qed

lemma donate_written:
  assumes w: "job_written L E i it" and ev: "DynDonate i d \<in> E"
  shows "job_written L E i ((donate_item L d it)(''pk'' \<mapsto> pk))"
proof -
  let ?it = "(donate_item L d it)(''pk'' \<mapsto> pk)"
  have "list_all (\<lambda>n. ?it n = it n) input_names" by (simp add: input_names_def donate_item_def)
  moreover have "start_ok L E i ?it"
    by (rule start_frame [OF job_writtenD(2) [OF w]]) (simp_all add: donate_item_def has_status_def)
  moreover have "lease_ok L E ?it"
    by (rule lease_frame [OF job_writtenD(3) [OF w]]) (simp add: donate_item_def)
  moreover have "result_ok L E i ?it"
    by (rule result_frame [OF job_writtenD(4) [OF w]]) (simp add: donate_item_def)
  moreover have "donation_ok L E i ?it"
  proof -
    have "\<exists>x\<in>E. donated_item_by i ?it x" by (rule bexI [OF _ ev]) (simp add: donate_item_def)
    moreover have "\<exists>x\<in>E. dated_item_by L i ?it x"
    proof (cases "it ''validation_donated_at''")
      case None
      then show ?thesis by (intro bexI [OF _ ev]) (simp add: donate_item_def)
    next
      case (Some t)
      with job_writtenD(5) [OF w] obtain x where x: "x \<in> E" "dated_item_by L i it x"
        by (auto simp: donation_ok_def split: if_splits)
      then have "dated_item_by L i ?it x" using Some by (cases x) (simp_all add: donate_item_def)
      with x(1) show ?thesis by blast
    qed
    moreover have "?it ''validation_object_key'' \<noteq> None" by (simp add: donate_item_def)
    ultimately show ?thesis unfolding donation_ok_def by auto
  qed
  ultimately show ?thesis by (rule written_frame [OF job_writtenD(1) [OF w]])
qed

lemma mark_written:
  assumes w: "job_written L E i it"
  shows "job_written L E i (it(''notification_delivered_at'' \<mapsto> x, ''pk'' \<mapsto> pk))"
  by (rule written_frame [OF job_writtenD(1) [OF w]], simp add: input_names_def,
      rule start_frame [OF job_writtenD(2) [OF w]], simp, simp add: has_status_def,
      rule lease_frame [OF job_writtenD(3) [OF w]], simp,
      rule result_frame [OF job_writtenD(4) [OF w]], simp,
      rule donation_frame [OF job_writtenD(5) [OF w]], simp)

lemma put_written:
  assumes "DynEnqueue scanned job \<in> E" "j_id job = i"
  shows "job_written L E i (job_item L (queued_job job))"
proof -
  let ?it = "job_item L (queued_job job)"
  have attrs: "?it ''status'' = Some (AttrS ''queued'')" "?it ''started_at'' = None" "?it ''lease_token'' = None"
    "?it ''completed_at'' = None" "?it ''solution_json'' = None" "?it ''error'' = None"
    "?it ''validation_object_key'' = None" "?it ''validation_donated_at'' = None"
    by (simp_all add: job_item_def Let_def queued_job_def split: option.split)
  have "submitted_item_by L i ?it (DynEnqueue scanned job)" using assms(2) by (simp add: list_all_iff)
  with assms(1) have "\<exists>ev\<in>E. submitted_item_by L i ?it ev" by (rule bexI [rotated])
  then show ?thesis
    by (simp add: job_written_def start_ok_def lease_ok_def result_ok_def donation_ok_def has_status_def item_done_def attrs)
qed

theorem item_ok_call:
  assumes "item_call L k i ev it it'" "item_ok L E i it"
  shows "item_ok L (insert ev E) i it'"
proof -
  let ?E = "insert ev E"
  have ok: "item_ok L ?E i it" using assms(2) by (rule item_ok_more)
  note written = item_ok_status [OF ok]
  from assms(1) show ?thesis
  proof cases
    case ic_same
    with ok show ?thesis by simp
  next
    case (ic_put job scanned)
    with put_written [of scanned job ?E i L] show ?thesis by (simp add: item_ok_def)
  next
    case (ic_expire now v exps queued tok secs pk)
    with expire_written [OF written [OF held_status(2) [OF ic_expire(3)]]] show ?thesis by (simp add: item_ok_def)
  next
    case (ic_lease now req secs e v exps queued tok pk)
    then have "has_status it ''queued'' \<or> has_status it ''solving''" using held_status(2) by blast
    with lease_written [of L ?E i it v exps queued now tok req secs e] written ic_lease show ?thesis
      by (auto simp: item_ok_def)
  next
    case (ic_expire_lease now secs e v exps queued tok pk' pk)
    let ?q = "(requeue_item it)(''pk'' \<mapsto> pk')"
    have "job_written L ?E i ?q" by (rule expire_written [OF written [OF held_status(2)]]) (rule ic_expire_lease(3))+
    moreover have "has_status ?q ''queued''" by (simp add: has_status_def requeue_item_def)
    ultimately show ?thesis
      using lease_written [of L ?E i ?q v exps queued now tok None secs e] ic_expire_lease by (simp add: item_ok_def)
  next
    case (ic_renew now tok secs e pk)
    with renew_written [OF written [OF held_status(1) [OF ic_renew(3)]] ic_renew(3) _ ic_renew(4)] show ?thesis by (simp add: item_ok_def)
  next
    case (ic_finish now tok sol err pk)
    with finish_written [OF written [OF held_status(1) [OF ic_finish(3)]] ic_finish(3)] show ?thesis by (simp add: item_ok_def)
  next
    case (ic_donate d pk)
    then have "job_written L ?E i it" using written by (auto simp: item_done_def)
    with donate_written [of L ?E i it d] ic_donate show ?thesis by (simp add: item_ok_def)
  next
    case (ic_mark now pk)
    have "no_job it'" if "no_job it" using that by (auto simp: ic_mark no_job_def)
    with ic_mark mark_written ok show ?thesis by (auto simp: item_ok_def)
  qed
qed

lemma item_token_call:
  assumes "item_call L k i ev it it'" "it' ''lease_token'' = Some (AttrS t)"
  shows "it ''lease_token'' = Some (AttrS t) \<or> (t \<in> dyn_tokens ev \<and> i = k)"
  using assms
  by cases (auto simp: job_item_def Let_def requeue_item_def lease_item_def finish_item_def donate_item_def
      split: option.splits)

section \<open>The outcome and the phase of a job\<close>

text \<open>What a finished job's item says of the job; a donation may still be added.\<close>

definition outcome_names :: "string list" where
  "outcome_names = [''id'', ''owner'', ''object_key'', ''original_filename'', ''options_json'', ''status'',
     ''created_at'', ''started_at'', ''completed_at'', ''solution_json'', ''error'']"

definition item_outcome :: "Item \<Rightarrow> AttributeValue option list option" where
  "item_outcome it = (if item_done it then Some (map it outcome_names) else None)"

definition item_phase :: "dyn_libs \<Rightarrow> Item \<Rightarrow> phase" where
  "item_phase L it =
     (case optional_string it ''status'' of
        None \<Rightarrow> Absent
      | Some s \<Rightarrow>
          if s = ''solving''
          then (case (optional_string it ''lease_token'',
                      Option.bind (optional_string it ''lease_expires_at'') (dl_time_parse L)) of
                  (Some t, Some e) \<Rightarrow> Leased t e | _ \<Rightarrow> Waiting)
          else if s = ''queued'' then Waiting else Done (s = ''succeeded''))"

lemma done_quiet:
  assumes "item_done it"
  shows "it \<noteq> Map.empty" "\<not> solving_until L now it" "\<not> has_status it ''queued''" "\<not> lease_held L now t it"
  using assms by (auto simp: item_done_def has_status_def solving_until_def lease_held_def)

lemma item_outcome_frame:
  "\<forall>n \<in> set outcome_names. it' n = it n \<Longrightarrow> item_outcome it' = item_outcome it"
  by (simp add: item_outcome_def item_done_def has_status_def outcome_names_def)

lemma item_outcome_call:
  assumes "item_call L k i ev it it'" and out: "item_outcome it = Some x"
  shows "item_outcome it' = Some x"
proof -
  have fin: "item_done it" using out by (simp add: item_outcome_def split: if_splits)
  from assms(1) have "\<forall>n \<in> set outcome_names. it' n = it n"
    by cases (use done_quiet [OF fin] in \<open>simp_all add: outcome_names_def donate_item_def\<close>)
  from item_outcome_frame [OF this] out show ?thesis by simp
qed

text \<open>What the conditions of the writes say of the phase, for times of the calendar.\<close>

lemma item_phase_held:
  assumes L: "dyn_libs_ok L" and ok: "item_ok L E i it" and timely: "\<forall>ev\<in>E. timely ev"
    and solving: "has_status it ''solving''"
  obtains t e where "it ''lease_token'' = Some (AttrS t)" "it ''lease_expires_at'' = Some (encode_time L e)"
    "item_phase L it = Leased t e" "calendar_time e"
proof -
  from job_writtenD(3) [OF item_ok_status [OF ok solving]] solving obtain t e ev where
    *: "it ''lease_token'' = Some (AttrS t)" "it ''lease_expires_at'' = Some (encode_time L e)" "ev \<in> E" "e \<in> set (dyn_times ev)"
    by (auto simp: lease_ok_def)
  then have cal: "calendar_time e" using timely by (auto simp: timely_def list_all_iff)
  then have "item_phase L it = Leased t e"
    using * solving by (simp add: item_phase_def has_status_def optional_string_def encode_time_def dyn_libs_okD(2) [OF L])
  with * cal that [of t e] show thesis by simp
qed

lemma attr_time:
  assumes "dyn_libs_ok L" "it name = Some (encode_time L e)" "calendar_time e" "calendar_time now"
  shows "attr_le it name (encode_time L now) \<longleftrightarrow> e \<le> now" "attr_gt it name (encode_time L now) \<longleftrightarrow> now < e"
  using assms dyn_libs_okD(3) [OF assms(1,3,4)] by (auto simp: attr_le_def attr_gt_def encode_time_def)

lemma item_status_text:
  assumes "item_ok L E i it"
  shows "it ''status'' = None \<or> (\<exists>s. has_status it s)"
proof (cases "no_job it")
  case True
  then show ?thesis by (simp add: no_jobD)
next
  case False
  with assms job_writtenD(4) [of L E i it] show ?thesis
    by (auto simp: item_ok_def result_ok_def item_done_def split: if_splits)
qed

lemma phase_clock:
  assumes L: "dyn_libs_ok L" and ok: "item_ok L E i it" and timely: "\<forall>ev\<in>E. timely ev" and now: "calendar_time now"
  shows "(solving_until L now it \<longleftrightarrow> (\<exists>t e. item_phase L it = Leased t e \<and> e \<le> now))
    \<and> (lease_held L now tok it \<longleftrightarrow> (\<exists>e. item_phase L it = Leased tok e \<and> now < e))"
proof (cases "has_status it ''solving''")
  case True
  from item_phase_held [OF L ok timely True] obtain t e where *: "it ''lease_token'' = Some (AttrS t)"
    "it ''lease_expires_at'' = Some (encode_time L e)" "item_phase L it = Leased t e" "calendar_time e" by metis
  with attr_time [of L it "''lease_expires_at''" e now] L now True show ?thesis by (auto simp: solving_until_def lease_held_def has_status_def)
next
  case False
  with item_status_text [OF ok] have "item_phase L it \<noteq> Leased t e" for t e
    by (auto simp: item_phase_def has_status_def optional_string_def split: if_splits)
  with False show ?thesis by (auto simp: solving_until_def lease_held_def has_status_def)
qed

lemmas phase_until = phase_clock [THEN conjunct1] and phase_held = phase_clock [THEN conjunct2]

lemma phase_waiting:
  "has_status it ''queued'' \<Longrightarrow> item_phase L it = Waiting"
  "item_phase L ((requeue_item it)(''pk'' \<mapsto> pk)) = Waiting"
  by (simp_all add: item_phase_def has_status_def optional_string_def requeue_item_def)

lemma phase_leased: "dyn_libs_ok L \<Longrightarrow> calendar_time e \<Longrightarrow> item_phase L ((lease_item L now t e it)(''pk'' \<mapsto> pk)) = Leased t e"
  by (simp add: item_phase_def optional_string_def lease_item_def encode_time_def dyn_libs_okD)

lemma phase_renewed:
  "dyn_libs_ok L \<Longrightarrow> calendar_time e \<Longrightarrow> lease_held L now t it
   \<Longrightarrow> item_phase L (it(''lease_expires_at'' \<mapsto> encode_time L e, ''pk'' \<mapsto> pk)) = Leased t e"
  by (simp add: item_phase_def optional_string_def lease_held_def encode_time_def dyn_libs_okD)

lemma phase_finished: "item_phase L ((finish_item L now sol err it)(''pk'' \<mapsto> pk)) = Done (sol \<noteq> None)"
  by (simp add: item_phase_def optional_string_def finish_item_def)

lemma phase_put: "item_phase L (job_item L (queued_job job)) = Waiting" "item_phase L Map.empty = Absent"
  by (simp_all add: item_phase_def optional_string_def job_item_def queued_job_def Let_def split: option.split)

lemma phase_frame:
  "it' ''status'' = it ''status'' \<Longrightarrow> it' ''lease_token'' = it ''lease_token''
   \<Longrightarrow> it' ''lease_expires_at'' = it ''lease_expires_at'' \<Longrightarrow> item_phase L it' = item_phase L it"
  unfolding item_phase_def optional_string_def by (simp only:)

theorem item_next_phase:
  assumes step: "item_call L k i ev it it'" and L: "dyn_libs_ok L" and ok: "item_ok L E i it"
    and timely: "\<forall>x\<in>insert ev E. timely x"
  shows "item_phase L it' \<in> next_phases (dyn_call_of ev) i (item_phase L it)"
proof -
  have times: "list_all calendar_time (dyn_times ev)" and old: "\<forall>x\<in>E. timely x"
    using timely by (auto simp: timely_def)
  note phase = phase_until [OF L ok old] phase_held [OF L ok old]
  from step show ?thesis
  proof cases
    case ic_same
    show ?thesis
    proof (cases ev)
      case (DynHeartbeat now j tok secs)
      with ic_same times phase(2) [of now tok] show ?thesis
        by (cases "item_phase L it") (auto split: option.split)
    next
      case (DynComplete now j tok sol err)
      with ic_same times phase(2) [of now tok] show ?thesis
        by (cases "item_phase L it") (auto simp: reported_def split: option.split)
    qed (simp_all add: ic_same)
  next
    case (ic_put job scanned)
    then show ?thesis by (simp add: phase_put)
  next
    case (ic_expire now v exps queued tok secs pk)
    with times have "calendar_time now" by simp
    with phase(1) ic_expire(3) obtain t e where "item_phase L it = Leased t e" "e \<le> now" by blast
    with ic_expire show ?thesis by (simp add: phase_waiting)
  next
    case (ic_lease now req secs e v exps queued tok pk)
    with times have cal: "calendar_time now" "calendar_time e" by simp_all
    have "item_phase L it' = Leased tok e" by (simp add: ic_lease phase_leased [OF L cal(2)])
    with ic_lease(3-6) show ?thesis
      using phase(1) [OF cal(1)] by (auto simp: ic_lease(1) phase_waiting new_leases_def)
  next
    case (ic_expire_lease now secs e v exps queued tok pk' pk)
    with times have cal: "calendar_time now" "calendar_time e" by simp_all
    have "item_phase L it' = Leased tok e" by (simp add: ic_expire_lease phase_leased [OF L cal(2)])
    with ic_expire_lease(3-5) show ?thesis
      using phase(1) [OF cal(1)] by (auto simp: ic_expire_lease(1) new_leases_def)
  next
    case (ic_renew now tok secs e pk)
    with times have cal: "calendar_time now" "calendar_time e" by simp_all
    from phase(2) [OF cal(1)] ic_renew(3) obtain e0 where "item_phase L it = Leased tok e0" "now < e0" by blast
    with phase_renewed [OF L cal(2) ic_renew(3)] show ?thesis by (simp add: ic_renew)
  next
    case (ic_finish now tok sol err pk)
    with times have cal: "calendar_time now" by simp
    from phase(2) [OF cal] ic_finish(3) obtain e0 where "item_phase L it = Leased tok e0" "now < e0" by blast
    with ic_finish(4) show ?thesis by (auto simp: ic_finish(1,2) phase_finished reported_def simp del: not_None_eq)
  next
    case (ic_donate d pk)
    have "item_phase L it' = item_phase L it" unfolding ic_donate by (rule phase_frame) (simp_all add: donate_item_def)
    then show ?thesis by (simp add: ic_donate)
  next
    case (ic_mark now pk)
    have "item_phase L it' = item_phase L it" unfolding ic_mark by (rule phase_frame) simp_all
    then show ?thesis by (simp add: ic_mark)
  qed
qed

section \<open>What a call does to the table\<close>

definition job_at :: "dyn_libs \<Rightarrow> DynDb \<Rightarrow> JobId \<Rightarrow> Item" where
  "job_at L db i = item_at db (job_key L i)"

definition items_ok :: "dyn_libs \<Rightarrow> dyn_event set \<Rightarrow> DynDb \<Rightarrow> bool" where
  "items_ok L E db = (\<forall>i. item_ok L E i (job_at L db i))"

lemma job_at_write [simp]:
  "dyn_libs_ok L \<Longrightarrow> job_at L (write_item db (job_key L i) upd) j =
     (if j = i then (upd (job_at L db i))(''pk'' \<mapsto> AttrS (job_key L i)) else job_at L db j)"
  by (auto simp: job_at_def item_at_def write_item_def job_key_eq)

lemma job_at_write_other: "(\<And>j. key \<noteq> job_key L j) \<Longrightarrow> job_at L (write_item db key upd) j = job_at L db j"
  by (metis fun_upd_other item_at_def job_at_def write_item_def)

lemma job_at_update:
  "dyn_libs_ok L \<Longrightarrow> job_at L (snd (update_item db (job_key L i) cond upd)) j =
     (if j = i \<and> cond (job_at L db i) then (upd (job_at L db i))(''pk'' \<mapsto> AttrS (job_key L i)) else job_at L db j)"
  by (simp add: update_item_def job_at_def [symmetric])

lemma job_at_reclaim:
  assumes "dyn_libs_ok L"
  shows "job_at L (reclaim_items L now ids db) i =
     (if i \<in> set ids \<and> solving_until L now (job_at L db i)
      then (requeue_item (job_at L db i))(''pk'' \<mapsto> AttrS (job_key L i)) else job_at L db i)"
proof (induction ids arbitrary: db)
  case (Cons j ids)
  have "\<not> solving_until L now ((requeue_item it)(''pk'' \<mapsto> pk))" for it pk
    by (simp add: solving_until_def requeue_item_def)
  then show ?case by (auto simp: Cons.IH job_at_update [OF assms])
qed simp

lemma job_at_other_keys:
  assumes "dyn_libs_ok L" "\<And>j. k \<noteq> job_key L j" "\<And>j. k' \<noteq> job_key L j"
  shows "job_at L (db(job_key L i \<mapsto> it, k \<mapsto> x, k' \<mapsto> y)) j = (if j = i then it else job_at L db j)"
proof -
  have "job_key L j \<noteq> k" "job_key L j \<noteq> k'" using assms(2,3) [of j] by blast+
  then show ?thesis by (simp add: job_at_def item_at_def job_key_eq [OF assms(1)])
qed

lemma dyn_enqueue_cases:
  obtains "snd (dyn_enqueue L db scanned job0) = db"
    | job where "j_id job = j_id job0" "j_astrometry_id job = astrometry_id_for_job (j_id job)" "j_status job = Queued"
      "db (job_key L (j_id job)) = None"
      "snd (dyn_enqueue L db scanned job0) = db(job_key L (j_id job) \<mapsto> job_item L job,
         object_index_key (j_object_key job) \<mapsto> index_item L (object_index_key (j_object_key job)) ''object_index'' (j_id job),
         astrometry_index_key (j_astrometry_id job) \<mapsto>
           index_item L (astrometry_index_key (j_astrometry_id job)) ''astrometry_index'' (j_id job))"
proof -
  define job where "job = job0\<lparr>j_astrometry_id := astrometry_id_for_job (j_id job0), j_status := Queued\<rparr>"
  show thesis
  proof (cases "db (job_key L (j_id job)) = None \<and> db (object_index_key (j_object_key job)) = None
      \<and> db (astrometry_index_key (j_astrometry_id job)) = None")
    case True
    show thesis
      by (rule that(2) [of job])
        (use True in \<open>simp_all add: dyn_enqueue_def Let_def flip: job_def\<close>, simp_all add: job_def)
  next
    case False
    then show thesis
      by (intro that(1)) (auto simp: dyn_enqueue_def Let_def simp flip: job_def)
  qed
qed

lemma enqueue_call:
  assumes "dyn_libs_ok L"
  shows "item_call L k i (DynEnqueue scanned job0) (job_at L db i) (job_at L (snd (dyn_enqueue L db scanned job0)) i)"
proof -
  define job where "job = queued_job job0"
  have same: "j_id job = j_id job0" by (simp add: job_def queued_job_def)
  show ?thesis
  proof (cases "db (job_key L (j_id job)) = None \<and> db (object_index_key (j_object_key job)) = None
      \<and> db (astrometry_index_key (j_astrometry_id job)) = None")
    case True
    then have "snd (dyn_enqueue L db scanned job0) = db(job_key L (j_id job) \<mapsto> job_item L job,
         object_index_key (j_object_key job) \<mapsto> index_item L (object_index_key (j_object_key job)) ''object_index'' (j_id job),
         astrometry_index_key (j_astrometry_id job) \<mapsto>
           index_item L (astrometry_index_key (j_astrometry_id job)) ''astrometry_index'' (j_id job))"
      by (simp add: dyn_enqueue_def Let_def job_def queued_job_def)
    then have "job_at L (snd (dyn_enqueue L db scanned job0)) i = (if i = j_id job then job_item L job else job_at L db i)"
      by (simp add: job_at_other_keys [OF assms])
    moreover have "job_at L db (j_id job) = Map.empty" using True by (simp add: job_at_def item_at_def)
    ultimately show ?thesis using ic_put [of job0 i L k scanned] by (auto simp: job_def [symmetric] same intro: ic_same)
  next
    case False
    then have "snd (dyn_enqueue L db scanned job0) = db"
      by (auto simp: dyn_enqueue_def Let_def job_def queued_job_def)
    then show ?thesis by (simp add: ic_same)
  qed
qed

lemma dyn_claim_cases:
  assumes "claim_candidate L db v exps queued now req = (c, a)"
  obtains "snd (dyn_claim L db v exps queued now tok req secs) = a" "\<And>l. fst (dyn_claim L db v exps queued now tok req secs) \<noteq> Inr (Some l)"
    | job el e where "c = Inr (Some (job, el))" "lease_expiry now secs = Some e" "eligible L now el (item_at a (job_key L (j_id job)))"
      "dyn_claim L db v exps queued now tok req secs =
        (Inr (Some \<lparr>jl_job_id = j_id job, jl_lease_token = tok, jl_lease_expires_at = e,
                    jl_original_filename = j_original_filename job, jl_options = j_options job\<rparr>),
         write_item (write_item a (job_key L (j_id job)) (lease_item L now tok e)) (client_key (j_owner job)) (serve_item L now))"
proof (cases "(\<exists>job el. c = Inr (Some (job, el)) \<and> eligible L now el (item_at a (job_key L (j_id job)))) \<and> lease_expiry now secs \<noteq> None")
  case True
  then obtain job el e where c: "c = Inr (Some (job, el))" "eligible L now el (item_at a (job_key L (j_id job)))" "lease_expiry now secs = Some e"
    by auto
  then show thesis by (intro that(2) [of job el e]) (simp_all add: dyn_claim_def assms)
next
  case False
  then show thesis
    by (intro that(1)) (auto simp: dyn_claim_def assms split: sum.split option.split)
qed

lemma claim_candidate_table:
  assumes "claim_candidate L db v exps queued now req = (c, a)"
  obtains "a = db" | ids where "req = None" "a = reclaim_items L now ids db"
  using assms
  by (cases req; cases "job_ids_by_status L None exps") (auto simp: claim_candidate_def dyn_reclaim_expired_def)

lemma record_id:
  assumes "record_from_item L it = Inr job"
  obtains v where "required_string it ''id'' = Inr v" "dl_uuid_parse L v = Some (j_id job)"
proof -
  from assms obtain i where i: "required_uuid L it ''id'' = Inr i" "j_id job = i"
    by (auto simp: record_from_item_def and_then_def split: sum.splits)
  then show thesis
    by (intro that [of "case required_string it ''id'' of Inr v \<Rightarrow> v"])
      (auto simp: required_uuid_def and_then_def ok_or_def split: sum.splits option.splits)
qed

lemma item_id:
  assumes "item_ok L E i it" "\<not> no_job it"
  shows "it ''id'' = Some (AttrS (dl_uuid_str L i))"
proof -
  from assms obtain ev where "submitted_item_by L i it ev" by (auto simp: item_ok_def job_written_def)
  then show ?thesis
    by (cases ev) (auto simp: input_names_def job_item_def Let_def queued_job_def split: option.splits)
qed

lemma requested_job:
  assumes L: "dyn_libs_ok L" and ok: "items_ok L E db"
    and found: "claim_candidate L db v exps queued now (Some i) = (Inr (Some (job, el)), a)"
  shows "j_id job = i"
proof -
  have cand: "requested_candidate L db i now = Inr (Some (job, el))" using arg_cong [OF found, of fst] by (simp add: claim_candidate_def)
  then obtain it where it: "db (job_key L i) = Some it" by (cases "db (job_key L i)") (simp_all add: requested_candidate_def)
  have read: "record_from_item L it = Inr job"
  proof (cases "record_from_item L it")
    case (Inr job')
    with cand it show ?thesis
      by (cases "j_status job'"; cases "traverse (decode_time L) (optional_string it ''lease_expires_at'')")
        (auto simp: requested_candidate_def and_then_def split: if_splits)
  qed (use cand it in \<open>simp add: requested_candidate_def and_then_def\<close>)
  obtain v where v: "required_string it ''id'' = Inr v" "dl_uuid_parse L v = Some (j_id job)"
    using read by (rule record_id)
  have here: "job_at L db i = it" using it by (simp add: job_at_def item_at_def)
  have "item_ok L E i it" using ok here by (auto simp: items_ok_def)
  moreover have "\<not> no_job it"
    using v(1) no_jobD [of it "''id''"] by (auto simp: required_string_def optional_string_def ok_or_def)
  ultimately have "it ''id'' = Some (AttrS (dl_uuid_str L i))" by (rule item_id)
  with v have "v = dl_uuid_str L i" by (simp add: required_string_def optional_string_def ok_or_def)
  with v(2) dyn_libs_okD(1) [OF L] show ?thesis by simp
qed

lemma claim_call:
  assumes L: "dyn_libs_ok L" and ok: "items_ok L E db"
  shows "\<exists>k. \<forall>i. item_call L k i (DynClaim v exps queued now tok req secs) (job_at L db i)
           (job_at L (snd (dyn_claim L db v exps queued now tok req secs)) i)"
proof -
  obtain c a where c: "claim_candidate L db v exps queued now req = (c, a)" by force
  have base: "job_at L a i = job_at L db i
      \<or> (req = None \<and> solving_until L now (job_at L db i)
         \<and> job_at L a i = (requeue_item (job_at L db i))(''pk'' \<mapsto> AttrS (job_key L i)))" for i
    by (rule claim_candidate_table [OF c]) (simp_all add: job_at_reclaim [OF L])
  have quiet: "item_call L k i (DynClaim v exps queued now tok req secs) (job_at L db i) (job_at L a i)" for k i
    using base [of i]
  proof (elim disjE conjE)
    assume "job_at L a i = job_at L db i"
    then show ?thesis by (simp add: ic_same)
  qed (simp add: ic_expire)
  from c show ?thesis
  proof (cases rule: dyn_claim_cases [where tok = tok and secs = secs])
    case 1
    with quiet show ?thesis by simp
  next
    case (2 job el e)
    let ?k = "j_id job"
    have after: "job_at L (snd (dyn_claim L db v exps queued now tok req secs)) i =
      (if i = ?k then (lease_item L now tok e (job_at L a ?k))(''pk'' \<mapsto> AttrS (job_key L ?k)) else job_at L a i)" for i
      by (simp add: 2(4) job_at_write_other L)
    have req: "req \<in> {None, Some ?k}"
      using requested_job [OF L ok] c 2(1) by (cases req) auto
    have free: "has_status (job_at L a ?k) ''queued'' \<or> solving_until L now (job_at L a ?k)"
      using 2(3) by (auto simp: eligible_def job_at_def has_status_def split: ClaimEligibility.splits)
    have "item_call L ?k ?k (DynClaim v exps queued now tok req secs) (job_at L db ?k)
        ((lease_item L now tok e (job_at L a ?k))(''pk'' \<mapsto> AttrS (job_key L ?k)))"
      using base [of ?k]
    proof (elim disjE conjE)
      assume same: "job_at L a ?k = job_at L db ?k"
      show ?thesis unfolding same by (rule ic_lease [OF free [unfolded same] req 2(2) refl])
    next
      assume "req = None" "solving_until L now (job_at L db ?k)"
        "job_at L a ?k = (requeue_item (job_at L db ?k))(''pk'' \<mapsto> AttrS (job_key L ?k))"
      then show ?thesis by (simp only:) (rule ic_expire_lease [OF _ 2(2) refl])
    qed
    with quiet after show ?thesis by (intro exI [of _ ?k]) simp
  qed
qed

text \<open>Every call, job by job, whatever its eventually consistent reads return.\<close>

lemma run_dyn_call:
  assumes L: "dyn_libs_ok L" and ok: "items_ok L E db"
  shows "\<exists>k. \<forall>i. item_call L k i ev (job_at L db i) (job_at L (run_dyn L ev db) i)"
proof (cases ev)
  case (DynHeartbeat now j tok secs)
  have "item_call L k i ev (job_at L db i) (job_at L (run_dyn L ev db) i)" for k i
  proof (cases "quiet L ev i (job_at L db i)")
    case True
    then have "job_at L (run_dyn L ev db) i = job_at L db i"
      by (auto simp: DynHeartbeat dyn_heartbeat_def job_at_update [OF L] split: option.split)
    with True show ?thesis by (simp add: ic_same)
  next
    case False
    then show ?thesis by (auto simp: DynHeartbeat dyn_heartbeat_def job_at_update [OF L] intro: ic_renew)
  qed
  then show ?thesis by blast
next
  case (DynComplete now j tok sol err)
  have "item_call L k i ev (job_at L db i) (job_at L (run_dyn L ev db) i)" for k i
  proof (cases "quiet L ev i (job_at L db i)")
    case True
    then have "job_at L (run_dyn L ev db) i = job_at L db i"
      by (auto simp: DynComplete dyn_complete_def job_at_update [OF L])
    with True show ?thesis by (simp add: ic_same)
  next
    case False
    then have j: "j = i" and held: "lease_held L now tok (job_at L db i)" and out: "sol \<noteq> None \<or> err \<noteq> None"
      by (auto simp: DynComplete)
    from out have "\<not> (sol = None \<and> err = None)" by blast
    with held ic_finish [OF held out] show ?thesis
      by (simp only: DynComplete j run_dyn.simps dyn_complete_def if_False apfst_conv snd_apfst job_at_update [OF L] simp_thms if_True)
  qed
  then show ?thesis by blast
next
  case (DynDonate j donation)
  have "item_call L k i ev (job_at L db i) (job_at L (run_dyn L ev db) i)" for k i
    using ic_same [of L ev i "job_at L db i" k] ic_donate [of "job_at L db i" L k i donation "AttrS (job_key L i)"]
    by (cases "i = j") (auto simp: DynDonate dyn_donate_validation_def job_at_update [OF L] item_done_def has_status_def)
  then show ?thesis by blast
next
  case (DynDelivered now j)
  have "item_call L k i ev (job_at L db i) (job_at L (run_dyn L ev db) i)" for k i
    using ic_same [of L ev i "job_at L db i" k] ic_mark [of L k i now "job_at L db i" "AttrS (job_key L i)"]
    by (cases "i = j") (simp_all add: DynDelivered dyn_mark_notification_delivered_def L)
  then show ?thesis by blast
qed (simp_all add: enqueue_call [OF L] claim_call [OF L ok])

lemma items_ok_run:
  assumes "dyn_libs_ok L" "items_ok L E db"
  shows "items_ok L (insert ev E) (run_dyn L ev db)"
  using run_dyn_call [OF assms, of ev] item_ok_call assms(2) unfolding items_ok_def by metis

section \<open>The invariant of the table\<close>

text \<open>A lease token belongs to one job.\<close>

definition dyn_inv :: "dyn_libs \<Rightarrow> dyn_event set \<Rightarrow> DynDb \<Rightarrow> bool" where
  "dyn_inv L E db =
     (dyn_libs_ok L \<and> items_ok L E db
      \<and> (\<forall>i j t. job_at L db i ''lease_token'' = Some (AttrS t) \<and> job_at L db j ''lease_token'' = Some (AttrS t) \<longrightarrow> i = j))"

lemma dyn_invD:
  assumes "dyn_inv L E db"
  shows "dyn_libs_ok L" "items_ok L E db" "item_ok L E i (job_at L db i)"
    "job_at L db i ''lease_token'' = Some (AttrS t) \<Longrightarrow> job_at L db j ''lease_token'' = Some (AttrS t) \<Longrightarrow> i = j"
  using assms unfolding dyn_inv_def items_ok_def by blast+

lemma dyn_inv_run:
  assumes inv: "dyn_inv L E db" and fresh: "dyn_tokens ev \<inter> drawn_by E = {}"
  shows "dyn_inv L (insert ev E) (run_dyn L ev db)"
proof -
  note facts = dyn_invD [OF inv]
  obtain k where calls: "item_call L k i ev (job_at L db i) (job_at L (run_dyn L ev db) i)" for i
    using run_dyn_call [OF facts(1,2)] by blast
  have "i = j" if "job_at L (run_dyn L ev db) i ''lease_token'' = Some (AttrS t)"
      "job_at L (run_dyn L ev db) j ''lease_token'' = Some (AttrS t)" for i j t
  proof -
    have old: "t \<in> drawn_by E" if "job_at L db n ''lease_token'' = Some (AttrS t)" for n
      using item_ok_lease [OF facts(3) that] by blast
    with item_token_call [OF calls that(1)] item_token_call [OF calls that(2)] fresh facts(4) show ?thesis by blast
  qed
  with items_ok_run [OF facts(1,2)] facts(1) show ?thesis by (auto simp: dyn_inv_def)
qed

section \<open>The lease contract again\<close>

definition dyn_ok :: "dyn_libs \<Rightarrow> string set \<Rightarrow> DynDb \<Rightarrow> bool" where
  "dyn_ok L used db = (\<exists>E. used = drawn_by E \<and> dyn_inv L E db)"

definition dyn_holds :: "dyn_libs \<Rightarrow> DynDb \<Rightarrow> JobId \<Rightarrow> string \<Rightarrow> bool" where
  "dyn_holds L db i t = (has_status (job_at L db i) ''solving'' \<and> job_at L db i ''lease_token'' = Some (AttrS t))"

definition dyn_outcome :: "dyn_libs \<Rightarrow> DynDb \<Rightarrow> JobId \<Rightarrow> AttributeValue option list option" where
  "dyn_outcome L db i = item_outcome (job_at L db i)"

lemma dyn_holds_iff:
  assumes "dyn_inv L E db"
  shows "dyn_holds L db i t \<longleftrightarrow> job_at L db i ''lease_token'' = Some (AttrS t)"
  using item_ok_lease [OF dyn_invD(3) [OF assms]] by (auto simp: dyn_holds_def)

interpretation dynamo: lease_queue "dyn_ok L" "run_dyn L" dyn_tokens "dyn_holds L" "dyn_outcome L" for L
proof
  fix used db ev i j t t' x
  assume "dyn_ok L used db"
  then obtain E where used: "used = drawn_by E" and inv: "dyn_inv L E db" by (auto simp: dyn_ok_def)
  note ok = dyn_invD(3) [OF inv] and held = dyn_holds_iff [OF inv]
  obtain k where calls: "item_call L k i ev (job_at L db i) (job_at L (run_dyn L ev db) i)" for i
    using run_dyn_call [OF dyn_invD(1,2) [OF inv]] by blast
  show "dyn_tokens ev \<inter> used = {} \<Longrightarrow> dyn_ok L (dyn_tokens ev \<union> used) (run_dyn L ev db)"
    using dyn_inv_run [OF inv] drawn_by_insert(1) unfolding dyn_ok_def used by metis
  show "dyn_holds L db i t \<Longrightarrow> t \<in> used"
    unfolding held used using item_ok_lease [OF ok] by blast
  show "dyn_holds L db i t \<Longrightarrow> dyn_holds L db j t \<Longrightarrow> i = j"
    unfolding held by (rule dyn_invD(4) [OF inv])
  show "dyn_holds L db i t \<Longrightarrow> dyn_holds L db i t' \<Longrightarrow> t = t'"
    unfolding held by simp
  show "dyn_tokens ev \<inter> used = {} \<Longrightarrow> dyn_holds L (run_dyn L ev db) i t \<Longrightarrow> dyn_holds L db i t \<or> t \<in> dyn_tokens ev"
    unfolding held using item_token_call [OF calls, of i t] by (auto simp: dyn_holds_def)
  show "dyn_outcome L db i = Some x \<Longrightarrow> dyn_outcome L (run_dyn L ev db) i = Some x"
    unfolding dyn_outcome_def by (rule item_outcome_call [OF calls])
  show "dyn_outcome L db i = Some x \<Longrightarrow> \<not> dyn_holds L db i t"
    by (auto simp: dyn_outcome_def item_outcome_def item_done_def dyn_holds_def has_status_def split: if_splits)
qed

end
