(* ===== verification/Dynamo_Properties.thy ===== *)
theory Dynamo_Properties
  imports Dynamo_Queue
begin

text \<open>
  The properties of the DynamoDB repository: what is read of a job is what the calls wrote, leases are
  exclusive, outcomes are final and every call follows the life cycle, for every table that a run of
  calls reaches from the empty one, whatever their eventually consistent reads return.
\<close>

section \<open>Runs from the empty table\<close>

definition dyn_run :: "dyn_libs \<Rightarrow> dyn_event list \<Rightarrow> DynDb" where
  "dyn_run L evs = run_all (run_dyn L) evs Map.empty"

definition dyn_drawn :: "dyn_event list \<Rightarrow> string set" where
  "dyn_drawn evs = run_tokens dyn_tokens {} evs"

lemma dyn_run_snoc: "dyn_run L (evs @ [ev]) = run_dyn L ev (dyn_run L evs)"
  by (simp add: dyn_run_def run_all_append)

lemma dyn_inv_empty: "dyn_libs_ok L \<Longrightarrow> dyn_inv L {} Map.empty"
  by (simp add: dyn_inv_def items_ok_def job_at_def item_at_def item_ok_def no_job_def)

lemma dyn_ok_reached: "dyn_libs_ok L \<Longrightarrow> fresh_run dyn_tokens {} evs \<Longrightarrow> dyn_ok L (dyn_drawn evs) (dyn_run L evs)"
  unfolding dyn_run_def dyn_drawn_def
  by (rule dynamo.inv_run) (auto simp: dyn_ok_def intro: exI [of _ "{}"] dyn_inv_empty)

lemma items_ok_reached: "dyn_libs_ok L \<Longrightarrow> items_ok L (set evs) (dyn_run L evs)"
proof (induction evs rule: rev_induct)
  case Nil
  then show ?case using dyn_inv_empty by (auto simp: dyn_run_def dyn_inv_def)
next
  case (snoc ev evs)
  with items_ok_run [of L "set evs" "dyn_run L evs" ev] show ?case by (simp add: dyn_run_snoc)
qed

section \<open>Concrete libraries\<close>

text \<open>
  Times as texts: \<open>p\<close> and an \<open>x\<close> for every nanosecond after the epoch; \<open>a\<close>, a \<open>b\<close> for every nanosecond
  before it and \<open>c\<close>.
\<close>

definition unary_time :: "time \<Rightarrow> string" where
  "unary_time t = (if 0 \<le> t then ''p'' @ replicate (nat t) (CHR ''x'') else ''a'' @ replicate (nat (- t)) (CHR ''b'') @ ''c'')"

definition parse_unary_time :: "string \<Rightarrow> time option" where
  "parse_unary_time s =
     (case s of [] \<Rightarrow> None
      | c # cs \<Rightarrow> if c = CHR ''p'' then Some (int (length cs)) else Some (1 - int (length cs)))"

lemma text_le_replicate: "text_le (replicate m c) (replicate n c) \<longleftrightarrow> m \<le> n"
  by (induction m arbitrary: n; case_tac n) auto

lemma text_le_negative: "text_le (replicate m (CHR ''b'') @ ''c'') (replicate n (CHR ''b'') @ ''c'') \<longleftrightarrow> n \<le> m"
  by (induction m arbitrary: n; case_tac n) auto

definition sample_solution :: SolutionResponse where
  "sample_solution = \<lparr>sol_center_ra_deg = Fin 10, sol_center_dec_deg = Fin 41,
     sol_pixel_scale_arcsec_per_pixel = Fin 2, sol_matched_stars = 40, sol_rms_arcsec = Fin (1/2),
     sol_image_width = 1024, sol_image_height = 1024, sol_wcs = wcs_from_seiza sample_fwd sample_bwd sample_wcs,
     sol_footprint = [], sol_objects = [], sol_catalog_version = None, sol_capture_time = None,
     sol_statistics = None, sol_pixel_coordinates = None, sol_content_region = None\<rparr>"

text \<open>
  The other codecs know a few values; every other value is written as \<open>null\<close>, as \<open>serde_json\<close> writes a
  number that is not finite, and \<open>null\<close> is not read back.
\<close>

definition table_text :: "('a \<times> string) list \<Rightarrow> 'a \<Rightarrow> string" where
  "table_text table x = (case map_of table x of Some s \<Rightarrow> s | None \<Rightarrow> ''null'')"

definition table_parse :: "('a \<times> string) list \<Rightarrow> string \<Rightarrow> 'a option" where
  "table_parse table s = map_of (map prod.swap table) s"

definition other_options :: SolveOptions where
  "other_options = default_options\<lparr>so_center_ra_deg := Some (Fin 10)\<rparr>"

definition other_solution :: SolutionResponse where
  "other_solution = sample_solution\<lparr>sol_matched_stars := 12\<rparr>"

definition weight_table :: "(f64 \<times> string) list" where
  "weight_table = [(Fin 1, ''1''), (Fin (1/2), ''0.5''), (Fin 3, ''3'')]"

definition options_table :: "(SolveOptions \<times> string) list" where
  "options_table = [(default_options, ''{}''), (other_options, ''{ra:10}'')]"

definition solution_table :: "(SolutionResponse \<times> string) list" where
  "solution_table = [(sample_solution, ''{stars:40}''), (other_solution, ''{stars:12}'')]"

definition sample_dyn_libs :: dyn_libs where
  "sample_dyn_libs = \<lparr>dl_uuid_str = lib_uuid_str sample_libs, dl_uuid_parse = lib_uuid_parse sample_libs,
     dl_time_str = unary_time, dl_time_parse = parse_unary_time,
     dl_f64_str = table_text weight_table, dl_f64_parse = table_parse weight_table,
     dl_options_str = table_text options_table, dl_options_parse = table_parse options_table,
     dl_solution_str = table_text solution_table, dl_solution_parse = table_parse solution_table\<rparr>"

lemma parse_unary_time [simp]: "parse_unary_time (unary_time t) = Some t"
  by (simp add: unary_time_def parse_unary_time_def)

lemma unary_time_order: "text_le (unary_time a) (unary_time b) \<longleftrightarrow> a \<le> b"
  by (auto simp: unary_time_def text_le_replicate text_le_negative)

lemma sample_dyn_libs_ok: "dyn_libs_ok sample_dyn_libs"
  using uuid_textD(1) [OF sample_libs_uuid_text] unary_time_order
  by (simp add: dyn_libs_ok_def sample_dyn_libs_def)

lemma other_values [simp]:
  "default_options \<noteq> other_options" "other_options \<noteq> default_options"
  "sample_solution \<noteq> other_solution" "other_solution \<noteq> sample_solution"
proof -
  have "so_center_ra_deg default_options \<noteq> so_center_ra_deg other_options"
    by (simp add: other_options_def default_options_def)
  then show "default_options \<noteq> other_options" "other_options \<noteq> default_options" by auto
  have "sol_matched_stars sample_solution \<noteq> sol_matched_stars other_solution"
    by (simp add: other_solution_def sample_solution_def)
  then show "sample_solution \<noteq> other_solution" "other_solution \<noteq> sample_solution" by auto
qed

lemma sample_dyn_parse [simp]:
  "dl_f64_parse sample_dyn_libs (dl_f64_str sample_dyn_libs (Fin 1)) = Some (Fin 1)"
  "dl_f64_parse sample_dyn_libs (dl_f64_str sample_dyn_libs (Fin (1/2))) = Some (Fin (1/2))"
  "dl_options_parse sample_dyn_libs (dl_options_str sample_dyn_libs default_options) = Some default_options"
  "dl_options_parse sample_dyn_libs (dl_options_str sample_dyn_libs other_options) = Some other_options"
  "dl_solution_parse sample_dyn_libs (dl_solution_str sample_dyn_libs other_solution) = Some other_solution"
  by (simp_all add: sample_dyn_libs_def table_text_def table_parse_def weight_table_def options_table_def solution_table_def)

text \<open>A weight that is no number is not read back.\<close>

lemma sample_dyn_parse_null: "dl_f64_parse sample_dyn_libs (dl_f64_str sample_dyn_libs NaN) = None"
  by (simp add: sample_dyn_libs_def table_text_def table_parse_def weight_table_def)

section \<open>What is read is what was written\<close>

fun values_read_back :: "dyn_libs \<Rightarrow> dyn_event \<Rightarrow> bool" where
  "values_read_back L (DynEnqueue _ job) =
     (dl_f64_parse L (dl_f64_str L (j_queue_weight job)) = Some (j_queue_weight job)
      \<and> dl_options_parse L (dl_options_str L (j_options job)) = Some (j_options job))"
| "values_read_back L (DynComplete _ _ _ sol _) =
     (case sol of Some s \<Rightarrow> dl_solution_parse L (dl_solution_str L s) = Some s | None \<Rightarrow> True)"
| "values_read_back L _ = True"

text \<open>The parts of a record that go back to one call.\<close>

fun submitted_as :: "JobRecord \<Rightarrow> dyn_event \<Rightarrow> bool" where
  "submitted_as job (DynEnqueue _ job0) =
     (job = (queued_job job0)\<lparr>j_status := j_status job, j_started_at := j_started_at job,
        j_completed_at := j_completed_at job, j_solution := j_solution job, j_error := j_error job,
        j_validation_donation := j_validation_donation job\<rparr>)"
| "submitted_as job _ = False"

fun started_as :: "JobId \<Rightarrow> time option \<Rightarrow> dyn_event \<Rightarrow> bool" where
  "started_as i t (DynClaim _ _ _ now _ req _) = (req \<in> {None, Some i} \<and> t = Some now)"
| "started_as i t _ = False"

fun completed_as ::
  "JobId \<Rightarrow> JobStatus \<Rightarrow> time option \<Rightarrow> SolutionResponse option \<Rightarrow> string option \<Rightarrow> dyn_event \<Rightarrow> bool" where
  "completed_as i status t solution error (DynComplete now j _ sol err) =
     (j = i \<and> status = (if sol \<noteq> None then Succeeded else Failed) \<and> t = Some now \<and> solution = sol \<and> error = err)"
| "completed_as i status t solution error _ = False"

fun donated_as :: "JobId \<Rightarrow> ValidationDonation \<Rightarrow> dyn_event \<Rightarrow> bool" where
  "donated_as i d (DynDonate j d0) = (j = i \<and> d = d0\<lparr>vd_donated_at := vd_donated_at d\<rparr>)"
| "donated_as i d _ = False"

fun dated_as :: "JobId \<Rightarrow> ValidationDonation \<Rightarrow> dyn_event \<Rightarrow> bool" where
  "dated_as i d (DynDonate j d0) = (j = i \<and> vd_donated_at d = vd_donated_at d0)"
| "dated_as i d _ = False"

definition told_by :: "dyn_event set \<Rightarrow> JobRecord \<Rightarrow> bool" where
  "told_by E job =
     ((\<exists>ev\<in>E. submitted_as job ev)
      \<and> ((j_started_at job = None \<and> j_status job = Queued) \<or> (\<exists>ev\<in>E. started_as (j_id job) (j_started_at job) ev))
      \<and> (if j_status job \<in> {Succeeded, Failed}
         then \<exists>ev\<in>E. completed_as (j_id job) (j_status job) (j_completed_at job) (j_solution job) (j_error job) ev
         else j_completed_at job = None \<and> j_solution job = None \<and> j_error job = None)
      \<and> (case j_validation_donation job of
           Some d \<Rightarrow> (\<exists>ev\<in>E. donated_as (j_id job) d ev) \<and> (\<exists>ev\<in>E. dated_as (j_id job) d ev)
         | None \<Rightarrow> True))"

lemma submitted_as_input:
  "submitted_as job (DynEnqueue scanned job0) \<Longrightarrow> j_options job = j_options job0
   \<and> j_queue_weight job = j_queue_weight job0 \<and> j_object_key job = j_object_key job0"
  by (cases job) (simp add: queued_job_def)

lemma optional_text [simp]:
  "it n = Some (AttrS v) \<Longrightarrow> optional_string it n = Some v" "it n = Some AttrNull \<Longrightarrow> optional_string it n = None"
  "it n = None \<Longrightarrow> optional_string it n = None"
  by (simp_all add: optional_string_def)

lemma required_text [simp]:
  "it n = Some (AttrS v) \<Longrightarrow> required_string it n = Inr v" "it n = Some (AttrN v) \<Longrightarrow> required_number it n = Inr v"
  by (simp_all add: required_string_def required_number_def ok_or_def)

lemma decode_encoded:
  assumes "dyn_libs_ok L" "calendar_time t"
  shows "decode_time L (dl_time_str L t) = Inr t"
  using assms by (simp add: decode_time_def dyn_libs_okD(2) ok_or_def)

lemma traverse_option [simp]: "traverse f None = Inr None" "traverse f (Some v) = map_sum id Some (f v)"
  by (cases "f v"; simp add: traverse_def)+

lemma start_decodes:
  assumes L: "dyn_libs_ok L" and timely: "\<forall>ev\<in>E. timely ev" and "start_ok L E i it"
  shows "\<exists>t. traverse (decode_time L) (optional_string it ''started_at'') = Inr t
           \<and> ((t = None \<and> has_status it ''queued'') \<or> (\<exists>ev\<in>E. started_as i t ev))"
  using assms(3) unfolding start_ok_def
proof (elim disjE bexE conjE)
  fix ev assume ev: "ev \<in> E" "started_item_by L i it ev"
  show ?thesis
  proof (cases ev)
    case (DynClaim v exps queued now tok req secs)
    with ev timely have "calendar_time now" by (auto simp: timely_def)
    with ev DynClaim show ?thesis
      by (intro exI [of _ "Some now"] conjI disjI2 bexI [of _ ev]) (simp_all add: encode_time_def decode_encoded [OF L])
  qed (use ev(2) in simp_all)
qed simp

lemma result_decodes:
  assumes L: "dyn_libs_ok L" and timely: "\<forall>ev\<in>E. timely ev" and read: "\<forall>ev\<in>E. values_read_back L ev"
    and result: "result_ok L E i it"
  shows "\<exists>status t sol. has_status it (status_as_str status)
    \<and> traverse (decode_time L) (optional_string it ''completed_at'') = Inr t
    \<and> traverse (\<lambda>v. ok_or BadJson (dl_solution_parse L v)) (optional_string it ''solution_json'') = Inr sol
    \<and> (if status \<in> {Succeeded, Failed} then \<exists>ev\<in>E. completed_as i status t sol (optional_string it ''error'') ev
       else t = None \<and> sol = None \<and> optional_string it ''error'' = None)"
proof (cases "item_done it")
  case True
  with result obtain ev where ev: "ev \<in> E" "completed_item_by L i it ev" by (auto simp: result_ok_def)
  show ?thesis
  proof (cases ev)
    case (DynComplete now j tok sol err)
    have "calendar_time now" using ev(1) timely DynComplete by (auto simp: timely_def)
    moreover have "values_read_back L ev" using ev(1) read by blast
    ultimately show ?thesis
      using ev DynComplete
      by (intro exI [of _ "if sol \<noteq> None then Succeeded else Failed"] exI [of _ "Some now"] exI [of _ sol])
        (cases sol; cases err; auto simp: has_status_def encode_time_def decode_encoded [OF L] nullable_json_def ok_or_def
          intro!: bexI [of _ ev])
  qed (use ev(2) in simp_all)
next
  case False
  with result show ?thesis
    by (intro exI [of _ "if has_status it ''queued'' then Queued else Solving"] exI [of _ None])
      (auto simp: result_ok_def)
qed

lemma donation_decodes:
  assumes L: "dyn_libs_ok L" and timely: "\<forall>ev\<in>E. timely ev" and "donation_ok L E i it"
  shows "\<exists>d. traverse (donation_from_item L it) (optional_string it ''validation_object_key'') = Inr d
    \<and> (case d of Some d \<Rightarrow> (\<exists>ev\<in>E. donated_as i d ev) \<and> (\<exists>ev\<in>E. dated_as i d ev) | None \<Rightarrow> True)"
proof (cases "it ''validation_object_key'' = None")
  case False
  with assms(3) obtain ev ev' where ev: "ev \<in> E" "donated_item_by i it ev" and ev': "ev' \<in> E" "dated_item_by L i it ev'"
    by (auto simp: donation_ok_def)
  obtain d where d: "ev = DynDonate i d" using ev(2) by (cases ev) auto
  obtain d' where d': "ev' = DynDonate i d'" using ev'(2) by (cases ev') auto
  have "calendar_time (vd_donated_at d')" using ev'(1) d' timely by (auto simp: timely_def)
  then have "donation_from_item L it (vd_object_key d) = Inr (d\<lparr>vd_donated_at := vd_donated_at d'\<rparr>)"
    using ev(2) ev'(2) by (cases d; cases "vd_comment d")
      (auto simp: d d' donation_from_item_def and_then_def encode_time_def decode_encoded [OF L] optional_bool_def)
  moreover have "optional_string it ''validation_object_key'' = Some (vd_object_key d)" using ev(2) d by simp
  moreover have "donated_as i (d\<lparr>vd_donated_at := vd_donated_at d'\<rparr>) ev" "dated_as i (d\<lparr>vd_donated_at := vd_donated_at d'\<rparr>) ev'"
    by (simp_all add: d d')
  ultimately show ?thesis
    using ev(1) ev'(1) by (intro exI [of _ "Some (d\<lparr>vd_donated_at := vd_donated_at d'\<rparr>)"]) auto
qed simp

lemma submitted_attributes:
  assumes "submitted_item_by L i it (DynEnqueue scanned job)"
  shows "it ''id'' = Some (AttrS (dl_uuid_str L i))" "j_id job = i"
    "it ''astrometry_id'' = Some (AttrN (decimal (unat (astrometry_id_for_job i))))"
    "it ''owner'' = Some (AttrS (j_owner job))" "it ''queue_weight'' = Some (AttrN (dl_f64_str L (j_queue_weight job)))"
    "it ''object_key'' = Some (AttrS (j_object_key job))" "it ''original_filename'' = Some (AttrS (j_original_filename job))"
    "optional_string it ''content_type'' = j_content_type job"
    "it ''options_json'' = Some (AttrS (dl_options_str L (j_options job)))"
    "it ''created_at'' = Some (encode_time L (j_created_at job))"
  using assms
  by (cases "j_content_type job"; simp add: input_names_def job_item_def Let_def queued_job_def optional_string_def)+

lemma written_decodes:
  assumes L: "dyn_libs_ok L" and timely: "\<forall>ev\<in>E. timely ev" and read: "\<forall>ev\<in>E. values_read_back L ev"
    and written: "job_written L E i it"
  shows "\<exists>job. record_from_item L it = Inr job \<and> j_id job = i \<and> told_by E job \<and> has_status it (status_as_str (j_status job))"
proof -
  note parts = job_writtenD [OF written]
  obtain scanned job0 where ev: "DynEnqueue scanned job0 \<in> E" and sub: "submitted_item_by L i it (DynEnqueue scanned job0)"
    using parts(1) by (metis submitted_item_by.elims(2))
  note attrs = submitted_attributes [OF sub]
  have "calendar_time (j_created_at job0)" "values_read_back L (DynEnqueue scanned job0)"
    using ev timely read by (auto simp: timely_def)
  note reads = decode_encoded [OF L this(1)] this(2) [unfolded values_read_back.simps]
  obtain st where st: "traverse (decode_time L) (optional_string it ''started_at'') = Inr st"
    "(st = None \<and> has_status it ''queued'') \<or> (\<exists>ev\<in>E. started_as i st ev)"
    using start_decodes [OF L timely parts(2)] by blast
  obtain status co sol where status: "has_status it (status_as_str status)"
    and co: "traverse (decode_time L) (optional_string it ''completed_at'') = Inr co"
    and sol: "traverse (\<lambda>v. ok_or BadJson (dl_solution_parse L v)) (optional_string it ''solution_json'') = Inr sol"
    and result: "if status \<in> {Succeeded, Failed} then \<exists>ev\<in>E. completed_as i status co sol (optional_string it ''error'') ev
       else co = None \<and> sol = None \<and> optional_string it ''error'' = None"
    using result_decodes [OF L timely read parts(4)] by blast
  obtain d where d: "traverse (donation_from_item L it) (optional_string it ''validation_object_key'') = Inr d"
    "case d of Some d \<Rightarrow> (\<exists>ev\<in>E. donated_as i d ev) \<and> (\<exists>ev\<in>E. dated_as i d ev) | None \<Rightarrow> True"
    using donation_decodes [OF L timely parts(5)] by blast
  define job where "job = (queued_job job0)\<lparr>j_status := status, j_started_at := st, j_completed_at := co,
    j_solution := sol, j_error := optional_string it ''error'', j_validation_donation := d\<rparr>"
  have "item_status it = Inr status"
    using status by (cases status) (simp_all add: item_status_def has_status_def and_then_def status_parse_def)
  then have "record_from_item L it = Inr job"
    using attrs reads st(1) co sol d(1) by (cases job0)
      (simp add: record_from_item_def required_uuid_def and_then_def ok_or_def job_def queued_job_def encode_time_def
        dyn_libs_okD(1) [OF L])
  moreover have "j_id job = i" using attrs(2) by (simp add: job_def queued_job_def)
  moreover have "told_by E job"
  proof -
    have "submitted_as job (DynEnqueue scanned job0)" by (simp add: job_def queued_job_def)
    then have "\<exists>x\<in>E. submitted_as job x" using ev by blast
    moreover have "j_id job = i" "j_status job = status" "j_started_at job = st" "j_completed_at job = co"
      "j_solution job = sol" "j_error job = optional_string it ''error''" "j_validation_donation job = d"
      using attrs(2) by (simp_all add: job_def queued_job_def)
    moreover have "has_status it ''queued'' \<Longrightarrow> status = Queued"
      using status by (cases status) (simp_all add: has_status_def)
    ultimately show ?thesis
      using st(2) result d(2) unfolding told_by_def by auto
  qed
  ultimately show ?thesis using status by (auto simp: job_def)
qed

text \<open>
  C9: Whatever is read of a job is what the calls wrote.  After any run of calls, whatever their
  eventually consistent reads returned, the item under a job's key decodes, and \<open>told_by\<close> says what
  the record holds: owner, weight, object key, file name, content type, options, creation time and
  the derived Astrometry number are those of a submission of this job, in the run; the start time
  is that of a claim that could serve the job; a finished job has the solution, the error and the time of one
  completion of this job, and its status fits it, while an unfinished one has none; a donation is one that was made for the
  job, with the time of the same or an earlier one.  The run's times must be in the years 0000
  to 9999, and the weights, options and solutions it writes must be values that their texts
  give back; \<open>serde_json\<close> gives a number that is not finite as \<open>null\<close>, and the item then does not
  decode.  The exception is the item left behind by marking a notification of a job that does not
  exist.
\<close>

theorem dynamo_items_decode:
  assumes "dyn_libs_ok L" "list_all timely evs" "list_all (values_read_back L) evs"
    and "dyn_run L evs (job_key L i) = Some it" "\<not> no_job it"
  shows "\<exists>job. dyn_get L (dyn_run L evs) i = Inr (Some job) \<and> j_id job = i
    \<and> it ''status'' = Some (AttrS (status_as_str (j_status job))) \<and> told_by (set evs) job"
proof -
  have "job_at L (dyn_run L evs) i = it" by (simp add: job_at_def item_at_def assms(4))
  with items_ok_reached [OF assms(1), of evs] have "job_written L (set evs) i it"
    using assms(5) by (auto simp: items_ok_def item_ok_def)
  from written_decodes [OF assms(1) _ _ this] assms(2-4) show ?thesis
    by (auto simp: list_all_iff dyn_get_def has_status_def)
qed

text \<open>The exception exists: the call creates an item for a job that was never submitted.\<close>

lemma phantom_job:
  assumes "db (job_key L i) = None"
  shows "dyn_get L db i = Inr None"
    "dyn_get L (dyn_mark_notification_delivered L db now i) i = Inl (MissingAttribute ''id'')"
  using assms
  by (simp_all add: dyn_get_def traverse_def dyn_mark_notification_delivered_def write_item_def item_at_def
      record_from_item_def required_uuid_def required_string_def optional_string_def ok_or_def and_then_def)

section \<open>A submitted job\<close>

abbreviation L0 :: dyn_libs where
  "L0 \<equiv> sample_dyn_libs"

definition dyn_job :: JobRecord where
  "dyn_job = (sample_job 1 ''a'' ''k1'' 0)\<lparr>j_queue_weight := Fin (1/2), j_options := other_options\<rparr>"

definition dyn_submitted :: DynDb where
  "dyn_submitted = dyn_run L0 [DynEnqueue [] dyn_job]"

definition submitted_item :: Item where
  "submitted_item = job_item L0 (queued_job dyn_job)"

lemma dyn_submitted_item: "dyn_submitted (job_key L0 1) = Some submitted_item"
  by (simp add: dyn_submitted_def dyn_run_def dyn_enqueue_def Let_def submitted_item_def queued_job_def dyn_job_def sample_job_def)

lemma submitted_item_simps [simp]:
  "submitted_item ''id'' = Some (AttrS (dl_uuid_str L0 1))" "submitted_item ''status'' = Some (AttrS ''queued'')"
  by (simp_all add: submitted_item_def job_item_def Let_def dyn_job_def sample_job_def queued_job_def)

lemma dyn_job_reads: "j_id dyn_job = 1" "j_created_at dyn_job = 0" "values_read_back L0 (DynEnqueue [] dyn_job)"
  by (simp_all add: dyn_job_def sample_job_def)

lemma small_times: "0 \<le> t \<Longrightarrow> t \<le> 200000000000 \<Longrightarrow> calendar_time t"
  by (simp add: calendar_time_def)

lemma lease_60: "0 \<le> now \<Longrightarrow> now \<le> 100000000000 \<Longrightarrow> lease_expiry now 60 = Some (now + 60000000000)"
  by (simp add: lease_expiry_def add_seconds_def)

lemma submitted_record: "\<exists>job. record_from_item L0 submitted_item = Inr job \<and> j_id job = 1 \<and> j_status job = Queued"
proof -
  let ?E = "{DynEnqueue [] dyn_job}"
  have "job_written L0 ?E 1 submitted_item"
    unfolding submitted_item_def by (rule put_written) (simp_all add: dyn_job_reads)
  from written_decodes [OF sample_dyn_libs_ok _ _ this] obtain job where "record_from_item L0 submitted_item = Inr job"
    "j_id job = 1" "has_status submitted_item (status_as_str (j_status job))"
    using dyn_job_reads by (auto simp: timely_def small_times)
  then show ?thesis by (cases "j_status job") (auto simp: has_status_def)
qed

lemma submitted_claim:
  obtains job where "requested_candidate L0 dyn_submitted 1 10 = Inr (Some (job, EligibleQueued))" "j_id job = 1"
proof -
  from submitted_record obtain job where "record_from_item L0 submitted_item = Inr job" "j_id job = 1" "j_status job = Queued"
    by blast
  with that [of job] show thesis by (simp add: requested_candidate_def dyn_submitted_item and_then_def)
qed

text \<open>The lease of \<open>t1\<close> ends at 60 seconds and 10 nanoseconds.\<close>

definition first_calls :: "dyn_event list" where
  "first_calls = [DynEnqueue [] dyn_job, DynClaim Map.empty [] [] 10 ''t1'' (Some 1) 60]"

definition dyn_leased :: DynDb where
  "dyn_leased = snd (dyn_claim L0 dyn_submitted Map.empty [] [] 10 ''t1'' (Some 1) 60)"

definition leased_item :: Item where
  "leased_item = (lease_item L0 10 ''t1'' 60000000010 submitted_item)(''pk'' \<mapsto> AttrS (job_key L0 1))"

lemma write_client_keeps: "write_item db (client_key w) upd (job_key L i) = db (job_key L i)"
  by (simp add: write_item_def)

lemma dyn_leased_item: "dyn_leased (job_key L0 1) = Some leased_item"
proof -
  obtain job where "requested_candidate L0 dyn_submitted 1 10 = Inr (Some (job, EligibleQueued))" "j_id job = 1"
    by (rule submitted_claim)
  moreover have "lease_expiry 10 60 = Some 60000000010" using lease_60 [of 10] by simp
  ultimately show ?thesis
    by (simp add: dyn_leased_def dyn_claim_def claim_candidate_def eligible_def item_at_def dyn_submitted_item
        write_client_keeps leased_item_def) (simp add: write_item_def item_at_def dyn_submitted_item)
qed

lemma leased_item_attrs:
  "leased_item ''status'' = Some (AttrS ''solving'')" "leased_item ''lease_token'' = Some (AttrS ''t1'')"
  "leased_item ''lease_expires_at'' = Some (encode_time L0 60000000010)"
  by (simp_all add: leased_item_def lease_item_def)

lemma leased_phase: "item_phase L0 (job_at L0 dyn_leased 1) = Leased ''t1'' 60000000010"
  using leased_item_attrs dyn_libs_okD(2) [OF sample_dyn_libs_ok, of 60000000010]
  by (simp add: job_at_def item_at_def dyn_leased_item item_phase_def encode_time_def small_times)

lemmas leased_item_time = attr_time [OF sample_dyn_libs_ok, of leased_item "''lease_expires_at''" 60000000010, OF leased_item_attrs(3)]

lemma first_calls_run: "dyn_run L0 first_calls = dyn_leased" "fresh_run dyn_tokens {} first_calls"
  "dyn_drawn first_calls = {''t1''}"
  by (simp_all add: first_calls_def dyn_run_def dyn_leased_def dyn_submitted_def dyn_drawn_def)

lemma first_calls_read: "list_all timely first_calls" "list_all (values_read_back L0) first_calls"
  using dyn_job_reads lease_60 [of 10] by (simp_all add: first_calls_def timely_def small_times)

lemma completes_leased: "fst (dyn_complete L0 dyn_leased 20 1 ''t1'' (Some other_solution) None) = Inr True"
  "snd (dyn_complete L0 dyn_leased 20 1 ''t1'' (Some other_solution) None) (job_key L0 1)
   = Some ((finish_item L0 20 (Some other_solution) None leased_item)(''pk'' \<mapsto> AttrS (job_key L0 1)))"
proof -
  have "lease_held L0 20 ''t1'' (item_at dyn_leased (job_key L0 1))"
    by (simp add: lease_held_def item_at_def dyn_leased_item leased_item_attrs leased_item_time small_times)
  then show "fst (dyn_complete L0 dyn_leased 20 1 ''t1'' (Some other_solution) None) = Inr True"
    "snd (dyn_complete L0 dyn_leased 20 1 ''t1'' (Some other_solution) None) (job_key L0 1)
     = Some ((finish_item L0 20 (Some other_solution) None leased_item)(''pk'' \<mapsto> AttrS (job_key L0 1)))"
    by (simp_all add: dyn_complete_def update_item_def write_item_def item_at_def dyn_leased_item)
qed

text \<open>A completed job is read with the options it was submitted with and the solution that was found.\<close>

theorem dynamo_items_decode_witness:
  "\<exists>job. dyn_get L0 (dyn_run L0 (first_calls @ [DynComplete 20 1 ''t1'' (Some other_solution) None])) 1 = Inr (Some job)
     \<and> j_options job = other_options \<and> j_queue_weight job = Fin (1/2) \<and> j_object_key job = ''k1''
     \<and> j_started_at job = Some 10 \<and> j_solution job = Some other_solution \<and> j_completed_at job = Some 20"
proof -
  let ?evs = "first_calls @ [DynComplete 20 1 ''t1'' (Some other_solution) None]"
  let ?it = "(finish_item L0 20 (Some other_solution) None leased_item)(''pk'' \<mapsto> AttrS (job_key L0 1))"
  have run: "dyn_run L0 ?evs (job_key L0 1) = Some ?it"
    by (simp add: dyn_run_snoc first_calls_run completes_leased(2))
  have "?it ''status'' = Some (AttrS ''succeeded'')" by (simp add: finish_item_def)
  moreover from this have "\<not> no_job ?it" using no_jobD [of ?it "''status''"] by auto
  moreover have "list_all timely ?evs" "list_all (values_read_back L0) ?evs"
    using first_calls_read by (simp_all add: timely_def small_times)
  ultimately obtain job where job: "dyn_get L0 (dyn_run L0 ?evs) 1 = Inr (Some job)" "j_id job = 1" "told_by (set ?evs) job"
    "''succeeded'' = status_as_str (j_status job)"
    using dynamo_items_decode [OF sample_dyn_libs_ok _ _ run] by auto
  from job(4) have "j_status job = Succeeded" by (cases "j_status job") auto
  moreover from job(3) obtain ev where "ev \<in> set ?evs" "submitted_as job ev" by (auto simp: told_by_def)
  then have "submitted_as job (DynEnqueue [] dyn_job)" by (auto simp: first_calls_def)
  from submitted_as_input [OF this] have "j_options job = other_options" "j_queue_weight job = Fin (1/2)" "j_object_key job = ''k1''"
    by (simp_all add: dyn_job_def sample_job_def)
  ultimately show ?thesis
    using job(1-3) by (intro exI [of _ job]) (simp add: told_by_def first_calls_def)
qed


section \<open>Life cycle\<close>

text \<open>
  C10: With DynamoDB every call moves each job only as its own clock, job and tokens allow, by the
  same table \<open>next_phases\<close> that the SQLx repository follows: a claim leases a job only if it waits
  or its lease has run out by the clock of the claim, only the requested job if one is requested, and then with
  the token and the expiry of that claim; a live lease is never requeued or taken over; a heartbeat
  and a completion move exactly the job they name, if their token holds a live lease; a finished job never changes.
  What the eventually consistent reads return does not matter.  The times of the run must be in
  the years 0000 to 9999, in which the order of the texts of times is their order.
\<close>

theorem dynamo_call_follows_lifecycle:
  assumes "dyn_libs_ok L" "list_all timely (evs @ [ev])"
  shows "item_phase L (job_at L (dyn_run L (evs @ [ev])) i)
    \<in> next_phases (dyn_call_of ev) i (item_phase L (job_at L (dyn_run L evs) i))"
proof -
  note ok = items_ok_reached [OF assms(1), of evs]
  obtain k where "item_call L k i ev (job_at L (dyn_run L evs) i) (job_at L (run_dyn L ev (dyn_run L evs)) i)"
    using run_dyn_call [OF assms(1) ok] by blast
  with ok assms(2) show ?thesis unfolding dyn_run_snoc
    by (intro item_next_phase [OF _ assms(1), where E = "set evs"]) (auto simp: items_ok_def list_all_iff)
qed

text \<open>At time 20 the requested job is still leased, and a second worker does not get it.\<close>

theorem dynamo_call_follows_lifecycle_witness:
  "item_phase L0 (job_at L0 (run_dyn L0 (DynClaim Map.empty [] [] 20 ''t2'' (Some 1) 60) dyn_leased) 1) = Leased ''t1'' 60000000010"
  using dynamo_call_follows_lifecycle [OF sample_dyn_libs_ok, of first_calls "DynClaim Map.empty [] [] 20 ''t2'' (Some 1) 60" 1]
    first_calls_read(1) lease_60 [of 20]
  by (simp add: dyn_run_snoc first_calls_run leased_phase timely_def small_times)

lemma no_lease_no_write:
  assumes stale: "\<not> dyn_holds L db i tok"
  shows "dyn_complete L db now i tok (Some sol) err = (Inr False, db)"
    "dyn_complete L db now i tok None (Some msg) = (Inr False, db)"
    "snd (dyn_heartbeat L db now i tok secs) = db" "fst (dyn_heartbeat L db now i tok secs) \<noteq> Inr True"
proof -
  have "\<not> lease_held L now tok (item_at db (job_key L i))"
    using stale by (auto simp: dyn_holds_def has_status_def lease_held_def job_at_def)
  then show "dyn_complete L db now i tok (Some sol) err = (Inr False, db)"
    "dyn_complete L db now i tok None (Some msg) = (Inr False, db)"
    "snd (dyn_heartbeat L db now i tok secs) = db" "fst (dyn_heartbeat L db now i tok secs) \<noteq> Inr True"
    by (simp_all add: dyn_complete_def dyn_heartbeat_def update_item_def split: option.split)
qed

lemma dyn_claim_holds:
  assumes L: "dyn_libs_ok L" and claimed: "dyn_claim L db v exps queued now tok req secs = (Inr (Some l), db')"
  shows "jl_lease_token l = tok \<and> dyn_holds L db' (jl_job_id l) tok"
proof -
  obtain c a where "claim_candidate L db v exps queued now req = (c, a)" by force
  then show ?thesis
  proof (cases rule: dyn_claim_cases [where tok = tok and secs = secs])
    case 1
    with claimed show ?thesis by (metis fst_conv)
  next
    case (2 job el e)
    then have "job_at L db' (jl_job_id l) = (lease_item L now tok e (job_at L a (j_id job)))(''pk'' \<mapsto> AttrS (job_key L (j_id job)))"
      and "jl_lease_token l = tok"
      using claimed by (auto simp: job_at_write_other L)
    then show ?thesis by (simp add: dyn_holds_def has_status_def lease_item_def)
  qed
qed

text \<open>
  With DynamoDB a superseded worker cannot write.  Once a claim has leased a job again, a token
  that was drawn before can, after any further calls, neither complete the job nor renew its lease,
  and its attempts leave the table unchanged.
\<close>

theorem dynamo_superseded_worker_cannot_write:
  assumes "dyn_libs_ok L" "fresh_run dyn_tokens {} evs" "tok \<notin> dyn_drawn evs" "old \<in> dyn_drawn evs"
    and claimed: "dyn_claim L (dyn_run L evs) v exps queued now tok req secs = (Inr (Some l), db1)"
    and "fresh_run dyn_tokens (insert tok (dyn_drawn evs)) later" "db' = run_all (run_dyn L) later db1"
  shows "dyn_complete L db' t (jl_job_id l) old (Some sol) err = (Inr False, db')
    \<and> dyn_complete L db' t (jl_job_id l) old None (Some msg) = (Inr False, db')
    \<and> snd (dyn_heartbeat L db' t (jl_job_id l) old secs') = db'
    \<and> fst (dyn_heartbeat L db' t (jl_job_id l) old secs') \<noteq> Inr True"
proof -
  have ok: "dyn_ok L (dyn_drawn evs) (dyn_run L evs)" by (rule dyn_ok_reached [OF assms(1,2)])
  have ok1: "dyn_ok L (insert tok (dyn_drawn evs)) db1"
    using dynamo.inv_step [OF ok, of "DynClaim v exps queued now tok req secs"] assms(3) claimed by simp
  have "\<not> dyn_holds L db' (jl_job_id l) old"
    unfolding assms(7) using assms(3,4,6) dyn_claim_holds [OF assms(1) claimed]
    by (intro dynamo.superseded_token_never_returns [OF ok1]) auto
  then show ?thesis by (simp add: no_lease_no_write)
qed

text \<open>
  C11: With DynamoDB the outcome of a job is final.  After a completion that is accepted the item of
  the job keeps its status, its solution and error, its input and its times whatever calls follow,
  no worker holds its lease again and every further completion is refused.
\<close>

theorem dynamo_outcome_is_final:
  assumes "dyn_libs_ok L" "fresh_run dyn_tokens {} (evs @ later)"
    and completed: "dyn_complete L (dyn_run L evs) now i tok sol err = (Inr True, db1)"
    and "db' = run_all (run_dyn L) later db1"
  shows "dyn_outcome L db' i = dyn_outcome L db1 i
    \<and> item_phase L (job_at L db' i) = Done (sol \<noteq> None)
    \<and> job_at L db' i ''solution_json'' = Some (nullable_json L sol)
    \<and> dyn_complete L db' t i tok' (Some sol') err' = (Inr False, db')"
proof -
  have fresh: "fresh_run dyn_tokens {} evs" "fresh_run dyn_tokens (dyn_drawn evs) later"
    using assms(2) by (simp_all add: fresh_run_append dyn_drawn_def)
  have ok1: "dyn_ok L (dyn_drawn evs) db1"
    using dynamo.inv_step [OF dyn_ok_reached [OF assms(1) fresh(1)], of "DynComplete now i tok sol err"] completed by simp
  from completed have item: "job_at L db1 i = (finish_item L now sol err (job_at L (dyn_run L evs) i))(''pk'' \<mapsto> AttrS (job_key L i))"
    by (auto simp: dyn_complete_def update_item_def assms(1) split: if_splits)
  then have fin: "item_done (job_at L db1 i)" by (simp add: item_done_def has_status_def finish_item_def)
  from dynamo.outcome_is_final [OF ok1 _ fresh(2), of i] assms(4) fin
  have kept: "dyn_outcome L db' i = Some (map (job_at L db1 i) outcome_names)" and free: "\<not> dyn_holds L db' i tok'"
    by (simp_all add: dyn_outcome_def item_outcome_def)
  from kept have same: "item_done (job_at L db' i)" "job_at L db' i ''status'' = job_at L db1 i ''status''"
    "job_at L db' i ''solution_json'' = job_at L db1 i ''solution_json''"
    by (simp_all add: dyn_outcome_def item_outcome_def outcome_names_def split: if_splits)
  have "item_phase L (job_at L db' i) = Done (sol \<noteq> None)" "job_at L db' i ''solution_json'' = Some (nullable_json L sol)"
    using same(2,3) item by (simp_all add: finish_item_def item_phase_def optional_string_def)
  then show ?thesis using kept fin free by (simp add: no_lease_no_write dyn_outcome_def item_outcome_def)
qed


section \<open>Concrete runs\<close>

lemma leased_record: "\<exists>job. record_from_item L0 leased_item = Inr job \<and> j_id job = 1 \<and> j_status job = Solving"
proof -
  have "job_written L0 (set first_calls) 1 leased_item"
    using items_ok_reached [OF sample_dyn_libs_ok, of first_calls] leased_item_attrs(1) no_jobD [of leased_item "''status''"]
    by (auto simp: items_ok_def item_ok_def job_at_def item_at_def first_calls_run dyn_leased_item dest!: spec [of _ 1])
  from written_decodes [OF sample_dyn_libs_ok _ _ this] first_calls_read leased_item_attrs(1) obtain job where
    "record_from_item L0 leased_item = Inr job" "j_id job = 1" "''solving'' = status_as_str (j_status job)"
    by (auto simp: list_all_iff has_status_def)
  then show ?thesis by (cases "j_status job") auto
qed

text \<open>Another worker claims the job after its lease has run out.\<close>

lemma second_dyn_claim: "\<exists>l db. dyn_claim L0 dyn_leased Map.empty [] [] 100000000000 ''t2'' (Some 1) 60 = (Inr (Some l), db) \<and> jl_job_id l = 1"
proof -
  have e: "optional_string leased_item ''lease_expires_at'' = Some (dl_time_str L0 60000000010)"
    by (simp add: optional_string_def leased_item_attrs encode_time_def)
  from leased_record obtain job where "record_from_item L0 leased_item = Inr job" "j_id job = 1" "j_status job = Solving" by blast
  then have "requested_candidate L0 dyn_leased 1 100000000000 = Inr (Some (job, EligibleExpiredLease))" "j_id job = 1"
    by (simp_all add: requested_candidate_def dyn_leased_item and_then_def e traverse_def decode_time_def
        dyn_libs_okD [OF sample_dyn_libs_ok] ok_or_def small_times)
  moreover have "lease_expiry 100000000000 60 = Some 160000000000" using lease_60 [of 100000000000] by simp
  moreover have "solving_until L0 100000000000 leased_item"
    by (simp add: solving_until_def leased_item_attrs leased_item_time small_times)
  ultimately show ?thesis
    by (simp add: dyn_claim_def claim_candidate_def eligible_def item_at_def dyn_leased_item)
qed

theorem dynamo_superseded_worker_cannot_write_witness:
  "dyn_complete L0 (snd (dyn_claim L0 dyn_leased Map.empty [] [] 100000000000 ''t2'' (Some 1) 60)) 100000000001 1 ''t1'' None (Some ''late'')
   = (Inr False, snd (dyn_claim L0 dyn_leased Map.empty [] [] 100000000000 ''t2'' (Some 1) 60))"
proof -
  obtain l db1 where claim: "dyn_claim L0 dyn_leased Map.empty [] [] 100000000000 ''t2'' (Some 1) 60 = (Inr (Some l), db1)" "jl_job_id l = 1"
    using second_dyn_claim by blast
  from dynamo_superseded_worker_cannot_write [OF sample_dyn_libs_ok first_calls_run(2), of "''t2''" "''t1''"
      Map.empty "[]" "[]" 100000000000 "Some 1" 60 l db1 "[]" db1 100000000001 sample_solution None "''late''"] claim
  show ?thesis by (simp add: first_calls_run)
qed

theorem dynamo_outcome_is_final_witness:
  "item_phase L0 (job_at L0 (run_dyn L0 (DynClaim Map.empty [] [] 100000000000 ''t2'' (Some 1) 60)
     (snd (dyn_complete L0 dyn_leased 20 1 ''t1'' (Some other_solution) None))) 1) = Done True"
proof -
  obtain db1 where done1: "dyn_complete L0 dyn_leased 20 1 ''t1'' (Some other_solution) None = (Inr True, db1)"
    using completes_leased(1) by (metis prod.collapse)
  from dynamo_outcome_is_final [OF sample_dyn_libs_ok _ done1 [folded first_calls_run(1)] refl,
      of "[DynClaim Map.empty [] [] 100000000000 ''t2'' (Some 1) 60]"] done1
  show ?thesis by (simp add: fresh_run_append first_calls_run first_calls_def)
qed

section \<open>Writing and reading a job\<close>

text \<open>
  A submitted job is read back as it was written.  The item that submitting a job puts into the
  table decodes to that job, with its derived Astrometry number, if its options and its weight are
  read back as they were written.
\<close>

theorem dynamo_record_round_trip:
  assumes "dyn_libs_ok L" "calendar_time (j_created_at job)" "dl_f64_parse L (dl_f64_str L (j_queue_weight job)) = Some (j_queue_weight job)"
    and "dl_options_parse L (dl_options_str L (j_options job)) = Some (j_options job)"
    and "j_started_at job = None" "j_completed_at job = None" "j_solution job = None" "j_error job = None"
      "j_validation_donation job = None"
  shows "record_from_item L (job_item L job) = Inr job"
  using assms
  by (cases "j_content_type job"; cases job)
    (simp_all add: record_from_item_def job_item_def Let_def required_uuid_def required_string_def required_number_def
      optional_string_def item_status_def and_then_def ok_or_def traverse_def decode_time_def encode_time_def dyn_libs_okD)

theorem dynamo_record_round_trip_witness:
  "record_from_item L0 submitted_item = Inr (queued_job dyn_job)"
  unfolding submitted_item_def
  by (rule dynamo_record_round_trip [OF sample_dyn_libs_ok]) (simp_all add: queued_job_def dyn_job_def sample_job_def small_times)

end
