(* ===== verification/Content_Region.thy ===== *)
theory Content_Region
  imports Models
begin

text \<open>
  The picture inside an upload whose edges are flat bands (\<open>src/content_region.rs\<close>).  An image is its
  size and its pixels; the decoder of the \<open>image\<close> package is not part of the model.
\<close>

section \<open>The code\<close>

type_synonym rgb = "u8 \<times> u8 \<times> u8"

record Picture =
  im_width :: u32
  im_height :: u32
  im_pixel :: "nat \<Rightarrow> nat \<Rightarrow> rgb"

definition band_tolerance :: u8 where
  "band_tolerance = 10"

definition min_band_px :: nat where
  "min_band_px = 2"

definition abs_diff :: "u8 \<Rightarrow> u8 \<Rightarrow> u8" where
  "abs_diff a b = (if a < b then b - a else a - b)"

definition near_colour :: "rgb \<Rightarrow> rgb \<Rightarrow> bool" where
  "near_colour colour pixel =
     (case (colour, pixel) of ((r, g, b), (r', g', b')) \<Rightarrow>
        abs_diff r' r \<le> band_tolerance \<and> abs_diff g' g \<le> band_tolerance \<and> abs_diff b' b \<le> band_tolerance)"

text \<open>\<open>line\<close> gives the pixels of a line, counted from the edge inward.\<close>

definition band :: "nat \<Rightarrow> (nat \<Rightarrow> rgb list) \<Rightarrow> nat" where
  "band lines line =
     (case line 0 of
        [] \<Rightarrow> 0
      | colour # _ \<Rightarrow> length (takeWhile (\<lambda>index. list_all (near_colour colour) (line index)) [0..<lines]))"

definition trim_band :: "nat \<Rightarrow> nat" where
  "trim_band b = (if b < min_band_px then 0 else b)"

text \<open>\<open>part as f64 >= whole as f64 * 0.25\<close>, which is exact for \<open>u32\<close>.\<close>

definition enough :: "nat \<Rightarrow> nat \<Rightarrow> bool" where
  "enough part whole = ((of_nat whole :: rat) * (1 / 4) \<le> of_nat part)"

definition pixel_row :: "Picture \<Rightarrow> nat \<Rightarrow> rgb list" where
  "pixel_row im y = map (\<lambda>x. im_pixel im x y) [0..<unat (im_width im)]"

definition pixel_column :: "Picture \<Rightarrow> nat \<Rightarrow> nat \<Rightarrow> nat \<Rightarrow> rgb list" where
  "pixel_column im y0 y1 x = map (\<lambda>y. im_pixel im x y) [y0..<y1]"

definition find_region :: "Picture \<Rightarrow> ContentRegion option" where
  "find_region im =
     (let w = unat (im_width im); h = unat (im_height im) in
      if w < 4 * min_band_px \<or> h < 4 * min_band_px then None
      else
        let t = band h (pixel_row im);
            b = band (h - t) (\<lambda>line. pixel_row im (h - 1 - line));
            l = band w (pixel_column im t (h - b));
            r = band (w - l) (\<lambda>line. pixel_column im t (h - b) (w - 1 - line));
            top = trim_band t; bottom = trim_band b; left = trim_band l; right = trim_band r in
        if top + bottom + left + right = 0 then None
        else
          let width = w - left - right; height = h - top - bottom in
          if enough width w \<and> enough height h
          then Some \<lparr>cr_x = of_nat left, cr_y = of_nat top, cr_width = of_nat width, cr_height = of_nat height\<rparr>
          else None)"

section \<open>Bands\<close>

text \<open>The first \<open>n\<close> lines are flat: each lies within the tolerance of the edge's first pixel.\<close>

definition flat :: "rgb \<Rightarrow> (nat \<Rightarrow> rgb list) \<Rightarrow> nat \<Rightarrow> bool" where
  "flat colour line n = (\<forall>i < n. list_all (near_colour colour) (line i))"

lemma takeWhile_upt: "\<exists>n. takeWhile P [0..<k] = [0..<n] \<and> n \<le> k \<and> (\<forall>i < n. P i) \<and> (n < k \<longrightarrow> \<not> P n)"
proof (induction k)
  case (Suc k)
  then obtain n where n: "takeWhile P [0..<k] = [0..<n]" "n \<le> k" "\<forall>i < n. P i" "n < k \<longrightarrow> \<not> P n" by blast
  show ?case
  proof (cases "n = k")
    case True
    with n have all: "\<forall>x \<in> set [0..<k]. P x" by simp
    show ?thesis
    proof (cases "P k")
      case True
      with all have "\<forall>i < Suc k. P i" by (simp add: less_Suc_eq)
      moreover from this have "takeWhile P [0..<Suc k] = [0..<Suc k]" by (intro takeWhile_eq_all_conv [THEN iffD2]) auto
      ultimately show ?thesis by blast
    next
      case False
      have "takeWhile P ([0..<k] @ [k]) = [0..<k] @ takeWhile P [k]"
        by (rule takeWhile_append2) (use all in auto)
      with False have "takeWhile P [0..<Suc k] = [0..<k]" by simp
      with False all show ?thesis by (intro exI [of _ k]) auto
    qed
  next
    case False
    with n have "\<exists>x \<in> set [0..<k]. \<not> P x" by (intro bexI [of _ n]) auto
    then obtain x where x: "x \<in> set [0..<k]" "\<not> P x" by blast
    have "takeWhile P [0..<Suc k] = takeWhile P [0..<k]" using takeWhile_append1 [of x "[0..<k]" P "[k]"] x by simp
    with n False show ?thesis by (intro exI [of _ n]) auto
  qed
qed simp

text \<open>A band is the greatest flat run of lines.\<close>

lemma band_is_greatest:
  assumes "line 0 = colour # rest"
  shows "flat colour line n \<and> n \<le> lines \<longleftrightarrow> n \<le> band lines line"
proof -
  let ?P = "\<lambda>i. list_all (near_colour colour) (line i)"
  obtain m where m: "takeWhile ?P [0..<lines] = [0..<m]" "m \<le> lines" "\<forall>i < m. ?P i" "m < lines \<longrightarrow> \<not> ?P m"
    using takeWhile_upt [of ?P lines] by blast
  then have b: "band lines line = m" by (simp add: band_def assms)
  show ?thesis
  proof
    assume "flat colour line n \<and> n \<le> lines"
    then show "n \<le> band lines line" using m(4) b by (metis flat_def leI order_less_le_trans)
  next
    assume "n \<le> band lines line"
    then show "flat colour line n \<and> n \<le> lines" using m(2,3) b by (auto simp: flat_def)
  qed
qed

lemma band_le: "band lines line \<le> lines"
proof (cases "line 0")
  case (Cons c cs)
  with band_is_greatest [of line c cs "band lines line" lines] show ?thesis by blast
qed (simp add: band_def)

lemma band_empty: "line 0 = [] \<Longrightarrow> band lines line = 0"
  by (simp add: band_def)


section \<open>The picture\<close>

text \<open>A line of the edge opposite the other one, counted inward, is flat like its first pixel.\<close>

definition flat_from_edge :: "nat \<Rightarrow> (nat \<Rightarrow> rgb list) \<Rightarrow> nat \<Rightarrow> bool" where
  "flat_from_edge lines line n =
     (n \<le> lines \<and> (n \<noteq> 0 \<longrightarrow> line 0 \<noteq> [] \<and> flat (hd (line 0)) line n))"

lemma band_flat: "flat_from_edge lines line n \<longleftrightarrow> n \<le> band lines line"
proof (cases "line 0")
  case Nil
  then show ?thesis by (auto simp: flat_from_edge_def band_empty)
next
  case (Cons c cs)
  from band_is_greatest [of line c cs n lines, OF Cons] Cons show ?thesis
    by (auto simp: flat_from_edge_def flat_def)
qed

text \<open>A band worth reporting: none, or all of the two or more flat lines at an edge.\<close>

definition is_band :: "nat \<Rightarrow> (nat \<Rightarrow> rgb list) \<Rightarrow> nat \<Rightarrow> bool" where
  "is_band lines line b = (b \<noteq> 1 \<and> (\<forall>n. 2 \<le> n \<longrightarrow> (flat_from_edge lines line n \<longleftrightarrow> n \<le> b)))"

lemma is_band_iff: "is_band lines line b \<longleftrightarrow> b = trim_band (band lines line)"
proof
  assume b: "is_band lines line b"
  then have same: "n \<le> band lines line \<longleftrightarrow> n \<le> b" if "2 \<le> n" for n
    using that by (simp add: is_band_def band_flat)
  have "b = 0 \<or> 2 \<le> b" using b by (auto simp: is_band_def)
  with same [of b] same [of "Suc b"] same [of 2] same [of "band lines line"] show "b = trim_band (band lines line)"
    by (cases "2 \<le> band lines line") (auto simp: trim_band_def min_band_px_def)
next
  show "b = trim_band (band lines line) \<Longrightarrow> is_band lines line b"
    by (auto simp: is_band_def band_flat trim_band_def min_band_px_def)
qed

lemma band_min: "k \<le> lines \<Longrightarrow> band k line = min k (band lines line)"
proof (rule antisym)
  assume "k \<le> lines"
  have "flat_from_edge k line (band k line)" by (simp add: band_flat)
  with \<open>k \<le> lines\<close> have "flat_from_edge lines line (band k line)" by (simp add: flat_from_edge_def)
  then show "band k line \<le> min k (band lines line)" by (simp add: band_flat band_le)
  have "flat_from_edge lines line (min k (band lines line))" by (simp add: band_flat)
  with \<open>k \<le> lines\<close> have "flat_from_edge k line (min k (band lines line))" by (simp add: flat_from_edge_def)
  then show "min k (band lines line) \<le> band k line" by (simp add: band_flat)
qed

section \<open>The picture\<close>

text \<open>The rows that lie in no flat run of rows at the top or at the bottom.\<close>

definition inner_rows :: "Picture \<Rightarrow> nat list" where
  "inner_rows im =
     (let h = unat (im_height im) in
      filter (\<lambda>y. \<not> flat_from_edge h (pixel_row im) (y + 1) \<and> \<not> flat_from_edge h (\<lambda>line. pixel_row im (h - 1 - line)) (h - y))
        [0..<h])"

text \<open>
  What the function promises: on every side the band is left out if there is one; the sides at the
  left and the right are judged by the inner rows.
\<close>

definition is_region :: "Picture \<Rightarrow> ContentRegion \<Rightarrow> bool" where
  "is_region im region =
     (let w = unat (im_width im); h = unat (im_height im);
          width = unat (cr_width region); height = unat (cr_height region);
          t = unat (cr_y region); b = h - t - height; l = unat (cr_x region); r = w - l - width;
          column = (\<lambda>x. map (im_pixel im x) (inner_rows im)) in
      is_band h (pixel_row im) t \<and> is_band h (\<lambda>line. pixel_row im (h - 1 - line)) b
      \<and> is_band w column l \<and> is_band w (\<lambda>line. column (w - 1 - line)) r
      \<and> (t \<noteq> 0 \<or> b \<noteq> 0 \<or> l \<noteq> 0 \<or> r \<noteq> 0)
      \<and> t + height + b = h \<and> l + width + r = w
      \<and> 8 \<le> w \<and> 8 \<le> h \<and> w \<le> 4 * width \<and> h \<le> 4 * height)"

lemma enough_iff: "enough part whole \<longleftrightarrow> whole \<le> 4 * part"
proof -
  have "enough part whole \<longleftrightarrow> (of_nat whole :: rat) \<le> of_nat (4 * part)" by (simp add: enough_def mult.commute)
  then show ?thesis by (simp only: of_nat_le_iff)
qed

lemma unat_of_nat_le: "n \<le> unat w \<Longrightarrow> unat (of_nat n :: u32) = n" for w :: u32
  using unsigned_less [of w, where 'a = nat] by (simp add: unsigned_of_nat take_bit_nat_eq_self)

lemma filter_upt: "b \<le> h \<Longrightarrow> filter (\<lambda>y. a \<le> y \<and> y < b) [0..<h] = [a..<b]"
proof (cases "a \<le> b")
  case True
  moreover assume "b \<le> h"
  ultimately have "[0..<h] = [0..<a] @ [a..<b] @ [b..<h]"
    by (metis le_add_diff_inverse le_trans upt_add_eq_append zero_le)
  then show ?thesis by (simp add: filter_False)
qed (simp add: filter_False)

lemma inner_rows_upt:
  assumes "h = unat (im_height im)"
  shows "inner_rows im = [band h (pixel_row im)..<h - band h (\<lambda>line. pixel_row im (h - 1 - line))]"
proof -
  let ?t = "band h (pixel_row im)" and ?b = "band h (\<lambda>line. pixel_row im (h - 1 - line))"
  have "inner_rows im = filter (\<lambda>y. ?t \<le> y \<and> y < h - ?b) [0..<h]"
    unfolding inner_rows_def Let_def assms [symmetric] band_flat by (rule filter_cong) auto
  then show ?thesis by (simp add: filter_upt)
qed


text \<open>Two runs that meet leave no room for a quarter of the side.\<close>

lemma runs_that_meet:
  assumes "lines < a + b" "8 \<le> lines"
  shows "\<not> lines \<le> 4 * (lines - trim_band a - trim_band b)" "\<not> lines \<le> 4 * (lines - trim_band a - trim_band (min (lines - a) b))"
  using assms by (auto simp: trim_band_def min_band_px_def min_def)

lemma region_fields:
  assumes "t + b \<le> h" "l + r \<le> w" "h = unat (im_height im)" "w = unat (im_width im)"
    and "region = \<lparr>cr_x = of_nat l, cr_y = of_nat t, cr_width = of_nat (w - l - r), cr_height = of_nat (h - t - b)\<rparr>"
  shows "unat (cr_x region) = l" "unat (cr_y region) = t" "unat (cr_width region) = w - l - r" "unat (cr_height region) = h - t - b"
proof -
  have x: "unat (of_nat n :: u32) = n" if "n \<le> w" for n using unat_of_nat_le [of n "im_width im"] that assms(4) by simp
  have y: "unat (of_nat n :: u32) = n" if "n \<le> h" for n using unat_of_nat_le [of n "im_height im"] that assms(3) by simp
  show "unat (cr_x region) = l" "unat (cr_width region) = w - l - r"
    unfolding assms(5) ContentRegion.select_convs using assms(2) by (auto intro: x simp del: of_nat_diff)
  show "unat (cr_y region) = t" "unat (cr_height region) = h - t - b"
    unfolding assms(5) ContentRegion.select_convs using assms(1) by (auto intro: y simp del: of_nat_diff)
qed

lemma region_by_fields:
  assumes "unat (cr_x region) = l" "unat (cr_y region) = t" "unat (cr_width region) = w'" "unat (cr_height region) = h'"
  shows "region = \<lparr>cr_x = of_nat l, cr_y = of_nat t, cr_width = of_nat w', cr_height = of_nat h'\<rparr>"
  using assms by (cases region) auto

text \<open>The bands of the four edges before short ones are dropped, and the size.\<close>

definition flat_edges :: "Picture \<Rightarrow> nat \<times> nat \<times> nat \<times> nat" where
  "flat_edges im =
     (let w = unat (im_width im); h = unat (im_height im); column = (\<lambda>x. map (im_pixel im x) (inner_rows im)) in
      (band h (pixel_row im), band h (\<lambda>line. pixel_row im (h - 1 - line)), band w column, band w (\<lambda>line. column (w - 1 - line))))"

definition left_region :: "nat \<Rightarrow> nat \<Rightarrow> nat \<times> nat \<times> nat \<times> nat \<Rightarrow> ContentRegion" where
  "left_region w h edges = (case edges of (t, b, l, r) \<Rightarrow>
     \<lparr>cr_x = of_nat (trim_band l), cr_y = of_nat (trim_band t),
      cr_width = of_nat (w - trim_band l - trim_band r), cr_height = of_nat (h - trim_band t - trim_band b)\<rparr>)"

definition some_band :: "nat \<times> nat \<times> nat \<times> nat \<Rightarrow> bool" where
  "some_band edges = (case edges of (t, b, l, r) \<Rightarrow> trim_band t + trim_band b + trim_band l + trim_band r \<noteq> 0)"

lemma is_region_iff:
  assumes "flat_edges im = (t, b, l, r)" "h = unat (im_height im)" "w = unat (im_width im)"
  shows "is_region im region \<longleftrightarrow>
     unat (cr_y region) = trim_band t \<and> unat (cr_height region) = h - trim_band t - trim_band b
     \<and> unat (cr_x region) = trim_band l \<and> unat (cr_width region) = w - trim_band l - trim_band r
     \<and> trim_band t + trim_band b \<le> h \<and> trim_band l + trim_band r \<le> w \<and> some_band (t, b, l, r)
     \<and> 8 \<le> w \<and> 8 \<le> h \<and> w \<le> 4 * unat (cr_width region) \<and> h \<le> 4 * unat (cr_height region)"
proof -
  have "is_region im region \<longleftrightarrow>
      (let width = unat (cr_width region); height = unat (cr_height region); y = unat (cr_y region); x = unat (cr_x region) in
       y = trim_band t \<and> h - y - height = trim_band b \<and> x = trim_band l \<and> w - x - width = trim_band r
       \<and> (y \<noteq> 0 \<or> h - y - height \<noteq> 0 \<or> x \<noteq> 0 \<or> w - x - width \<noteq> 0)
       \<and> y + height + (h - y - height) = h \<and> x + width + (w - x - width) = w
       \<and> 8 \<le> w \<and> 8 \<le> h \<and> w \<le> 4 * width \<and> h \<le> 4 * height)"
    using assms by (auto simp: is_region_def is_band_iff flat_edges_def Let_def)
  then show ?thesis by (auto simp: Let_def some_band_def)
qed

text \<open>The search when the bands of opposite edges do not meet, and when they do.\<close>

lemma find_region_apart:
  assumes edges: "flat_edges im = (t, b, l, r)" and h: "h = unat (im_height im)" and w: "w = unat (im_width im)"
    and apart: "t + b \<le> h" "l + r \<le> w" "8 \<le> h" "8 \<le> w"
  shows "find_region im = (let region = left_region w h (t, b, l, r) in
     if some_band (t, b, l, r) \<and> w \<le> 4 * (w - trim_band l - trim_band r) \<and> h \<le> 4 * (h - trim_band t - trim_band b)
     then Some region else None)"
proof -
  have bands: "band h (pixel_row im) = t" "band h (\<lambda>line. pixel_row im (h - 1 - line)) = b"
    using edges h by (auto simp: flat_edges_def Let_def)
  have "pixel_column im t (h - b) = (\<lambda>x. map (im_pixel im x) (inner_rows im))"
    using inner_rows_upt [OF h] bands by (auto simp: pixel_column_def)
  then have columns: "band w (pixel_column im t (h - b)) = l" "band w (\<lambda>line. pixel_column im t (h - b) (w - 1 - line)) = r"
    using edges w by (auto simp: flat_edges_def Let_def)
  have shorter: "band (h - t) (\<lambda>line. pixel_row im (h - 1 - line)) = b" "band (w - l) (\<lambda>line. pixel_column im t (h - b) (w - 1 - line)) = r"
    using apart band_min [OF diff_le_self, of h t "\<lambda>line. pixel_row im (h - 1 - line)"]
      band_min [OF diff_le_self, of w l "\<lambda>line. pixel_column im t (h - b) (w - 1 - line)"] by (simp_all only: bands columns) simp_all
  show ?thesis
    using apart(3,4)
    unfolding find_region_def h [symmetric] w [symmetric] Let_def bands shorter columns enough_iff
    by (simp add: min_band_px_def left_region_def some_band_def)
qed

lemma find_region_meet:
  assumes edges: "flat_edges im = (t, b, l, r)" and h: "h = unat (im_height im)" and w: "w = unat (im_width im)"
    and meet: "h < t + b \<or> w < l + r" and least: "8 \<le> h" "8 \<le> w"
  shows "find_region im = None"
proof -
  have bands: "band h (pixel_row im) = t" "band h (\<lambda>line. pixel_row im (h - 1 - line)) = b"
    using edges h by (auto simp: flat_edges_def Let_def)
  have shorter: "band (h - t) (\<lambda>line. pixel_row im (h - 1 - line)) = min (h - t) b"
    using band_min [OF diff_le_self, of h t "\<lambda>line. pixel_row im (h - 1 - line)"] by (simp only: bands)
  show ?thesis
  proof (cases "h < t + b")
    case True
    then show ?thesis
      using runs_that_meet [OF True least(1)] unfolding find_region_def h [symmetric] w [symmetric] Let_def bands shorter enough_iff by simp
  next
    case False
    then have b: "min (h - t) b = b" by simp
    have "pixel_column im t (h - b) = (\<lambda>x. map (im_pixel im x) (inner_rows im))"
      using inner_rows_upt [OF h] bands by (auto simp: pixel_column_def)
    then have columns: "band w (pixel_column im t (h - b)) = l" "band w (\<lambda>line. pixel_column im t (h - b) (w - 1 - line)) = r"
      using edges w by (auto simp: flat_edges_def Let_def)
    then have "band (w - l) (\<lambda>line. pixel_column im t (h - b) (w - 1 - line)) = min (w - l) r"
      using band_min [OF diff_le_self, of w l "\<lambda>line. pixel_column im t (h - b) (w - 1 - line)"] by (simp only:)
    then show ?thesis
      using meet False runs_that_meet [of w l r] least
      unfolding find_region_def h [symmetric] w [symmetric] Let_def bands shorter b columns enough_iff by simp
  qed
qed

text \<open>
  C39: The content region is what the flat bands leave.  The search reports a region exactly when it is
  what remains of an image of at least eight pixels a side after removing, at each edge, the two or
  more lines that lie within the tolerance of the edge's first pixel, the left and right edges judged
  by the rows between the bands; it keeps a quarter of each side or more, and some band is removed.
\<close>

theorem find_region_is_content: "find_region im = Some region \<longleftrightarrow> is_region im region"
proof -
  define w where "w = unat (im_width im)"
  define h where "h = unat (im_height im)"
  obtain t b l r where edges: "flat_edges im = (t, b, l, r)" by (cases "flat_edges im")
  note spec = is_region_iff [OF edges h_def w_def, of region]
  consider (small) "w < 8 \<or> h < 8" | (meet) "8 \<le> h" "8 \<le> w" "h < t + b \<or> w < l + r"
    | (apart) "8 \<le> h" "8 \<le> w" "t + b \<le> h" "l + r \<le> w" by linarith
  then show ?thesis
  proof cases
    case small
    then show ?thesis by (auto simp: spec find_region_def min_band_px_def simp flip: w_def h_def)
  next
    case meet
    have "\<not> (w \<le> 4 * (w - trim_band l - trim_band r) \<and> h \<le> 4 * (h - trim_band t - trim_band b))"
      using runs_that_meet(1) [of h t b] runs_that_meet(1) [of w l r] meet by blast
    with find_region_meet [OF edges h_def w_def meet(3,1,2)] show ?thesis by (auto simp: spec)
  next
    case apart
    then have fits: "trim_band t + trim_band b \<le> h" "trim_band l + trim_band r \<le> w" by (auto simp: trim_band_def)
    have "region = left_region w h (t, b, l, r) \<longleftrightarrow> unat (cr_x region) = trim_band l \<and> unat (cr_y region) = trim_band t
        \<and> unat (cr_width region) = w - trim_band l - trim_band r \<and> unat (cr_height region) = h - trim_band t - trim_band b"
      using region_fields [OF fits h_def w_def, of region] region_by_fields [of region "trim_band l" "trim_band t"]
      unfolding left_region_def case_prod_conv by blast
    then show ?thesis
      unfolding spec find_region_apart [OF edges h_def w_def apart(3,4,1,2)] Let_def using apart(1,2) fits by auto
  qed
qed

end
