(* ===== verification/Store_Migration.thy ===== *)
theory Store_Migration
  imports Dynamo_Repository "HOL-Library.List_Lexorder" "HOL-Library.Char_ord"
begin

text \<open>
  The migration between the SQL and the DynamoDB job store (\<open>src/store_migration.rs\<close>) and the conversion of
  numeric legacy jobs when the SQL store opens (\<open>migrate_legacy_jobs\<close> of \<open>src/repository.rs\<close>).  Both work on the
  columns as they are stored, so times, options and solutions are texts here.  A snapshot holds the
  logical state of a store.  Printing, connections and failures of a database are not modelled.
\<close>

section \<open>Arguments\<close>

datatype StoreBackend = BackendSqlx | BackendDynamoDb

datatype migrate_error =
    UnknownBackend string
  | FlagWithoutValue string
  | MigrationUsage
  | UnknownMigrateOption string
  | MigrateOptionRequired string
  | SameBackends
  | DestinationNotEmpty
  | VerificationFailed
  | DuplicateRecord string
  | InvalidRecord string
  | MissingReference string
  | DestinationDiffers string
  | UnsupportedSchema string
  | UnsupportedItem string
  | UnsupportedAttributes
  | OutOfRange string
  | OrphanedOutbox
  | ConflictingRow string
  | ReadingItem dyn_error

definition backend_parse :: "string \<Rightarrow> migrate_error + StoreBackend" where
  "backend_parse v =
     (if v \<in> {''sqlx'', ''sqlite'', ''postgres'', ''postgresql''} then Inr BackendSqlx
      else if v \<in> {''dynamodb'', ''dynamo''} then Inr BackendDynamoDb
      else Inl (UnknownBackend v))"

record MigrationArgs =
  ma_from :: StoreBackend
  ma_to :: StoreBackend
  ma_sqlx_url :: string
  ma_dynamodb_table :: string
  ma_dry_run :: bool
  ma_resume :: bool

text \<open>The flags seen so far.\<close>

record MigrationFlags =
  mf_from :: "StoreBackend option"
  mf_to :: "StoreBackend option"
  mf_sqlx_url :: "string option"
  mf_dynamodb_table :: "string option"
  mf_dry_run :: bool
  mf_resume :: bool

fun parse_flags :: "string list \<Rightarrow> MigrationFlags \<Rightarrow> migrate_error + MigrationFlags" where
  "parse_flags [] fl = Inr fl"
| "parse_flags (flag # rest) fl =
     (if flag = ''--from'' then
        (case rest of [] \<Rightarrow> Inl (FlagWithoutValue flag)
         | v # rest' \<Rightarrow> and_then (backend_parse v) (\<lambda>b. parse_flags rest' (fl\<lparr>mf_from := Some b\<rparr>)))
      else if flag = ''--to'' then
        (case rest of [] \<Rightarrow> Inl (FlagWithoutValue flag)
         | v # rest' \<Rightarrow> and_then (backend_parse v) (\<lambda>b. parse_flags rest' (fl\<lparr>mf_to := Some b\<rparr>)))
      else if flag = ''--sqlx-url'' then
        (case rest of [] \<Rightarrow> Inl (FlagWithoutValue flag)
         | v # rest' \<Rightarrow> parse_flags rest' (fl\<lparr>mf_sqlx_url := Some v\<rparr>))
      else if flag = ''--dynamodb-table'' then
        (case rest of [] \<Rightarrow> Inl (FlagWithoutValue flag)
         | v # rest' \<Rightarrow> parse_flags rest' (fl\<lparr>mf_dynamodb_table := Some v\<rparr>))
      else if flag = ''--dry-run'' then parse_flags rest (fl\<lparr>mf_dry_run := True\<rparr>)
      else if flag = ''--resume'' then parse_flags rest (fl\<lparr>mf_resume := True\<rparr>)
      else if flag = ''--help'' \<or> flag = ''-h'' then Inl MigrationUsage
      else Inl (UnknownMigrateOption flag))"

definition migration_args :: "environment \<Rightarrow> string list \<Rightarrow> migrate_error + MigrationArgs" where
  "migration_args env args =
     and_then (parse_flags args \<lparr>mf_from = None, mf_to = None, mf_sqlx_url = env ''SEIZA_SQL_DATABASE_URL'',
        mf_dynamodb_table = env ''SEIZA_DYNAMODB_TABLE'', mf_dry_run = False, mf_resume = False\<rparr>) (\<lambda>fl.
     and_then (ok_or (MigrateOptionRequired ''--from'') (mf_from fl)) (\<lambda>source.
     and_then (ok_or (MigrateOptionRequired ''--to'') (mf_to fl)) (\<lambda>target.
     if source = target then Inl SameBackends
     else
       and_then (ok_or (MigrateOptionRequired ''--sqlx-url'') (filter_option (\<lambda>v. trim v \<noteq> []) (mf_sqlx_url fl))) (\<lambda>url.
       and_then (ok_or (MigrateOptionRequired ''--dynamodb-table'') (filter_option (\<lambda>v. trim v \<noteq> []) (mf_dynamodb_table fl))) (\<lambda>table.
       Inr \<lparr>ma_from = source, ma_to = target, ma_sqlx_url = url, ma_dynamodb_table = table,
            ma_dry_run = mf_dry_run fl, ma_resume = mf_resume fl\<rparr>)))))"

section \<open>Snapshots\<close>

record StoredJob =
  st_id :: JobId
  st_astrometry_id :: u64
  st_legacy_id :: "u64 option"
  st_owner :: string
  st_queue_weight :: f64
  st_object_key :: string
  st_original_filename :: string
  st_content_type :: "string option"
  st_options_json :: string
  st_status :: string
  st_created_at :: string
  st_started_at :: "string option"
  st_completed_at :: "string option"
  st_solution_json :: "string option"
  st_error :: "string option"
  st_lease_token :: "string option"
  st_lease_expires_at :: "string option"
  st_attempts :: u64
  st_notification_delivered_at :: "string option"

record StoredClient =
  sc_owner :: string
  sc_last_served_at :: string

record StoredDonation =
  sd_job_id :: JobId
  sd_object_key :: string
  sd_comment :: "string option"
  sd_solve_is_invalid :: bool
  sd_license_version :: string
  sd_donated_at :: string

record StoreSnapshot =
  ss_jobs :: "StoredJob list"
  ss_donations :: "StoredDonation list"
  ss_clients :: "StoredClient list"

definition new_snapshot :: "StoredJob list \<Rightarrow> StoredDonation list \<Rightarrow> StoredClient list \<Rightarrow> StoreSnapshot" where
  "new_snapshot jobs donations clients =
     \<lparr>ss_jobs = sort_key st_id jobs, ss_donations = sort_key sd_job_id donations, ss_clients = sort_key sc_owner clients\<rparr>"

definition snapshot_is_empty :: "StoreSnapshot \<Rightarrow> bool" where
  "snapshot_is_empty s = (ss_jobs s = [] \<and> ss_donations s = [] \<and> ss_clients s = [])"

text \<open>What the migration uses of other crates, with JSON syntax as \<open>ml_json\<close>.\<close>

record migrate_libs =
  ml_dyn :: dyn_libs
  ml_json :: "string \<Rightarrow> bool"

definition time_ok :: "migrate_libs \<Rightarrow> string \<Rightarrow> bool" where
  "time_ok M v = (dl_time_parse (ml_dyn M) v \<noteq> None)"

text \<open>The checks on the identifiers of a job, with the sets of what was seen before.\<close>

definition validate_identifiers ::
  "JobId list \<Rightarrow> u64 list \<Rightarrow> u64 list \<Rightarrow> string list \<Rightarrow> StoredJob \<Rightarrow> migrate_error + unit" where
  "validate_identifiers ids astrometry_ids legacy_ids object_keys job =
     and_then (ensure (st_id job \<notin> set ids) (DuplicateRecord ''job ID'')) (\<lambda>_.
     and_then (ensure (st_astrometry_id job \<notin> set astrometry_ids) (DuplicateRecord ''Astrometry.net ID'')) (\<lambda>_.
     and_then (ensure (st_astrometry_id job \<noteq> 0 \<and> uint (st_astrometry_id job) \<le> i64_max) (InvalidRecord ''astrometry_id'')) (\<lambda>_.
     and_then (ensure (is_none_or (\<lambda>i. uint i \<le> i64_max) (st_legacy_id job)) (OutOfRange ''legacy_id'')) (\<lambda>_.
     and_then (ensure (is_none_or (\<lambda>i. i \<notin> set legacy_ids) (st_legacy_id job)) (DuplicateRecord ''legacy job ID'')) (\<lambda>_.
     ensure (st_object_key job \<notin> set object_keys) (DuplicateRecord ''object key''))))))"

definition validate_fields :: "migrate_libs \<Rightarrow> StoredJob \<Rightarrow> migrate_error + unit" where
  "validate_fields M job =
     and_then (ensure (uint (st_attempts job) \<le> i64_max) (OutOfRange ''attempts'')) (\<lambda>_.
     and_then (ensure (is_finite (st_queue_weight job)) (InvalidRecord ''queue_weight'')) (\<lambda>_.
     and_then (map_sum InvalidRecord id (status_parse (st_status job))) (\<lambda>_.
     and_then (ensure (ml_json M (st_options_json job)) (InvalidRecord ''options_json'')) (\<lambda>_.
     and_then (ensure (is_none_or (ml_json M) (st_solution_json job)) (InvalidRecord ''solution_json'')) (\<lambda>_.
     ensure (time_ok M (st_created_at job) \<and> is_none_or (time_ok M) (st_started_at job)
             \<and> is_none_or (time_ok M) (st_completed_at job) \<and> is_none_or (time_ok M) (st_lease_expires_at job)
             \<and> is_none_or (time_ok M) (st_notification_delivered_at job)) (InvalidRecord ''time''))))))"

definition legacy_ids_of :: "StoredJob \<Rightarrow> u64 list" where
  "legacy_ids_of job = (case st_legacy_id job of Some i \<Rightarrow> [i] | None \<Rightarrow> [])"

fun validate_jobs ::
  "migrate_libs \<Rightarrow> JobId list \<Rightarrow> u64 list \<Rightarrow> u64 list \<Rightarrow> string list \<Rightarrow> StoredJob list \<Rightarrow> migrate_error + unit" where
  "validate_jobs M ids astrometry_ids legacy_ids object_keys [] = Inr ()"
| "validate_jobs M ids astrometry_ids legacy_ids object_keys (job # jobs) =
     and_then (validate_identifiers ids astrometry_ids legacy_ids object_keys job) (\<lambda>_.
     and_then (validate_fields M job) (\<lambda>_.
       validate_jobs M (st_id job # ids) (st_astrometry_id job # astrometry_ids)
         (legacy_ids_of job @ legacy_ids) (st_object_key job # object_keys) jobs))"

fun validate_donations ::
  "migrate_libs \<Rightarrow> JobId list \<Rightarrow> JobId list \<Rightarrow> string list \<Rightarrow> StoredDonation list \<Rightarrow> migrate_error + unit" where
  "validate_donations M ids donated_jobs donation_keys [] = Inr ()"
| "validate_donations M ids donated_jobs donation_keys (d # ds) =
     (if sd_job_id d \<notin> set ids then Inl (MissingReference ''job of a validation contribution'')
      else if sd_job_id d \<in> set donated_jobs then Inl (DuplicateRecord ''validation contribution'')
      else if sd_object_key d \<in> set donation_keys then Inl (DuplicateRecord ''validation object key'')
      else if \<not> time_ok M (sd_donated_at d) then Inl (InvalidRecord ''donated_at'')
      else validate_donations M ids (sd_job_id d # donated_jobs) (sd_object_key d # donation_keys) ds)"

fun validate_clients :: "migrate_libs \<Rightarrow> string list \<Rightarrow> StoredClient list \<Rightarrow> migrate_error + unit" where
  "validate_clients M owners [] = Inr ()"
| "validate_clients M owners (c # cs) =
     (if sc_owner c \<in> set owners then Inl (DuplicateRecord ''client'')
      else if \<not> time_ok M (sc_last_served_at c) then Inl (InvalidRecord ''last_served_at'')
      else validate_clients M (sc_owner c # owners) cs)"

definition validate_snapshot :: "migrate_libs \<Rightarrow> StoreSnapshot \<Rightarrow> migrate_error + unit" where
  "validate_snapshot M s =
     and_then (validate_jobs M [] [] [] [] (ss_jobs s)) (\<lambda>_.
     and_then (validate_donations M (map st_id (ss_jobs s)) [] [] (ss_donations s)) (\<lambda>_.
     validate_clients M [] (ss_clients s)))"

text \<open>Later records of a key replace earlier ones in the hash map of the source.\<close>

definition last_with :: "('a \<Rightarrow> 'k) \<Rightarrow> 'a list \<Rightarrow> 'k \<Rightarrow> 'a option" where
  "last_with key xs k = map_of (rev (map (\<lambda>x. (key x, x)) xs)) k"

definition all_in_source :: "string \<Rightarrow> ('a \<Rightarrow> 'k) \<Rightarrow> 'a list \<Rightarrow> 'a list \<Rightarrow> migrate_error + unit" where
  "all_in_source what key source xs =
     ensure (list_all (\<lambda>x. last_with key source (key x) = Some x) xs) (DestinationDiffers what)"

definition ensure_subset_of :: "StoreSnapshot \<Rightarrow> StoreSnapshot \<Rightarrow> migrate_error + unit" where
  "ensure_subset_of s source =
     and_then (all_in_source ''job'' st_id (ss_jobs source) (ss_jobs s)) (\<lambda>_.
     and_then (all_in_source ''validation contribution'' sd_job_id (ss_donations source) (ss_donations s)) (\<lambda>_.
     all_in_source ''client'' sc_owner (ss_clients source) (ss_clients s)))"

section \<open>The SQL store\<close>

text \<open>The columns that the jobs of both schemas have, with their own type of identifier.\<close>

record 'k JobColumns =
  q_id :: 'k
  q_owner :: string
  q_queue_weight :: f64
  q_object_key :: string
  q_original_filename :: string
  q_content_type :: "string option"
  q_options_json :: string
  q_status :: string
  q_created_at :: string
  q_started_at :: "string option"
  q_completed_at :: "string option"
  q_solution_json :: "string option"
  q_error :: "string option"
  q_lease_token :: "string option"
  q_lease_expires_at :: "string option"
  q_attempts :: int

record SqlJob = "string JobColumns" +
  q_astrometry_id :: int
  q_legacy_id :: "int option"

record 'k DonationColumns =
  qd_job_id :: 'k
  qd_object_key :: string
  qd_comment :: "string option"
  qd_solve_is_invalid :: int
  qd_license_version :: string
  qd_donated_at :: string

text \<open>A table without columns does not exist.\<close>

record SqlStore =
  sq_columns :: "string \<Rightarrow> string list"
  sq_jobs :: "SqlJob list"
  sq_outbox :: "(string \<times> string option) list"
  sq_donations :: "string DonationColumns list"
  sq_clients :: "(string \<times> string) list"
  sq_legacy_jobs :: "int JobColumns list"
  sq_legacy_outbox :: "(int \<times> string option) list"
  sq_legacy_donations :: "int DonationColumns list"

definition table_exists :: "SqlStore \<Rightarrow> string \<Rightarrow> bool" where
  "table_exists db table = (sq_columns db table \<noteq> [])"

definition from_i64 :: "string \<Rightarrow> int \<Rightarrow> migrate_error + u64" where
  "from_i64 field v = (if v < 0 then Inl (OutOfRange field) else Inr (of_int v))"

definition to_i64 :: "string \<Rightarrow> u64 \<Rightarrow> migrate_error + int" where
  "to_i64 field v = (if i64_max < uint v then Inl (OutOfRange field) else Inr (uint v))"

definition job_columns :: "string list" where
  "job_columns = [''owner'', ''queue_weight'', ''object_key'', ''original_filename'', ''content_type'', ''options_json'',
     ''status'', ''created_at'', ''started_at'', ''completed_at'', ''solution_json'', ''error'', ''lease_token'',
     ''lease_expires_at'', ''attempts'']"

definition donation_columns :: "string list" where
  "donation_columns = [''job_id'', ''object_key'', ''comment'', ''solve_is_invalid'', ''license_version'', ''donated_at'']"

definition uuid_tables :: "(string \<times> string list) list" where
  "uuid_tables = [(''jobs_v2'', ''id'' # ''astrometry_id'' # ''legacy_id'' # job_columns),
     (''validation_donations_v2'', donation_columns), (''client_service'', [''owner'', ''last_served_at'']),
     (''queue_outbox_v2'', [''job_id'', ''delivered_at''])]"

definition legacy_tables :: "(string \<times> string list) list" where
  "legacy_tables = [(''jobs'', ''id'' # job_columns), (''validation_donations'', donation_columns),
     (''client_service'', [''owner'', ''last_served_at'']), (''queue_outbox'', [''job_id'', ''delivered_at'']),
     (''queue_counters'', [''name'', ''value''])]"

fun ensure_sql_schema_supported :: "SqlStore \<Rightarrow> (string \<times> string list) list \<Rightarrow> migrate_error + unit" where
  "ensure_sql_schema_supported db [] = Inr ()"
| "ensure_sql_schema_supported db ((table, supported) # tables) =
     (if set (sq_columns db table) \<noteq> set supported then Inl (UnsupportedSchema table)
      else ensure_sql_schema_supported db tables)"

definition stored_columns ::
  "JobId \<Rightarrow> u64 \<Rightarrow> u64 option \<Rightarrow> u64 \<Rightarrow> string option \<Rightarrow> ('k, 'z) JobColumns_scheme \<Rightarrow> StoredJob" where
  "stored_columns i astrometry_id legacy_id attempts delivered r =
     \<lparr>st_id = i, st_astrometry_id = astrometry_id, st_legacy_id = legacy_id, st_owner = q_owner r,
      st_queue_weight = q_queue_weight r, st_object_key = q_object_key r, st_original_filename = q_original_filename r,
      st_content_type = q_content_type r, st_options_json = q_options_json r, st_status = q_status r,
      st_created_at = q_created_at r, st_started_at = q_started_at r, st_completed_at = q_completed_at r,
      st_solution_json = q_solution_json r, st_error = q_error r, st_lease_token = q_lease_token r,
      st_lease_expires_at = q_lease_expires_at r, st_attempts = attempts, st_notification_delivered_at = delivered\<rparr>"

definition stored_job_from_row :: "migrate_libs \<Rightarrow> SqlStore \<Rightarrow> SqlJob \<Rightarrow> migrate_error + StoredJob" where
  "stored_job_from_row M db r =
     and_then (ok_or (InvalidRecord ''job ID'') (dl_uuid_parse (ml_dyn M) (q_id r))) (\<lambda>i.
     and_then (ok_or (MissingReference ''queue_outbox_v2'') (map_of (sq_outbox db) (q_id r))) (\<lambda>delivered.
     and_then (from_i64 ''Astrometry.net ID'' (q_astrometry_id r)) (\<lambda>astrometry_id.
     and_then (traverse (from_i64 ''legacy job ID'') (q_legacy_id r)) (\<lambda>legacy_id.
     and_then (from_i64 ''attempt count'' (q_attempts r)) (\<lambda>attempts.
     Inr (stored_columns i astrometry_id legacy_id attempts delivered r))))))"

definition stored_donation_columns :: "JobId \<Rightarrow> ('k, 'z) DonationColumns_scheme \<Rightarrow> StoredDonation" where
  "stored_donation_columns i d =
     \<lparr>sd_job_id = i, sd_object_key = qd_object_key d, sd_comment = qd_comment d,
      sd_solve_is_invalid = (qd_solve_is_invalid d \<noteq> 0), sd_license_version = qd_license_version d,
      sd_donated_at = qd_donated_at d\<rparr>"

definition sql_clients :: "SqlStore \<Rightarrow> StoredClient list" where
  "sql_clients db = map (\<lambda>(owner, served). \<lparr>sc_owner = owner, sc_last_served_at = served\<rparr>) (sq_clients db)"

definition ensure_no_orphan_outbox :: "('k \<times> string option) list \<Rightarrow> 'k list \<Rightarrow> migrate_error + unit" where
  "ensure_no_orphan_outbox outbox ids = ensure (list_all (\<lambda>(i, _). i \<in> set ids) outbox) OrphanedOutbox"

definition snapshot_uuid_sql :: "migrate_libs \<Rightarrow> SqlStore \<Rightarrow> migrate_error + StoreSnapshot" where
  "snapshot_uuid_sql M db =
     and_then (collect_results (map (stored_job_from_row M db) (sq_jobs db))) (\<lambda>jobs.
     and_then (ensure_no_orphan_outbox (sq_outbox db) (map q_id (sq_jobs db))) (\<lambda>_.
     and_then (collect_results (map (\<lambda>d.
         map_sum id (\<lambda>i. stored_donation_columns i d)
           (ok_or (InvalidRecord ''validation contribution job ID'') (dl_uuid_parse (ml_dyn M) (qd_job_id d))))
         (sq_donations db))) (\<lambda>donations.
     Inr (new_snapshot jobs donations (sql_clients db)))))"

text \<open>The identifier that the object of a legacy job carries in its name.\<close>

definition legacy_object_id :: "dyn_libs \<Rightarrow> string \<Rightarrow> uuid option" where
  "legacy_object_id L object_key =
     (let components = rev (split_on (CHR ''/'') object_key); filename = hd components;
          tagged_parent = (case tl components of
                             parent # _ \<Rightarrow> Option.bind (strip_prefix ''public-'' parent) (dl_uuid_parse L)
                           | [] \<Rightarrow> None) in
      case tagged_parent of
        Some i \<Rightarrow> Some i
      | None \<Rightarrow> dl_uuid_parse L (case rsplit_once (CHR ''.'') filename of Some (stem, _) \<Rightarrow> stem | None \<Rightarrow> filename))"

definition delivered_unless_queued :: "string \<Rightarrow> string option \<Rightarrow> string option" where
  "delivered_unless_queued status delivered = (if status = ''queued'' then None else delivered)"

definition stored_job_from_legacy_row ::
  "migrate_libs \<Rightarrow> SqlStore \<Rightarrow> int JobColumns \<Rightarrow> migrate_error + StoredJob" where
  "stored_job_from_legacy_row M db r =
     and_then (from_i64 ''legacy job ID'' (q_id r)) (\<lambda>legacy_id.
     and_then (ok_or (MissingReference ''queue_outbox'') (map_of (sq_legacy_outbox db) (q_id r))) (\<lambda>delivered.
     and_then (ok_or (InvalidRecord ''object key'') (legacy_object_id (ml_dyn M) (q_object_key r))) (\<lambda>i.
     and_then (from_i64 ''attempt count'' (q_attempts r)) (\<lambda>attempts.
     Inr (stored_columns i legacy_id (Some legacy_id) attempts (delivered_unless_queued (q_status r) delivered) r)))))"

text \<open>The identifiers by legacy identifier; a later one replaces an earlier one.\<close>

definition legacy_to_uuid :: "StoredJob list \<Rightarrow> u64 \<Rightarrow> uuid option" where
  "legacy_to_uuid jobs =
     map_of (rev (concat (map (\<lambda>job. map (\<lambda>i. (i, st_id job)) (legacy_ids_of job)) jobs)))"

definition snapshot_legacy_sql :: "migrate_libs \<Rightarrow> SqlStore \<Rightarrow> migrate_error + StoreSnapshot" where
  "snapshot_legacy_sql M db =
     and_then (collect_results (map (stored_job_from_legacy_row M db) (sq_legacy_jobs db))) (\<lambda>jobs.
     and_then (ensure_no_orphan_outbox (sq_legacy_outbox db) (map q_id (sq_legacy_jobs db))) (\<lambda>_.
     and_then (collect_results (map (\<lambda>d.
         and_then (from_i64 ''validation contribution job ID'' (qd_job_id d)) (\<lambda>legacy_id.
           map_sum id (\<lambda>i. stored_donation_columns i d)
             (ok_or (MissingReference ''legacy job'') (legacy_to_uuid jobs legacy_id))))
         (sq_legacy_donations db))) (\<lambda>donations.
     Inr (new_snapshot jobs donations (sql_clients db)))))"

definition sql_snapshot :: "migrate_libs \<Rightarrow> SqlStore \<Rightarrow> migrate_error + StoreSnapshot" where
  "sql_snapshot M db =
     (if table_exists db ''jobs_v2''
      then and_then (ensure_sql_schema_supported db uuid_tables) (\<lambda>_. snapshot_uuid_sql M db)
      else if table_exists db ''jobs''
      then and_then (ensure_sql_schema_supported db legacy_tables) (\<lambda>_. snapshot_legacy_sql M db)
      else Inr (new_snapshot [] [] []))"

text \<open>An upsert by the primary key; the other unique columns may not be taken by another row.\<close>

definition row_conflicts :: "SqlJob \<Rightarrow> SqlJob \<Rightarrow> bool" where
  "row_conflicts r r' =
     (q_astrometry_id r = q_astrometry_id r' \<or> (q_legacy_id r \<noteq> None \<and> q_legacy_id r = q_legacy_id r')
      \<or> q_object_key r = q_object_key r')"

definition put_row :: "('a \<Rightarrow> 'k) \<Rightarrow> 'a \<Rightarrow> 'a list \<Rightarrow> 'a list" where
  "put_row key x xs = (if list_ex (\<lambda>y. key y = key x) xs then map (\<lambda>y. if key y = key x then x else y) xs else xs @ [x])"

definition upsert_job :: "SqlJob \<Rightarrow> SqlStore \<Rightarrow> migrate_error + SqlStore" where
  "upsert_job r db =
     (if list_ex (\<lambda>r'. q_id r' \<noteq> q_id r \<and> row_conflicts r r') (sq_jobs db) then Inl (ConflictingRow ''jobs_v2'')
      else Inr (db\<lparr>sq_jobs := put_row q_id r (sq_jobs db)\<rparr>))"

definition sql_job_row :: "migrate_libs \<Rightarrow> StoredJob \<Rightarrow> migrate_error + SqlJob" where
  "sql_job_row M job =
     and_then (to_i64 ''Astrometry.net ID'' (st_astrometry_id job)) (\<lambda>astrometry_id.
     and_then (traverse (to_i64 ''legacy job ID'') (st_legacy_id job)) (\<lambda>legacy_id.
     and_then (to_i64 ''attempt count'' (st_attempts job)) (\<lambda>attempts.
     Inr \<lparr>q_id = dl_uuid_str (ml_dyn M) (st_id job), q_owner = st_owner job, q_queue_weight = st_queue_weight job,
          q_object_key = st_object_key job, q_original_filename = st_original_filename job,
          q_content_type = st_content_type job, q_options_json = st_options_json job, q_status = st_status job,
          q_created_at = st_created_at job, q_started_at = st_started_at job, q_completed_at = st_completed_at job,
          q_solution_json = st_solution_json job, q_error = st_error job, q_lease_token = st_lease_token job,
          q_lease_expires_at = st_lease_expires_at job, q_attempts = attempts,
          q_astrometry_id = astrometry_id, q_legacy_id = legacy_id\<rparr>)))"

definition import_job :: "migrate_libs \<Rightarrow> StoredJob \<Rightarrow> SqlStore \<Rightarrow> migrate_error + SqlStore" where
  "import_job M job db =
     and_then (sql_job_row M job) (\<lambda>r.
     and_then (upsert_job r db) (\<lambda>db1.
     Inr (db1\<lparr>sq_outbox := put_row fst (q_id r, st_notification_delivered_at job) (sq_outbox db1)\<rparr>)))"

definition import_donation :: "migrate_libs \<Rightarrow> StoredDonation \<Rightarrow> SqlStore \<Rightarrow> migrate_error + SqlStore" where
  "import_donation M d db =
     (let r = \<lparr>qd_job_id = dl_uuid_str (ml_dyn M) (sd_job_id d), qd_object_key = sd_object_key d, qd_comment = sd_comment d,
               qd_solve_is_invalid = (if sd_solve_is_invalid d then 1 else 0),
               qd_license_version = sd_license_version d, qd_donated_at = sd_donated_at d\<rparr> in
      if list_ex (\<lambda>r'. qd_job_id r' \<noteq> qd_job_id r \<and> qd_object_key r' = qd_object_key r) (sq_donations db)
      then Inl (ConflictingRow ''validation_donations_v2'')
      else Inr (db\<lparr>sq_donations := put_row qd_job_id r (sq_donations db)\<rparr>))"

definition import_client :: "StoredClient \<Rightarrow> SqlStore \<Rightarrow> SqlStore" where
  "import_client c db = db\<lparr>sq_clients := put_row fst (sc_owner c, sc_last_served_at c) (sq_clients db)\<rparr>"

fun import_all :: "('a \<Rightarrow> SqlStore \<Rightarrow> migrate_error + SqlStore) \<Rightarrow> 'a list \<Rightarrow> SqlStore \<Rightarrow> migrate_error + SqlStore" where
  "import_all f [] db = Inr db"
| "import_all f (x # xs) db = and_then (f x db) (import_all f xs)"

text \<open>One transaction: an error leaves the store as it was.\<close>

definition sql_import :: "migrate_libs \<Rightarrow> StoreSnapshot \<Rightarrow> SqlStore \<Rightarrow> (migrate_error + unit) \<times> SqlStore" where
  "sql_import M s db =
     (if \<not> table_exists db ''jobs_v2'' then (Inl (UnsupportedSchema ''jobs_v2''), db)
      else case and_then (import_all (import_job M) (ss_jobs s) db) (import_all (import_donation M) (ss_donations s)) of
        Inl e \<Rightarrow> (Inl e, db)
      | Inr db1 \<Rightarrow> (Inr (), fold import_client (ss_clients s) db1))"

section \<open>Opening the SQL store\<close>

definition create_table :: "string \<times> string list \<Rightarrow> SqlStore \<Rightarrow> SqlStore" where
  "create_table t db =
     (if table_exists db (fst t) then db
      else (let db1 = db\<lparr>sq_columns := (sq_columns db)(fst t := snd t)\<rparr> in
            if fst t = ''jobs_v2'' then db1\<lparr>sq_jobs := []\<rparr>
            else if fst t = ''validation_donations_v2'' then db1\<lparr>sq_donations := []\<rparr>
            else if fst t = ''client_service'' then db1\<lparr>sq_clients := []\<rparr>
            else if fst t = ''queue_outbox_v2'' then db1\<lparr>sq_outbox := []\<rparr> else db1))"

text \<open>\<open>fresh\<close> gives the identifier of a legacy job whose object has none in its name.\<close>

definition legacy_job_row :: "migrate_libs \<Rightarrow> (int \<Rightarrow> uuid) \<Rightarrow> int JobColumns \<Rightarrow> SqlJob" where
  "legacy_job_row M fresh r =
     \<lparr>q_id = dl_uuid_str (ml_dyn M)
        (case legacy_object_id (ml_dyn M) (q_object_key r) of Some i \<Rightarrow> i | None \<Rightarrow> fresh (q_id r)),
      q_owner = q_owner r, q_queue_weight = q_queue_weight r, q_object_key = q_object_key r,
      q_original_filename = q_original_filename r, q_content_type = q_content_type r, q_options_json = q_options_json r,
      q_status = q_status r, q_created_at = q_created_at r, q_started_at = q_started_at r,
      q_completed_at = q_completed_at r, q_solution_json = q_solution_json r, q_error = q_error r,
      q_lease_token = q_lease_token r, q_lease_expires_at = q_lease_expires_at r, q_attempts = q_attempts r,
      q_astrometry_id = q_id r, q_legacy_id = Some (q_id r)\<rparr>"

text \<open>\<open>ON CONFLICT(legacy_id) DO NOTHING\<close>; another unique column that is taken is an error.\<close>

definition insert_legacy_job :: "migrate_libs \<Rightarrow> (int \<Rightarrow> uuid) \<Rightarrow> int JobColumns \<Rightarrow> SqlStore \<Rightarrow> migrate_error + SqlStore" where
  "insert_legacy_job M fresh r db =
     (let new = legacy_job_row M fresh r in
      if list_ex (\<lambda>r'. q_legacy_id r' = Some (q_id r)) (sq_jobs db) then Inr db
      else if list_ex (\<lambda>r'. q_id r' = q_id new \<or> row_conflicts new r') (sq_jobs db) then Inl (ConflictingRow ''jobs_v2'')
      else Inr (db\<lparr>sq_jobs := sq_jobs db @ [new]\<rparr>))"

definition uuid_for_legacy_id :: "migrate_libs \<Rightarrow> SqlStore \<Rightarrow> int \<Rightarrow> migrate_error + uuid option" where
  "uuid_for_legacy_id M db i =
     traverse (\<lambda>r. ok_or (InvalidRecord ''job ID'') (dl_uuid_parse (ml_dyn M) (q_id r)))
       (List.find (\<lambda>r. q_legacy_id r = Some i) (sq_jobs db))"

definition insert_legacy_donation :: "migrate_libs \<Rightarrow> int DonationColumns \<Rightarrow> SqlStore \<Rightarrow> migrate_error + SqlStore" where
  "insert_legacy_donation M d db =
     and_then (uuid_for_legacy_id M db (qd_job_id d)) (\<lambda>found.
       case found of
         None \<Rightarrow> Inr db
       | Some i \<Rightarrow>
           let new = \<lparr>qd_job_id = dl_uuid_str (ml_dyn M) i, qd_object_key = qd_object_key d, qd_comment = qd_comment d,
                      qd_solve_is_invalid = qd_solve_is_invalid d, qd_license_version = qd_license_version d,
                      qd_donated_at = qd_donated_at d\<rparr> in
           if list_ex (\<lambda>d'. qd_job_id d' = qd_job_id new) (sq_donations db) then Inr db
           else if list_ex (\<lambda>d'. qd_object_key d' = qd_object_key new) (sq_donations db)
           then Inl (ConflictingRow ''validation_donations_v2'')
           else Inr (db\<lparr>sq_donations := sq_donations db @ [new]\<rparr>))"

text \<open>The join with \<open>jobs\<close> drops the records without a job.\<close>

definition insert_legacy_outbox ::
  "migrate_libs \<Rightarrow> int \<times> string option \<Rightarrow> SqlStore \<Rightarrow> migrate_error + SqlStore" where
  "insert_legacy_outbox M entry db =
     (case List.find (\<lambda>r. q_id r = fst entry) (sq_legacy_jobs db) of
        None \<Rightarrow> Inr db
      | Some r \<Rightarrow>
          and_then (uuid_for_legacy_id M db (fst entry)) (\<lambda>found.
            case found of
              None \<Rightarrow> Inr db
            | Some i \<Rightarrow>
                let key = dl_uuid_str (ml_dyn M) i in
                if list_ex (\<lambda>(k, _). k = key) (sq_outbox db) then Inr db
                else Inr (db\<lparr>sq_outbox := sq_outbox db @ [(key, delivered_unless_queued (q_status r) (snd entry))]\<rparr>)))"

text \<open>Statements one by one: an error keeps what was written before it.\<close>

fun each_row :: "('a \<Rightarrow> SqlStore \<Rightarrow> migrate_error + SqlStore) \<Rightarrow> 'a list \<Rightarrow> SqlStore \<Rightarrow> (migrate_error + unit) \<times> SqlStore" where
  "each_row f [] db = (Inr (), db)"
| "each_row f (x # xs) db = (case f x db of Inl e \<Rightarrow> (Inl e, db) | Inr db1 \<Rightarrow> each_row f xs db1)"

definition migrate_legacy_jobs :: "migrate_libs \<Rightarrow> (int \<Rightarrow> uuid) \<Rightarrow> SqlStore \<Rightarrow> (migrate_error + unit) \<times> SqlStore" where
  "migrate_legacy_jobs M fresh db =
     (if \<not> table_exists db ''jobs'' then (Inr (), db)
      else case each_row (insert_legacy_job M fresh) (sq_legacy_jobs db) db of
        (Inl e, db1) \<Rightarrow> (Inl e, db1)
      | (Inr _, db1) \<Rightarrow>
      case each_row (insert_legacy_donation M)
             (if table_exists db1 ''validation_donations'' then sq_legacy_donations db1 else []) db1 of
        (Inl e, db2) \<Rightarrow> (Inl e, db2)
      | (Inr _, db2) \<Rightarrow>
          each_row (insert_legacy_outbox M) (if table_exists db2 ''queue_outbox'' then sq_legacy_outbox db2 else []) db2)"

definition sql_initialize :: "migrate_libs \<Rightarrow> (int \<Rightarrow> uuid) \<Rightarrow> SqlStore \<Rightarrow> (migrate_error + unit) \<times> SqlStore" where
  "sql_initialize M fresh db = migrate_legacy_jobs M fresh (fold create_table uuid_tables db)"

section \<open>The DynamoDB store\<close>

datatype JobReference = RefUuid uuid | RefLegacy u64

definition reading :: "dyn_error + 'a \<Rightarrow> migrate_error + 'a" where
  "reading r = map_sum ReadingItem id r"

definition required_u64 :: "Item \<Rightarrow> string \<Rightarrow> migrate_error + u64" where
  "required_u64 it name = and_then (reading (required_number it name)) (\<lambda>v. ok_or (InvalidRecord name) (parse_u64 v))"

definition optional_u64 :: "Item \<Rightarrow> string \<Rightarrow> migrate_error + u64 option" where
  "optional_u64 it name =
     traverse (\<lambda>v. case v of AttrN n \<Rightarrow> ok_or (InvalidRecord name) (parse_u64 n) | _ \<Rightarrow> Inl (InvalidRecord name)) (it name)"

definition ensure_only_attributes :: "Item \<Rightarrow> string list \<Rightarrow> migrate_error + unit" where
  "ensure_only_attributes it supported = ensure (dom it \<subseteq> set supported) UnsupportedAttributes"

definition job_attributes :: "string list" where
  "job_attributes = [''pk'', ''entity'', ''id'', ''astrometry_id'', ''legacy_id'', ''owner'', ''queue_weight'', ''object_key'',
     ''original_filename'', ''content_type'', ''options_json'', ''status'', ''created_at'', ''started_at'', ''completed_at'',
     ''solution_json'', ''error'', ''lease_token'', ''lease_expires_at'', ''attempts'', ''notification_delivered_at'',
     ''validation_object_key'', ''validation_comment'', ''validation_solve_is_invalid'', ''validation_license_version'',
     ''validation_donated_at'']"

text \<open>The identity of a job: a text in new items, a number in those of the numeric scheme.\<close>

definition item_identity ::
  "dyn_libs \<Rightarrow> Item \<Rightarrow> string \<Rightarrow> migrate_error + (JobId \<times> u64 \<times> u64 option \<times> string \<times> bool)" where
  "item_identity L it object_key =
     (case it ''id'' of
        Some (AttrS v) \<Rightarrow>
          and_then (ok_or (InvalidRecord ''id'') (dl_uuid_parse L v)) (\<lambda>i.
          and_then (required_u64 it ''astrometry_id'') (\<lambda>astrometry_id.
          and_then (optional_u64 it ''legacy_id'') (\<lambda>legacy_id.
          Inr (i, astrometry_id, legacy_id, job_key L i, False))))
      | Some (AttrN v) \<Rightarrow>
          and_then (ok_or (InvalidRecord ''id'') (parse_u64 v)) (\<lambda>legacy_id.
          and_then (ok_or (InvalidRecord ''object key'') (legacy_object_id L object_key)) (\<lambda>i.
          Inr (i, legacy_id, Some legacy_id, ''JOB#'' @ decimal (unat legacy_id), True)))
      | _ \<Rightarrow> Inl (InvalidRecord ''id''))"

definition stored_job_from_item :: "dyn_libs \<Rightarrow> Item \<Rightarrow> migrate_error + StoredJob" where
  "stored_job_from_item L it =
     and_then (reading (required_string it ''object_key'')) (\<lambda>object_key.
     and_then (item_identity L it object_key) (\<lambda>(i, astrometry_id, legacy_id, expected_pk, numeric).
     and_then (reading (required_string it ''pk'')) (\<lambda>pk.
     if pk \<noteq> expected_pk then Inl (InvalidRecord ''pk'')
     else
       and_then (reading (required_string it ''status'')) (\<lambda>status.
       and_then (reading (required_string it ''owner'')) (\<lambda>owner.
       and_then (and_then (reading (required_number it ''queue_weight''))
         (\<lambda>v. ok_or (InvalidRecord ''queue_weight'') (dl_f64_parse L v))) (\<lambda>queue_weight.
       and_then (reading (required_string it ''original_filename'')) (\<lambda>original_filename.
       and_then (reading (required_string it ''options_json'')) (\<lambda>options_json.
       and_then (reading (required_string it ''created_at'')) (\<lambda>created_at.
       and_then (required_u64 it ''attempts'') (\<lambda>attempts.
       Inr \<lparr>st_id = i, st_astrometry_id = astrometry_id, st_legacy_id = legacy_id, st_owner = owner,
            st_queue_weight = queue_weight, st_object_key = object_key, st_original_filename = original_filename,
            st_content_type = optional_string it ''content_type'', st_options_json = options_json, st_status = status,
            st_created_at = created_at, st_started_at = optional_string it ''started_at'',
            st_completed_at = optional_string it ''completed_at'', st_solution_json = optional_string it ''solution_json'',
            st_error = optional_string it ''error'', st_lease_token = optional_string it ''lease_token'',
            st_lease_expires_at = optional_string it ''lease_expires_at'', st_attempts = attempts,
            st_notification_delivered_at =
              (if numeric \<and> status = ''queued'' then None else optional_string it ''notification_delivered_at'')\<rparr>))))))))))"

definition stored_donation_from_item :: "Item \<Rightarrow> JobId \<Rightarrow> migrate_error + StoredDonation option" where
  "stored_donation_from_item it i =
     (case optional_string it ''validation_object_key'' of
        None \<Rightarrow>
          if list_ex (\<lambda>n. it n \<noteq> None) [''validation_object_key'', ''validation_comment'', ''validation_solve_is_invalid'',
               ''validation_license_version'', ''validation_donated_at'']
          then Inl (InvalidRecord ''validation contribution'') else Inr None
      | Some object_key \<Rightarrow>
          and_then (reading (required_string it ''validation_license_version'')) (\<lambda>license_version.
          and_then (reading (required_string it ''validation_donated_at'')) (\<lambda>donated_at.
          Inr (Some \<lparr>sd_job_id = i, sd_object_key = object_key, sd_comment = optional_string it ''validation_comment'',
                     sd_solve_is_invalid =
                       (case optional_bool it ''validation_solve_is_invalid'' of Some b \<Rightarrow> b | None \<Rightarrow> False),
                     sd_license_version = license_version, sd_donated_at = donated_at\<rparr>))))"

definition required_job_reference :: "dyn_libs \<Rightarrow> Item \<Rightarrow> string \<Rightarrow> migrate_error + JobReference" where
  "required_job_reference L it name =
     (case it name of
        Some (AttrS v) \<Rightarrow> map_sum id RefUuid (ok_or (InvalidRecord name) (dl_uuid_parse L v))
      | Some (AttrN v) \<Rightarrow> map_sum id RefLegacy (ok_or (InvalidRecord name) (parse_u64 v))
      | _ \<Rightarrow> Inl (InvalidRecord name))"

text \<open>What the scan has collected.\<close>

record DynAcc =
  da_jobs :: "StoredJob list"
  da_donations :: "StoredDonation list"
  da_clients :: "StoredClient list"
  da_objects :: "(string \<times> JobReference) list"
  da_astrometry :: "(u64 \<times> JobReference) list"
  da_legacy :: "(u64 \<times> JobReference) list"

definition take_index ::
  "dyn_libs \<Rightarrow> Item \<Rightarrow> string \<Rightarrow> string \<Rightarrow> (string \<Rightarrow> 'k option) \<Rightarrow> migrate_error + ('k \<times> JobReference)" where
  "take_index L it pk pre parse =
     and_then (ensure_only_attributes it [''pk'', ''entity'', ''job_id'']) (\<lambda>_.
     and_then (ok_or (InvalidRecord ''pk'') (Option.bind (strip_prefix pre pk) parse)) (\<lambda>k.
     and_then (required_job_reference L it ''job_id'') (\<lambda>ref. Inr (k, ref))))"

definition take_item :: "dyn_libs \<Rightarrow> Item \<Rightarrow> DynAcc \<Rightarrow> migrate_error + DynAcc" where
  "take_item L it acc =
     and_then (reading (required_string it ''pk'')) (\<lambda>pk.
       case optional_string it ''entity'' of
         None \<Rightarrow>
           if pk = ''COUNTER#jobs''
           then and_then (ensure_only_attributes it [''pk'', ''value'']) (\<lambda>_.
                and_then (required_u64 it ''value'') (\<lambda>_. Inr acc))
           else Inl (UnsupportedItem pk)
       | Some entity \<Rightarrow>
           if entity = ''job'' then
             and_then (ensure_only_attributes it job_attributes) (\<lambda>_.
             and_then (stored_job_from_item L it) (\<lambda>job.
             and_then (stored_donation_from_item it (st_id job)) (\<lambda>donation.
             Inr (acc\<lparr>da_jobs := da_jobs acc @ [job],
                      da_donations := da_donations acc @ (case donation of Some d \<Rightarrow> [d] | None \<Rightarrow> [])\<rparr>))))
           else if entity = ''client'' then
             and_then (ensure_only_attributes it [''pk'', ''entity'', ''last_served_at'']) (\<lambda>_.
             and_then (ok_or (InvalidRecord ''pk'') (strip_prefix ''CLIENT#'' pk)) (\<lambda>owner.
             and_then (reading (required_string it ''last_served_at'')) (\<lambda>served.
             Inr (acc\<lparr>da_clients := da_clients acc @ [\<lparr>sc_owner = owner, sc_last_served_at = served\<rparr>]\<rparr>))))
           else if entity = ''object_index'' then
             and_then (take_index L it pk ''OBJECT#'' Some) (\<lambda>x. Inr (acc\<lparr>da_objects := da_objects acc @ [x]\<rparr>))
           else if entity = ''astrometry_index'' then
             and_then (take_index L it pk ''ASTROMETRY#'' parse_u64) (\<lambda>x. Inr (acc\<lparr>da_astrometry := da_astrometry acc @ [x]\<rparr>))
           else if entity = ''legacy_index'' then
             and_then (take_index L it pk ''LEGACY#'' parse_u64) (\<lambda>x. Inr (acc\<lparr>da_legacy := da_legacy acc @ [x]\<rparr>))
           else Inl (UnsupportedItem pk))"

fun take_items :: "dyn_libs \<Rightarrow> Item list \<Rightarrow> DynAcc \<Rightarrow> migrate_error + DynAcc" where
  "take_items L [] acc = Inr acc"
| "take_items L (it # items) acc = and_then (take_item L it acc) (take_items L items)"

definition resolve_job_reference :: "StoredJob list \<Rightarrow> JobReference \<Rightarrow> migrate_error + uuid" where
  "resolve_job_reference jobs ref =
     (case ref of RefUuid i \<Rightarrow> Inr i
      | RefLegacy i \<Rightarrow> ok_or (MissingReference ''legacy job'') (legacy_to_uuid jobs i))"

fun check_index :: "(StoredJob \<Rightarrow> 'k) \<Rightarrow> StoredJob list \<Rightarrow> ('k \<times> JobReference) list \<Rightarrow> migrate_error + unit" where
  "check_index key jobs [] = Inr ()"
| "check_index key jobs ((k, ref) # entries) =
     and_then (resolve_job_reference jobs ref) (\<lambda>i.
     and_then (ok_or (MissingReference ''indexed job'') (last_with st_id jobs i)) (\<lambda>job.
     if key job \<noteq> k then Inl (InvalidRecord ''index'') else check_index key jobs entries))"

definition dyn_snapshot :: "dyn_libs \<Rightarrow> Item list \<Rightarrow> migrate_error + StoreSnapshot" where
  "dyn_snapshot L items =
     and_then (take_items L items \<lparr>da_jobs = [], da_donations = [], da_clients = [], da_objects = [], da_astrometry = [], da_legacy = []\<rparr>) (\<lambda>acc.
     and_then (check_index st_object_key (da_jobs acc) (da_objects acc)) (\<lambda>_.
     and_then (check_index st_astrometry_id (da_jobs acc) (da_astrometry acc)) (\<lambda>_.
     and_then (check_index st_legacy_id (da_jobs acc) (map (apfst Some) (da_legacy acc))) (\<lambda>_.
     Inr (new_snapshot (da_jobs acc) (da_donations acc) (da_clients acc))))))"

section \<open>Writing DynamoDB\<close>

definition with_optional :: "string \<Rightarrow> string option \<Rightarrow> Item \<Rightarrow> Item" where
  "with_optional name v it = (case v of Some t \<Rightarrow> it(name \<mapsto> AttrS t) | None \<Rightarrow> it)"

definition stored_job_item :: "dyn_libs \<Rightarrow> StoredJob \<Rightarrow> StoredDonation option \<Rightarrow> Item" where
  "stored_job_item L job donation =
     (let it = [''pk'' \<mapsto> AttrS (job_key L (st_id job)), ''entity'' \<mapsto> AttrS ''job'',
                ''id'' \<mapsto> AttrS (dl_uuid_str L (st_id job)), ''astrometry_id'' \<mapsto> AttrN (decimal (unat (st_astrometry_id job))),
                ''owner'' \<mapsto> AttrS (st_owner job), ''queue_weight'' \<mapsto> AttrN (dl_f64_str L (st_queue_weight job)),
                ''object_key'' \<mapsto> AttrS (st_object_key job), ''original_filename'' \<mapsto> AttrS (st_original_filename job),
                ''options_json'' \<mapsto> AttrS (st_options_json job), ''status'' \<mapsto> AttrS (st_status job),
                ''created_at'' \<mapsto> AttrS (st_created_at job), ''attempts'' \<mapsto> AttrN (decimal (unat (st_attempts job)))];
          it1 = (case st_legacy_id job of Some i \<Rightarrow> it(''legacy_id'' \<mapsto> AttrN (decimal (unat i))) | None \<Rightarrow> it);
          it2 = fold (\<lambda>(name, v). with_optional name v)
            [(''content_type'', st_content_type job), (''started_at'', st_started_at job), (''completed_at'', st_completed_at job),
             (''solution_json'', st_solution_json job), (''error'', st_error job), (''lease_token'', st_lease_token job),
             (''lease_expires_at'', st_lease_expires_at job),
             (''notification_delivered_at'', st_notification_delivered_at job)] it1 in
      case donation of
        None \<Rightarrow> it2
      | Some d \<Rightarrow>
          it2(''validation_object_key'' \<mapsto> AttrS (sd_object_key d), ''validation_license_version'' \<mapsto> AttrS (sd_license_version d),
              ''validation_donated_at'' \<mapsto> AttrS (sd_donated_at d), ''validation_solve_is_invalid'' \<mapsto> AttrBool (sd_solve_is_invalid d),
              ''validation_comment'' \<mapsto> (case sd_comment d of Some c \<Rightarrow> AttrS c | None \<Rightarrow> AttrNull)))"

definition stored_job_puts :: "dyn_libs \<Rightarrow> StoreSnapshot \<Rightarrow> StoredJob \<Rightarrow> (string \<times> Item) list" where
  "stored_job_puts L s job =
     (let objects = object_index_key (st_object_key job); astrometry = astrometry_index_key (st_astrometry_id job) in
      [(job_key L (st_id job), stored_job_item L job (last_with sd_job_id (ss_donations s) (st_id job))),
       (objects, index_item L objects ''object_index'' (st_id job)),
       (astrometry, index_item L astrometry ''astrometry_index'' (st_id job))]
      @ (case st_legacy_id job of
           Some i \<Rightarrow> [(legacy_index_key i, index_item L (legacy_index_key i) ''legacy_index'' (st_id job))]
         | None \<Rightarrow> []))"

text \<open>The puts of a transaction happen together; \<open>require_empty\<close> is the condition on each key.\<close>

fun put_all :: "(string \<times> Item) list \<Rightarrow> DynDb \<Rightarrow> DynDb" where
  "put_all [] db = db"
| "put_all ((k, it) # puts) db = put_all puts (db(k \<mapsto> it))"

definition transact_puts :: "bool \<Rightarrow> (string \<times> Item) list \<Rightarrow> DynDb \<Rightarrow> migrate_error + DynDb" where
  "transact_puts require_empty puts db =
     (if require_empty \<and> list_ex (\<lambda>(k, _). db k \<noteq> None) puts then Inl (ConflictingRow ''pk'') else Inr (put_all puts db))"

text \<open>One transaction per job and one put per client: an error keeps what was written before it.\<close>

fun dyn_put_each :: "bool \<Rightarrow> (string \<times> Item) list list \<Rightarrow> DynDb \<Rightarrow> (migrate_error + unit) \<times> DynDb" where
  "dyn_put_each require_empty [] db = (Inr (), db)"
| "dyn_put_each require_empty (puts # rest) db =
     (case transact_puts require_empty puts db of Inl e \<Rightarrow> (Inl e, db) | Inr db1 \<Rightarrow> dyn_put_each require_empty rest db1)"

definition client_puts :: "StoredClient \<Rightarrow> (string \<times> Item) list" where
  "client_puts c =
     [(client_key (sc_owner c),
       [''pk'' \<mapsto> AttrS (client_key (sc_owner c)), ''entity'' \<mapsto> AttrS ''client'', ''last_served_at'' \<mapsto> AttrS (sc_last_served_at c)])]"

definition dyn_import :: "dyn_libs \<Rightarrow> StoreSnapshot \<Rightarrow> bool \<Rightarrow> DynDb \<Rightarrow> (migrate_error + unit) \<times> DynDb" where
  "dyn_import L s resume db =
     dyn_put_each (\<not> resume) (map (stored_job_puts L s) (ss_jobs s) @ map client_puts (ss_clients s)) db"

section \<open>The migration\<close>

definition read_store ::
  "migrate_libs \<Rightarrow> (DynDb \<Rightarrow> Item list) \<Rightarrow> StoreBackend \<Rightarrow> SqlStore \<Rightarrow> DynDb \<Rightarrow> migrate_error + StoreSnapshot" where
  "read_store M items_of backend sql dyn =
     (case backend of BackendSqlx \<Rightarrow> sql_snapshot M sql | BackendDynamoDb \<Rightarrow> dyn_snapshot (ml_dyn M) (items_of dyn))"

definition import_store ::
  "migrate_libs \<Rightarrow> StoreSnapshot \<Rightarrow> bool \<Rightarrow> StoreBackend \<Rightarrow> SqlStore \<Rightarrow> DynDb \<Rightarrow> (migrate_error + unit) \<times> SqlStore \<times> DynDb" where
  "import_store M s resume backend sql dyn =
     (case backend of
        BackendSqlx \<Rightarrow> (case sql_import M s sql of (r, sql1) \<Rightarrow> (r, sql1, dyn))
      | BackendDynamoDb \<Rightarrow> (case dyn_import (ml_dyn M) s resume dyn of (r, dyn1) \<Rightarrow> (r, sql, dyn1)))"

text \<open>The source and the checks before anything is copied.\<close>

definition checked_source ::
  "migrate_libs \<Rightarrow> MigrationArgs \<Rightarrow> (DynDb \<Rightarrow> Item list) \<Rightarrow> SqlStore \<Rightarrow> DynDb \<Rightarrow> migrate_error + StoreSnapshot" where
  "checked_source M args items_of sql dyn =
     and_then (read_store M items_of (ma_from args) sql dyn) (\<lambda>source.
     and_then (validate_snapshot M source) (\<lambda>_.
     and_then (read_store M items_of (ma_to args) sql dyn) (\<lambda>target.
     and_then (validate_snapshot M target) (\<lambda>_.
     and_then (if ma_resume args then ensure_subset_of target source
               else ensure (snapshot_is_empty target) DestinationNotEmpty) (\<lambda>_.
     Inr source)))))"

text \<open>\<open>items_of\<close> lists the items of a table, \<open>items_after\<close> those of the table when it is read again.\<close>

definition migrate_store ::
  "migrate_libs \<Rightarrow> MigrationArgs \<Rightarrow> (int \<Rightarrow> uuid) \<Rightarrow> (DynDb \<Rightarrow> Item list) \<Rightarrow> (DynDb \<Rightarrow> Item list) \<Rightarrow> SqlStore \<Rightarrow> DynDb
    \<Rightarrow> (migrate_error + unit) \<times> SqlStore \<times> DynDb" where
  "migrate_store M args fresh items_of items_after sql0 dyn =
     (case (if ma_to args = BackendSqlx then sql_initialize M fresh sql0 else (Inr (), sql0)) of
        (Inl e, sql) \<Rightarrow> (Inl e, sql, dyn)
      | (Inr _, sql) \<Rightarrow>
      case checked_source M args items_of sql dyn of
        Inl e \<Rightarrow> (Inl e, sql, dyn)
      | Inr source \<Rightarrow>
      if ma_dry_run args then (Inr (), sql, dyn)
      else case import_store M source (ma_resume args) (ma_to args) sql dyn of
        (Inl e, sql1, dyn1) \<Rightarrow> (Inl e, sql1, dyn1)
      | (Inr _, sql1, dyn1) \<Rightarrow>
          (and_then (read_store M items_after (ma_to args) sql1 dyn1) (\<lambda>verified.
           and_then (validate_snapshot M verified) (\<lambda>_. ensure (verified = source) VerificationFailed)), sql1, dyn1))"

end
