(* ===== verification/Migration_Dynamo.thy ===== *)
theory Migration_Dynamo
  imports Store_Migration Dynamo_Properties "HOL-Library.Multiset"
begin

text \<open>
  What \<open>seiza-server migrate-store\<close> writes to a DynamoDB table, and what it reads back.  The writes of an
  import are described by a list of entries with distinct keys, a scan of the table by a permutation of
  them, and a snapshot does not depend on the order.
\<close>

section \<open>Valid snapshots\<close>

lemma validate_jobs_distinct:
  "validate_jobs M ids as ls ks jobs = Inr u \<Longrightarrow>
     distinct (map st_id jobs) \<and> (\<forall>job \<in> set jobs. st_id job \<notin> set ids)
     \<and> distinct (map st_astrometry_id jobs) \<and> (\<forall>job \<in> set jobs. st_astrometry_id job \<notin> set as)
     \<and> distinct (map st_object_key jobs) \<and> (\<forall>job \<in> set jobs. st_object_key job \<notin> set ks)"
proof (induction jobs arbitrary: ids as ls ks)
  case (Cons job jobs)
  then have "validate_jobs M (st_id job # ids) (st_astrometry_id job # as) (legacy_ids_of job @ ls) (st_object_key job # ks) jobs = Inr u"
    and "st_id job \<notin> set ids" "st_astrometry_id job \<notin> set as" "st_object_key job \<notin> set ks"
    by (auto simp: validate_identifiers_def)
  with Cons.IH [OF this(1)] show ?case by auto
qed simp

lemma validate_jobs_legacy:
  "validate_jobs M ids as ls ks jobs = Inr u \<Longrightarrow>
     distinct (concat (map legacy_ids_of jobs)) \<and> (\<forall>job \<in> set jobs. \<forall>i. st_legacy_id job = Some i \<longrightarrow> i \<notin> set ls)"
proof (induction jobs arbitrary: ids as ls ks)
  case (Cons job jobs)
  then have rest: "validate_jobs M (st_id job # ids) (st_astrometry_id job # as) (legacy_ids_of job @ ls) (st_object_key job # ks) jobs = Inr u"
    and new: "is_none_or (\<lambda>i. i \<notin> set ls) (st_legacy_id job)"
    by (auto simp: validate_identifiers_def)
  show ?case
  proof (cases "st_legacy_id job")
    case None
    with Cons.IH [OF rest] show ?thesis by (simp add: legacy_ids_of_def)
  next
    case (Some i)
    then have ids: "legacy_ids_of job = [i]" by (simp add: legacy_ids_of_def)
    note ih = Cons.IH [OF rest, unfolded ids]
    from ih have "i \<notin> set (legacy_ids_of j)" if "j \<in> set jobs" for j
      using that by (cases "st_legacy_id j") (auto simp: legacy_ids_of_def)
    with ih ids Some new show ?thesis by auto
  qed
qed simp

lemma validate_jobs_each:
  "validate_jobs M ids as ls ks jobs = Inr u \<Longrightarrow> job \<in> set jobs \<Longrightarrow>
     uint (st_astrometry_id job) \<le> i64_max \<and> is_none_or (\<lambda>i. uint i \<le> i64_max) (st_legacy_id job)
     \<and> uint (st_attempts job) \<le> i64_max"
proof (induction jobs arbitrary: ids as ls ks)
  case (Cons j jobs)
  then have rest: "validate_jobs M (st_id j # ids) (st_astrometry_id j # as) (legacy_ids_of j @ ls) (st_object_key j # ks) jobs = Inr u"
    and "validate_identifiers ids as ls ks j = Inr ()" "validate_fields M j = Inr ()" by auto
  then have "uint (st_astrometry_id j) \<le> i64_max \<and> is_none_or (\<lambda>i. uint i \<le> i64_max) (st_legacy_id j)
     \<and> uint (st_attempts j) \<le> i64_max"
    by (simp add: validate_identifiers_def validate_fields_def)
  with Cons.IH [OF rest] Cons.prems(2) show ?case by auto
qed simp

lemma validate_donations_distinct:
  "validate_donations M ids donated keys ds = Inr u \<Longrightarrow>
     distinct (map sd_job_id ds) \<and> distinct (map sd_object_key ds)
     \<and> (\<forall>d \<in> set ds. sd_job_id d \<in> set ids \<and> sd_job_id d \<notin> set donated \<and> sd_object_key d \<notin> set keys)"
proof (induction ds arbitrary: donated keys)
  case (Cons d ds)
  then have "validate_donations M ids (sd_job_id d # donated) (sd_object_key d # keys) ds = Inr u"
    and "sd_job_id d \<in> set ids" "sd_job_id d \<notin> set donated" "sd_object_key d \<notin> set keys"
    by (auto split: if_splits)
  with Cons.IH [OF this(1)] show ?case by auto
qed simp

lemma validate_clients_distinct:
  "validate_clients M owners cs = Inr u \<Longrightarrow>
     distinct (map sc_owner cs) \<and> (\<forall>c \<in> set cs. sc_owner c \<notin> set owners)"
proof (induction cs arbitrary: owners)
  case (Cons c cs)
  then have "validate_clients M (sc_owner c # owners) cs = Inr u" "sc_owner c \<notin> set owners"
    by (auto split: if_splits)
  with Cons.IH [OF this(1)] show ?case by auto
qed simp

lemma valid_snapshotD:
  assumes "validate_snapshot M s = Inr u"
  shows "distinct (map st_id (ss_jobs s))" "distinct (map st_astrometry_id (ss_jobs s))"
    "distinct (map st_object_key (ss_jobs s))" "distinct (concat (map legacy_ids_of (ss_jobs s)))"
    "distinct (map sd_job_id (ss_donations s))" "distinct (map sd_object_key (ss_donations s))"
    "distinct (map sc_owner (ss_clients s))" "set (map sd_job_id (ss_donations s)) \<subseteq> set (map st_id (ss_jobs s))"
    "job \<in> set (ss_jobs s) \<Longrightarrow> uint (st_astrometry_id job) \<le> i64_max"
    "job \<in> set (ss_jobs s) \<Longrightarrow> is_none_or (\<lambda>i. uint i \<le> i64_max) (st_legacy_id job)"
    "job \<in> set (ss_jobs s) \<Longrightarrow> uint (st_attempts job) \<le> i64_max"
proof -
  from assms have jobs: "validate_jobs M [] [] [] [] (ss_jobs s) = Inr ()"
    and donations: "validate_donations M (map st_id (ss_jobs s)) [] [] (ss_donations s) = Inr ()"
    and clients: "validate_clients M [] (ss_clients s) = Inr u"
    by (auto simp: validate_snapshot_def)
  note j = validate_jobs_distinct [OF jobs] validate_jobs_legacy [OF jobs]
  show "distinct (map st_id (ss_jobs s))" "distinct (map st_astrometry_id (ss_jobs s))"
    "distinct (map st_object_key (ss_jobs s))" "distinct (concat (map legacy_ids_of (ss_jobs s)))" using j by simp_all
  show "distinct (map sd_job_id (ss_donations s))" "distinct (map sd_object_key (ss_donations s))"
    "set (map sd_job_id (ss_donations s)) \<subseteq> set (map st_id (ss_jobs s))"
    using validate_donations_distinct [OF donations] by auto
  show "distinct (map sc_owner (ss_clients s))" using validate_clients_distinct [OF clients] by simp
  show "job \<in> set (ss_jobs s) \<Longrightarrow> uint (st_astrometry_id job) \<le> i64_max"
    "job \<in> set (ss_jobs s) \<Longrightarrow> is_none_or (\<lambda>i. uint i \<le> i64_max) (st_legacy_id job)"
    "job \<in> set (ss_jobs s) \<Longrightarrow> uint (st_attempts job) \<le> i64_max"
    using validate_jobs_each [OF jobs] by simp_all
qed

text \<open>A snapshot in the order of its keys, as every reader returns it.\<close>

definition arranged :: "StoreSnapshot \<Rightarrow> bool" where
  "arranged s = (new_snapshot (ss_jobs s) (ss_donations s) (ss_clients s) = s)"

lemma arranged_new_snapshot [simp]: "arranged (new_snapshot jobs donations clients)"
  by (simp add: arranged_def new_snapshot_def sort_key_id_if_sorted)

lemma sort_key_same:
  assumes "mset xs = mset ys" "distinct (map k ys)" "sort_key k ys = ys"
  shows "sort_key k xs = ys"
proof -
  have "inj_on k (set xs)" using assms(1,2) by (metis distinct_map mset_eq_setD)
  moreover have "sorted (map k ys)" using assms(3) sorted_sort_key [of k ys] by simp
  ultimately show ?thesis by (rule sort_key_inj_key_eq [OF assms(1)])
qed

lemma arranged_same:
  assumes "arranged s" "validate_snapshot M s = Inr u" "mset jobs = mset (ss_jobs s)"
    "mset donations = mset (ss_donations s)" "mset clients = mset (ss_clients s)"
  shows "new_snapshot jobs donations clients = s"
proof -
  from assms(1) have "sort_key st_id (ss_jobs s) = ss_jobs s" "sort_key sd_job_id (ss_donations s) = ss_donations s"
    "sort_key sc_owner (ss_clients s) = ss_clients s"
    unfolding arranged_def new_snapshot_def by (cases s; simp)+
  with assms(3-5) valid_snapshotD [OF assms(2)] have
    "sort_key st_id jobs = ss_jobs s" "sort_key sd_job_id donations = ss_donations s" "sort_key sc_owner clients = ss_clients s"
    by (auto intro!: sort_key_same)
  then show ?thesis by (cases s) (simp add: new_snapshot_def)
qed

lemma last_with_eq:
  assumes "distinct (map key xs)"
  shows "last_with key xs k = Some x \<longleftrightarrow> x \<in> set xs \<and> key x = k"
proof -
  have "distinct (map fst (rev (map (\<lambda>x. (key x, x)) xs)))" using assms by (simp add: rev_map [symmetric] comp_def)
  from map_of_eq_Some_iff [OF this] show ?thesis unfolding last_with_def by auto
qed

section \<open>The entries of a table\<close>

datatype entry = JobEntry StoredJob "StoredDonation option" | ObjectEntry string uuid
  | AstrometryEntry u64 uuid | LegacyEntry u64 uuid | ClientEntry StoredClient

fun entry_key :: "dyn_libs \<Rightarrow> entry \<Rightarrow> string" where
  "entry_key L (JobEntry job d) = job_key L (st_id job)"
| "entry_key L (ObjectEntry k i) = object_index_key k"
| "entry_key L (AstrometryEntry a i) = astrometry_index_key a"
| "entry_key L (LegacyEntry a i) = legacy_index_key a"
| "entry_key L (ClientEntry c) = client_key (sc_owner c)"

fun entry_item :: "dyn_libs \<Rightarrow> entry \<Rightarrow> Item" where
  "entry_item L (JobEntry job d) = stored_job_item L job d"
| "entry_item L (ObjectEntry k i) = index_item L (object_index_key k) ''object_index'' i"
| "entry_item L (AstrometryEntry a i) = index_item L (astrometry_index_key a) ''astrometry_index'' i"
| "entry_item L (LegacyEntry a i) = index_item L (legacy_index_key a) ''legacy_index'' i"
| "entry_item L (ClientEntry c) = snd (hd (client_puts c))"

definition job_entries :: "StoreSnapshot \<Rightarrow> StoredJob \<Rightarrow> entry list" where
  "job_entries s job =
     [JobEntry job (last_with sd_job_id (ss_donations s) (st_id job)), ObjectEntry (st_object_key job) (st_id job),
      AstrometryEntry (st_astrometry_id job) (st_id job)] @ map (\<lambda>i. LegacyEntry i (st_id job)) (legacy_ids_of job)"

definition snapshot_entries :: "StoreSnapshot \<Rightarrow> entry list" where
  "snapshot_entries s = concat (map (job_entries s) (ss_jobs s)) @ map ClientEntry (ss_clients s)"

definition entry_puts :: "dyn_libs \<Rightarrow> entry list \<Rightarrow> (string \<times> Item) list" where
  "entry_puts L es = map (\<lambda>e. (entry_key L e, entry_item L e)) es"

lemma stored_job_puts_entries: "stored_job_puts L s job = entry_puts L (job_entries s job)"
  by (cases "st_legacy_id job") (simp_all add: stored_job_puts_def job_entries_def entry_puts_def legacy_ids_of_def Let_def)

lemma client_puts_entries: "client_puts c = entry_puts L [ClientEntry c]"
  by (simp add: client_puts_def entry_puts_def)

lemma snapshot_puts:
  "concat (map (stored_job_puts L s) (ss_jobs s) @ map client_puts (ss_clients s)) = entry_puts L (snapshot_entries s)"
proof -
  have "concat (map (\<lambda>job. entry_puts L (job_entries s job)) jobs) = entry_puts L (concat (map (job_entries s) jobs))" for jobs
    by (induction jobs) (simp_all add: entry_puts_def)
  moreover have "concat (map client_puts cs) = entry_puts L (map ClientEntry cs)" for cs
    by (induction cs) (simp_all add: client_puts_entries [of _ L], simp_all add: entry_puts_def)
  ultimately show ?thesis
    by (simp add: snapshot_entries_def stored_job_puts_entries [abs_def] entry_puts_def)
qed

lemma in_snapshot_entries:
  "JobEntry job d \<in> set (snapshot_entries s) \<longleftrightarrow> job \<in> set (ss_jobs s) \<and> d = last_with sd_job_id (ss_donations s) (st_id job)"
  "ObjectEntry k i \<in> set (snapshot_entries s) \<longleftrightarrow> (\<exists>job \<in> set (ss_jobs s). k = st_object_key job \<and> i = st_id job)"
  "AstrometryEntry a i \<in> set (snapshot_entries s) \<longleftrightarrow> (\<exists>job \<in> set (ss_jobs s). a = st_astrometry_id job \<and> i = st_id job)"
  "LegacyEntry a i \<in> set (snapshot_entries s) \<longleftrightarrow> (\<exists>job \<in> set (ss_jobs s). a \<in> set (legacy_ids_of job) \<and> i = st_id job)"
  "ClientEntry c \<in> set (snapshot_entries s) \<longleftrightarrow> c \<in> set (ss_clients s)"
  by (auto simp: snapshot_entries_def job_entries_def)

lemma concat_disjoint:
  "distinct (concat (map f xs)) \<Longrightarrow> x \<in> set xs \<Longrightarrow> y \<in> set xs \<Longrightarrow> a \<in> set (f x) \<Longrightarrow> a \<in> set (f y) \<Longrightarrow> x = y"
  by (induction xs) auto

lemma index_key_eq:
  "astrometry_index_key a = astrometry_index_key b \<longleftrightarrow> a = b" "legacy_index_key a = legacy_index_key b \<longleftrightarrow> a = b"
  "object_index_key k = object_index_key k' \<longleftrightarrow> k = k'" "client_key w = client_key w' \<longleftrightarrow> w = w'"
proof -
  have "a = b" if "decimal (unat a) = decimal (unat b)" for a b :: u64 using that by (metis parse_u64_decimal option.inject)
  then show "astrometry_index_key a = astrometry_index_key b \<longleftrightarrow> a = b" "legacy_index_key a = legacy_index_key b \<longleftrightarrow> a = b"
    by (auto simp: astrometry_index_key_def legacy_index_key_def)
qed (simp_all add: object_index_key_def client_key_def)

lemma index_kinds [simp]:
  "object_index_key k \<noteq> astrometry_index_key a" "object_index_key k \<noteq> legacy_index_key b" "object_index_key k \<noteq> client_key w"
  "astrometry_index_key a \<noteq> object_index_key k" "legacy_index_key b \<noteq> object_index_key k" "client_key w \<noteq> object_index_key k"
  "astrometry_index_key a \<noteq> legacy_index_key b" "astrometry_index_key a \<noteq> client_key w" "legacy_index_key b \<noteq> client_key w"
  "legacy_index_key b \<noteq> astrometry_index_key a" "client_key w \<noteq> astrometry_index_key a" "client_key w \<noteq> legacy_index_key b"
  "job_key L i \<noteq> legacy_index_key b" "legacy_index_key b \<noteq> job_key L i"
  by (simp_all add: job_key_def object_index_key_def astrometry_index_key_def legacy_index_key_def client_key_def)

text \<open>Two entries of a snapshot with the same key are the same.\<close>

lemma entry_key_inj:
  assumes "dyn_libs_ok L" "validate_snapshot M s = Inr u"
  shows "inj_on (entry_key L) (set (snapshot_entries s))"
proof (rule inj_onI)
  note d = valid_snapshotD [OF assms(2)]
  note same = distinct_map_same [OF d(1)] distinct_map_same [OF d(2)] distinct_map_same [OF d(3)]
    distinct_map_same [OF d(7)] concat_disjoint [OF d(4)]
  fix x y
  assume "x \<in> set (snapshot_entries s)" "y \<in> set (snapshot_entries s)" "entry_key L x = entry_key L y"
  then show "x = y"
    by (cases x rule: entry.exhaust; cases y rule: entry.exhaust) (auto simp: in_snapshot_entries index_key_eq job_key_eq [OF assms(1)] dest: same)
qed

lemma distinct_snapshot_entries:
  assumes "validate_snapshot M s = Inr u"
  shows "distinct (snapshot_entries s)"
proof -
  note d = valid_snapshotD [OF assms]
  have "distinct (concat (map (job_entries s) jobs))" if "distinct (map st_id jobs)" for jobs
    using that
  proof (induction jobs)
    case (Cons job jobs)
    have "set (job_entries s job) \<inter> set (concat (map (job_entries s) jobs)) = {}"
      using Cons.prems by (auto simp: job_entries_def)
    with Cons show ?case by (auto simp: job_entries_def legacy_ids_of_def split: option.splits)
  qed simp
  with d(1) have "distinct (concat (map (job_entries s) (ss_jobs s)))" by blast
  moreover have "distinct (ss_clients s)" using d(7) by (simp add: distinct_map)
  ultimately show ?thesis by (auto simp: snapshot_entries_def distinct_map inj_on_def job_entries_def)
qed

lemma distinct_entry_keys:
  assumes "dyn_libs_ok L" "validate_snapshot M s = Inr u"
  shows "distinct (map fst (entry_puts L (snapshot_entries s)))"
  using entry_key_inj [OF assms] distinct_snapshot_entries [OF assms(2)]
  by (simp add: entry_puts_def distinct_map comp_def)

section \<open>What an import writes\<close>

lemma put_all_eq: "distinct (map fst puts) \<Longrightarrow> put_all puts db = db ++ map_of puts"
proof (induction puts db rule: put_all.induct)
  case (2 k it puts db)
  then have "k \<notin> dom (map_of puts)" by (simp add: dom_map_of_conv_image_fst)
  then have "db(k \<mapsto> it) ++ map_of puts = (db ++ map_of puts)(k \<mapsto> it)" by (rule map_add_upd_left)
  moreover have "\<dots> = db ++ map_of ((k, it) # puts)" by (simp only: map_of.simps map_add_upd fst_conv snd_conv)
  moreover have "put_all puts (db(k \<mapsto> it)) = db(k \<mapsto> it) ++ map_of puts" using 2 by (intro "2.IH") simp
  ultimately show ?case by (simp only: put_all.simps)
qed simp

lemma dyn_put_each_eq:
  assumes "distinct (map fst (concat batches))" "require_empty \<Longrightarrow> dom db \<inter> fst ` set (concat batches) = {}"
  shows "dyn_put_each require_empty batches db = (Inr (), db ++ map_of (concat batches))"
  using assms
proof (induction batches arbitrary: db)
  case (Cons puts batches)
  have free: "\<not> (require_empty \<and> list_ex (\<lambda>(k, _). db k \<noteq> None) puts)"
  proof
    assume r: "require_empty \<and> list_ex (\<lambda>(k, _). db k \<noteq> None) puts"
    then obtain k it where "(k, it) \<in> set puts" "k \<in> dom db" by (auto simp: list_ex_iff)
    then have "k \<in> dom db \<inter> fst ` set (concat (puts # batches))" by force
    with Cons.prems(2) r show False by blast
  qed
  have apart: "dom (map_of puts) \<inter> fst ` set (concat batches) = {}"
    using Cons.prems(1) by (simp only: concat.simps map_append distinct_append set_map dom_map_of_conv_image_fst)
  have "dom (db ++ map_of puts) \<inter> fst ` set (concat batches) = {}" if "require_empty"
    using Cons.prems(2) [OF that] apart by (simp only: dom_map_add concat.simps set_append image_Un) blast
  with Cons.IH [of "db ++ map_of puts"] Cons.prems(1)
  have "dyn_put_each require_empty batches (db ++ map_of puts) = (Inr (), (db ++ map_of puts) ++ map_of (concat batches))" by simp
  moreover have "(db ++ map_of puts) ++ map_of (concat batches) = db ++ map_of (puts @ concat batches)"
  proof -
    have "map_of puts ++ map_of (concat batches) = map_of (concat batches) ++ map_of puts"
      using apart by (intro map_add_comm) (simp only: dom_map_of_conv_image_fst)
    then show ?thesis by (metis map_add_assoc map_of_append)
  qed
  ultimately show ?case
    using free Cons.prems(1) by (auto simp: transact_puts_def put_all_eq)
qed simp

definition table_of :: "dyn_libs \<Rightarrow> StoreSnapshot \<Rightarrow> DynDb" where
  "table_of L s = map_of (entry_puts L (snapshot_entries s))"

lemma dyn_import_eq:
  assumes "dyn_libs_ok L" "validate_snapshot M s = Inr u" "\<not> resume \<Longrightarrow> dom db \<inter> dom (table_of L s) = {}"
  shows "dyn_import L s resume db = (Inr (), db ++ table_of L s)"
  unfolding dyn_import_def table_of_def
  using dyn_put_each_eq [of "map (stored_job_puts L s) (ss_jobs s) @ map client_puts (ss_clients s)" "\<not> resume" db,
      unfolded snapshot_puts [of L], OF distinct_entry_keys [OF assms(1,2)]] assms(3)
  by (simp add: table_of_def dom_map_of_conv_image_fst)

section \<open>What a scan reads\<close>

lemma with_optional_simps:
  "m \<noteq> n \<Longrightarrow> with_optional n v it m = it m"
  "m \<noteq> n \<Longrightarrow> optional_string (with_optional n v it) m = optional_string it m"
  "optional_string (with_optional n v it) n = (case v of Some t \<Rightarrow> Some t | None \<Rightarrow> optional_string it n)"
  by (simp_all add: with_optional_def optional_string_def split: option.splits)

lemma dom_with_optional: "n \<in> S \<Longrightarrow> dom it \<subseteq> S \<Longrightarrow> dom (with_optional n v it) \<subseteq> S"
  by (auto simp: with_optional_def split: option.splits)

lemma dom_put: "n \<in> S \<Longrightarrow> dom it \<subseteq> S \<Longrightarrow> dom (it(n \<mapsto> x)) \<subseteq> S"
  by auto

lemma stored_job_item_dom: "dom (stored_job_item L job d) \<subseteq> set job_attributes"
  by (cases "st_legacy_id job"; cases d)
    (simp_all only: stored_job_item_def Let_def option.case fold.simps comp_apply id_apply case_prod_conv,
     (intro dom_put dom_with_optional; simp add: job_attributes_def)+)

lemma stored_job_item_required:
  "stored_job_item L job d ''pk'' = Some (AttrS (job_key L (st_id job)))"
  "stored_job_item L job d ''entity'' = Some (AttrS ''job'')"
  "stored_job_item L job d ''id'' = Some (AttrS (dl_uuid_str L (st_id job)))"
  "stored_job_item L job d ''astrometry_id'' = Some (AttrN (decimal (unat (st_astrometry_id job))))"
  "stored_job_item L job d ''legacy_id'' = map_option (\<lambda>i. AttrN (decimal (unat i))) (st_legacy_id job)"
  "stored_job_item L job d ''owner'' = Some (AttrS (st_owner job))"
  "stored_job_item L job d ''queue_weight'' = Some (AttrN (dl_f64_str L (st_queue_weight job)))"
  "stored_job_item L job d ''object_key'' = Some (AttrS (st_object_key job))"
  "stored_job_item L job d ''original_filename'' = Some (AttrS (st_original_filename job))"
  "stored_job_item L job d ''options_json'' = Some (AttrS (st_options_json job))"
  "stored_job_item L job d ''status'' = Some (AttrS (st_status job))"
  "stored_job_item L job d ''created_at'' = Some (AttrS (st_created_at job))"
  "stored_job_item L job d ''attempts'' = Some (AttrN (decimal (unat (st_attempts job))))"
  by (cases "st_legacy_id job"; cases d; simp add: stored_job_item_def with_optional_simps)+

lemma optional_string_put:
  "optional_string (it(n \<mapsto> x)) m = (if m = n then optional_string [n \<mapsto> x] m else optional_string it m)"
  by (simp add: optional_string_def)

lemma stored_job_item_optional:
  "optional_string (stored_job_item L job d) ''content_type'' = st_content_type job"
  "optional_string (stored_job_item L job d) ''started_at'' = st_started_at job"
  "optional_string (stored_job_item L job d) ''completed_at'' = st_completed_at job"
  "optional_string (stored_job_item L job d) ''solution_json'' = st_solution_json job"
  "optional_string (stored_job_item L job d) ''error'' = st_error job"
  "optional_string (stored_job_item L job d) ''lease_token'' = st_lease_token job"
  "optional_string (stored_job_item L job d) ''lease_expires_at'' = st_lease_expires_at job"
  "optional_string (stored_job_item L job d) ''notification_delivered_at'' = st_notification_delivered_at job"
  by (cases "st_legacy_id job"; cases d;
      simp add: stored_job_item_def with_optional_simps optional_string_put;
      simp add: optional_string_def split: option.splits)+

lemma stored_job_item_donation:
  "stored_job_item L job None ''validation_object_key'' = None" "stored_job_item L job None ''validation_comment'' = None"
  "stored_job_item L job None ''validation_solve_is_invalid'' = None"
  "stored_job_item L job None ''validation_license_version'' = None"
  "stored_job_item L job None ''validation_donated_at'' = None"
  "stored_job_item L job (Some d) ''validation_object_key'' = Some (AttrS (sd_object_key d))"
  "stored_job_item L job (Some d) ''validation_license_version'' = Some (AttrS (sd_license_version d))"
  "stored_job_item L job (Some d) ''validation_donated_at'' = Some (AttrS (sd_donated_at d))"
  "stored_job_item L job (Some d) ''validation_solve_is_invalid'' = Some (AttrBool (sd_solve_is_invalid d))"
  "stored_job_item L job (Some d) ''validation_comment'' = Some (case sd_comment d of Some c \<Rightarrow> AttrS c | None \<Rightarrow> AttrNull)"
  by (cases "st_legacy_id job"; simp add: stored_job_item_def with_optional_simps)+

lemmas reading_simps = reading_def required_string_def required_number_def optional_string_def [of "stored_job_item _ _ _"]
  and_then_def ok_or_def

lemma stored_job_round_trip:
  assumes "dl_uuid_parse L (dl_uuid_str L (st_id job)) = Some (st_id job)"
    "dl_f64_parse L (dl_f64_str L (st_queue_weight job)) = Some (st_queue_weight job)"
  shows "stored_job_from_item L (stored_job_item L job d) = Inr job"
proof -
  let ?it = "stored_job_item L job d"
  have identity: "item_identity L ?it k = Inr (st_id job, st_astrometry_id job, st_legacy_id job, job_key L (st_id job), False)" for k
    using assms(1) by (cases "st_legacy_id job")
      (simp_all add: item_identity_def required_u64_def optional_u64_def traverse_def reading_simps stored_job_item_required)
  show ?thesis
    unfolding stored_job_from_item_def stored_job_item_optional
    by (simp add: identity required_u64_def reading_simps stored_job_item_required assms(2))
qed

lemma stored_donation_round_trip:
  assumes "\<And>x. d = Some x \<Longrightarrow> sd_job_id x = st_id job"
  shows "stored_donation_from_item (stored_job_item L job d) (st_id job) = Inr d"
proof (cases d)
  case None
  then show ?thesis by (simp add: stored_donation_from_item_def reading_simps stored_job_item_donation)
next
  case (Some x)
  with assms have "sd_job_id x = st_id job" by simp
  with Some show ?thesis
    by (cases x) (simp add: stored_donation_from_item_def reading_simps optional_bool_def stored_job_item_donation split: option.splits)
qed

fun add_entry :: "entry \<Rightarrow> DynAcc \<Rightarrow> DynAcc" where
  "add_entry (JobEntry job d) acc =
     acc\<lparr>da_jobs := da_jobs acc @ [job], da_donations := da_donations acc @ (case d of Some x \<Rightarrow> [x] | None \<Rightarrow> [])\<rparr>"
| "add_entry (ObjectEntry k i) acc = acc\<lparr>da_objects := da_objects acc @ [(k, RefUuid i)]\<rparr>"
| "add_entry (AstrometryEntry a i) acc = acc\<lparr>da_astrometry := da_astrometry acc @ [(a, RefUuid i)]\<rparr>"
| "add_entry (LegacyEntry a i) acc = acc\<lparr>da_legacy := da_legacy acc @ [(a, RefUuid i)]\<rparr>"
| "add_entry (ClientEntry c) acc = acc\<lparr>da_clients := da_clients acc @ [c]\<rparr>"

fun readable :: "dyn_libs \<Rightarrow> entry \<Rightarrow> bool" where
  "readable L (JobEntry job d) =
     (dl_f64_parse L (dl_f64_str L (st_queue_weight job)) = Some (st_queue_weight job) \<and> is_none_or (\<lambda>x. sd_job_id x = st_id job) d)"
| "readable L _ = True"

lemma take_index_item:
  assumes "dyn_libs_ok L" "key = pre @ k" "parse k = Some a"
  shows "take_index L (index_item L key entity i) key pre parse = Inr (a, RefUuid i)"
proof -
  have "dom (index_item L key entity i) \<subseteq> set [''pk'', ''entity'', ''job_id'']" by (auto simp: index_item_def)
  then show ?thesis
    using assms dyn_libs_okD(1) [OF assms(1), of i]
    by (simp add: take_index_def ensure_only_attributes_def ensure_def and_then_def ok_or_def required_job_reference_def index_item_def)
qed

lemma take_entry:
  assumes "dyn_libs_ok L" "readable L e"
  shows "take_item L (entry_item L e) acc = Inr (add_entry e acc)"
proof (cases e)
  case (JobEntry job d)
  note trips = stored_job_round_trip [OF dyn_libs_okD(1) [OF assms(1)], of job d] stored_donation_round_trip [of d job]
  have "optional_string (stored_job_item L job d) ''entity'' = Some ''job''"
    "required_string (stored_job_item L job d) ''pk'' = Inr (job_key L (st_id job))"
    by (simp_all add: reading_simps stored_job_item_required)
  moreover have "ensure_only_attributes (stored_job_item L job d) job_attributes = Inr ()"
    using stored_job_item_dom by (simp add: ensure_only_attributes_def)
  ultimately show ?thesis
    using trips assms(2) JobEntry by (cases d) (simp_all add: take_item_def and_then_def reading_def)
next
  case (ClientEntry c)
  then show ?thesis
    by (cases c) (auto simp: take_item_def client_puts_def client_key_def reading_def required_string_def optional_string_def
      ensure_only_attributes_def and_then_def ok_or_def ensure_def strip_prefix_def starts_with_def)
next
  case (ObjectEntry k i)
  with take_index_item [OF assms(1), of "object_index_key k" "''OBJECT#''" k Some k "''object_index''" i]
  show ?thesis by (simp add: object_index_key_def take_item_def required_string_def optional_string_def index_item_def reading_def and_then_def ok_or_def)
next
  case (AstrometryEntry a i)
  with take_index_item [OF assms(1), of "astrometry_index_key a" "''ASTROMETRY#''" "decimal (unat a)" parse_u64 a "''astrometry_index''" i]
  show ?thesis by (simp add: astrometry_index_key_def take_item_def required_string_def optional_string_def index_item_def reading_def and_then_def ok_or_def)
next
  case (LegacyEntry a i)
  with take_index_item [OF assms(1), of "legacy_index_key a" "''LEGACY#''" "decimal (unat a)" parse_u64 a "''legacy_index''" i]
  show ?thesis by (simp add: legacy_index_key_def take_item_def required_string_def optional_string_def index_item_def reading_def and_then_def ok_or_def)
qed

lemma take_entries:
  assumes "dyn_libs_ok L" "\<And>e. e \<in> set es \<Longrightarrow> readable L e"
  shows "take_items L (map (entry_item L) es) acc = Inr (fold add_entry es acc)"
  using assms(2) by (induction es arbitrary: acc) (simp_all add: take_entry [OF assms(1)] and_then_def)

text \<open>What the entries of each kind add up to.\<close>

fun entry_jobs :: "entry \<Rightarrow> StoredJob list" where
  "entry_jobs (JobEntry job d) = [job]"
| "entry_jobs _ = []"

fun entry_donations :: "entry \<Rightarrow> StoredDonation list" where
  "entry_donations (JobEntry job (Some d)) = [d]"
| "entry_donations _ = []"

fun entry_clients :: "entry \<Rightarrow> StoredClient list" where
  "entry_clients (ClientEntry c) = [c]"
| "entry_clients _ = []"

lemma fold_add_entry:
  "da_jobs (fold add_entry es acc) = da_jobs acc @ concat (map entry_jobs es)"
  "da_donations (fold add_entry es acc) = da_donations acc @ concat (map entry_donations es)"
  "da_clients (fold add_entry es acc) = da_clients acc @ concat (map entry_clients es)"
  "set (da_objects (fold add_entry es acc)) = set (da_objects acc) \<union> {(k, RefUuid i) |k i. ObjectEntry k i \<in> set es}"
  "set (da_astrometry (fold add_entry es acc)) = set (da_astrometry acc) \<union> {(a, RefUuid i) |a i. AstrometryEntry a i \<in> set es}"
  "set (da_legacy (fold add_entry es acc)) = set (da_legacy acc) \<union> {(a, RefUuid i) |a i. LegacyEntry a i \<in> set es}"
proof -
  have "da_jobs (fold add_entry es acc) = da_jobs acc @ concat (map entry_jobs es)
    \<and> da_donations (fold add_entry es acc) = da_donations acc @ concat (map entry_donations es)
    \<and> da_clients (fold add_entry es acc) = da_clients acc @ concat (map entry_clients es)"
  proof (induction es arbitrary: acc)
    case (Cons e es)
    show ?case by (cases e) (auto simp: Cons split: option.splits)
  qed simp
  moreover have "set (da_objects (fold add_entry es acc)) = set (da_objects acc) \<union> {(k, RefUuid i) |k i. ObjectEntry k i \<in> set es}
    \<and> set (da_astrometry (fold add_entry es acc)) = set (da_astrometry acc) \<union> {(a, RefUuid i) |a i. AstrometryEntry a i \<in> set es}
    \<and> set (da_legacy (fold add_entry es acc)) = set (da_legacy acc) \<union> {(a, RefUuid i) |a i. LegacyEntry a i \<in> set es}"
  proof (induction es arbitrary: acc)
    case (Cons e es)
    show ?case by (cases e) (auto simp: Cons)
  qed simp
  ultimately show "da_jobs (fold add_entry es acc) = da_jobs acc @ concat (map entry_jobs es)"
    "da_donations (fold add_entry es acc) = da_donations acc @ concat (map entry_donations es)"
    "da_clients (fold add_entry es acc) = da_clients acc @ concat (map entry_clients es)"
    "set (da_objects (fold add_entry es acc)) = set (da_objects acc) \<union> {(k, RefUuid i) |k i. ObjectEntry k i \<in> set es}"
    "set (da_astrometry (fold add_entry es acc)) = set (da_astrometry acc) \<union> {(a, RefUuid i) |a i. AstrometryEntry a i \<in> set es}"
    "set (da_legacy (fold add_entry es acc)) = set (da_legacy acc) \<union> {(a, RefUuid i) |a i. LegacyEntry a i \<in> set es}"
    by simp_all
qed

lemma mset_concat_map_cong: "mset xs = mset ys \<Longrightarrow> mset (concat (map f xs)) = mset (concat (map f ys))"
  by (metis mset_concat mset_map sum_mset_sum_list)

lemma entries_total:
  assumes "validate_snapshot M s = Inr u"
  shows "concat (map entry_jobs (snapshot_entries s)) = ss_jobs s"
    "concat (map entry_clients (snapshot_entries s)) = ss_clients s"
    "mset (concat (map entry_donations (snapshot_entries s))) = mset (ss_donations s)"
proof -
  let ?found = "\<lambda>job. case last_with sd_job_id (ss_donations s) (st_id job) of Some d \<Rightarrow> [d] | None \<Rightarrow> []"
  have legacy: "concat (map f (map (\<lambda>i. LegacyEntry i j) is)) = []" if "\<And>i. f (LegacyEntry i j) = []" for f :: "entry \<Rightarrow> 'b list" and j "is"
    using that by (induction "is") simp_all
  have clients: "concat (map f (map ClientEntry cs)) = []" if "\<And>c. f (ClientEntry c) = []" for f :: "entry \<Rightarrow> 'b list" and cs
    using that by (induction cs) simp_all
  have "concat (map entry_jobs (concat (map (job_entries s) jobs))) = jobs" for jobs
    by (induction jobs) (simp_all add: job_entries_def legacy [simplified])
  then show "concat (map entry_jobs (snapshot_entries s)) = ss_jobs s"
    by (simp add: snapshot_entries_def clients [simplified])
  have "concat (map entry_clients (concat (map (job_entries s) jobs))) = []" for jobs
    by (induction jobs) (simp_all add: job_entries_def legacy [simplified])
  moreover have "concat (map entry_clients (map ClientEntry cs)) = cs" for cs by (induction cs) simp_all
  ultimately show "concat (map entry_clients (snapshot_entries s)) = ss_clients s"
    by (simp add: snapshot_entries_def)
  have "concat (map entry_donations (concat (map (job_entries s) jobs))) = concat (map ?found jobs)" for jobs
    by (induction jobs) (simp_all add: job_entries_def legacy [simplified] split: option.splits)
  then have donations: "concat (map entry_donations (snapshot_entries s)) = concat (map ?found (ss_jobs s))"
    by (simp add: snapshot_entries_def clients [simplified])
  note d = valid_snapshotD [OF assms]
  have found: "x \<in> set (?found job) \<longleftrightarrow> x \<in> set (ss_donations s) \<and> sd_job_id x = st_id job" for x job
    using last_with_eq [OF d(5), of "st_id job" x] by (cases "last_with sd_job_id (ss_donations s) (st_id job)") auto
  have "distinct (concat (map ?found jobs))" if "distinct (map st_id jobs)" for jobs
    using that
  proof (induction jobs)
    case (Cons job jobs)
    have "False" if "x \<in> set (?found job)" "x \<in> set (concat (map ?found jobs))" for x
    proof -
      from that(2) obtain j where "j \<in> set jobs" "x \<in> set (?found j)" by (simp only: set_concat set_map) blast
      with that(1) have "st_id j = st_id job" "j \<in> set jobs" by (simp_all only: found)
      with Cons.prems show False by (simp add: rev_image_eqI)
    qed
    then have "set (?found job) \<inter> set (concat (map ?found jobs)) = {}" by blast
    moreover have "distinct (?found job)" by (simp split: option.splits)
    ultimately show ?case using Cons by simp
  qed simp
  moreover have "set (concat (map ?found (ss_jobs s))) = set (ss_donations s)"
  proof (rule set_eqI)
    fix x
    have "x \<in> set (concat (map ?found (ss_jobs s))) \<longleftrightarrow> (\<exists>job \<in> set (ss_jobs s). x \<in> set (?found job))"
      by (simp only: set_concat set_map) blast
    also have "\<dots> \<longleftrightarrow> (\<exists>job \<in> set (ss_jobs s). x \<in> set (ss_donations s) \<and> sd_job_id x = st_id job)" by (simp only: found)
    also have "\<dots> \<longleftrightarrow> x \<in> set (ss_donations s)" using d(8) by auto
    finally show "x \<in> set (concat (map ?found (ss_jobs s))) \<longleftrightarrow> x \<in> set (ss_donations s)" .
  qed
  moreover have "distinct (ss_donations s)" using d(5) by (simp add: distinct_map)
  ultimately show "mset (concat (map entry_donations (snapshot_entries s))) = mset (ss_donations s)"
    unfolding donations using set_eq_iff_mset_eq_distinct d(1) by blast
qed

lemma check_index_ok:
  assumes "distinct (map st_id jobs)"
    "\<And>k ref. (k, ref) \<in> set entries \<Longrightarrow> \<exists>job \<in> set jobs. ref = RefUuid (st_id job) \<and> key job = k"
  shows "check_index key jobs entries = Inr ()"
  using assms(2)
proof (induction entries)
  case (Cons entry entries)
  obtain k ref where entry: "entry = (k, ref)" by (cases entry)
  with Cons.prems obtain job where "job \<in> set jobs" "ref = RefUuid (st_id job)" "key job = k" by force
  moreover from this have "last_with st_id jobs (st_id job) = Some job" by (simp add: last_with_eq [OF assms(1)])
  moreover have "check_index key jobs entries = Inr ()" using Cons by (meson list.set_intros(2))
  ultimately show ?case by (simp add: entry resolve_job_reference_def ok_or_def)
qed simp

text \<open>A scan in any order of the table of a valid snapshot reads the snapshot.\<close>

lemma dyn_snapshot_table:
  assumes ok: "dyn_libs_ok L" and valid: "validate_snapshot M s = Inr u" and arranged: "arranged s"
    and weights: "\<And>job. job \<in> set (ss_jobs s) \<Longrightarrow> dl_f64_parse L (dl_f64_str L (st_queue_weight job)) = Some (st_queue_weight job)"
    and items: "distinct items" "set items = ran (table_of L s)"
  shows "dyn_snapshot L items = Inr s"
proof -
  let ?E = "snapshot_entries s"
  note d = valid_snapshotD [OF valid]
  have "ran (table_of L s) = entry_item L ` set ?E"
    using ran_distinct [OF distinct_entry_keys [OF ok valid]] by (simp add: table_of_def entry_puts_def comp_def image_image)
  then have "\<forall>it \<in> set items. \<exists>e. e \<in> set ?E \<and> it = entry_item L e" using items(2) by auto
  then obtain pick where pick: "\<And>it. it \<in> set items \<Longrightarrow> pick it \<in> set ?E \<and> it = entry_item L (pick it)" by metis
  define es where "es = map pick items"
  have es: "map (entry_item L) es = items" using pick by (simp add: es_def map_idI)
  have key_of: "entry_item L e ''pk'' = Some (AttrS (entry_key L e))" for e
    by (cases e) (simp_all add: stored_job_item_required index_item_def client_puts_def)
  have "set es = set ?E"
  proof
    show "set es \<subseteq> set ?E" using pick by (auto simp: es_def)
    show "set ?E \<subseteq> set es"
    proof
      fix e assume e: "e \<in> set ?E"
      then have "entry_item L e \<in> set items" using items(2) \<open>ran (table_of L s) = entry_item L ` set ?E\<close> by simp
      with pick [OF this] have "entry_key L (pick (entry_item L e)) = entry_key L e" by (metis key_of option.inject AttributeValue.inject(1))
      with pick [OF \<open>entry_item L e \<in> set items\<close>] e have "pick (entry_item L e) = e"
        using entry_key_inj [OF ok valid] by (auto dest: inj_onD)
      with \<open>entry_item L e \<in> set items\<close> show "e \<in> set es" by (force simp: es_def)
    qed
  qed
  moreover have "distinct es" using items(1) es by (metis distinct_map)
  ultimately have perm: "mset es = mset ?E" using distinct_snapshot_entries [OF valid] set_eq_iff_mset_eq_distinct by blast
  have read: "readable L e" if "e \<in> set es" for e
    using that weights last_with_eq [OF d(5)] \<open>set es = set ?E\<close>
    by (cases e rule: entry.exhaust) (auto simp: in_snapshot_entries is_none_or_def split: option.splits)
  let ?start = "\<lparr>da_jobs = [], da_donations = [], da_clients = [], da_objects = [], da_astrometry = [], da_legacy = []\<rparr>"
  let ?acc = "fold add_entry es ?start"
  have acc: "take_items L items ?start = Inr ?acc" using take_entries [OF ok, of es ?start] read es by simp
  note total = entries_total [OF valid]
  have jobs: "mset (da_jobs ?acc) = mset (ss_jobs s)" and donations: "mset (da_donations ?acc) = mset (ss_donations s)"
    and clients: "mset (da_clients ?acc) = mset (ss_clients s)"
    using total mset_concat_map_cong [OF perm, of entry_jobs] mset_concat_map_cong [OF perm, of entry_donations]
      mset_concat_map_cong [OF perm, of entry_clients] by (simp_all add: fold_add_entry)
  have set_jobs: "set (da_jobs ?acc) = set (ss_jobs s)" using jobs by (rule mset_eq_setD)
  have ids: "distinct (map st_id (da_jobs ?acc))" using d(1) jobs by (metis mset_eq_imp_distinct_iff mset_map)
  have "check_index st_object_key (da_jobs ?acc) (da_objects ?acc) = Inr ()"
    "check_index st_astrometry_id (da_jobs ?acc) (da_astrometry ?acc) = Inr ()"
    by (rule check_index_ok [OF ids]; auto simp: fold_add_entry(4,5) \<open>set es = set ?E\<close> in_snapshot_entries set_jobs)+
  moreover have "check_index st_legacy_id (da_jobs ?acc) (map (apfst Some) (da_legacy ?acc)) = Inr ()"
    by (rule check_index_ok [OF ids])
      (auto simp: fold_add_entry(6) \<open>set es = set ?E\<close> in_snapshot_entries set_jobs legacy_ids_of_def split: option.splits)
  ultimately have "dyn_snapshot L items = Inr (new_snapshot (da_jobs ?acc) (da_donations ?acc) (da_clients ?acc))"
    by (simp add: dyn_snapshot_def acc)
  also have "new_snapshot (da_jobs ?acc) (da_donations ?acc) (da_clients ?acc) = s"
    by (rule arranged_same [OF arranged valid jobs donations clients])
  finally show ?thesis .
qed

end
