(* ===== verification/Migration_Sql.thy ===== *)
theory Migration_Sql
  imports Migration_Dynamo
begin

text \<open>
  What \<open>seiza-server migrate-store\<close> writes to a SQL store, and what it reads back; and the conversion of a
  legacy SQL store in place against the conversion in memory.
\<close>

section \<open>An import into new tables\<close>

definition sql_row_of :: "migrate_libs \<Rightarrow> StoredJob \<Rightarrow> SqlJob" where
  "sql_row_of M job =
     \<lparr>q_id = dl_uuid_str (ml_dyn M) (st_id job), q_owner = st_owner job, q_queue_weight = st_queue_weight job,
      q_object_key = st_object_key job, q_original_filename = st_original_filename job,
      q_content_type = st_content_type job, q_options_json = st_options_json job, q_status = st_status job,
      q_created_at = st_created_at job, q_started_at = st_started_at job, q_completed_at = st_completed_at job,
      q_solution_json = st_solution_json job, q_error = st_error job, q_lease_token = st_lease_token job,
      q_lease_expires_at = st_lease_expires_at job, q_attempts = uint (st_attempts job),
      q_astrometry_id = uint (st_astrometry_id job), q_legacy_id = map_option uint (st_legacy_id job)\<rparr>"

definition outbox_row :: "migrate_libs \<Rightarrow> StoredJob \<Rightarrow> string \<times> string option" where
  "outbox_row M job = (dl_uuid_str (ml_dyn M) (st_id job), st_notification_delivered_at job)"

definition donation_row :: "migrate_libs \<Rightarrow> StoredDonation \<Rightarrow> string DonationColumns" where
  "donation_row M d =
     \<lparr>qd_job_id = dl_uuid_str (ml_dyn M) (sd_job_id d), qd_object_key = sd_object_key d, qd_comment = sd_comment d,
      qd_solve_is_invalid = (if sd_solve_is_invalid d then 1 else 0), qd_license_version = sd_license_version d,
      qd_donated_at = sd_donated_at d\<rparr>"

lemma sql_row_of_simps [simp]:
  "q_id (sql_row_of M job) = dl_uuid_str (ml_dyn M) (st_id job)" "q_object_key (sql_row_of M job) = st_object_key job"
  "q_astrometry_id (sql_row_of M job) = uint (st_astrometry_id job)" "q_legacy_id (sql_row_of M job) = map_option uint (st_legacy_id job)"
  "q_attempts (sql_row_of M job) = uint (st_attempts job)"
  by (simp_all add: sql_row_of_def)

lemma uuid_str_eq: "dyn_libs_ok L \<Longrightarrow> dl_uuid_str L i = dl_uuid_str L j \<longleftrightarrow> i = j"
  by (metis dyn_libs_okD(1) option.inject)

lemma sql_job_row_eq:
  assumes "uint (st_astrometry_id job) \<le> i64_max" "is_none_or (\<lambda>i. uint i \<le> i64_max) (st_legacy_id job)"
    "uint (st_attempts job) \<le> i64_max"
  shows "sql_job_row M job = Inr (sql_row_of M job)"
  using assms by (cases "st_legacy_id job") (simp_all add: sql_job_row_def to_i64_def traverse_def and_then_def sql_row_of_def)

lemma from_i64_uint: "from_i64 what (uint x) = Inr (x :: u64)"
  by (simp add: from_i64_def)

lemma stored_job_from_row_of:
  assumes "dyn_libs_ok (ml_dyn M)" "map_of (sq_outbox db) (dl_uuid_str (ml_dyn M) (st_id job)) = Some (st_notification_delivered_at job)"
  shows "stored_job_from_row M db (sql_row_of M job) = Inr job"
  using assms dyn_libs_okD(1) [OF assms(1), of "st_id job"]
  by (cases "st_legacy_id job")
    (simp_all add: stored_job_from_row_def from_i64_uint traverse_def and_then_def ok_or_def stored_columns_def sql_row_of_def)

lemma stored_donation_columns_row: "stored_donation_columns (sd_job_id d) (donation_row M d) = d"
  by (simp add: stored_donation_columns_def donation_row_def)

text \<open>The unique columns of a valid list of jobs.\<close>

definition distinct_jobs :: "StoredJob list \<Rightarrow> bool" where
  "distinct_jobs jobs = (distinct (map st_id jobs) \<and> distinct (map st_astrometry_id jobs)
     \<and> distinct (map st_object_key jobs) \<and> distinct (concat (map legacy_ids_of jobs)))"

lemma valid_distinct_jobs: "validate_snapshot M s = Inr u \<Longrightarrow> distinct_jobs (ss_jobs s)"
  by (simp add: distinct_jobs_def valid_snapshotD)

lemma distinct_key_new: "distinct (map k (before @ x # later)) \<Longrightarrow> y \<in> set before \<Longrightarrow> k y \<noteq> k x"
  by (induction before) auto

lemma distinct_jobs_no_conflict:
  assumes "distinct_jobs (before @ job # later)" "j \<in> set before"
  shows "st_id j \<noteq> st_id job" "\<not> row_conflicts (sql_row_of M job) (sql_row_of M j)"
proof -
  from assms show "st_id j \<noteq> st_id job" unfolding distinct_jobs_def by (blast dest: distinct_key_new)
  from assms have "st_astrometry_id j \<noteq> st_astrometry_id job" "st_object_key j \<noteq> st_object_key job"
    unfolding distinct_jobs_def by (blast dest: distinct_key_new)+
  moreover have "set (legacy_ids_of j) \<inter> set (legacy_ids_of job) = {}" using assms by (auto simp: distinct_jobs_def)
  then have "st_legacy_id job = None \<or> st_legacy_id j \<noteq> st_legacy_id job"
    by (auto simp: legacy_ids_of_def split: option.splits)
  ultimately show "\<not> row_conflicts (sql_row_of M job) (sql_row_of M j)"
    by (cases "st_legacy_id job"; cases "st_legacy_id j") (auto simp: row_conflicts_def word_uint_eq_iff)
qed

lemma put_row_new: "(\<And>y. y \<in> set xs \<Longrightarrow> key y \<noteq> key x) \<Longrightarrow> put_row key x xs = xs @ [x]"
  by (auto simp: put_row_def list_ex_iff)

lemma import_jobs:
  assumes ok: "dyn_libs_ok (ml_dyn M)" and unique: "distinct_jobs (before @ jobs)"
    and rows: "\<And>job. job \<in> set jobs \<Longrightarrow> sql_job_row M job = Inr (sql_row_of M job)"
    and db: "sq_jobs db = map (sql_row_of M) before" "sq_outbox db = map (outbox_row M) before"
  shows "import_all (import_job M) jobs db =
     Inr (db\<lparr>sq_jobs := map (sql_row_of M) (before @ jobs), sq_outbox := map (outbox_row M) (before @ jobs)\<rparr>)"
  using unique rows db
proof (induction jobs arbitrary: before db)
  case (Cons job jobs)
  note new = distinct_jobs_no_conflict [OF Cons.prems(1)]
  have "put_row q_id (sql_row_of M job) (map (sql_row_of M) before) = map (sql_row_of M) (before @ [job])"
    using new(1) by (subst put_row_new) (auto simp: uuid_str_eq [OF ok])
  then have "upsert_job (sql_row_of M job) db = Inr (db\<lparr>sq_jobs := map (sql_row_of M) (before @ [job])\<rparr>)"
    using new by (auto simp: upsert_job_def list_ex_iff Cons.prems(3))
  moreover have "put_row fst (outbox_row M job) (map (outbox_row M) before) = map (outbox_row M) (before @ [job])"
    using new(1) by (subst put_row_new) (auto simp: outbox_row_def uuid_str_eq [OF ok])
  ultimately have "import_job M job db =
      Inr (db\<lparr>sq_jobs := map (sql_row_of M) (before @ [job]), sq_outbox := map (outbox_row M) (before @ [job])\<rparr>)"
    using Cons.prems(2) [of job] Cons.prems(4) by (simp add: import_job_def outbox_row_def [of M job, symmetric])
  with Cons.IH [of "before @ [job]"] Cons.prems show ?case by simp
qed simp

lemma import_donations:
  assumes ok: "dyn_libs_ok (ml_dyn M)"
    and unique: "distinct (map sd_job_id (before @ ds))" "distinct (map sd_object_key (before @ ds))"
    and db: "sq_donations db = map (donation_row M) before"
  shows "import_all (import_donation M) ds db = Inr (db\<lparr>sq_donations := map (donation_row M) (before @ ds)\<rparr>)"
  using unique db
proof (induction ds arbitrary: before db)
  case (Cons d ds)
  have new: "sd_job_id x \<noteq> sd_job_id d" "sd_object_key x \<noteq> sd_object_key d" if "x \<in> set before" for x
    using distinct_key_new [OF Cons.prems(1) that] distinct_key_new [OF Cons.prems(2) that] .
  have "put_row qd_job_id (donation_row M d) (map (donation_row M) before) = map (donation_row M) (before @ [d])"
    using new(1) by (subst put_row_new) (auto simp: donation_row_def uuid_str_eq [OF ok])
  moreover have "\<not> list_ex (\<lambda>r'. qd_job_id r' \<noteq> qd_job_id (donation_row M d) \<and> qd_object_key r' = sd_object_key d) (map (donation_row M) before)"
    using new(2) by (auto simp: list_ex_iff donation_row_def)
  ultimately have "import_donation M d db = Inr (db\<lparr>sq_donations := map (donation_row M) (before @ [d])\<rparr>)"
    by (simp add: import_donation_def Let_def donation_row_def [symmetric] Cons.prems(3)) (simp add: donation_row_def)
  with Cons.IH [of "before @ [d]"] Cons.prems show ?case by simp
qed simp

lemma import_clients:
  assumes "distinct (map sc_owner (before @ cs))" "sq_clients db = map (\<lambda>c. (sc_owner c, sc_last_served_at c)) before"
  shows "fold import_client cs db = db\<lparr>sq_clients := map (\<lambda>c. (sc_owner c, sc_last_served_at c)) (before @ cs)\<rparr>"
  using assms
proof (induction cs arbitrary: before db)
  case (Cons c cs)
  have "import_client c db = db\<lparr>sq_clients := map (\<lambda>c. (sc_owner c, sc_last_served_at c)) (before @ [c])\<rparr>"
    using distinct_key_new [OF Cons.prems(1)] unfolding import_client_def Cons.prems(2)
    by (subst put_row_new) auto
  with Cons.IH [of "before @ [c]"] Cons.prems show ?case by simp
qed simp

text \<open>The tables of the snapshot \<open>s\<close>, and the empty tables of a new store.\<close>

definition sql_tables_of :: "migrate_libs \<Rightarrow> StoreSnapshot \<Rightarrow> SqlStore \<Rightarrow> SqlStore" where
  "sql_tables_of M s db = db\<lparr>sq_jobs := map (sql_row_of M) (ss_jobs s), sq_outbox := map (outbox_row M) (ss_jobs s),
     sq_donations := map (donation_row M) (ss_donations s),
     sq_clients := map (\<lambda>c. (sc_owner c, sc_last_served_at c)) (ss_clients s)\<rparr>"

definition new_tables :: "SqlStore \<Rightarrow> bool" where
  "new_tables db = (ensure_sql_schema_supported db uuid_tables = Inr ()
     \<and> sq_jobs db = [] \<and> sq_outbox db = [] \<and> sq_donations db = [] \<and> sq_clients db = [])"

lemma first_table: "ensure_sql_schema_supported db ((t, c) # ts) = Inr () \<Longrightarrow> set (sq_columns db t) = set c"
  by (simp split: if_splits)

lemma new_tables_exist:
  assumes "ensure_sql_schema_supported db uuid_tables = Inr ()"
  shows "table_exists db ''jobs_v2''"
proof -
  have "set (sq_columns db ''jobs_v2'') \<noteq> {}"
    unfolding first_table [OF assms [unfolded uuid_tables_def]] by (simp only: list.set insert_not_empty not_False_eq_True)
  then show ?thesis unfolding table_exists_def by (metis set_empty)
qed

lemma sql_import_new:
  assumes ok: "dyn_libs_ok (ml_dyn M)" and valid: "validate_snapshot M s = Inr u" and new: "new_tables db"
  shows "sql_import M s db = (Inr (), sql_tables_of M s db)"
proof -
  note d = valid_snapshotD [OF valid]
  have rows: "sql_job_row M job = Inr (sql_row_of M job)" if "job \<in> set (ss_jobs s)" for job
    by (rule sql_job_row_eq [OF d(9) [OF that] d(10) [OF that] d(11) [OF that]])
  have "import_all (import_job M) (ss_jobs s) db =
      Inr (db\<lparr>sq_jobs := map (sql_row_of M) (ss_jobs s), sq_outbox := map (outbox_row M) (ss_jobs s)\<rparr>)"
    using import_jobs [OF ok, of "[]" "ss_jobs s" db] valid_distinct_jobs [OF valid] rows new by (simp add: new_tables_def)
  moreover have "import_all (import_donation M) (ss_donations s) db1 = Inr (db1\<lparr>sq_donations := map (donation_row M) (ss_donations s)\<rparr>)"
    if "sq_donations db1 = []" for db1
    using import_donations [OF ok, of "[]" "ss_donations s" db1] d(5,6) that by simp
  moreover have "fold import_client (ss_clients s) db2 = db2\<lparr>sq_clients := map (\<lambda>c. (sc_owner c, sc_last_served_at c)) (ss_clients s)\<rparr>"
    if "sq_clients db2 = []" for db2
    using import_clients [of "[]" "ss_clients s" db2] d(7) that by simp
  ultimately show ?thesis
    using new new_tables_exist [of db] by (simp add: sql_import_def and_then_def sql_tables_of_def new_tables_def)
qed

lemma collect_parsed:
  assumes "\<And>x. x \<in> set xs \<Longrightarrow> f (g x) = Inr x"
  shows "collect_results (map f (map g xs)) = Inr xs"
  using assms by (simp add: collect_results_Inr)

lemma map_of_outbox:
  assumes "dyn_libs_ok (ml_dyn M)" "distinct (map st_id jobs)" "job \<in> set jobs"
  shows "map_of (map (outbox_row M) jobs) (dl_uuid_str (ml_dyn M) (st_id job)) = Some (st_notification_delivered_at job)"
  using assms(2,3) by (induction jobs) (auto simp: outbox_row_def uuid_str_eq [OF assms(1)] image_iff)

lemma snapshot_sql_tables:
  assumes ok: "dyn_libs_ok (ml_dyn M)" and valid: "validate_snapshot M s = Inr u" and arranged: "arranged s"
    and jobs: "mset jobs = mset (ss_jobs s)"
    and tables: "sq_jobs db = map (sql_row_of M) jobs"
      "\<And>job. job \<in> set jobs \<Longrightarrow>
         map_of (sq_outbox db) (dl_uuid_str (ml_dyn M) (st_id job)) = Some (st_notification_delivered_at job)"
      "fst ` set (sq_outbox db) \<subseteq> (\<lambda>job. dl_uuid_str (ml_dyn M) (st_id job)) ` set jobs"
      "list_all2 (\<lambda>r d. dl_uuid_parse (ml_dyn M) (qd_job_id r) = Some (sd_job_id d) \<and> stored_donation_columns (sd_job_id d) r = d)
         (sq_donations db) donations" "mset donations = mset (ss_donations s)"
      "mset (sql_clients db) = mset (ss_clients s)"
    and schema: "ensure_sql_schema_supported db uuid_tables = Inr ()"
  shows "sql_snapshot M db = Inr s"
proof -
  have "collect_results (map (stored_job_from_row M db) (sq_jobs db)) = Inr jobs"
    unfolding tables(1) using tables(2) by (intro collect_parsed stored_job_from_row_of ok)
  moreover have "ensure_no_orphan_outbox (sq_outbox db) (map q_id (sq_jobs db)) = Inr ()"
  proof -
    have "set (map q_id (sq_jobs db)) = (\<lambda>job. dl_uuid_str (ml_dyn M) (st_id job)) ` set jobs"
      by (simp add: tables(1) image_image)
    with tables(3) have "fst ` set (sq_outbox db) \<subseteq> set (map q_id (sq_jobs db))" by (simp only:)
    then have "fst entry \<in> set (map q_id (sq_jobs db))" if "entry \<in> set (sq_outbox db)" for entry using that by blast
    then show ?thesis unfolding ensure_no_orphan_outbox_def ensure_Inr list_all_iff by (simp only: case_prod_unfold) blast
  qed
  moreover have "collect_results (map (\<lambda>r. map_sum id (\<lambda>i. stored_donation_columns i r)
        (ok_or (InvalidRecord ''validation contribution job ID'') (dl_uuid_parse (ml_dyn M) (qd_job_id r)))) (sq_donations db))
      = Inr donations"
    using tables(4) by (induction rule: list_all2_induct) (simp_all add: ok_or_def)
  ultimately have "snapshot_uuid_sql M db = Inr (new_snapshot jobs donations (sql_clients db))"
    by (simp add: snapshot_uuid_sql_def)
  also have "new_snapshot jobs donations (sql_clients db) = s"
    by (rule arranged_same [OF arranged valid jobs tables(5,6)])
  finally show ?thesis by (simp add: sql_snapshot_def schema new_tables_exist [OF schema])
qed

lemma schema_only_columns: "sq_columns db' = sq_columns db \<Longrightarrow> ensure_sql_schema_supported db' ts = ensure_sql_schema_supported db ts"
  by (induction ts) auto

lemma sql_import_reads_back:
  assumes ok: "dyn_libs_ok (ml_dyn M)" and valid: "validate_snapshot M s = Inr u" and arranged: "arranged s"
    and new: "new_tables db"
  shows "sql_snapshot M (sql_tables_of M s db) = Inr s"
proof (rule snapshot_sql_tables [OF ok valid arranged refl])
  note d = valid_snapshotD [OF valid]
  show "map_of (sq_outbox (sql_tables_of M s db)) (dl_uuid_str (ml_dyn M) (st_id job)) = Some (st_notification_delivered_at job)"
    if "job \<in> set (ss_jobs s)" for job
    using map_of_outbox [OF ok d(1) that] by (simp add: sql_tables_of_def)
  show "list_all2 (\<lambda>r d. dl_uuid_parse (ml_dyn M) (qd_job_id r) = Some (sd_job_id d) \<and> stored_donation_columns (sd_job_id d) r = d)
      (sq_donations (sql_tables_of M s db)) (ss_donations s)"
    using dyn_libs_okD(1) [OF ok]
    by (simp add: sql_tables_of_def list_all2_map1 list_all2_same stored_donation_columns_row) (simp add: donation_row_def)
  show "mset (sql_clients (sql_tables_of M s db)) = mset (ss_clients s)"
    by (simp add: sql_clients_def sql_tables_of_def comp_def flip: mset_map) (simp add: map_idI)
  show "ensure_sql_schema_supported (sql_tables_of M s db) uuid_tables = Inr ()"
    using new schema_only_columns [of "sql_tables_of M s db" db] by (simp add: new_tables_def sql_tables_of_def)
qed (auto simp: sql_tables_of_def outbox_row_def)

section \<open>Opening the store\<close>

lemma create_tables_columns:
  "sq_columns (fold create_table ts db) = (\<lambda>t. if sq_columns db t \<noteq> [] then sq_columns db t
     else case map_of (filter (\<lambda>(_, c). c \<noteq> []) ts) t of Some c \<Rightarrow> c | None \<Rightarrow> [])"
proof (induction ts arbitrary: db)
  case (Cons t ts)
  have "sq_columns (create_table t db) = (if sq_columns db (fst t) \<noteq> [] then sq_columns db else (sq_columns db)(fst t := snd t))"
    by (simp add: create_table_def table_exists_def Let_def)
  then show ?case by (cases t) (auto simp: Cons fun_eq_iff)
qed (simp add: fun_eq_iff)

lemma create_tables_keep:
  "sq_legacy_jobs (fold create_table ts db) = sq_legacy_jobs db"
  "sq_legacy_outbox (fold create_table ts db) = sq_legacy_outbox db"
  "sq_legacy_donations (fold create_table ts db) = sq_legacy_donations db"
proof -
  have one: "sq_legacy_jobs (create_table t db) = sq_legacy_jobs db \<and> sq_legacy_outbox (create_table t db) = sq_legacy_outbox db
    \<and> sq_legacy_donations (create_table t db) = sq_legacy_donations db" for t db
    by (simp add: create_table_def Let_def)
  show "sq_legacy_jobs (fold create_table ts db) = sq_legacy_jobs db"
    "sq_legacy_outbox (fold create_table ts db) = sq_legacy_outbox db"
    "sq_legacy_donations (fold create_table ts db) = sq_legacy_donations db"
    by (induction ts arbitrary: db) (simp_all add: one)
qed

lemma create_table_rows:
  assumes "sq_columns db ''jobs_v2'' = []" "sq_columns db ''validation_donations_v2'' = []" "sq_columns db ''queue_outbox_v2'' = []"
  shows "sq_jobs (fold create_table uuid_tables db) = []" "sq_outbox (fold create_table uuid_tables db) = []"
    "sq_donations (fold create_table uuid_tables db) = []"
    "sq_clients (fold create_table uuid_tables db) = (if table_exists db ''client_service'' then sq_clients db else [])"
  using assms by (simp_all add: uuid_tables_def create_table_def table_exists_def Let_def job_columns_def donation_columns_def)

lemma opened_schema:
  assumes "\<And>t c. (t, c) \<in> set uuid_tables \<Longrightarrow> sq_columns db t = [] \<or> set (sq_columns db t) = set c"
  shows "ensure_sql_schema_supported (fold create_table uuid_tables db) uuid_tables = Inr ()"
proof -
  have "set (sq_columns (fold create_table uuid_tables db) t) = set c" if "(t, c) \<in> set uuid_tables" for t c
  proof -
    have "distinct (map fst uuid_tables)" by (simp add: uuid_tables_def)
    with that have "map_of uuid_tables t = Some c" by (simp add: map_of_eq_Some_iff)
    moreover have "filter (\<lambda>(_, c). c \<noteq> []) uuid_tables = uuid_tables"
      by (simp add: uuid_tables_def donation_columns_def)
    ultimately show ?thesis using assms [OF that] by (auto simp: create_tables_columns)
  qed
  then have "ensure_sql_schema_supported (fold create_table uuid_tables db) ts = Inr ()" if "set ts \<subseteq> set uuid_tables" for ts
    using that by (induction ts) auto
  then show ?thesis by blast
qed

text \<open>A store without tables gets the empty tables of the new schema.\<close>

definition no_tables :: "SqlStore \<Rightarrow> bool" where
  "no_tables db = list_all (\<lambda>t. sq_columns db t = []) (''jobs'' # map fst uuid_tables)"

lemma initialize_no_tables:
  assumes "no_tables db"
  shows "sql_initialize M fresh db = (Inr (), fold create_table uuid_tables db)" "new_tables (fold create_table uuid_tables db)"
proof -
  have cols: "sq_columns db t = []" if "t = ''jobs'' \<or> t \<in> fst ` set uuid_tables" for t
    using assms that by (auto simp: no_tables_def list_all_iff)
  have "sq_columns (fold create_table uuid_tables db) ''jobs'' = []"
    using cols [of "''jobs''"] by (simp add: create_tables_columns) (simp add: uuid_tables_def)
  then show "sql_initialize M fresh db = (Inr (), fold create_table uuid_tables db)"
    by (simp add: sql_initialize_def migrate_legacy_jobs_def table_exists_def)
  have "sq_columns db ''jobs_v2'' = []" "sq_columns db ''validation_donations_v2'' = []" "sq_columns db ''queue_outbox_v2'' = []"
    "sq_columns db ''client_service'' = []"
    by (rule cols; simp add: uuid_tables_def)+
  note rows = create_table_rows [OF this(1-3)] this(4)
  have "ensure_sql_schema_supported (fold create_table uuid_tables db) uuid_tables = Inr ()"
  proof (rule opened_schema)
    fix t c assume "(t, c) \<in> set uuid_tables"
    then have "t \<in> fst ` set uuid_tables" by (metis fst_conv imageI)
    then show "sq_columns db t = [] \<or> set (sq_columns db t) = set c" using cols by blast
  qed
  with rows show "new_tables (fold create_table uuid_tables db)" by (simp add: new_tables_def table_exists_def)
qed

section \<open>The conversion of legacy tables in place\<close>

lemma insert_legacy_jobs:
  assumes "distinct (map (q_id \<circ> legacy_job_row M fresh) (before @ rows))" "distinct (map q_id (before @ rows))"
    "distinct (map q_object_key (before @ rows))" "sq_jobs db = map (legacy_job_row M fresh) before"
  shows "each_row (insert_legacy_job M fresh) rows db = (Inr (), db\<lparr>sq_jobs := map (legacy_job_row M fresh) (before @ rows)\<rparr>)"
  using assms
proof (induction rows arbitrary: before db)
  case (Cons r rows)
  let ?new = "legacy_job_row M fresh r"
  have columns: "q_legacy_id (legacy_job_row M fresh x) = Some (q_id x)" "q_astrometry_id (legacy_job_row M fresh x) = q_id x"
    "q_object_key (legacy_job_row M fresh x) = q_object_key x" for x :: "int JobColumns"
    by (simp_all add: legacy_job_row_def)
  have free: "q_id (legacy_job_row M fresh x) \<noteq> q_id ?new" "q_id x \<noteq> q_id r" "q_object_key x \<noteq> q_object_key r" if "x \<in> set before" for x
    using distinct_key_new [OF Cons.prems(1) that] distinct_key_new [OF Cons.prems(2) that]
      distinct_key_new [OF Cons.prems(3) that] by simp_all
  from this this(2,3) [THEN not_sym] have "insert_legacy_job M fresh r db = Inr (db\<lparr>sq_jobs := map (legacy_job_row M fresh) (before @ [r])\<rparr>)"
    by (auto simp: insert_legacy_job_def Let_def Cons.prems(4) list_ex_iff columns row_conflicts_def)
  with Cons.IH [of "before @ [r]"] Cons.prems show ?case by simp
qed simp

lemma find_legacy_row:
  assumes "distinct (concat (map legacy_ids_of jobs))" "job \<in> set jobs" "st_legacy_id job = Some k"
  shows "find (\<lambda>r. q_legacy_id r = Some (uint k)) (map (sql_row_of M) jobs) = Some (sql_row_of M job)"
  using assms(1,2)
proof (induction jobs)
  case (Cons j jobs)
  show ?case
  proof (cases "st_legacy_id j = Some k")
    case True
    then have "k \<notin> set (concat (map legacy_ids_of jobs))" using Cons.prems(1) by (simp add: legacy_ids_of_def)
    then have "job \<notin> set jobs" using assms(3) by (auto simp: legacy_ids_of_def)
    with True Cons.prems(2) show ?thesis by simp
  next
    case False
    then have "j \<noteq> job" "map_option uint (st_legacy_id j) \<noteq> Some (uint k)"
      using assms(3) by (auto simp: word_uint_eq_iff)
    with Cons show ?thesis by auto
  qed
qed simp

lemma uuid_for_legacy:
  assumes "dyn_libs_ok (ml_dyn M)" "distinct (concat (map legacy_ids_of jobs))" "sq_jobs db = map (sql_row_of M) jobs"
    "job \<in> set jobs" "st_legacy_id job = Some k"
  shows "uuid_for_legacy_id M db (uint k) = Inr (Some (st_id job))"
  using find_legacy_row [OF assms(2,4,5), of M] dyn_libs_okD(1) [OF assms(1)]
  by (simp add: uuid_for_legacy_id_def assms(3) traverse_def ok_or_def)

lemma legacy_to_uuidD: "legacy_to_uuid jobs k = Some i \<Longrightarrow> \<exists>job \<in> set jobs. st_legacy_id job = Some k \<and> st_id job = i"
  unfolding legacy_to_uuid_def legacy_ids_of_def by (drule map_of_SomeD) (auto split: option.splits intro: bexI)

definition donation_stored :: "migrate_libs \<Rightarrow> string DonationColumns \<Rightarrow> StoredDonation \<Rightarrow> bool" where
  "donation_stored M r d = (qd_job_id r = dl_uuid_str (ml_dyn M) (sd_job_id d) \<and> stored_donation_columns (sd_job_id d) r = d)"

lemma list_all2_in: "list_all2 P xs ys \<Longrightarrow> x \<in> set xs \<Longrightarrow> \<exists>y \<in> set ys. P x y"
  by (induction rule: list_all2_induct) auto

lemma insert_legacy_donations:
  assumes ok: "dyn_libs_ok (ml_dyn M)" and legacy: "distinct (concat (map legacy_ids_of jobs))"
    and unique: "distinct (map sd_job_id (before @ ds))" "distinct (map sd_object_key (before @ ds))"
    and rows: "list_all2 (\<lambda>r d. \<exists>k. qd_job_id r = uint k \<and> legacy_to_uuid jobs k = Some (sd_job_id d)
        \<and> stored_donation_columns (sd_job_id d) r = d) rows ds"
    and db: "sq_jobs db = map (sql_row_of M) jobs" "list_all2 (donation_stored M) (sq_donations db) before"
  shows "\<exists>stored. each_row (insert_legacy_donation M) rows db = (Inr (), db\<lparr>sq_donations := stored\<rparr>)
    \<and> list_all2 (donation_stored M) stored (before @ ds)"
  using rows unique db
proof (induction rows arbitrary: ds before db)
  case Nil
  then show ?case by (intro exI [of _ "sq_donations db"]) simp
next
  case (Cons r rows)
  then obtain d ds' k where ds: "ds = d # ds'" and k: "qd_job_id r = uint k" "legacy_to_uuid jobs k = Some (sd_job_id d)"
      "stored_donation_columns (sd_job_id d) r = d" and rest: "list_all2 (\<lambda>r d. \<exists>k. qd_job_id r = uint k \<and> legacy_to_uuid jobs k = Some (sd_job_id d)
        \<and> stored_donation_columns (sd_job_id d) r = d) rows ds'"
    by (auto simp: list_all2_Cons1)
  obtain job where "job \<in> set jobs" "st_legacy_id job = Some k" "st_id job = sd_job_id d" using legacy_to_uuidD [OF k(2)] by blast
  with uuid_for_legacy [OF ok legacy Cons.prems(4)] have found: "uuid_for_legacy_id M db (qd_job_id r) = Inr (Some (sd_job_id d))"
    by (metis k(1))
  define new where "new = \<lparr>qd_job_id = dl_uuid_str (ml_dyn M) (sd_job_id d), qd_object_key = qd_object_key r, qd_comment = qd_comment r,
      qd_solve_is_invalid = qd_solve_is_invalid r, qd_license_version = qd_license_version r, qd_donated_at = qd_donated_at r\<rparr>"
  have new: "donation_stored M new d" using k(3) by (simp add: donation_stored_def new_def stored_donation_columns_def)
  have key: "qd_object_key x = sd_object_key y" if "donation_stored M x y" for x y
    using that unfolding donation_stored_def stored_donation_columns_def by (metis StoredDonation.select_convs(2))
  have free: "qd_job_id x \<noteq> qd_job_id new" "qd_object_key x \<noteq> qd_object_key new" if "x \<in> set (sq_donations db)" for x
  proof -
    obtain y where y: "y \<in> set before" "donation_stored M x y" using list_all2_in [OF Cons.prems(5) \<open>x \<in> set (sq_donations db)\<close>] by blast
    with distinct_key_new [OF Cons.prems(2) [unfolded ds] y(1)] show "qd_job_id x \<noteq> qd_job_id new"
      by (simp add: donation_stored_def new_def uuid_str_eq [OF ok])
    from distinct_key_new [OF Cons.prems(3) [unfolded ds] y(1)] key [OF y(2)] key [OF new] show "qd_object_key x \<noteq> qd_object_key new" by simp
  qed
  then have "insert_legacy_donation M r db = Inr (db\<lparr>sq_donations := sq_donations db @ [new]\<rparr>)"
    by (auto simp: insert_legacy_donation_def found and_then_def Let_def new_def [symmetric] list_ex_iff)
  moreover have "list_all2 (donation_stored M) (sq_donations db @ [new]) (before @ [d])"
    using Cons.prems(5) new by (simp add: list_all2_appendI)
  ultimately show ?case
    using Cons.IH [OF rest, of "before @ [d]" "db\<lparr>sq_donations := sq_donations db @ [new]\<rparr>"] Cons.prems(2-4) ds by simp
qed

lemma find_key:
  "distinct (map k xs) \<Longrightarrow> x \<in> set xs \<Longrightarrow> find (\<lambda>y. k y = k x) xs = Some x"
  by (induction xs) (auto simp: image_iff)

lemma insert_legacy_outboxes:
  assumes ok: "dyn_libs_ok (ml_dyn M)" and legacy: "distinct (concat (map legacy_ids_of jobs))" and ids: "distinct (map st_id jobs)"
    and rows: "distinct (map q_id rows)" "list_all2 (\<lambda>r job. \<exists>k. q_id r = uint k \<and> st_legacy_id job = Some k) rows jobs"
    and entries: "fst ` set entries \<subseteq> set (map q_id rows)"
    and db: "sq_jobs db = map (sql_row_of M) jobs" "sq_legacy_jobs db = rows"
  shows "\<exists>stored. each_row (insert_legacy_outbox M) entries db = (Inr (), db\<lparr>sq_outbox := stored\<rparr>)
    \<and> fst ` set stored \<subseteq> fst ` set (sq_outbox db) \<union> (\<lambda>job. dl_uuid_str (ml_dyn M) (st_id job)) ` set jobs
    \<and> (\<forall>(r, job) \<in> set (zip rows jobs). map_of stored (dl_uuid_str (ml_dyn M) (st_id job))
        = (case map_of (sq_outbox db) (dl_uuid_str (ml_dyn M) (st_id job)) of Some v \<Rightarrow> Some v
           | None \<Rightarrow> map_option (delivered_unless_queued (q_status r)) (map_of entries (q_id r))))"
  using entries db
proof (induction entries arbitrary: db)
  case Nil
  then show ?case by (intro exI [of _ "sq_outbox db"]) (auto split: option.splits)
next
  case (Cons entry entries)
  obtain i delivered where entry: "entry = (i, delivered)" by (cases entry)
  with Cons.prems(1) obtain r0 where r0: "r0 \<in> set rows" "q_id r0 = i" by auto
  obtain job0 where pair: "(r0, job0) \<in> set (zip rows jobs)"
    using in_set_impl_in_set_zip1 [OF list_all2_lengthD [OF rows(2)] r0(1)] by blast
  with rows(2) obtain k where k: "q_id r0 = uint k" "st_legacy_id job0 = Some k" by (auto simp: list_all2_iff)
  have job0: "job0 \<in> set jobs" using pair by (rule set_zip_rightD)
  let ?key = "\<lambda>job. dl_uuid_str (ml_dyn M) (st_id job)"
  have found: "find (\<lambda>r. q_id r = i) (sq_legacy_jobs db) = Some r0" "uuid_for_legacy_id M db i = Inr (Some (st_id job0))"
    using find_key [OF rows(1) r0(1)] r0(2) uuid_for_legacy [OF ok legacy Cons.prems(2) job0 k(2)] k(1) by (simp_all add: Cons.prems(3))
  have same: "r = r0 \<longleftrightarrow> q_id r = i" "job = job0 \<longleftrightarrow> r = r0" "?key job = ?key job0 \<longleftrightarrow> job = job0" if "(r, job) \<in> set (zip rows jobs)" for r job
  proof -
    have r: "r \<in> set rows" "job \<in> set jobs" using that by (auto dest: set_zip_leftD set_zip_rightD)
    show one: "r = r0 \<longleftrightarrow> q_id r = i" using distinct_map_same [OF rows(1) r(1) r0(1)] r0(2) by auto
    show "?key job = ?key job0 \<longleftrightarrow> job = job0" using distinct_map_same [OF ids r(2) job0] by (auto simp: uuid_str_eq [OF ok])
    have "distinct rows" "distinct jobs" using rows(1) ids by (simp_all add: distinct_map)
    moreover obtain a where "a < length rows" "a < length jobs" "r = rows ! a" "job = jobs ! a"
      using \<open>(r, job) \<in> set (zip rows jobs)\<close> by (auto simp: in_set_zip)
    moreover obtain b where "b < length rows" "b < length jobs" "r0 = rows ! b" "job0 = jobs ! b" using pair by (auto simp: in_set_zip)
    ultimately show "job = job0 \<longleftrightarrow> r = r0" by (simp add: nth_eq_iff_index_eq)
  qed
  let ?note = "delivered_unless_queued (q_status r0) delivered"
  define db1 where "db1 = (if list_ex (\<lambda>(k, _). k = ?key job0) (sq_outbox db) then db
    else db\<lparr>sq_outbox := sq_outbox db @ [(?key job0, ?note)]\<rparr>)"
  have step: "insert_legacy_outbox M entry db = Inr db1"
    by (simp add: insert_legacy_outbox_def found entry and_then_def db1_def Let_def)
  have "list_ex (\<lambda>(k, _). k = ?key job0) (sq_outbox db) \<longleftrightarrow> map_of (sq_outbox db) (?key job0) \<noteq> None"
    by (auto simp: list_ex_iff map_of_eq_None_iff image_iff) force
  then have db1: "sq_jobs db1 = sq_jobs db" "sq_legacy_jobs db1 = sq_legacy_jobs db" "db1\<lparr>sq_outbox := o1\<rparr> = db\<lparr>sq_outbox := o1\<rparr>"
    "fst ` set (sq_outbox db1) \<subseteq> fst ` set (sq_outbox db) \<union> ?key ` set jobs"
    "map_of (sq_outbox db1) x = (case map_of (sq_outbox db) x of Some v \<Rightarrow> Some v | None \<Rightarrow> if x = ?key job0 then Some ?note else None)" for o1 x
    using job0 by (auto simp: db1_def map_add_def split: option.splits)
  from Cons.IH [of db1] Cons.prems db1(1,2) obtain stored where
    stored: "each_row (insert_legacy_outbox M) entries db1 = (Inr (), db1\<lparr>sq_outbox := stored\<rparr>)"
      "fst ` set stored \<subseteq> fst ` set (sq_outbox db1) \<union> ?key ` set jobs"
      "\<forall>(r, job) \<in> set (zip rows jobs). map_of stored (?key job) = (case map_of (sq_outbox db1) (?key job) of Some v \<Rightarrow> Some v
         | None \<Rightarrow> map_option (delivered_unless_queued (q_status r)) (map_of entries (q_id r)))"
    by auto
  have "map_of stored (?key job) = (case map_of (sq_outbox db) (?key job) of Some v \<Rightarrow> Some v
      | None \<Rightarrow> map_option (delivered_unless_queued (q_status r)) (map_of (entry # entries) (q_id r)))"
    if "(r, job) \<in> set (zip rows jobs)" for r job
    using stored(3) that same [OF that] by (auto simp: db1(5) entry split: option.splits)
  moreover have "each_row (insert_legacy_outbox M) (entry # entries) db = (Inr (), db\<lparr>sq_outbox := stored\<rparr>)"
    by (simp add: step stored(1) db1(3))
  moreover have "fst ` set stored \<subseteq> fst ` set (sq_outbox db) \<union> ?key ` set jobs" using stored(2) db1(4) by blast
  ultimately show ?case by blast
qed

text \<open>
  The rows of a legacy schema, with the range of their \<open>BIGINT\<close> columns: the tables of the new schema do
  not exist.
\<close>

definition legacy_store :: "SqlStore \<Rightarrow> bool" where
  "legacy_store db = (table_exists db ''jobs''
     \<and> list_all (\<lambda>t. sq_columns db t = []) [''jobs_v2'', ''validation_donations_v2'', ''queue_outbox_v2'']
     \<and> list_all (\<lambda>r. q_id r \<le> i64_max \<and> q_attempts r \<le> i64_max) (sq_legacy_jobs db)
     \<and> list_all (\<lambda>d. qd_job_id d \<le> i64_max) (sq_legacy_donations db))"

lemma from_i64_Inr: "from_i64 what v = Inr w \<Longrightarrow> v \<le> i64_max \<Longrightarrow> v = uint w"
  by (auto simp: from_i64_def unsigned_of_int take_bit_int_eq_self split: if_splits)

lemma legacy_row_read:
  assumes "stored_job_from_legacy_row M db r = Inr job" "q_id r \<le> i64_max" "q_attempts r \<le> i64_max"
  shows "legacy_job_row M fresh r = sql_row_of M job" "q_id r = uint (st_astrometry_id job)"
    "st_legacy_id job = Some (st_astrometry_id job)" "q_object_key r = st_object_key job"
    "Some (st_notification_delivered_at job) = map_option (delivered_unless_queued (q_status r)) (map_of (sq_legacy_outbox db) (q_id r))"
proof -
  from assms(1) obtain k delivered i n where k: "from_i64 ''legacy job ID'' (q_id r) = Inr k"
    and "map_of (sq_legacy_outbox db) (q_id r) = Some delivered" "legacy_object_id (ml_dyn M) (q_object_key r) = Some i"
    and n: "from_i64 ''attempt count'' (q_attempts r) = Inr n"
    and "job = stored_columns i k (Some k) n (delivered_unless_queued (q_status r) delivered) r"
    by (auto simp: stored_job_from_legacy_row_def)
  moreover note from_i64_Inr [OF k assms(2)] from_i64_Inr [OF n assms(3)]
  ultimately show "legacy_job_row M fresh r = sql_row_of M job" "q_id r = uint (st_astrometry_id job)"
    "st_legacy_id job = Some (st_astrometry_id job)" "q_object_key r = st_object_key job"
    "Some (st_notification_delivered_at job) = map_option (delivered_unless_queued (q_status r)) (map_of (sq_legacy_outbox db) (q_id r))"
    by (simp_all add: legacy_job_row_def sql_row_of_def stored_columns_def)
qed

lemma schema_each: "ensure_sql_schema_supported db ts = Inr () \<Longrightarrow> (t, c) \<in> set ts \<Longrightarrow> set (sq_columns db t) = set c"
  by (induction ts) (auto split: if_splits)

lemma created_table_exists: "table_exists db t \<Longrightarrow> table_exists (fold create_table ts db) t"
  by (simp add: table_exists_def create_tables_columns)

lemma distinct_jobs_mset:
  assumes "mset xs = mset ys" "distinct_jobs xs"
  shows "distinct_jobs ys"
proof -
  have keys: "distinct (map st_id ys) = distinct (map st_id xs)" "distinct (map st_astrometry_id ys) = distinct (map st_astrometry_id xs)"
    "distinct (map st_object_key ys) = distinct (map st_object_key xs)"
    "distinct (concat (map legacy_ids_of ys)) = distinct (concat (map legacy_ids_of xs))"
    using assms(1) mset_concat_map_cong [OF assms(1)] by (metis mset_eq_imp_distinct_iff mset_map)+
  with assms(2) show ?thesis by (simp add: distinct_jobs_def)
qed

text \<open>What a legacy snapshot says of the rows it was read from.\<close>

lemma legacy_snapshot_rows:
  assumes store: "legacy_store db" and read: "snapshot_legacy_sql M db = Inr s"
  obtains jobs donations where "s = new_snapshot jobs donations (sql_clients db)"
    "list_all2 (\<lambda>r job. stored_job_from_legacy_row M db r = Inr job) (sq_legacy_jobs db) jobs"
    "fst ` set (sq_legacy_outbox db) \<subseteq> set (map q_id (sq_legacy_jobs db))"
    "list_all2 (\<lambda>r d. \<exists>k. qd_job_id r = uint k \<and> legacy_to_uuid jobs k = Some (sd_job_id d) \<and> stored_donation_columns (sd_job_id d) r = d)
       (sq_legacy_donations db) donations"
proof -
  from read obtain jobs donations where s: "s = new_snapshot jobs donations (sql_clients db)"
    and jobs: "map (stored_job_from_legacy_row M db) (sq_legacy_jobs db) = map Inr jobs"
    and outbox: "ensure_no_orphan_outbox (sq_legacy_outbox db) (map q_id (sq_legacy_jobs db)) = Inr ()"
    and donations: "map (\<lambda>d. and_then (from_i64 ''validation contribution job ID'' (qd_job_id d)) (\<lambda>legacy_id.
         map_sum id (\<lambda>i. stored_donation_columns i d) (ok_or (MissingReference ''legacy job'') (legacy_to_uuid jobs legacy_id))))
         (sq_legacy_donations db) = map Inr donations"
    by (auto simp: snapshot_legacy_sql_def collect_results_Inr)
  note all2 = list.rel_eq [symmetric] list.rel_map
  have "list_all2 (\<lambda>r job. stored_job_from_legacy_row M db r = Inr job) (sq_legacy_jobs db) jobs"
    using jobs unfolding all2 .
  moreover have "list_all2 (\<lambda>r d. \<exists>k. qd_job_id r = uint k \<and> legacy_to_uuid jobs k = Some (sd_job_id d) \<and> stored_donation_columns (sd_job_id d) r = d)
       (sq_legacy_donations db) donations"
    using donations unfolding all2
  proof (rule list.rel_mono_strong)
    fix r d
    assume "r \<in> set (sq_legacy_donations db)" and d: "and_then (from_i64 ''validation contribution job ID'' (qd_job_id r)) (\<lambda>legacy_id.
         map_sum id (\<lambda>i. stored_donation_columns i r) (ok_or (MissingReference ''legacy job'') (legacy_to_uuid jobs legacy_id))) = Inr d"
    then have "qd_job_id r \<le> i64_max" using store by (simp add: legacy_store_def list_all_iff)
    with d show "\<exists>k. qd_job_id r = uint k \<and> legacy_to_uuid jobs k = Some (sd_job_id d) \<and> stored_donation_columns (sd_job_id d) r = d"
      by (auto simp: map_sum_Inr stored_donation_columns_def dest: from_i64_Inr)
  qed
  moreover have "fst ` set (sq_legacy_outbox db) \<subseteq> set (map q_id (sq_legacy_jobs db))"
    using outbox by (auto simp: ensure_no_orphan_outbox_def list_all_iff)
  ultimately show thesis using s that by blast
qed

text \<open>The conversion in place, given the rows of a valid legacy store.\<close>

lemma migrate_legacy_rows:
  assumes ok: "dyn_libs_ok (ml_dyn M)" and store: "legacy_store db"
    and jobs: "list_all2 (\<lambda>r job. stored_job_from_legacy_row M db r = Inr job) (sq_legacy_jobs db) jobs"
    and outbox: "fst ` set (sq_legacy_outbox db) \<subseteq> set (map q_id (sq_legacy_jobs db))"
    and donations: "list_all2 (\<lambda>r d. \<exists>k. qd_job_id r = uint k \<and> legacy_to_uuid jobs k = Some (sd_job_id d) \<and> stored_donation_columns (sd_job_id d) r = d)
       (sq_legacy_donations db) ds"
    and unique: "distinct_jobs jobs" "distinct (map sd_job_id ds)" "distinct (map sd_object_key ds)"
    and db1: "sq_legacy_jobs db1 = sq_legacy_jobs db" "sq_legacy_donations db1 = sq_legacy_donations db" "sq_legacy_outbox db1 = sq_legacy_outbox db"
      "sq_jobs db1 = []" "sq_donations db1 = []" "sq_outbox db1 = []"
      "table_exists db1 ''jobs''" "table_exists db1 ''validation_donations''" "table_exists db1 ''queue_outbox''"
  obtains stored box where
    "migrate_legacy_jobs M fresh db1 = (Inr (), db1\<lparr>sq_jobs := map (sql_row_of M) jobs, sq_donations := stored, sq_outbox := box\<rparr>)"
    "list_all2 (donation_stored M) stored ds"
    "fst ` set box \<subseteq> (\<lambda>job. dl_uuid_str (ml_dyn M) (st_id job)) ` set jobs"
    "\<And>job. job \<in> set jobs \<Longrightarrow> map_of box (dl_uuid_str (ml_dyn M) (st_id job)) = Some (st_notification_delivered_at job)"
proof -
  let ?rows = "sq_legacy_jobs db"
  have in_range: "\<And>r. r \<in> set ?rows \<Longrightarrow> q_id r \<le> i64_max \<and> q_attempts r \<le> i64_max"
    using store by (auto simp: legacy_store_def list_all_iff)
  have rows: "list_all2 (\<lambda>r job. legacy_job_row M fresh r = sql_row_of M job \<and> q_id r = uint (st_astrometry_id job)
      \<and> st_legacy_id job = Some (st_astrometry_id job) \<and> q_object_key r = st_object_key job
      \<and> Some (st_notification_delivered_at job) = map_option (delivered_unless_queued (q_status r)) (map_of (sq_legacy_outbox db) (q_id r))) ?rows jobs"
    using jobs
  proof (rule list.rel_mono_strong)
    fix r job
    assume "r \<in> set ?rows" "stored_job_from_legacy_row M db r = Inr job"
    from legacy_row_read [OF this(2)] in_range [OF this(1)]
    show "legacy_job_row M fresh r = sql_row_of M job \<and> q_id r = uint (st_astrometry_id job)
      \<and> st_legacy_id job = Some (st_astrometry_id job) \<and> q_object_key r = st_object_key job
      \<and> Some (st_notification_delivered_at job) = map_option (delivered_unless_queued (q_status r)) (map_of (sq_legacy_outbox db) (q_id r))"
      by blast
  qed
  then have maps: "map (legacy_job_row M fresh) ?rows = map (sql_row_of M) jobs" "map q_id ?rows = map (uint \<circ> st_astrometry_id) jobs"
    "map q_object_key ?rows = map st_object_key jobs"
    by (induction rule: list_all2_induct) auto
  have u: "distinct (map st_id jobs)" "distinct (map st_astrometry_id jobs)" "distinct (map st_object_key jobs)"
    "distinct (concat (map legacy_ids_of jobs))" using unique(1) by (simp_all add: distinct_jobs_def)
  have keys: "distinct (map (q_id \<circ> legacy_job_row M fresh) ?rows)" "distinct (map q_id ?rows)" "distinct (map q_object_key ?rows)"
  proof -
    have "map (q_id \<circ> legacy_job_row M fresh) ?rows = map (\<lambda>job. dl_uuid_str (ml_dyn M) (st_id job)) jobs"
      using arg_cong [OF maps(1), of "map q_id"] by (simp add: comp_def)
    then show "distinct (map (q_id \<circ> legacy_job_row M fresh) ?rows)"
      using u(1) by (simp add: distinct_map inj_on_def uuid_str_eq [OF ok])
    show "distinct (map q_id ?rows)" using u(2) unfolding maps(2) by (auto simp: distinct_map inj_on_def word_uint_eq_iff)
    show "distinct (map q_object_key ?rows)" using u(3) unfolding maps(3) .
  qed
  define db2 where "db2 = db1\<lparr>sq_jobs := map (sql_row_of M) jobs\<rparr>"
  have step1: "each_row (insert_legacy_job M fresh) ?rows db1 = (Inr (), db2)"
    using insert_legacy_jobs [of M fresh "[]" ?rows db1] keys db1(4) by (simp add: db2_def maps(1))
  from insert_legacy_donations [OF ok u(4), of "[]" ds "sq_legacy_donations db" db2] unique donations db1(5)
  obtain stored where step2: "each_row (insert_legacy_donation M) (sq_legacy_donations db) db2 = (Inr (), db2\<lparr>sq_donations := stored\<rparr>)"
    and stored: "list_all2 (donation_stored M) stored ds" by (auto simp: db2_def)
  have legacy: "list_all2 (\<lambda>r job. \<exists>k. q_id r = uint k \<and> st_legacy_id job = Some k) ?rows jobs"
    using rows by (rule list.rel_mono_strong) auto
  define db3 where "db3 = db2\<lparr>sq_donations := stored\<rparr>"
  from insert_legacy_outboxes [OF ok u(4,1) keys(2) legacy outbox, of db3] db1(1,6)
  obtain box where step3: "each_row (insert_legacy_outbox M) (sq_legacy_outbox db) db3 = (Inr (), db3\<lparr>sq_outbox := box\<rparr>)"
    and box: "fst ` set box \<subseteq> (\<lambda>job. dl_uuid_str (ml_dyn M) (st_id job)) ` set jobs"
      "\<forall>(r, job) \<in> set (zip ?rows jobs). map_of box (dl_uuid_str (ml_dyn M) (st_id job))
        = map_option (delivered_unless_queued (q_status r)) (map_of (sq_legacy_outbox db) (q_id r))"
    by (auto simp: db3_def db2_def)
  have same: "sq_legacy_donations db2 = sq_legacy_donations db" "sq_legacy_outbox db3 = sq_legacy_outbox db"
    "table_exists db2 ''validation_donations''" "table_exists db3 ''queue_outbox''"
    using db1 by (simp_all add: db2_def db3_def table_exists_def)
  have "migrate_legacy_jobs M fresh db1 = (Inr (), db3\<lparr>sq_outbox := box\<rparr>)"
    using db1(1,7) same by (simp add: migrate_legacy_jobs_def step1 step2 db3_def [symmetric] step3)
  moreover have "map_of box (dl_uuid_str (ml_dyn M) (st_id job)) = Some (st_notification_delivered_at job)" if "job \<in> set jobs" for job
  proof -
    obtain r where r: "(r, job) \<in> set (zip ?rows jobs)"
      using in_set_impl_in_set_zip2 [OF list_all2_lengthD [OF rows] \<open>job \<in> set jobs\<close>] by blast
    with rows have "Some (st_notification_delivered_at job) = map_option (delivered_unless_queued (q_status r)) (map_of (sq_legacy_outbox db) (q_id r))"
      by (auto simp: list_all2_iff)
    with box(2) r show ?thesis by fastforce
  qed
  ultimately show thesis using that [of box stored] stored box(1) by (simp add: db3_def db2_def)
qed

text \<open>Reading the legacy tables, and reading the new tables after the conversion.\<close>

lemma legacy_conversion:
  assumes ok: "dyn_libs_ok (ml_dyn M)" and store: "legacy_store db" and read: "sql_snapshot M db = Inr s"
    and valid: "validate_snapshot M s = Inr u"
  obtains db' where "sql_initialize M fresh db = (Inr (), db')" "sql_snapshot M db' = Inr s"
proof -
  from store have exists: "table_exists db ''jobs''" and none: "sq_columns db ''jobs_v2'' = []"
      "sq_columns db ''validation_donations_v2'' = []" "sq_columns db ''queue_outbox_v2'' = []"
    by (simp_all add: legacy_store_def)
  then have "\<not> table_exists db ''jobs_v2''" by (simp add: table_exists_def)
  with read exists have schema: "ensure_sql_schema_supported db legacy_tables = Inr ()"
    and legacy: "snapshot_legacy_sql M db = Inr s" by (simp_all add: sql_snapshot_def)
  from legacy_snapshot_rows [OF store legacy] obtain jobs ds where s: "s = new_snapshot jobs ds (sql_clients db)"
    and rows: "list_all2 (\<lambda>r job. stored_job_from_legacy_row M db r = Inr job) (sq_legacy_jobs db) jobs"
      "fst ` set (sq_legacy_outbox db) \<subseteq> set (map q_id (sq_legacy_jobs db))"
      "list_all2 (\<lambda>r d. \<exists>k. qd_job_id r = uint k \<and> legacy_to_uuid jobs k = Some (sd_job_id d) \<and> stored_donation_columns (sd_job_id d) r = d)
       (sq_legacy_donations db) ds" by blast
  have msets: "mset jobs = mset (ss_jobs s)" "mset ds = mset (ss_donations s)" "mset (sql_clients db) = mset (ss_clients s)"
    by (simp_all add: s new_snapshot_def)
  note d = valid_snapshotD [OF valid]
  have unique: "distinct_jobs jobs" using distinct_jobs_mset [OF msets(1) [symmetric] valid_distinct_jobs [OF valid]] .
  have unique_ds: "distinct (map sd_job_id ds)" "distinct (map sd_object_key ds)"
    using d(5,6) msets(2) by (metis mset_eq_imp_distinct_iff mset_map)+
  define db1 where "db1 = fold create_table uuid_tables db"
  have tables: "table_exists db ''validation_donations''" "table_exists db ''queue_outbox''" "table_exists db ''client_service''"
    and client_columns: "set (sq_columns db ''client_service'') = set [''owner'', ''last_served_at'']"
  proof -
    have columns: "set (sq_columns db ''validation_donations'') = set donation_columns"
      "set (sq_columns db ''queue_outbox'') = set [''job_id'', ''delivered_at'']"
      "set (sq_columns db ''client_service'') = set [''owner'', ''last_served_at'']"
      by (rule schema_each [OF schema]; simp add: legacy_tables_def)+
    then show "set (sq_columns db ''client_service'') = set [''owner'', ''last_served_at'']" by blast
    show "table_exists db ''validation_donations''" "table_exists db ''queue_outbox''" "table_exists db ''client_service''"
      using columns unfolding table_exists_def donation_columns_def by (metis list.distinct(1) set_empty)+
  qed
  note kept = create_tables_keep [of uuid_tables db, folded db1_def] create_table_rows [OF none, folded db1_def]
    created_table_exists [of db _ uuid_tables, folded db1_def]
  have schema1: "ensure_sql_schema_supported db1 uuid_tables = Inr ()"
    unfolding db1_def
  proof (rule opened_schema)
    have "list_all (\<lambda>(t, c). sq_columns db t = [] \<or> set (sq_columns db t) = set c) uuid_tables"
      by (simp add: uuid_tables_def none client_columns)
    then show "sq_columns db t = [] \<or> set (sq_columns db t) = set c" if "(t, c) \<in> set uuid_tables" for t c
      using that by (auto simp: list_all_iff)
  qed
  obtain stored box where
    done1: "migrate_legacy_jobs M fresh db1 = (Inr (), db1\<lparr>sq_jobs := map (sql_row_of M) jobs, sq_donations := stored, sq_outbox := box\<rparr>)"
    and stored: "list_all2 (donation_stored M) stored ds"
    and box: "fst ` set box \<subseteq> (\<lambda>job. dl_uuid_str (ml_dyn M) (st_id job)) ` set jobs"
      "\<And>job. job \<in> set jobs \<Longrightarrow> map_of box (dl_uuid_str (ml_dyn M) (st_id job)) = Some (st_notification_delivered_at job)"
    by (rule migrate_legacy_rows [OF ok store rows unique unique_ds kept(1,3,2,4,6,5) kept(8) [OF exists] kept(8) [OF tables(1)]
      kept(8) [OF tables(2)]]) (rule that, assumption+)
  let ?db' = "db1\<lparr>sq_jobs := map (sql_row_of M) jobs, sq_donations := stored, sq_outbox := box\<rparr>"
  have "list_all2 (\<lambda>r d. dl_uuid_parse (ml_dyn M) (qd_job_id r) = Some (sd_job_id d) \<and> stored_donation_columns (sd_job_id d) r = d) stored ds"
    using stored by (rule list.rel_mono_strong) (simp add: donation_stored_def dyn_libs_okD(1) [OF ok])
  then have "sql_snapshot M ?db' = Inr s"
    using msets box schema1 kept(7) tables(3) schema_only_columns [of ?db' db1]
    by (intro snapshot_sql_tables [OF ok valid _ msets(1), of ?db' ds]) (simp_all add: s sql_clients_def)
  then show thesis using that done1 by (simp add: sql_initialize_def db1_def [symmetric])
qed

end
