(* ===== verification/Migration_Properties.thy ===== *)
theory Migration_Properties
  imports Migration_Sql
begin

text \<open>
  What \<open>seiza-server migrate-store\<close> promises: a migration into a new store leaves there exactly the snapshot
  of the source, one that was interrupted is completed by \<open>--resume\<close>, the source is only read, and the
  legacy tables are read as if they had been converted first.
\<close>

section \<open>Partial copies\<close>

lemma validate_jobs_append:
  "validate_jobs M ids as ls ks (jobs @ later) = Inr u \<Longrightarrow> validate_jobs M ids as ls ks jobs = Inr ()"
  by (induction jobs arbitrary: ids as ls ks) auto

lemma validate_donations_iff:
  "validate_donations M ids donated keys ds = Inr () \<longleftrightarrow>
     distinct (map sd_job_id ds) \<and> distinct (map sd_object_key ds)
     \<and> (\<forall>d \<in> set ds. sd_job_id d \<in> set ids \<and> sd_job_id d \<notin> set donated \<and> sd_object_key d \<notin> set keys \<and> time_ok M (sd_donated_at d))"
proof (induction ds arbitrary: donated keys)
  case (Cons d ds)
  show ?case by (auto simp: Cons image_iff)
qed simp

lemma validate_clients_append: "validate_clients M owners (cs @ later) = Inr u \<Longrightarrow> validate_clients M owners cs = Inr ()"
  by (induction cs arbitrary: owners) (auto split: if_splits)

text \<open>What the first \<open>n\<close> writes of an import of \<open>s\<close> hold.\<close>

definition partial_copy :: "nat \<Rightarrow> StoreSnapshot \<Rightarrow> StoreSnapshot" where
  "partial_copy n s = (let jobs = take n (ss_jobs s) in
     \<lparr>ss_jobs = jobs, ss_donations = filter (\<lambda>d. sd_job_id d \<in> st_id ` set jobs) (ss_donations s),
      ss_clients = take (n - length (ss_jobs s)) (ss_clients s)\<rparr>)"

lemma partial_copy_sel:
  "ss_jobs (partial_copy n s) = take n (ss_jobs s)"
  "ss_donations (partial_copy n s) = filter (\<lambda>d. sd_job_id d \<in> st_id ` set (take n (ss_jobs s))) (ss_donations s)"
  "ss_clients (partial_copy n s) = take (n - length (ss_jobs s)) (ss_clients s)"
  by (simp_all add: partial_copy_def Let_def)

lemma partial_copy_valid:
  assumes "validate_snapshot M s = Inr u"
  shows "validate_snapshot M (partial_copy n s) = Inr ()"
proof -
  from assms have jobs: "validate_jobs M [] [] [] [] (ss_jobs s) = Inr ()"
    and donations: "validate_donations M (map st_id (ss_jobs s)) [] [] (ss_donations s) = Inr ()"
    and clients: "validate_clients M [] (ss_clients s) = Inr ()" by (auto simp: validate_snapshot_def)
  have "validate_jobs M [] [] [] [] (take n (ss_jobs s)) = Inr ()"
    using validate_jobs_append [of M "[]" "[]" "[]" "[]" "take n (ss_jobs s)" "drop n (ss_jobs s)"] jobs by simp
  moreover have "validate_donations M (map st_id (take n (ss_jobs s))) [] [] (ss_donations (partial_copy n s)) = Inr ()"
    using donations unfolding validate_donations_iff partial_copy_sel by (auto simp: distinct_map_filter)
  moreover have "validate_clients M [] (take k (ss_clients s)) = Inr ()" for k
    using validate_clients_append [of M "[]" "take k (ss_clients s)" "drop k (ss_clients s)"] clients by simp
  ultimately show ?thesis by (simp add: validate_snapshot_def partial_copy_sel)
qed

lemma arranged_iff:
  "arranged s \<longleftrightarrow> sorted (map st_id (ss_jobs s)) \<and> sorted (map sd_job_id (ss_donations s)) \<and> sorted (map sc_owner (ss_clients s))"
proof
  assume "arranged s"
  then have "ss_jobs s = sort_key st_id (ss_jobs s)" "ss_donations s = sort_key sd_job_id (ss_donations s)"
    "ss_clients s = sort_key sc_owner (ss_clients s)"
    unfolding arranged_def new_snapshot_def by (cases s; simp)+
  then show "sorted (map st_id (ss_jobs s)) \<and> sorted (map sd_job_id (ss_donations s)) \<and> sorted (map sc_owner (ss_clients s))"
    by (metis sorted_sort_key)
qed (simp add: arranged_def new_snapshot_def sort_key_id_if_sorted)

lemma partial_copy_arranged: "arranged s \<Longrightarrow> arranged (partial_copy n s)"
  unfolding arranged_iff partial_copy_sel
  by (simp add: sorted_filter sorted_wrt_take flip: take_map)

lemma partial_copy_subset:
  assumes "validate_snapshot M s = Inr u"
  shows "ensure_subset_of (partial_copy n s) s = Inr ()"
proof -
  note d = valid_snapshotD [OF assms]
  show ?thesis
    by (auto simp: ensure_subset_of_def all_in_source_def ensure_def list_all_iff and_then_def partial_copy_sel
      last_with_eq [OF d(1)] last_with_eq [OF d(5)] last_with_eq [OF d(7)] dest: in_set_takeD)
qed

definition import_batches :: "dyn_libs \<Rightarrow> StoreSnapshot \<Rightarrow> (string \<times> Item) list list" where
  "import_batches L s = map (stored_job_puts L s) (ss_jobs s) @ map client_puts (ss_clients s)"

lemma partial_copy_batches:
  assumes "validate_snapshot M s = Inr u"
  shows "import_batches L (partial_copy n s) = take n (import_batches L s)"
proof -
  have "last_with sd_job_id (ss_donations (partial_copy n s)) (st_id job) = last_with sd_job_id (ss_donations s) (st_id job)"
    if "job \<in> set (take n (ss_jobs s))" for job
  proof -
    have "distinct (map sd_job_id (ss_donations s))" "distinct (map sd_job_id (ss_donations (partial_copy n s)))"
      using valid_snapshotD(5) [OF assms] valid_snapshotD(5) [OF partial_copy_valid [OF assms]] by auto
    note eq = last_with_eq [OF this(1), of "st_id job"] last_with_eq [OF this(2), of "st_id job"]
    have "last_with sd_job_id (ss_donations (partial_copy n s)) (st_id job) = Some d
        \<longleftrightarrow> last_with sd_job_id (ss_donations s) (st_id job) = Some d" for d
      using that unfolding eq by (auto simp: partial_copy_sel)
    then show ?thesis by (metis not_Some_eq)
  qed
  then have "map (stored_job_puts L (partial_copy n s)) (take n (ss_jobs s)) = map (stored_job_puts L s) (take n (ss_jobs s))"
    by (intro map_cong refl) (simp add: stored_job_puts_def)
  then show ?thesis by (simp add: import_batches_def partial_copy_sel take_map)
qed

lemma partial_table:
  assumes "dyn_libs_ok L" "validate_snapshot M s = Inr u"
  shows "dyn_put_each True (take n (import_batches L s)) Map.empty = (Inr (), table_of L (partial_copy n s))"
  using dyn_import_eq [OF assms(1) partial_copy_valid [OF assms(2)], of False Map.empty]
  by (simp add: dyn_import_def flip: import_batches_def partial_copy_batches [OF assms(2)])

text \<open>A write of the whole snapshot over a partial copy leaves the whole table.\<close>

lemma complete_partial:
  assumes "dyn_libs_ok L" "validate_snapshot M s = Inr u"
  shows "table_of L (partial_copy n s) ++ table_of L s = table_of L s"
proof -
  have table: "table_of L s = map_of (concat (import_batches L s))"
    by (simp only: table_of_def import_batches_def snapshot_puts)
  have "table_of L (partial_copy n s) = map_of (concat (import_batches L (partial_copy n s)))"
    by (simp only: table_of_def import_batches_def snapshot_puts)
  then have part: "table_of L (partial_copy n s) = map_of (concat (take n (import_batches L s)))"
    by (simp only: partial_copy_batches [OF assms(2)])
  have "set (concat (take n (import_batches L s))) \<subseteq> set (concat (import_batches L s))"
    by (auto dest: in_set_takeD)
  then have "dom (table_of L (partial_copy n s)) \<subseteq> dom (table_of L s)"
    unfolding part table dom_map_of_conv_image_fst by blast
  then show ?thesis by (auto simp: fun_eq_iff map_add_def split: option.splits)
qed

section \<open>Migrations\<close>

text \<open>A scan lists every item of the table once, in some order.\<close>

definition scans :: "Item list \<Rightarrow> DynDb \<Rightarrow> bool" where
  "scans items db = (distinct items \<and> set items = ran db)"

definition weights_exact :: "dyn_libs \<Rightarrow> StoreSnapshot \<Rightarrow> bool" where
  "weights_exact L s = list_all (\<lambda>job. dl_f64_parse L (dl_f64_str L (st_queue_weight job)) = Some (st_queue_weight job)) (ss_jobs s)"

lemma read_table:
  assumes "dyn_libs_ok L" "validate_snapshot M s = Inr u" "arranged s" "weights_exact L s" "scans items (table_of L s)"
  shows "dyn_snapshot L items = Inr s"
  using assms by (intro dyn_snapshot_table) (auto simp: weights_exact_def scans_def list_all_iff)

lemma sql_snapshot_arranged: "sql_snapshot M db = Inr s \<Longrightarrow> arranged s"
  by (auto simp: sql_snapshot_def snapshot_uuid_sql_def snapshot_legacy_sql_def split: if_splits)

lemma dyn_snapshot_arranged: "dyn_snapshot L items = Inr s \<Longrightarrow> arranged s"
  by (auto simp: dyn_snapshot_def)

text \<open>
  C12: A migration from SQL to DynamoDB that was stopped after any number of its writes is completed by
  running it again with \<open>--resume\<close> (and a first migration, into an empty table, needs no flag): the
  command succeeds, its own check of the copy included, the source is as it was, and the table is the one
  that an undisturbed migration writes.
\<close>

theorem interrupted_migration_completes:
  assumes "dyn_libs_ok (ml_dyn M)" "ma_from args = BackendSqlx" "ma_to args = BackendDynamoDb" "\<not> ma_dry_run args"
    and "sql_snapshot M sql = Inr s" "validate_snapshot M s = Inr ()" "weights_exact (ml_dyn M) s"
    and "ma_resume args \<or> n = 0"
    and "dyn = snd (dyn_put_each True (take n (import_batches (ml_dyn M) s)) Map.empty)"
    and "scans (items_of dyn) dyn" "copied = snd (dyn_import (ml_dyn M) s False Map.empty)" "scans (items_after copied) copied"
  shows "migrate_store M args fresh items_of items_after sql dyn = (Inr (), sql, copied)"
proof -
  let ?L = "ml_dyn M" and ?t = "partial_copy n s"
  note ok = assms(1) and valid = assms(6)
  have arranged: "arranged s" using assms(5) by (rule sql_snapshot_arranged)
  have dyn: "dyn = table_of ?L ?t" using assms(9) partial_table [OF ok valid] by simp
  have copied: "copied = table_of ?L s" using assms(11) dyn_import_eq [OF ok valid, of False Map.empty] by simp
  have weights: "weights_exact ?L ?t"
    using assms(7) by (auto simp: weights_exact_def partial_copy_sel list_all_iff dest: in_set_takeD)
  have target: "dyn_snapshot ?L (items_of dyn) = Inr ?t"
    using assms(10) unfolding dyn
    by (rule read_table [OF ok partial_copy_valid [OF valid] partial_copy_arranged [OF arranged] weights])
  have allowed: "(if ma_resume args then ensure_subset_of ?t s else ensure (snapshot_is_empty ?t) DestinationNotEmpty) = Inr ()"
    using assms(8) partial_copy_subset [OF valid] by (auto simp: snapshot_is_empty_def partial_copy_sel ensure_def)
  have checked: "checked_source M args items_of sql dyn = Inr s"
    using assms(2,3,5) target allowed partial_copy_valid [OF valid] valid
    by (simp add: checked_source_def read_store_def and_then_def)
  have "dyn_import ?L s (ma_resume args) dyn = (Inr (), dyn ++ table_of ?L s)"
    using assms(8) by (intro dyn_import_eq [OF ok valid]) (auto simp: dyn table_of_def snapshot_entries_def entry_puts_def partial_copy_sel)
  then have imported: "dyn_import ?L s (ma_resume args) dyn = (Inr (), copied)"
    by (simp add: dyn copied complete_partial [OF ok valid])
  have "dyn_snapshot ?L (items_after copied) = Inr s"
    using assms(12) unfolding copied by (rule read_table [OF ok valid arranged assms(7)])
  then show ?thesis
    using assms(3,4) valid by (simp add: migrate_store_def checked import_store_def imported read_store_def and_then_def ensure_def)
qed

text \<open>
  C13: A migration from DynamoDB into a SQL database without tables succeeds and only reads the DynamoDB
  table; the snapshot of the new SQL store is the one of the source: no job, contribution or record of a
  client is lost, added or changed, whatever their state.
\<close>

theorem migration_to_sql_is_exact:
  assumes "dyn_libs_ok (ml_dyn M)" "ma_from args = BackendDynamoDb" "ma_to args = BackendSqlx" "\<not> ma_dry_run args"
    and "dyn_snapshot (ml_dyn M) (items_of dyn) = Inr s" "validate_snapshot M s = Inr ()" "no_tables sql"
  shows "\<exists>sql'. migrate_store M args fresh items_of items_after sql dyn = (Inr (), sql', dyn) \<and> sql_snapshot M sql' = Inr s"
proof -
  note ok = assms(1) and valid = assms(6)
  have arranged: "arranged s" using assms(5) by (rule dyn_snapshot_arranged)
  define opened where "opened = fold create_table uuid_tables sql"
  have init: "sql_initialize M fresh sql = (Inr (), opened)" and new: "new_tables opened"
    using initialize_no_tables [OF assms(7)] by (simp_all add: opened_def)
  have empty: "sql_snapshot M opened = Inr (new_snapshot [] [] [])"
    using new new_tables_exist [of opened]
    by (simp add: new_tables_def sql_snapshot_def snapshot_uuid_sql_def ensure_no_orphan_outbox_def ensure_def sql_clients_def)
  have none: "ss_jobs (new_snapshot [] [] []) = []" "ss_donations (new_snapshot [] [] []) = []" "ss_clients (new_snapshot [] [] []) = []"
    by (simp_all add: new_snapshot_def)
  have "checked_source M args items_of opened dyn = Inr s"
    using assms(2,3,5) valid empty none
    by (simp add: checked_source_def read_store_def and_then_def validate_snapshot_def ensure_subset_of_def all_in_source_def
      snapshot_is_empty_def ensure_def)
  moreover have "sql_snapshot M (sql_tables_of M s opened) = Inr s"
    by (rule sql_import_reads_back [OF ok valid arranged new])
  ultimately have "migrate_store M args fresh items_of items_after sql dyn = (Inr (), sql_tables_of M s opened, dyn)"
    using assms(3,4) valid by (simp add: migrate_store_def init import_store_def sql_import_new [OF ok valid new] read_store_def
      and_then_def ensure_def)
  with \<open>sql_snapshot M (sql_tables_of M s opened) = Inr s\<close> show ?thesis by blast
qed

text \<open>
  C14: The legacy numeric tables have one meaning: the snapshot that a migration reads from them in memory
  is the snapshot of the store after the server has opened it and converted the tables in place, whichever
  fresh identifiers the conversion draws.
\<close>

theorem legacy_readings_agree:
  assumes "dyn_libs_ok (ml_dyn M)" "legacy_store db" "sql_snapshot M db = Inr s" "validate_snapshot M s = Inr ()"
  shows "\<exists>db'. sql_initialize M fresh db = (Inr (), db') \<and> sql_snapshot M db' = Inr s"
  using legacy_conversion [OF assms] by blast

text \<open>
  The item that \<open>mark_notification_delivered\<close> leaves for a job that does not exist makes every migration of
  its table fail.
\<close>

lemma phantom_blocks_migration:
  "dyn_snapshot L ([''pk'' \<mapsto> AttrS (job_key L i), ''notification_delivered_at'' \<mapsto> AttrS t] # items)
     = Inl (UnsupportedItem (job_key L i))"
  by (simp add: dyn_snapshot_def take_item_def reading_def required_string_def optional_string_def ok_or_def and_then_def
    job_key_def)

section \<open>Instances\<close>

definition sample_migrate_libs :: migrate_libs where
  "sample_migrate_libs = \<lparr>ml_dyn = sample_dyn_libs, ml_json = \<lambda>v. v \<noteq> []\<rparr>"

definition sample_stored_job :: StoredJob where
  "sample_stored_job =
     \<lparr>st_id = 1, st_astrometry_id = 7, st_legacy_id = Some 7, st_owner = ''a'', st_queue_weight = Fin 1,
      st_object_key = ''1.fits'', st_original_filename = ''m31.fits'', st_content_type = None, st_options_json = ''{}'',
      st_status = ''solving'', st_created_at = unary_time 2, st_started_at = Some (unary_time 3), st_completed_at = None,
      st_solution_json = None, st_error = None, st_lease_token = Some ''t'', st_lease_expires_at = Some (unary_time 4),
      st_attempts = 1, st_notification_delivered_at = None\<rparr>"

definition sample_snapshot :: StoreSnapshot where
  "sample_snapshot = new_snapshot [sample_stored_job]
     [\<lparr>sd_job_id = 1, sd_object_key = ''v'', sd_comment = None, sd_solve_is_invalid = True, sd_license_version = ''v2'', sd_donated_at = unary_time 5\<rparr>]
     [\<lparr>sc_owner = ''a'', sc_last_served_at = unary_time 3\<rparr>]"

lemma sample_time: "dl_time_parse sample_dyn_libs (unary_time t) = Some t"
  by (simp add: sample_dyn_libs_def)

lemma sample_snapshot_valid: "validate_snapshot sample_migrate_libs sample_snapshot = Inr ()"
  by (simp add: validate_snapshot_def sample_snapshot_def new_snapshot_def sample_stored_job_def validate_identifiers_def
    validate_fields_def and_then_def ensure_def time_ok_def sample_migrate_libs_def sample_time
    legacy_ids_of_def status_parse_def)

definition empty_sql :: SqlStore where
  "empty_sql = \<lparr>sq_columns = \<lambda>_. [], sq_jobs = [], sq_outbox = [], sq_donations = [], sq_clients = [],
     sq_legacy_jobs = [], sq_legacy_outbox = [], sq_legacy_donations = []\<rparr>"

definition sample_sql :: SqlStore where
  "sample_sql = snd (sql_import sample_migrate_libs sample_snapshot (snd (sql_initialize sample_migrate_libs (\<lambda>_. 0) empty_sql)))"

lemma empty_sql_no_tables: "no_tables empty_sql"
  by (simp add: no_tables_def empty_sql_def list_all_iff)

lemma sample_libs_facts: "dyn_libs_ok (ml_dyn sample_migrate_libs)" "ml_dyn sample_migrate_libs = sample_dyn_libs"
  by (simp_all add: sample_migrate_libs_def sample_dyn_libs_ok)

lemma sample_arranged: "arranged sample_snapshot"
  by (simp add: sample_snapshot_def)

lemma sample_sql_read: "sql_snapshot sample_migrate_libs sample_sql = Inr sample_snapshot"
  using initialize_no_tables(1) [OF empty_sql_no_tables, of sample_migrate_libs "\<lambda>_. 0"]
    initialize_no_tables(2) [OF empty_sql_no_tables] sql_import_new [OF sample_libs_facts(1) sample_snapshot_valid]
    sql_import_reads_back [OF sample_libs_facts(1) sample_snapshot_valid sample_arranged]
  by (simp add: sample_sql_def)

lemma scans_table:
  assumes "dyn_libs_ok L" "validate_snapshot M s = Inr u"
  shows "scans (map snd (entry_puts L (snapshot_entries s))) (table_of L s)"
proof -
  have "entry_item L e ''pk'' = Some (AttrS (entry_key L e))" for e
    by (cases e) (simp_all add: stored_job_item_required index_item_def client_puts_def)
  then have "inj_on (entry_item L) (set (snapshot_entries s))"
    using entry_key_inj [OF assms] by (metis (no_types, lifting) inj_on_def option.inject AttributeValue.inject(1))
  then have "distinct (map snd (entry_puts L (snapshot_entries s)))"
    using distinct_snapshot_entries [OF assms(2)] by (simp add: entry_puts_def comp_def distinct_map)
  moreover have "ran (table_of L s) = set (map snd (entry_puts L (snapshot_entries s)))"
    using ran_distinct [OF distinct_entry_keys [OF assms]] by (simp add: table_of_def)
  ultimately show ?thesis by (simp add: scans_def)
qed

definition sample_args :: "StoreBackend \<Rightarrow> StoreBackend \<Rightarrow> bool \<Rightarrow> MigrationArgs" where
  "sample_args source target resume = \<lparr>ma_from = source, ma_to = target, ma_sqlx_url = ''sqlite:'', ma_dynamodb_table = ''jobs'',
     ma_dry_run = False, ma_resume = resume\<rparr>"

lemma sample_weights: "weights_exact sample_dyn_libs sample_snapshot"
  by (simp add: weights_exact_def sample_snapshot_def new_snapshot_def sample_stored_job_def)

text \<open>The table when the migration stopped after the transaction of the job, before the record of the client.\<close>

definition sample_half :: DynDb where
  "sample_half = snd (dyn_put_each True (take 1 (import_batches sample_dyn_libs sample_snapshot)) Map.empty)"

definition sample_copied :: DynDb where
  "sample_copied = snd (dyn_import sample_dyn_libs sample_snapshot False Map.empty)"

definition sample_scan :: "nat \<Rightarrow> DynDb \<Rightarrow> Item list" where
  "sample_scan n db = map snd (entry_puts sample_dyn_libs (snapshot_entries (partial_copy n sample_snapshot)))"

lemma sample_scans: "scans (sample_scan 1 sample_half) sample_half" "scans (sample_scan 2 sample_copied) sample_copied"
proof -
  note facts = sample_dyn_libs_ok partial_copy_valid [OF sample_snapshot_valid]
  show "scans (sample_scan 1 sample_half) sample_half"
    using scans_table [OF facts, of 1] partial_table [OF sample_dyn_libs_ok sample_snapshot_valid, of 1]
    by (simp add: sample_half_def sample_scan_def)
  have "partial_copy 2 sample_snapshot = sample_snapshot"
    by (simp add: partial_copy_def sample_snapshot_def new_snapshot_def sample_stored_job_def)
  then show "scans (sample_scan 2 sample_copied) sample_copied"
    using scans_table [OF sample_dyn_libs_ok sample_snapshot_valid] dyn_import_eq [OF sample_dyn_libs_ok sample_snapshot_valid, of False Map.empty]
    by (simp add: sample_copied_def sample_scan_def)
qed

lemma sample_half_keys: "sample_half (job_key sample_dyn_libs 1) \<noteq> None" "sample_half (client_key ''a'') = None"
  by (simp_all add: sample_half_def import_batches_def sample_snapshot_def new_snapshot_def sample_stored_job_def
    stored_job_puts_def transact_puts_def Let_def)

theorem interrupted_migration_completes_witness:
  "sample_half (job_key sample_dyn_libs 1) \<noteq> None \<and> sample_half (client_key ''a'') = None
   \<and> migrate_store sample_migrate_libs (sample_args BackendSqlx BackendDynamoDb True) (\<lambda>_. 0) (sample_scan 1) (sample_scan 2)
       sample_sql sample_half = (Inr (), sample_sql, sample_copied)"
proof (intro conjI sample_half_keys)
  show "migrate_store sample_migrate_libs (sample_args BackendSqlx BackendDynamoDb True) (\<lambda>_. 0) (sample_scan 1) (sample_scan 2)
       sample_sql sample_half = (Inr (), sample_sql, sample_copied)"
  proof (rule interrupted_migration_completes [where n = 1 and s = sample_snapshot])
    show "sample_half = snd (dyn_put_each True (take 1 (import_batches (ml_dyn sample_migrate_libs) sample_snapshot)) Map.empty)"
      "sample_copied = snd (dyn_import (ml_dyn sample_migrate_libs) sample_snapshot False Map.empty)"
      by (simp_all only: sample_half_def sample_copied_def sample_libs_facts(2))
  qed (use sample_libs_facts sample_weights sample_sql_read sample_snapshot_valid sample_scans in \<open>simp_all add: sample_args_def\<close>)
qed

theorem migration_to_sql_is_exact_witness:
  "\<exists>sql'. migrate_store sample_migrate_libs (sample_args BackendDynamoDb BackendSqlx False) (\<lambda>_. 0) (sample_scan 2) (sample_scan 2)
      empty_sql sample_copied = (Inr (), sql', sample_copied) \<and> sql_snapshot sample_migrate_libs sql' = Inr sample_snapshot"
proof -
  have "sample_copied = table_of sample_dyn_libs sample_snapshot"
    using dyn_import_eq [OF sample_dyn_libs_ok sample_snapshot_valid, of False Map.empty] by (simp add: sample_copied_def)
  with sample_scans(2) have "dyn_snapshot sample_dyn_libs (sample_scan 2 sample_copied) = Inr sample_snapshot"
    by (intro read_table [OF sample_dyn_libs_ok sample_snapshot_valid sample_arranged sample_weights]) simp
  then show ?thesis
    by (intro migration_to_sql_is_exact sample_snapshot_valid empty_sql_no_tables)
      (simp_all add: sample_libs_facts sample_dyn_libs_ok sample_args_def)
qed

text \<open>A legacy store with one job, its contribution and its record in the outbox.\<close>

definition sample_legacy :: SqlStore where
  "sample_legacy = \<lparr>sq_columns = \<lambda>t. case map_of legacy_tables t of Some c \<Rightarrow> c | None \<Rightarrow> [], sq_jobs = [], sq_outbox = [], sq_donations = [],
     sq_clients = [(''a'', unary_time 3)],
     sq_legacy_jobs = [\<lparr>q_id = 7, q_owner = ''a'', q_queue_weight = Fin 1, q_object_key = ''1.fits'', q_original_filename = ''m31.fits'',
       q_content_type = None, q_options_json = ''{}'', q_status = ''solving'', q_created_at = unary_time 2,
       q_started_at = Some (unary_time 3), q_completed_at = None, q_solution_json = None, q_error = None,
       q_lease_token = Some ''t'', q_lease_expires_at = Some (unary_time 4), q_attempts = 1\<rparr>],
     sq_legacy_outbox = [(7, None)],
     sq_legacy_donations = [\<lparr>qd_job_id = 7, qd_object_key = ''v'', qd_comment = None, qd_solve_is_invalid = 1,
       qd_license_version = ''v2'', qd_donated_at = unary_time 5\<rparr>]\<rparr>"

lemma sample_object_id: "legacy_object_id sample_dyn_libs ''1.fits'' = Some 1"
  by (simp add: legacy_object_id_def rsplit_once_def sample_dyn_libs_def sample_libs_def Let_def is_digit_def decimal_value_def)

lemma sample_legacy_read: "sql_snapshot sample_migrate_libs sample_legacy = Inr sample_snapshot"
proof -
  have "ensure_sql_schema_supported sample_legacy legacy_tables = Inr ()" "table_exists sample_legacy ''jobs''"
    "\<not> table_exists sample_legacy ''jobs_v2''"
    by (simp_all add: sample_legacy_def legacy_tables_def table_exists_def)
  moreover have "snapshot_legacy_sql sample_migrate_libs sample_legacy = Inr sample_snapshot"
    by (simp add: snapshot_legacy_sql_def sample_legacy_def stored_job_from_legacy_row_def from_i64_def ok_or_def sample_libs_facts
      sample_object_id ensure_no_orphan_outbox_def ensure_def legacy_to_uuid_def legacy_ids_of_def stored_columns_def
      stored_donation_columns_def sql_clients_def sample_snapshot_def sample_stored_job_def delivered_unless_queued_def and_then_def)
  ultimately show ?thesis by (simp add: sql_snapshot_def and_then_def)
qed

theorem legacy_readings_agree_witness:
  "\<exists>db'. sql_initialize sample_migrate_libs (\<lambda>_. 0) sample_legacy = (Inr (), db')
     \<and> sql_snapshot sample_migrate_libs db' = Inr sample_snapshot"
proof (rule legacy_readings_agree [OF sample_libs_facts(1) _ sample_legacy_read sample_snapshot_valid])
  show "legacy_store sample_legacy" by (simp add: legacy_store_def sample_legacy_def legacy_tables_def table_exists_def)
qed

end
