(* ===== verification/Spec2Isabelle.thy ===== *)
theory Spec2Isabelle
  imports Prelude Text Identity Identity_Repository Identity_Steps Identity_Invariant
    Auth_Tokens Auth Auth_Passkeys Auth_Properties
    Identity_Properties Models Job_Repository Job_Lifecycle Job_Queue Queue_Properties Rate_Limit
    Token_Bucket Email_Limits Storage Local_Storage Uploads Upload_Assembly Transport
    Server_Config Image_Headers Api_Base Submission Tus Workers Astrometry
    Service_Names Client_Properties Service Service_Properties Worker_Properties
    Dynamo_Repository Dynamo_Queue Dynamo_Properties Content_Region
    Store_Migration Migration_Dynamo Migration_Sql Migration_Properties
begin

text \<open>
  A verification development for the Seiza plate-solving server.

  The program.  \<open>seiza-server\<close> accepts photographs of the night sky, stores them, queues one solving
  job per upload, and has workers that lease jobs, solve them and report the outcome.  An axum web
  server (\<open>src/src/api.rs\<close>, \<open>api/tus.rs\<close>, \<open>api/auth.rs\<close>) calls a job repository
  (\<open>repository.rs\<close>), an object store (\<open>storage.rs\<close>), resumable uploads (\<open>uploads.rs\<close>), an
  authentication service (\<open>auth.rs\<close>) over an identity repository (\<open>sqlx_identity.rs\<close>), rate
  limiters (\<open>rate_limit.rs\<close>) and a notification transport (\<open>transport.rs\<close>).

  The theories and the code.
    \<^item> \<open>Prelude\<close>: machine types, the special values of \<open>f64\<close>, results as \<open>error + value\<close> with
      \<open>and_then\<close> and \<open>ok_or\<close> for the question mark operator, tables as lists of rows with the
      effects of SELECT, INSERT, UPDATE and DELETE.  \<open>Text\<close>: the string operations of the standard
      library that the code calls.
    \<^item> \<open>Models\<close> (\<open>models.rs\<close>): job states, solve options and their validation, the WCS and SIP
      documents, the solution and the job records.
    \<^item> \<open>Job_Repository\<close> (\<open>repository.rs\<close>): the tables \<open>jobs_v2\<close>, \<open>notification_outbox_v2\<close> and
      \<open>validation_donations_v2\<close>, one definition per operation of \<open>JobRepository\<close>, in the order of
      the file.  \<open>Job_Lifecycle\<close> proves its invariant \<open>queue_inv\<close> for every call, \<open>Job_Queue\<close> the runs
      of calls, the table \<open>next_phases\<close> of what each call may do to one job, with its proof, and the
      locale \<open>lease_queue\<close> with its interpretation, \<open>Queue_Properties\<close> the properties.
    \<^item> \<open>Rate_Limit\<close> (\<open>rate_limit.rs\<close>): the token bucket and the rolling window of authentication
      email.  \<open>Token_Bucket\<close> proves the former a refinement of an ideal bucket (locale
      \<open>admission\<close>), \<open>Email_Limits\<close> the latter a refinement of the log of accepted sends, and bounds what that
      log has spent of the budgets of an address and of a client.
    \<^item> \<open>Storage\<close> (\<open>storage.rs\<close>): the trait \<open>ObjectStore\<close> as a record of operations, its default
      methods, and the local store over a file system of files and directories.  \<open>Local_Storage\<close>
      states the contract as the locale \<open>object_store\<close>, interprets it with the local store, and
      specifies the clean-up sweep.
    \<^item> \<open>Uploads\<close> (\<open>uploads.rs\<close>): resumable uploads over any object store; \<open>Upload_Assembly\<close> proves,
      in extensions of \<open>object_store\<close>, that what is read back is what was sent.
    \<^item> \<open>Transport\<close> (\<open>transport.rs\<close> and the dispatcher of \<open>api.rs\<close>): routing of notifications, and one
      round of the dispatcher that empties the outbox.
    \<^item> \<open>Identity\<close> (\<open>identity.rs\<close>), \<open>Identity_Repository\<close> (\<open>sqlx_identity.rs\<close>): the tables of accounts,
      challenges, sessions, passkeys and keys with the constraints of the migration, and every
      operation of \<open>IdentityRepository\<close>.  \<open>Identity_Steps\<close> describes what a call can change,
      \<open>Identity_Invariant\<close> proves the consistency of the database, \<open>Identity_Properties\<close> its contract.
    \<^item> \<open>Auth_Tokens\<close>, \<open>Auth\<close>, \<open>Auth_Passkeys\<close> (\<open>auth.rs\<close>, \<open>email.rs\<close>): tokens, codes and digests, every
      method of \<open>AuthService\<close>, and the passkey ceremonies; \<open>Auth_Properties\<close> proves what the service
      promises on top of the repository.
    \<^item> \<open>Server_Config\<close> (\<open>config.rs\<close>): every environment variable, its defaults and the checks.
    \<^item> \<open>Image_Headers\<close> (\<open>solver.rs\<close>): hints, times and sites that FITS and XISF headers and photo
      metadata add to the options of a solve.
    \<^item> \<open>Api_Base\<close> (\<open>api.rs\<close>, \<open>api/auth.rs\<close>): errors, headers, the identity of a client, object names.
      \<open>Submission\<close> (\<open>api.rs\<close>): the state of the server and the handlers that accept, solve again and
      contribute images.  \<open>Tus\<close> (\<open>api/tus.rs\<close>): resumable uploads over HTTP.  \<open>Astrometry\<close> (\<open>api.rs\<close>):
      multipart forms and the Astrometry-compatible API.
    \<^item> \<open>Workers\<close> (\<open>api.rs\<close>, \<open>worker.rs\<close>): the endpoints of the workers, the embedded worker, and the
      remote worker over HTTP and SQS.
    \<^item> \<open>Dynamo_Repository\<close> (\<open>dynamodb_repository.rs\<close>, \<open>dynamodb_common.rs\<close>): items, conditional writes
      and every operation of the job repository on DynamoDB.  \<open>Dynamo_Queue\<close> traces
      every attribute of an item to the call that wrote it, shows that every call does to a job what
      \<open>next_phases\<close> lists for SQL, and interprets \<open>lease_queue\<close> a second time;
      \<open>Dynamo_Properties\<close> proves the properties.
    \<^item> \<open>Store_Migration\<close> (\<open>store_migration.rs\<close>, \<open>migrate_legacy_jobs\<close> of \<open>repository.rs\<close>): the command that
      copies a job store between SQL and DynamoDB, and the conversion of numeric legacy jobs; columns and
      attributes keep their stored text here.  \<open>Migration_Dynamo\<close> and \<open>Migration_Sql\<close> say what an import
      writes and what is read back, \<open>Migration_Properties\<close> what a migration promises.
    \<^item> \<open>Content_Region\<close> (\<open>content_region.rs\<close>): the picture inside an image whose edges are flat bands.
    \<^item> \<open>Service_Names\<close>: the names of stored objects.  \<open>Client_Properties\<close>: who a client is.
      \<open>Service\<close> puts the components together: every request of the server as one step on its whole
      state, and the job database as a run of repository calls.  \<open>Service_Properties\<close> and
      \<open>Worker_Properties\<close> prove what holds from a submission through a worker to a result.

  Conventions.
    \<^item> A \<open>DateTime\<close>, an \<open>Instant\<close> and a \<open>Duration\<close> are integers of nanoseconds.  Columns hold RFC 3339
      text in the code; its order is that of the times for the years 0 to 9999, so the columns of the
      model hold times.  A \<open>DateTime\<close> has a range, and the expiry of a lease outside of it is an error.
      Columns of JSON and of UUID text hold the values they encode.
    \<^item> A finite \<open>f64\<close> is the exact rational it stands for, beside the special values; rounding is not
      modelled.  \<open>u32\<close>, \<open>u64\<close> and \<open>i64\<close> are words where the code can wrap or saturate.
    \<^item> A string is its list of UTF-8 bytes where bytes matter (keys, tokens, headers).
    \<^item> Each repository call is one atomic transaction; what transactions could see of each other under
      a weaker isolation is not modelled.  Where SQL leaves the order of rows open, the
      model returns them in the order of insertion.
    \<^item> The clock, fresh identifiers and random bytes are arguments; a property that needs them fresh
      says so.  Disk and network failures are not modelled, except for an object store in the locale
      \<open>object_store\<close>, whose operations can fail.
    \<^item> Third-party code is a parameter: UUIDs of version 5, JSON, the SIP evaluation of the solver
      crate, the SQS client, the hashes and text codecs (record \<open>crypto\<close>) and WebAuthn (record
      \<open>Webauthn\<close>).  What a proof needs of it is a named hypothesis.
    \<^item> Loops are structural recursion.  The directory sweep of the local store takes the number of
      directories as fuel, proved to be enough.

  What the lemmas show.  The queue: its invariant, the life cycle of a job, exclusive leases, final
  outcomes, the scheduling policy, recovery of crashed workers, idempotent submission, and that no
  notification is lost.  Identity and authentication: a consistent database, challenges that work
  once and admit a bounded number of guesses, sign-ins that reach active accounts only, sessions and
  keys that stay dead once revoked, capped sessions, and round trips of tokens.  Rate limiters: the
  budgets they promise, and refinements of their specifications.  Storage and uploads: refinement of
  a map from keys to contents, atomic composition, an exact sweep, and uploads that read back.  The
  whole server: authenticated clients, submitted images that reach a worker unchanged,
  finalized uploads whose job keeps pointing to the assembled bytes, outcomes that
  only the holder of a lease sets, uploads that other clients cannot see, contributions that no sweep
  removes, and messages of SQS that are deleted only when their job is settled.  DynamoDB: items
  that are read back as calls wrote them, as long as each value is one that its own text gives back,
  and the same life cycle and final outcomes under eventually consistent reads.
  Migrations: exact copies in both directions, whatever the order of a scan, copies that are completed
  after a crash, and one meaning of the legacy tables.  Images: the region found is the region left by
  the flat bands.

  Not modelled, and why.
    \<^item> Routing, the extractors of axum, rendered artifacts, catalogue queries and account pages
      (\<open>api.rs\<close>, \<open>api/auth.rs\<close>, \<open>api/catalog.rs\<close>).
    \<^item> The identity repository on DynamoDB (\<open>dynamodb_identity.rs\<close>), which implements the same trait as
      the one on SQL.  In both, a failure of the service itself.  The server as a whole
      (\<open>Service\<close>, \<open>Workers\<close>) is the one on SQL; DynamoDB is modelled up to its repository.
    \<^item> The S3 store and the SQS client: calls of the AWS client.
    \<^item> The rest of \<open>solver.rs\<close>, \<open>overlay.rs\<close>, \<open>annotations.rs\<close>, \<open>satellites.rs\<close>: floating-point geometry and images
      on top of the packages \<open>seiza\<close>, \<open>image\<close> and \<open>sgp4\<close>.
    \<^item> The SQL text of the schemas, indexes and connection pools, the web client, packaging and infrastructure.
\<close>

end
